(* ===== verification/Prelude.thy ===== *)
theory Prelude
  imports Complex_Main "HOL-Library.Multiset"
begin

text \<open>
  What the component theories share: JavaScript values (JSON), the string and option idioms of the
  source (\<open>a || b\<close>, \<open>a ?? b\<close>, \<open>trim\<close>), insertion-ordered maps (a JavaScript \<open>Map\<close> keeps the
  order of first insertion), and the computations of asynchronous code: an action takes the state
  of the world and gives an outcome, the next state and the events it emitted. Rules for running
  an event automaton along an action are stated here once.
\<close>

named_theorems act_simps \<open>unfolding the combinators of actions\<close>

section \<open>JavaScript values\<close>

text \<open>Numbers in the JSON payloads of the model are integers; no component computes with them.\<close>

datatype json =
    JNull
  | JBool bool
  | JNum int
  | JStr string
  | JArr "json list"
  | JObj "(string \<times> json) list"

text \<open>\<open>a ?? b\<close> on an optional value, and \<open>a || b\<close> on an optional string (the empty string is falsy).\<close>

definition nullish :: "'a option \<Rightarrow> 'a \<Rightarrow> 'a" where
  "nullish a b = (case a of None \<Rightarrow> b | Some x \<Rightarrow> x)"

definition nullish_opt :: "'a option \<Rightarrow> 'a option \<Rightarrow> 'a option" where
  "nullish_opt a b = (case a of None \<Rightarrow> b | Some x \<Rightarrow> Some x)"

definition or_str :: "string option \<Rightarrow> string \<Rightarrow> string" where
  "or_str a b = (case a of None \<Rightarrow> b | Some x \<Rightarrow> if x = [] then b else x)"

definition truthy_str :: "string option \<Rightarrow> bool" where
  "truthy_str a = (case a of None \<Rightarrow> False | Some x \<Rightarrow> x \<noteq> [])"

lemma nullish_simps [simp]: "nullish None b = b" "nullish (Some x) b = x"
  by (simp_all add: nullish_def)

lemma nullish_opt_simps [simp]: "nullish_opt None b = b" "nullish_opt (Some x) b = Some x"
  by (simp_all add: nullish_opt_def)

text \<open>
  White space of \<open>String.prototype.trim\<close> among the code units below 256: tab, line feed, vertical
  tab, form feed, carriage return, space, no-break space.
\<close>

definition is_space :: "char \<Rightarrow> bool" where
  "is_space c = (of_char c \<in> {9, 10, 11, 12, 13, 32, 160 :: nat})"

definition trim_start :: "string \<Rightarrow> string" where
  "trim_start s = dropWhile is_space s"

definition trim :: "string \<Rightarrow> string" where
  "trim s = rev (trim_start (rev (trim_start s)))"

lemma trim_start_idem [simp]: "trim_start (trim_start s) = trim_start s"
  by (simp add: trim_start_def dropWhile_idem)

lemma trim_start_rev_trim_start:
  "trim_start (rev (trim_start (rev (trim_start s)))) = rev (trim_start (rev (trim_start s)))"
proof -
  obtain u where u: "trim_start s = rev (trim_start (rev (trim_start s))) @ u"
  proof -
    have "rev (trim_start s) = takeWhile is_space (rev (trim_start s)) @ trim_start (rev (trim_start s))"
      by (simp add: trim_start_def)
    then have "trim_start s = rev (trim_start (rev (trim_start s))) @ rev (takeWhile is_space (rev (trim_start s)))"
      by (metis rev_append rev_rev_ident)
    then show thesis by (rule that)
  qed
  show ?thesis
  proof (cases "rev (trim_start (rev (trim_start s)))")
    case Nil
    then show ?thesis by (simp only: trim_start_def dropWhile.simps)
  next
    case (Cons c cs)
    with u have h: "trim_start s = c # (cs @ u)" by simp
    have "\<not> is_space c"
      using h hd_dropWhile[of is_space s] by (simp add: trim_start_def)
    with Cons show ?thesis by (simp add: trim_start_def)
  qed
qed

lemma trim_idem [simp]: "trim (trim s) = trim s"
  by (simp add: trim_def trim_start_rev_trim_start)

lemma set_trim_subset: "set (trim s) \<subseteq> set s"
proof
  fix x assume "x \<in> set (trim s)"
  then have "x \<in> set (dropWhile is_space (rev (dropWhile is_space s)))"
    by (simp add: trim_def trim_start_def)
  then have "x \<in> set (dropWhile is_space s)" by (auto dest!: set_dropWhileD)
  then show "x \<in> set s" by (auto dest!: set_dropWhileD)
qed

section \<open>Insertion-ordered maps\<close>

text \<open>
  A JavaScript \<open>Map\<close> iterates in the order in which its keys were first set; setting an existing
  key keeps its place. It is a list of pairs with distinct keys.
\<close>

type_synonym ('k, 'v) omap = "('k \<times> 'v) list"

fun om_set :: "('k, 'v) omap \<Rightarrow> 'k \<Rightarrow> 'v \<Rightarrow> ('k, 'v) omap" where
  "om_set [] k v = [(k, v)]"
| "om_set ((k', v') # m) k v = (if k' = k then (k, v) # m else (k', v') # om_set m k v)"

definition om_get :: "('k, 'v) omap \<Rightarrow> 'k \<Rightarrow> 'v option" where
  "om_get m k = map_of m k"

definition om_has :: "('k, 'v) omap \<Rightarrow> 'k \<Rightarrow> bool" where
  "om_has m k = (om_get m k \<noteq> None)"

definition om_delete :: "('k, 'v) omap \<Rightarrow> 'k \<Rightarrow> ('k, 'v) omap" where
  "om_delete m k = filter (\<lambda>p. fst p \<noteq> k) m"

definition om_keys :: "('k, 'v) omap \<Rightarrow> 'k list" where
  "om_keys m = map fst m"

definition om_values :: "('k, 'v) omap \<Rightarrow> 'v list" where
  "om_values m = map snd m"

definition om_wf :: "('k, 'v) omap \<Rightarrow> bool" where
  "om_wf m = distinct (om_keys m)"

lemma om_get_empty [simp]: "om_get [] k = None"
  by (simp add: om_get_def)

lemma om_get_set [simp]: "om_get (om_set m k v) k' = (if k' = k then Some v else om_get m k')"
  by (induction m k v rule: om_set.induct) (auto simp: om_get_def)

lemma om_get_delete [simp]: "om_get (om_delete m k) k' = (if k' = k then None else om_get m k')"
  by (induction m) (auto simp: om_get_def om_delete_def)

lemma om_has_iff: "om_has m k \<longleftrightarrow> k \<in> set (om_keys m)"
  by (simp add: om_has_def om_get_def om_keys_def map_of_eq_None_iff)

lemma om_keys_set:
  "om_keys (om_set m k v) = (if om_has m k then om_keys m else om_keys m @ [k])"
  by (induction m k v rule: om_set.induct) (auto simp: om_keys_def om_has_def om_get_def)

lemma om_keys_delete: "om_keys (om_delete m k) = filter (\<lambda>x. x \<noteq> k) (om_keys m)"
  by (simp add: om_keys_def om_delete_def filter_map comp_def)

lemma om_wf_empty [simp]: "om_wf []"
  by (simp add: om_wf_def om_keys_def)

lemma om_wf_set [intro]: "om_wf m \<Longrightarrow> om_wf (om_set m k v)"
  by (auto simp: om_wf_def om_keys_set om_has_iff)

lemma om_wf_delete [intro]: "om_wf m \<Longrightarrow> om_wf (om_delete m k)"
  by (simp add: om_wf_def om_keys_delete)

lemma om_get_Some_iff: "om_wf m \<Longrightarrow> om_get m k = Some v \<longleftrightarrow> (k, v) \<in> set m"
  by (simp add: om_wf_def om_keys_def om_get_def map_of_eq_Some_iff)

lemma length_om_set:
  "length (om_set m k v) = (if om_has m k then length m else Suc (length m))"
  by (metis length_append_singleton length_map om_keys_def om_keys_set)

lemma om_get_in_keys: "om_get m k = Some v \<Longrightarrow> k \<in> set (om_keys m)"
  by (metis om_has_def om_has_iff option.discI)

section \<open>Actions of asynchronous code\<close>

text \<open>
  An awaited call returns a value, raises (a rejected promise or a thrown error, with its message)
  or never settles.
\<close>

datatype 'a outcome = Returned 'a | Raised string | Hung

type_synonym ('w, 'a) call = "'w \<Rightarrow> 'a outcome \<times> 'w"
type_synonym ('w, 'e, 'a) act = "'w \<Rightarrow> 'a outcome \<times> 'w \<times> 'e list"

definition ret :: "'a \<Rightarrow> ('w, 'e, 'a) act" where
  "ret x = (\<lambda>w. (Returned x, w, []))"

definition raise :: "string \<Rightarrow> ('w, 'e, 'a) act" where
  "raise msg = (\<lambda>w. (Raised msg, w, []))"

definition hang :: "('w, 'e, 'a) act" where
  "hang = (\<lambda>w. (Hung, w, []))"

definition seq :: "('w, 'e, 'a) act \<Rightarrow> ('a \<Rightarrow> ('w, 'e, 'b) act) \<Rightarrow> ('w, 'e, 'b) act" where
  "seq m f = (\<lambda>w. case m w of
      (Returned x, w', es) \<Rightarrow> (case f x w' of (r, w'', es') \<Rightarrow> (r, w'', es @ es'))
    | (Raised msg, w', es) \<Rightarrow> (Raised msg, w', es)
    | (Hung, w', es) \<Rightarrow> (Hung, w', es))"

text \<open>A call of a function outside the component: it changes the world and emits nothing.\<close>

definition await :: "('w, 'a) call \<Rightarrow> ('w, 'e, 'a) act" where
  "await c = (\<lambda>w. case c w of (r, w') \<Rightarrow> (r, w', []))"

text \<open>Read the world without changing it.\<close>

definition gets :: "('w \<Rightarrow> 'a) \<Rightarrow> ('w, 'e, 'a) act" where
  "gets f = (\<lambda>w. (Returned (f w), w, []))"

text \<open>Emit an event to a sink; the event is recorded even when the sink raises.\<close>

definition emit_to :: "('e \<Rightarrow> ('w, unit) call) \<Rightarrow> 'e \<Rightarrow> ('w, 'e, unit) act" where
  "emit_to sink e = (\<lambda>w. case sink e w of (r, w') \<Rightarrow> (r, w', [e]))"

text \<open>\<open>try m catch h\<close>: a raised error is handled, hanging is not.\<close>

definition try_catch :: "('w, 'e, 'a) act \<Rightarrow> (string \<Rightarrow> ('w, 'e, 'a) act) \<Rightarrow> ('w, 'e, 'a) act" where
  "try_catch m h = (\<lambda>w. case m w of
      (Raised msg, w', es) \<Rightarrow> (case h msg w' of (r, w'', es') \<Rightarrow> (r, w'', es @ es'))
    | (r, w', es) \<Rightarrow> (r, w', es))"

fun for_each :: "('x \<Rightarrow> ('w, 'e, unit) act) \<Rightarrow> 'x list \<Rightarrow> ('w, 'e, unit) act" where
  "for_each f [] = ret ()"
| "for_each f (x # xs) = seq (f x) (\<lambda>_. for_each f xs)"

lemmas act_defs [act_simps] =
  ret_def raise_def hang_def seq_def await_def gets_def emit_to_def try_catch_def

section \<open>Event automata along actions\<close>

text \<open>
  A protocol for the emitted events is a partial transition function. \<open>run_events\<close> runs it along
  a list of events. \<open>follows d q m R\<close> says that from automaton state \<open>q\<close>, whatever the world, the
  events that \<open>m\<close> emits are accepted, and that when \<open>m\<close> returns \<open>x\<close> the state reached satisfies
  \<open>R x\<close>; it is a compositional rule for safety, also for runs that raise or hang.
\<close>

fun run_events :: "('q \<Rightarrow> 'e \<Rightarrow> 'q option) \<Rightarrow> 'q \<Rightarrow> 'e list \<Rightarrow> 'q option" where
  "run_events d q [] = Some q"
| "run_events d q (e # es) = (case d q e of None \<Rightarrow> None | Some q' \<Rightarrow> run_events d q' es)"

lemma run_events_append:
  "run_events d q (xs @ ys) =
     (case run_events d q xs of None \<Rightarrow> None | Some q' \<Rightarrow> run_events d q' ys)"
  by (induction xs arbitrary: q) (auto split: option.splits)

definition follows ::
  "('q \<Rightarrow> 'e \<Rightarrow> 'q option) \<Rightarrow> 'q \<Rightarrow> ('w, 'e, 'a) act \<Rightarrow> ('a \<Rightarrow> 'q \<Rightarrow> bool) \<Rightarrow> bool" where
  "follows d q m R \<longleftrightarrow> (\<forall>w r w' es. m w = (r, w', es) \<longrightarrow>
     (\<exists>q'. run_events d q es = Some q' \<and> (\<forall>x. r = Returned x \<longrightarrow> R x q')))"

lemma followsI:
  "(\<And>w r w' es. m w = (r, w', es) \<Longrightarrow>
     \<exists>q'. run_events d q es = Some q' \<and> (\<forall>x. r = Returned x \<longrightarrow> R x q')) \<Longrightarrow> follows d q m R"
  by (auto simp: follows_def)

lemma followsD:
  "follows d q m R \<Longrightarrow> m w = (r, w', es) \<Longrightarrow>
     \<exists>q'. run_events d q es = Some q' \<and> (\<forall>x. r = Returned x \<longrightarrow> R x q')"
  by (auto simp: follows_def)

lemma follows_ret: "R x q \<Longrightarrow> follows d q (ret x) R"
  by (rule followsI) (auto simp: ret_def)

lemma follows_raise: "follows d q (raise msg) R"
  by (rule followsI) (auto simp: raise_def)

lemma follows_hang: "follows d q hang R"
  by (rule followsI) (auto simp: hang_def)

lemma follows_await: "(\<And>x. R x q) \<Longrightarrow> follows d q (await c) R"
  by (rule followsI) (auto simp: await_def split: prod.splits)

lemma follows_gets: "(\<And>x. R x q) \<Longrightarrow> follows d q (gets f) R"
  by (rule followsI) (auto simp: gets_def)

lemma follows_emit: "d q e = Some q' \<Longrightarrow> R () q' \<Longrightarrow> follows d q (emit_to sink e) R"
  by (rule followsI) (auto simp: emit_to_def split: prod.splits)

lemma follows_mono: "follows d q m R \<Longrightarrow> (\<And>x q'. R x q' \<Longrightarrow> S x q') \<Longrightarrow> follows d q m S"
  by (fastforce simp: follows_def)

lemma follows_seq:
  assumes m: "follows d q m R" and f: "\<And>x q'. R x q' \<Longrightarrow> follows d q' (f x) S"
  shows "follows d q (seq m f) S"
proof (rule followsI)
  fix w r w' es
  assume run: "seq m f w = (r, w', es)"
  obtain r1 w1 es1 where m1: "m w = (r1, w1, es1)" by (cases "m w") auto
  from followsD[OF m m1] obtain q1 where q1: "run_events d q es1 = Some q1"
    and R1: "\<And>x. r1 = Returned x \<Longrightarrow> R x q1" by blast
  show "\<exists>q'. run_events d q es = Some q' \<and> (\<forall>x. r = Returned x \<longrightarrow> S x q')"
  proof (cases r1)
    case (Returned x)
    obtain r2 w2 es2 where f2: "f x w1 = (r2, w2, es2)" by (cases "f x w1") auto
    from followsD[OF f[OF R1[OF Returned]] f2] obtain q2 where "run_events d q1 es2 = Some q2"
      and "\<And>y. r2 = Returned y \<Longrightarrow> S y q2" by blast
    with run m1 f2 Returned q1 show ?thesis
      by (auto simp: seq_def run_events_append)
  qed (use run m1 q1 in \<open>auto simp: seq_def\<close>)
qed

lemma follows_try:
  assumes m: "follows d q m (\<lambda>x q'. S x q' \<and> q' = q)"
    and quiet: "\<And>w r w' es. m w = (r, w', es) \<Longrightarrow> es = []"
    and h: "\<And>msg. follows d q (h msg) S"
  shows "follows d q (try_catch m h) S"
proof (rule followsI)
  fix w r w' es
  assume run: "try_catch m h w = (r, w', es)"
  obtain r1 w1 es1 where m1: "m w = (r1, w1, es1)" by (cases "m w") auto
  with quiet have [simp]: "es1 = []" by blast
  show "\<exists>q'. run_events d q es = Some q' \<and> (\<forall>x. r = Returned x \<longrightarrow> S x q')"
  proof (cases r1)
    case (Raised msg)
    obtain r2 w2 es2 where h2: "h msg w1 = (r2, w2, es2)" by (cases "h msg w1") auto
    from followsD[OF h h2] run m1 Raised h2 show ?thesis by (auto simp: try_catch_def)
  next
    case (Returned x)
    with followsD[OF m m1] run m1 show ?thesis by (auto simp: try_catch_def)
  next
    case Hung
    with run m1 show ?thesis by (auto simp: try_catch_def)
  qed
qed

lemma follows_for_each:
  assumes "\<And>x ys q. P (x # ys) q \<Longrightarrow> follows d q (f x) (\<lambda>_ q'. P ys q')" "P xs q"
  shows "follows d q (for_each f xs) (\<lambda>_ q'. P [] q')"
  using assms(2)
proof (induction xs arbitrary: q)
  case Nil
  then show ?case by (simp add: follows_ret)
next
  case (Cons x xs)
  then show ?case by (auto intro!: follows_seq[OF assms(1)])
qed

section \<open>Lists\<close>

lemma find_None_iff_ball: "find P xs = None \<longleftrightarrow> (\<forall>x \<in> set xs. \<not> P x)"
  by (induction xs) auto

lemma find_Some_in_set: "find P xs = Some x \<Longrightarrow> x \<in> set xs \<and> P x"
  by (induction xs) (auto split: if_splits)

definition last_opt :: "'a list \<Rightarrow> 'a option" where
  "last_opt xs = (if xs = [] then None else Some (last xs))"

lemma last_opt_snoc [simp]: "last_opt (xs @ [x]) = Some x"
  by (simp add: last_opt_def)

lemma last_opt_Nil [simp]: "last_opt [] = None"
  by (simp add: last_opt_def)

end
