(* ===== verification/Tool_Policy.thy ===== *)
theory Tool_Policy
  imports Prelude "HOL-Library.Sublist"
begin

text \<open>
  \<open>packages/agent/src/policy.ts\<close>: the risk declarations of tools, the policy engine that decides
  each tool call, and the redaction of credentials from JSON values. The regular expressions of
  \<open>SECRET_PATTERNS\<close> are matchers on the rest of the text with the character before it, scanned from
  left to right as \<open>String.prototype.replace\<close> does for a global expression. The lemmas give the
  fail-closed default of the engine and what redaction does to each form of credential.
\<close>

section \<open>Declarations and decisions\<close>

datatype risk_level = LowRisk | MediumRisk | HighRisk | CriticalRisk
datatype resource_access = ReadAccess | WriteAccess | ExecuteAccess | ConnectAccess | ManageAccess
datatype resource_kind = Filesystem | Process | Network | SessionRes | Orchestrator | OtherRes

record tool_resource_scope =
  rs_kind :: resource_kind
  rs_access :: resource_access
  rs_patterns :: "string list option"

record tool_policy_descriptor =
  pd_risk :: risk_level
  pd_resources :: "tool_resource_scope list"
  pd_description :: "string option"

text \<open>
  \<open>Exclude<PolicyDecision, ReviewPolicyDecision>\<close> is \<open>final_decision\<close>; a decision of the evaluator
  may also ask for a review.
\<close>

datatype final_decision =
    Allow "string option"
  | Block "string option"
  | Rewrite json "string option"

datatype policy_decision =
    Final final_decision
  | Review "string option"

record tool_policy_request =
  pr_toolName :: string
  pr_toolCallId :: string
  pr_arguments :: json
  pr_descriptor :: tool_policy_descriptor
  pr_interactive :: bool

type_synonym 'w policy_evaluator = "tool_policy_request \<Rightarrow> ('w, policy_decision) call"
type_synonym 'w policy_reviewer = "tool_policy_request \<Rightarrow> string option \<Rightarrow> ('w, final_decision) call"

section \<open>Redaction of credentials\<close>

definition char_code :: "char \<Rightarrow> nat" where "char_code c = of_char c"

definition is_digit :: "char \<Rightarrow> bool" where "is_digit c = (48 \<le> char_code c \<and> char_code c \<le> 57)"
definition is_upper :: "char \<Rightarrow> bool" where "is_upper c = (65 \<le> char_code c \<and> char_code c \<le> 90)"
definition is_lower :: "char \<Rightarrow> bool" where "is_lower c = (97 \<le> char_code c \<and> char_code c \<le> 122)"

text \<open>A word character of \<open>\b\<close>: a letter, a digit or an underscore.\<close>

definition is_word :: "char \<Rightarrow> bool" where
  "is_word c = (is_digit c \<or> is_upper c \<or> is_lower c \<or> c = CHR ''_'')"

definition word_opt :: "char option \<Rightarrow> bool" where
  "word_opt c = (case c of None \<Rightarrow> False | Some x \<Rightarrow> is_word x)"

definition first_opt :: "string \<Rightarrow> char option" where
  "first_opt s = (case s of [] \<Rightarrow> None | c # _ \<Rightarrow> Some c)"

definition boundary :: "char option \<Rightarrow> char option \<Rightarrow> bool" where
  "boundary a b = (word_opt a \<noteq> word_opt b)"

text \<open>\<open>[A-Za-z0-9_-]\<close> and \<open>[A-Za-z0-9._~+/-]\<close>.\<close>

definition key_char :: "char \<Rightarrow> bool" where
  "key_char c = (is_word c \<or> c = CHR ''-'')"

definition token_char :: "char \<Rightarrow> bool" where
  "token_char c = (is_word c \<or> c \<in> {CHR ''.'', CHR ''~'', CHR ''+'', CHR ''/'', CHR ''-''})"

definition to_upper :: "char \<Rightarrow> char" where
  "to_upper c = (if is_lower c then char_of (char_code c - 32) else c)"

text \<open>The text starts with a word, letters compared without case (the \<open>i\<close> flag).\<close>

definition starts_ci :: "string \<Rightarrow> string \<Rightarrow> bool" where
  "starts_ci p s = (length p \<le> length s \<and> map to_upper (take (length p) s) = map to_upper p)"

text \<open>
  A matcher sees the character before the position and the rest of the text; it answers with the
  first capture group and the number of characters matched.
\<close>

type_synonym matcher = "char option \<Rightarrow> string \<Rightarrow> (string \<times> nat) option"

text \<open>
  The greedy run of \<open>{16,}\<close> shrinks until a word boundary follows it: the greatest length \<open>n\<close>, at
  least 16, with a boundary after it. \<open>last_boundary run next n\<close> tries \<open>n\<close>, \<open>n - 1\<close> and so on.
\<close>

fun last_boundary :: "string \<Rightarrow> nat \<Rightarrow> nat option" where
  "last_boundary s 0 = None"
| "last_boundary s (Suc n) =
     (if Suc n < 16 then None
      else if boundary (Some (s ! n)) (first_opt (drop (Suc n) s)) then Some (Suc n)
      else last_boundary s n)"

text \<open>\<open>/\b(sk-[A-Za-z0-9_-]{16,})\b/g\<close>\<close>

definition match_sk :: matcher where
  "match_sk prev s =
     (if take 3 s = ''sk-'' \<and> boundary prev (first_opt s)
      then (let body = drop 3 s in
            case last_boundary body (length (takeWhile key_char body)) of
              None \<Rightarrow> None
            | Some n \<Rightarrow> Some (take (3 + n) s, 3 + n))
      else None)"

text \<open>\<open>/\b(Bearer\s+)[A-Za-z0-9._~+/-]{12,}/gi\<close>\<close>

definition match_bearer :: matcher where
  "match_bearer prev s =
     (if starts_ci ''Bearer'' s \<and> boundary prev (first_opt s)
      then (let sp = length (takeWhile is_space (drop 6 s));
                n = length (takeWhile token_char (drop (6 + sp) s))
            in if 1 \<le> sp \<and> 12 \<le> n then Some (take (6 + sp) s, 6 + sp + n) else None)
      else None)"

text \<open>\<open>/\b(api[_-]?key\s*[=:]\s*)[^\s,;]+/gi\<close>\<close>

definition value_char :: "char \<Rightarrow> bool" where
  "value_char c = (\<not> is_space c \<and> c \<noteq> CHR '','' \<and> c \<noteq> CHR '';'')"

definition match_api_key :: matcher where
  "match_api_key prev s =
     (if starts_ci ''api'' s \<and> boundary prev (first_opt s)
      then (let sep = (if first_opt (drop 3 s) \<in> {Some (CHR ''_''), Some (CHR ''-'')} then 1 else 0);
                k = 3 + sep
            in if starts_ci ''key'' (drop k s)
               then (let k1 = k + 3 + length (takeWhile is_space (drop (k + 3) s))
                     in if first_opt (drop k1 s) \<in> {Some (CHR ''=''), Some (CHR '':'')}
                        then (let k2 = k1 + 1 + length (takeWhile is_space (drop (k1 + 1) s));
                                  n = length (takeWhile value_char (drop k2 s))
                              in if 1 \<le> n then Some (take k2 s, k2 + n) else None)
                        else None)
               else None)
      else None)"

definition SECRET_PATTERNS :: "matcher list" where
  "SECRET_PATTERNS = [match_sk, match_bearer, match_api_key]"

text \<open>
  The replacement is the first capture group, or nothing, followed by \<open>[REDACTED]\<close>. All three
  expressions match at least one character, so the scan always moves on.
\<close>

function replace_scan :: "matcher \<Rightarrow> char option \<Rightarrow> string \<Rightarrow> string" where
  "replace_scan m prev [] = []"
| "replace_scan m prev (c # cs) =
     (case m prev (c # cs) of
        None \<Rightarrow> c # replace_scan m (Some c) cs
      | Some (captured, n) \<Rightarrow>
          captured @ ''[REDACTED]'' @ replace_scan m (Some ((c # cs) ! (n - 1))) (drop (n - 1) cs))"
  by pat_completeness auto
termination
  by (relation "measure (\<lambda>(m, prev, s). length s)") auto

definition redactString :: "string \<Rightarrow> string" where
  "redactString value = foldl (\<lambda>redacted pattern. replace_scan pattern None redacted) value SECRET_PATTERNS"

text \<open>Only string values are rewritten; keys of objects are kept, and so is the input.\<close>

fun redactSecrets :: "json \<Rightarrow> json" where
  "redactSecrets (JStr s) = JStr (redactString s)"
| "redactSecrets (JArr vs) = JArr (map redactSecrets vs)"
| "redactSecrets (JObj kvs) = JObj (map (\<lambda>(k, v). (k, redactSecrets v)) kvs)"
| "redactSecrets v = v"

section \<open>The policy engine\<close>

definition risk_name :: "risk_level \<Rightarrow> string" where
  "risk_name r = (case r of LowRisk \<Rightarrow> ''low'' | MediumRisk \<Rightarrow> ''medium'' | HighRisk \<Rightarrow> ''high''
                          | CriticalRisk \<Rightarrow> ''critical'')"

definition defaultDecision :: "tool_policy_request \<Rightarrow> policy_decision" where
  "defaultDecision request =
     (if pd_risk (pr_descriptor request) = CriticalRisk
      then Final (Block (Some ''Critical-risk tools are blocked by the default policy''))
      else if pd_risk (pr_descriptor request) = HighRisk
      then Review (Some ''High-risk tool execution requires approval'')
      else Final (Allow (Some (''Default '' @ risk_name (pd_risk (pr_descriptor request)) @ ''-risk policy''))))"

record 'w policy_options =
  po_evaluate :: "'w policy_evaluator option"
  po_review :: "'w policy_reviewer option"
  po_nonInteractiveReview :: "final_decision option"

record 'w policy_engine =
  pe_evaluator :: "'w policy_evaluator"
  pe_reviewer :: "'w policy_reviewer option"
  pe_nonInteractiveReview :: final_decision

definition new_policy_engine :: "'w policy_options \<Rightarrow> 'w policy_engine" where
  "new_policy_engine options =
     \<lparr>pe_evaluator = nullish (po_evaluate options) (\<lambda>request w. (Returned (defaultDecision request), w)),
      pe_reviewer = po_review options,
      pe_nonInteractiveReview = nullish (po_nonInteractiveReview options)
        (Block (Some ''Approval is unavailable in non-interactive mode''))\<rparr>"

definition default_policy_options :: "'w policy_options" where
  "default_policy_options = \<lparr>po_evaluate = None, po_review = None, po_nonInteractiveReview = None\<rparr>"

definition decide ::
  "'w policy_engine \<Rightarrow> tool_policy_request \<Rightarrow> 'w policy_reviewer option \<Rightarrow> ('w, final_decision) call" where
  "decide engine request reviewer = (\<lambda>w.
     case pe_evaluator engine request w of
       (Raised e, w1) \<Rightarrow> (Raised e, w1)
     | (Hung, w1) \<Rightarrow> (Hung, w1)
     | (Returned (Final d), w1) \<Rightarrow> (Returned d, w1)
     | (Returned (Review reason), w1) \<Rightarrow>
         if \<not> pr_interactive request then (Returned (pe_nonInteractiveReview engine), w1)
         else (case nullish_opt reviewer (pe_reviewer engine) of
                 None \<Rightarrow> (Returned (Block (Some ''No approval reviewer is configured'')), w1)
               | Some effectiveReviewer \<Rightarrow> effectiveReviewer request reason w1))"

definition decision_blocks :: "final_decision \<Rightarrow> bool" where
  "decision_blocks d = (case d of Block _ \<Rightarrow> True | _ \<Rightarrow> False)"

text \<open>The default engine fails closed.\<close>

lemma decide_default_critical:
  "pd_risk (pr_descriptor request) = CriticalRisk \<Longrightarrow>
     \<exists>reason. decide (new_policy_engine default_policy_options) request reviewer w = (Returned (Block reason), w)"
  by (simp add: decide_def new_policy_engine_def default_policy_options_def defaultDecision_def)

lemma decide_default_high:
  "pd_risk (pr_descriptor request) = HighRisk \<Longrightarrow>
     decide (new_policy_engine default_policy_options) request reviewer w =
       (if \<not> pr_interactive request
        then (Returned (Block (Some ''Approval is unavailable in non-interactive mode'')), w)
        else (case reviewer of
                None \<Rightarrow> (Returned (Block (Some ''No approval reviewer is configured'')), w)
              | Some rv \<Rightarrow> rv request (Some ''High-risk tool execution requires approval'') w))"
  by (simp add: decide_def new_policy_engine_def default_policy_options_def defaultDecision_def
      split: option.splits)

lemma decide_default_low:
  "pd_risk (pr_descriptor request) \<in> {LowRisk, MediumRisk} \<Longrightarrow>
     \<exists>reason. decide (new_policy_engine default_policy_options) request reviewer w = (Returned (Allow reason), w)"
  by (auto simp: decide_def new_policy_engine_def default_policy_options_def defaultDecision_def)

section \<open>What redaction does\<close>

lemma replace_scan_no_match:
  "(\<And>p s. m p s = None) \<Longrightarrow> replace_scan m prev s = s"
  by (induction m prev s rule: replace_scan.induct) auto

text \<open>Text in which a matcher never fires is kept; \<open>quiet m prev s\<close> says so for every position.\<close>

fun quiet :: "matcher \<Rightarrow> char option \<Rightarrow> string \<Rightarrow> bool" where
  "quiet m prev [] = True"
| "quiet m prev (c # cs) = (m prev (c # cs) = None \<and> quiet m (Some c) cs)"

lemma replace_scan_quiet: "quiet m prev s \<Longrightarrow> replace_scan m prev s = s"
  by (induction s arbitrary: prev) auto

text \<open>
  The capture group of the first expression is the whole match, so its replacement keeps every
  character of the key.
\<close>

lemma match_sk_captures_all:
  "match_sk prev s = Some (captured, n) \<Longrightarrow> captured = take n s \<and> 1 \<le> n"
  by (auto simp: match_sk_def Let_def split: if_splits option.splits)

lemma replace_sk_subseq: "subseq s (replace_scan match_sk prev s)"
proof (induction match_sk prev s rule: replace_scan.induct)
  case (1 prev)
  then show ?case by simp
next
  case (2 prev c cs)
  show ?case
  proof (cases "match_sk prev (c # cs)")
    case None
    with 2 show ?thesis by simp
  next
    case (Some r)
    obtain g n where r: "r = (g, n)" by (cases r)
    with Some have g: "g = take n (c # cs)" "1 \<le> n"
      using match_sk_captures_all by blast+
    then have cs: "c # cs = g @ drop (n - 1) cs"
      by (cases n) auto
    let ?rest = "replace_scan match_sk (Some ((c # cs) ! (n - 1))) (drop (n - 1) cs)"
    have IH: "subseq (drop (n - 1) cs) ?rest"
      using 2(2)[OF Some r[symmetric]] .
    have out: "replace_scan match_sk prev (c # cs) = g @ ''[REDACTED]'' @ ?rest"
      using Some r by simp
    have "subseq (drop (n - 1) cs) (''[REDACTED]'' @ ?rest)"
      using IH by (rule subseq_drop_many)
    then have "subseq (g @ drop (n - 1) cs) (g @ ''[REDACTED]'' @ ?rest)"
      by (rule list_emb_append_mono [OF subseq_order.refl])
    then show ?thesis by (simp only: out flip: cs)
  qed
qed

lemma takeWhile_all: "list_all P xs \<Longrightarrow> takeWhile P xs = xs"
  by (induction xs) auto

lemma match_bearer_no_space: "list_all (\<lambda>c. \<not> is_space c) s \<Longrightarrow> match_bearer prev s = None"
proof -
  assume "list_all (\<lambda>c. \<not> is_space c) s"
  then have "\<forall>c \<in> set (drop 6 s). \<not> is_space c"
    by (auto simp: list_all_iff dest: in_set_dropD)
  then have "takeWhile is_space (drop 6 s) = []" by (cases "drop 6 s") auto
  then show ?thesis by (simp add: match_bearer_def Let_def)
qed

lemma match_api_key_no_sep:
  "list_all (\<lambda>c. c \<noteq> CHR ''='' \<and> c \<noteq> CHR '':'') s \<Longrightarrow> match_api_key prev s = None"
proof -
  assume s: "list_all (\<lambda>c. c \<noteq> CHR ''='' \<and> c \<noteq> CHR '':'') s"
  have "first_opt (drop k s) \<notin> {Some (CHR ''=''), Some (CHR '':'')}" for k
  proof (cases "drop k s")
    case Nil
    then show ?thesis by (simp add: first_opt_def)
  next
    case (Cons c cs)
    then have "c \<in> set s" by (metis in_set_dropD list.set_intros(1))
    with s Cons show ?thesis by (auto simp: first_opt_def list_all_iff)
  qed
  then show ?thesis by (simp add: match_api_key_def Let_def)
qed

lemma list_all_quiet:
  assumes "\<And>p t. list_all P t \<Longrightarrow> m p t = None"
  shows "list_all P s \<Longrightarrow> quiet m prev s"
  by (induction s arbitrary: prev) (auto simp: assms)

lemma is_word_not:
  "is_word c \<Longrightarrow> \<not> is_space c \<and> c \<noteq> CHR ''='' \<and> c \<noteq> CHR '':'' \<and> c \<noteq> CHR ''-'' \<and> key_char c \<and> token_char c"
  by (auto simp: is_word_def is_space_def is_digit_def is_upper_def is_lower_def key_char_def
      token_char_def char_code_def)

lemma words_not:
  assumes "list_all is_word s"
  shows "list_all (\<lambda>c. \<not> is_space c) s" "list_all (\<lambda>c. c \<noteq> CHR ''='' \<and> c \<noteq> CHR '':'') s"
    "list_all (\<lambda>c. c \<noteq> CHR ''-'') s" "list_all key_char s" "list_all token_char s"
  using assms by (induction s) (simp_all add: is_word_not)

text \<open>A key of the first form survives redaction in clear, with a marker after it.\<close>

lemma redactString_keeps_sk:
  assumes body: "list_all is_word body" and len: "16 \<le> length body"
  shows "redactString (''sk-'' @ body) = ''sk-'' @ body @ ''[REDACTED]''"
proof -
  have keys: "takeWhile key_char body = body"
    by (rule takeWhile_all) (rule words_not[OF body])
  obtain n where n: "length body = Suc n" "16 \<le> Suc n" using len by (cases "length body") auto
  then have "is_word (body ! n)" using body by (simp add: list_all_length)
  then have lb: "last_boundary body (length body) = Some (length body)"
    using n by (simp add: boundary_def word_opt_def first_opt_def)
  have m: "match_sk None (''sk-'' @ body) = Some (''sk-'' @ body, 3 + length body)"
    using lb by (simp add: match_sk_def keys boundary_def word_opt_def first_opt_def is_word_def
        is_lower_def char_code_def)
  have sk: "replace_scan match_sk None (''sk-'' @ body) = ''sk-'' @ body @ ''[REDACTED]''"
    using m by simp
  let ?out = "''sk-'' @ body @ ''[REDACTED]''"
  have marker: "list_all (\<lambda>c. \<not> is_space c) ''sk-''" "list_all (\<lambda>c. \<not> is_space c) ''[REDACTED]''"
    by (simp_all add: is_space_def)
  have ns: "list_all (\<lambda>c. \<not> is_space c) ?out"
    unfolding list_all_append using marker words_not(1)[OF body] by blast
  have nsep: "list_all (\<lambda>c. c \<noteq> CHR ''='' \<and> c \<noteq> CHR '':'') ?out"
    by (simp add: words_not[OF body])
  note list_all_quiet [OF match_bearer_no_space ns] list_all_quiet [OF match_api_key_no_sep nsep]
  then show ?thesis
    unfolding redactString_def SECRET_PATTERNS_def by (simp only: foldl.simps sk replace_scan_quiet)
qed

text \<open>A bearer token is removed.\<close>

lemma match_sk_no_dash: "list_all (\<lambda>c. c \<noteq> CHR ''-'') s \<Longrightarrow> match_sk prev s = None"
proof -
  assume "list_all (\<lambda>c. c \<noteq> CHR ''-'') s"
  then have "CHR ''-'' \<notin> set (take 3 s)" by (auto simp: list_all_iff dest: in_set_takeD)
  then have "take 3 s \<noteq> ''sk-''" by (metis in_set_conv_decomp append_Cons append_Nil)
  then show ?thesis by (simp add: match_sk_def)
qed

lemma redactString_bearer:
  assumes tok: "list_all is_word tok" and len: "12 \<le> length tok"
  shows "redactString (''Bearer '' @ tok) = ''Bearer [REDACTED]''"
proof -
  have nd: "list_all (\<lambda>c. c \<noteq> CHR ''-'') (''Bearer '' @ tok)"
    by (simp add: words_not[OF tok])
  have sk: "replace_scan match_sk None (''Bearer '' @ tok) = ''Bearer '' @ tok"
    by (rule replace_scan_quiet [OF list_all_quiet [OF match_sk_no_dash nd]])
  have toks: "takeWhile token_char tok = tok"
    by (rule takeWhile_all) (rule words_not[OF tok])
  obtain c cs where tk: "tok = c # cs" using len by (cases tok) auto
  then have "\<not> is_space c" using tok by (auto dest: is_word_not)
  then have sp: "takeWhile is_space ('' '' @ tok) = '' ''"
    using tk by (simp add: is_space_def)
  have m: "match_bearer None (''Bearer '' @ tok) = Some (''Bearer '', 7 + length tok)"
    using sp len by (simp add: match_bearer_def Let_def toks starts_ci_def boundary_def word_opt_def
        first_opt_def is_word_def is_upper_def is_lower_def char_code_def)
  have br: "replace_scan match_bearer None (''Bearer '' @ tok) = ''Bearer [REDACTED]''"
    using m by simp
  have nsep: "list_all (\<lambda>c. c \<noteq> CHR ''='' \<and> c \<noteq> CHR '':'') ''Bearer [REDACTED]''" by simp
  have "quiet match_api_key None ''Bearer [REDACTED]''"
    by (rule list_all_quiet [OF match_api_key_no_sep nsep])
  then show ?thesis
    unfolding redactString_def SECRET_PATTERNS_def
    by (simp only: foldl.simps sk br replace_scan_quiet)
qed

lemma redactSecrets_shape:
  "redactSecrets (JObj kvs) = JObj kvs' \<Longrightarrow> map fst kvs' = map fst kvs"
  by auto

end
