(* ===== verification/Messages.thy ===== *)
theory Messages
  imports Tool_Policy
begin

text \<open>
  The data of the agent: content blocks and messages (\<open>packages/ai/src/types.ts\<close>), the custom
  messages of the harness (\<open>packages/agent/src/harness/messages.ts\<close>) with their conversion for the
  model, tools and events (\<open>packages/agent/src/types.ts\<close>).
\<close>

section \<open>Content blocks and messages\<close>

datatype media =
    TextContent string "string option"
  | ImageContent string string

record tool_call =
  tc_id :: string
  tc_name :: string
  tc_arguments :: json
  tc_thoughtSignature :: "string option"

datatype assistant_content =
    AText string "string option"
  | AThinking string "string option" "bool option"
  | AToolCall tool_call

record usage_cost =
  uc_input :: rat
  uc_output :: rat
  uc_cacheRead :: rat
  uc_cacheWrite :: rat
  uc_total :: rat

record usage =
  us_input :: int
  us_output :: int
  us_cacheRead :: int
  us_cacheWrite :: int
  us_totalTokens :: int
  us_cost :: usage_cost

datatype stop_reason = Stop | Length | ToolUse | StopError | Aborted

datatype user_content = PlainText string | Parts "media list"

record user_message =
  um_content :: user_content
  um_timestamp :: "int option"

record assistant_message =
  am_content :: "assistant_content list"
  am_api :: string
  am_provider :: string
  am_model :: string
  am_usage :: usage
  am_stopReason :: stop_reason
  am_errorMessage :: "string option"
  am_timestamp :: int

record tool_result_message =
  tr_toolCallId :: string
  tr_toolName :: string
  tr_content :: "media list"
  tr_details :: "json option"
  tr_addedToolNames :: "string list option"
  tr_isError :: bool
  tr_timestamp :: int

text \<open>
  Custom messages of the harness. A time stamp that is computed from text may be invalid (\<open>NaN\<close>),
  which is \<open>None\<close>; a user message converted from such a message inherits it.
\<close>

record bash_execution_message =
  be_command :: string
  be_output :: string
  be_exitCode :: "int option"
  be_cancelled :: bool
  be_truncated :: bool
  be_fullOutputPath :: "string option"
  be_timestamp :: int
  be_excludeFromContext :: bool

record custom_message =
  cm_customType :: string
  cm_content :: user_content
  cm_display :: bool
  cm_details :: "json option"
  cm_timestamp :: "int option"

record branch_summary_message =
  bsm_summary :: string
  bsm_fromId :: string
  bsm_timestamp :: "int option"

record compaction_summary_message =
  csm_summary :: string
  csm_tokensBefore :: int
  csm_timestamp :: "int option"

datatype agent_message =
    User user_message
  | Assistant assistant_message
  | ToolResult tool_result_message
  | BashExecution bash_execution_message
  | Custom custom_message
  | BranchSummary branch_summary_message
  | CompactionSummary compaction_summary_message

fun is_assistant :: "agent_message \<Rightarrow> bool" where
  "is_assistant (Assistant _) = True"
| "is_assistant _ = False"

fun is_tool_result :: "agent_message \<Rightarrow> bool" where
  "is_tool_result (ToolResult _) = True"
| "is_tool_result _ = False"

text \<open>\<open>Message\<close> of the model API: a user, an assistant or a tool-result message.\<close>

fun is_llm_message :: "agent_message \<Rightarrow> bool" where
  "is_llm_message (User _) = True"
| "is_llm_message (Assistant _) = True"
| "is_llm_message (ToolResult _) = True"
| "is_llm_message _ = False"

fun tool_call_of :: "assistant_content \<Rightarrow> tool_call option" where
  "tool_call_of (AToolCall tc) = Some tc"
| "tool_call_of _ = None"

text \<open>\<open>message.content.filter((c) => c.type === "toolCall")\<close>.\<close>

definition tool_calls_of :: "assistant_message \<Rightarrow> tool_call list" where
  "tool_calls_of m = List.map_filter tool_call_of (am_content m)"

section \<open>Decimal numerals and time stamps\<close>

definition digit_char :: "nat \<Rightarrow> char" where
  "digit_char n = char_of (48 + n)"

text \<open>\<open>join\<close> of a list of strings.\<close>

fun join_with :: "string \<Rightarrow> string list \<Rightarrow> string" where
  "join_with sep [] = []"
| "join_with sep [x] = x"
| "join_with sep (x # y # xs) = x @ sep @ join_with sep (y # xs)"

fun show_nat :: "nat \<Rightarrow> string" where
  "show_nat n = (if n < 10 then [digit_char n] else show_nat (n div 10) @ [digit_char (n mod 10)])"

declare show_nat.simps [simp del]

definition show_int :: "int \<Rightarrow> string" where
  "show_int i = (if i < 0 then CHR ''-'' # show_nat (nat (- i)) else show_nat (nat i))"

definition digit_value :: "char \<Rightarrow> nat option" where
  "digit_value c = (let n = of_char c in if 48 \<le> n \<and> n \<le> 57 then Some (n - 48) else None)"

fun read_digits :: "nat \<Rightarrow> string \<Rightarrow> nat option" where
  "read_digits acc [] = Some acc"
| "read_digits acc (c # cs) =
     (case digit_value c of None \<Rightarrow> None | Some d \<Rightarrow> read_digits (10 * acc + d) cs)"

definition read_nat :: "string \<Rightarrow> nat option" where
  "read_nat s = (if s = [] then None else read_digits 0 s)"

lemma digit_value_digit_char: "n < 10 \<Longrightarrow> digit_value (digit_char n) = Some n"
  by (simp add: digit_value_def digit_char_def)

lemma read_digits_append:
  "read_digits a (xs @ ys) = (case read_digits a xs of None \<Rightarrow> None | Some b \<Rightarrow> read_digits b ys)"
  by (induction xs arbitrary: a) (auto split: option.splits)

lemma read_digits_show_nat: "read_digits 0 (show_nat n) = Some n"
proof (induction n rule: show_nat.induct)
  case (1 n)
  show ?case
  proof (cases "n < 10")
    case True
    then show ?thesis by (simp add: show_nat.simps[of n] digit_value_digit_char)
  next
    case False
    with 1 show ?thesis
      by (simp add: show_nat.simps[of n] digit_value_digit_char read_digits_append)
  qed
qed

lemma show_nat_neq_Nil [simp]: "show_nat n \<noteq> []"
  by (subst show_nat.simps) simp

lemma read_show_nat: "read_nat (show_nat n) = Some n"
  by (simp add: read_nat_def read_digits_show_nat)

text \<open>
  \<open>new Date(s).getTime()\<close> on the text that \<open>toISOString\<close> writes, \<open>YYYY-MM-DDTHH:MM:SS.mmmZ\<close>:
  milliseconds since 1970, by the count of days of the proleptic Gregorian calendar. Any other text
  is read as an invalid date.
\<close>

definition days_from_civil :: "int \<Rightarrow> int \<Rightarrow> int \<Rightarrow> int" where
  "days_from_civil y m d =
     (let y' = (if m \<le> 2 then y - 1 else y); era = y' div 400; yoe = y' - era * 400;
          doy = (153 * (if m > 2 then m - 3 else m + 9) + 2) div 5 + d - 1;
          doe = yoe * 365 + yoe div 4 - yoe div 100 + doy
      in era * 146097 + doe - 719468)"

definition date_getTime :: "string \<Rightarrow> int option" where
  "date_getTime s =
     (if length s = 24 \<and> s ! 4 = CHR ''-'' \<and> s ! 7 = CHR ''-'' \<and> s ! 10 = CHR ''T''
         \<and> s ! 13 = CHR '':'' \<and> s ! 16 = CHR '':'' \<and> s ! 19 = CHR ''.'' \<and> s ! 23 = CHR ''Z''
      then (case (read_nat (take 4 s), read_nat (take 2 (drop 5 s)), read_nat (take 2 (drop 8 s)),
                  read_nat (take 2 (drop 11 s)), read_nat (take 2 (drop 14 s)),
                  read_nat (take 2 (drop 17 s)), read_nat (take 3 (drop 20 s))) of
              (Some y, Some mo, Some d, Some h, Some mi, Some sec, Some ms) \<Rightarrow>
                if 1 \<le> mo \<and> mo \<le> 12 \<and> 1 \<le> d \<and> d \<le> 31 \<and> h < 24 \<and> mi < 60 \<and> sec < 60
                then Some (((days_from_civil (int y) (int mo) (int d) * 24 + int h) * 60 + int mi) * 60000
                           + int sec * 1000 + int ms)
                else None
            | _ \<Rightarrow> None)
      else None)"

section \<open>Custom messages and their conversion for the model\<close>

definition newline :: string where "newline = [char_of (10 :: nat)]"

definition COMPACTION_SUMMARY_PREFIX :: string where
  "COMPACTION_SUMMARY_PREFIX =
     ''The conversation history before this point was compacted into the following summary:''
     @ newline @ newline @ ''<summary>'' @ newline"

definition COMPACTION_SUMMARY_SUFFIX :: string where
  "COMPACTION_SUMMARY_SUFFIX = newline @ ''</summary>''"

definition BRANCH_SUMMARY_PREFIX :: string where
  "BRANCH_SUMMARY_PREFIX =
     ''The following is a summary of a branch that this conversation came back from:''
     @ newline @ newline @ ''<summary>'' @ newline"

definition BRANCH_SUMMARY_SUFFIX :: string where
  "BRANCH_SUMMARY_SUFFIX = ''</summary>''"

definition backtick :: string where "backtick = [char_of (96 :: nat)]"

definition bashExecutionToText :: "bash_execution_message \<Rightarrow> string" where
  "bashExecutionToText msg =
     ''Ran '' @ backtick @ be_command msg @ backtick @ newline
     @ (if be_output msg \<noteq> []
        then backtick @ backtick @ backtick @ newline @ be_output msg @ newline
             @ backtick @ backtick @ backtick
        else ''(no output)'')
     @ (if be_cancelled msg then newline @ newline @ ''(command cancelled)''
        else (case be_exitCode msg of
                None \<Rightarrow> []
              | Some code \<Rightarrow> if code \<noteq> 0
                  then newline @ newline @ ''Command exited with code '' @ show_int code else []))
     @ (if be_truncated msg \<and> truthy_str (be_fullOutputPath msg)
        then newline @ newline @ ''[Output truncated. Full output: ''
             @ nullish (be_fullOutputPath msg) [] @ '']'' else [])"

definition createBranchSummaryMessage :: "string \<Rightarrow> string \<Rightarrow> string \<Rightarrow> agent_message" where
  "createBranchSummaryMessage summary fromId timestamp = BranchSummary
     \<lparr>bsm_summary = summary, bsm_fromId = fromId, bsm_timestamp = date_getTime timestamp\<rparr>"

definition createCompactionSummaryMessage :: "string \<Rightarrow> int \<Rightarrow> string \<Rightarrow> agent_message" where
  "createCompactionSummaryMessage summary tokensBefore timestamp = CompactionSummary
     \<lparr>csm_summary = summary, csm_tokensBefore = tokensBefore, csm_timestamp = date_getTime timestamp\<rparr>"

definition createCustomMessage ::
  "string \<Rightarrow> user_content \<Rightarrow> bool \<Rightarrow> json option \<Rightarrow> string \<Rightarrow> agent_message" where
  "createCustomMessage customType content display details timestamp = Custom
     \<lparr>cm_customType = customType, cm_content = content, cm_display = display,
      cm_details = details, cm_timestamp = date_getTime timestamp\<rparr>"

fun convert_message :: "agent_message \<Rightarrow> agent_message option" where
  "convert_message (BashExecution m) =
     (if be_excludeFromContext m then None
      else Some (User \<lparr>um_content = Parts [TextContent (bashExecutionToText m) None],
                       um_timestamp = Some (be_timestamp m)\<rparr>))"
| "convert_message (Custom m) =
     Some (User \<lparr>um_content = (case cm_content m of
                    PlainText s \<Rightarrow> Parts [TextContent s None] | Parts ps \<Rightarrow> Parts ps),
                 um_timestamp = cm_timestamp m\<rparr>)"
| "convert_message (BranchSummary m) =
     Some (User \<lparr>um_content =
                    Parts [TextContent (BRANCH_SUMMARY_PREFIX @ bsm_summary m @ BRANCH_SUMMARY_SUFFIX) None],
                 um_timestamp = bsm_timestamp m\<rparr>)"
| "convert_message (CompactionSummary m) =
     Some (User \<lparr>um_content =
                    Parts [TextContent (COMPACTION_SUMMARY_PREFIX @ csm_summary m @ COMPACTION_SUMMARY_SUFFIX) None],
                 um_timestamp = csm_timestamp m\<rparr>)"
| "convert_message m = Some m"

definition convertToLlm :: "agent_message list \<Rightarrow> agent_message list" where
  "convertToLlm messages = List.map_filter convert_message messages"

lemma convertToLlm_append: "convertToLlm (xs @ ys) = convertToLlm xs @ convertToLlm ys"
  by (simp add: convertToLlm_def List.map_filter_def)

lemma convert_message_llm: "convert_message m = Some m' \<Longrightarrow> is_llm_message m'"
  by (cases m) (auto split: if_splits)

lemma convertToLlm_llm: "m \<in> set (convertToLlm ms) \<Longrightarrow> is_llm_message m"
  by (auto simp: convertToLlm_def List.map_filter_def dest: convert_message_llm)

lemma convertToLlm_id: "\<forall>m \<in> set ms. is_llm_message m \<Longrightarrow> convertToLlm ms = ms"
proof (induction ms)
  case (Cons m ms)
  then show ?case by (cases m) (simp_all add: convertToLlm_def List.map_filter_def)
qed (simp add: convertToLlm_def List.map_filter_def)

section \<open>Tools, context and events\<close>

datatype execution_mode = Sequential | Parallel

datatype thinking_level = ThinkOff | Minimal | Low | Medium | High | XHigh | Max

record model =
  mod_id :: string
  mod_name :: string
  mod_api :: string
  mod_provider :: string
  mod_baseUrl :: string
  mod_reasoning :: bool
  mod_contextWindow :: int
  mod_maxTokens :: int

text \<open>Untyped tools can return results without content, hence the option.\<close>

record tool_result =
  res_content :: "media list option"
  res_details :: "json option"
  res_addedToolNames :: "string list option"
  res_terminate :: "bool option"

text \<open>
  What a tool does after \<open>execute\<close> was called, as seen through its update callback and its promise:
  the updates it sends and the settlement of the promise, in order. A script without a settlement
  is a tool whose promise never settles.
\<close>

datatype tool_action =
    Update tool_result
  | Settle "string + tool_result"

record 'w agent_tool =
  tl_name :: string
  tl_description :: string
  tl_parameters :: json
  tl_label :: string
  tl_policy :: "tool_policy_descriptor option"
  tl_prepareArguments :: "(json \<Rightarrow> string + json) option"
  tl_execute :: "string \<Rightarrow> json \<Rightarrow> 'w \<Rightarrow> tool_action list \<times> 'w"
  tl_executionMode :: "execution_mode option"

record 'w agent_context =
  cx_systemPrompt :: string
  cx_messages :: "agent_message list"
  cx_tools :: "'w agent_tool list option"

text \<open>Events of a response stream; the cases between start and end only carry the partial message.\<close>

datatype stream_event =
    StreamStart assistant_message
  | StreamPart string assistant_message
  | StreamDone assistant_message
  | StreamError assistant_message

datatype agent_event =
    AgentStart
  | AgentEnd "agent_message list"
  | TurnStart
  | TurnEnd agent_message "tool_result_message list"
  | MessageStart agent_message
  | MessageUpdate agent_message stream_event
  | MessageEnd agent_message
  | ToolExecutionStart string string json
  | ToolExecutionUpdate string string json tool_result
  | ToolExecutionEnd string string tool_result bool

end
