(* ===== verification/Agent_Loop.thy ===== *)
theory Agent_Loop
  imports Messages
begin

text \<open>
  \<open>packages/agent/src/agent-loop.ts\<close>: the loop that streams an assistant response, runs its tool
  calls, polls the steering and follow-up queues and starts the next turn, emitting events on the
  way. Every awaited call to code outside the loop (the model, the tools, the hooks, the event sink,
  the queues) is a function of the world \<open>'w\<close>, which it may change; it may return, raise or never
  settle. Arrays that the source mutates in place (\<open>context.messages\<close>, \<open>newMessages\<close>) are passed
  and returned.
\<close>

section \<open>Configuration and environment\<close>

record before_tool_call_result =
  bt_block :: bool
  bt_reason :: "string option"
  bt_arguments :: "json option"

record after_tool_call_result =
  at_content :: "media list option"
  at_details :: "json option"
  at_isError :: "bool option"
  at_terminate :: "bool option"

record 'w before_tool_call_context =
  bc_assistantMessage :: assistant_message
  bc_toolCall :: tool_call
  bc_args :: json
  bc_context :: "'w agent_context"

record 'w after_tool_call_context =
  ac_assistantMessage :: assistant_message
  ac_toolCall :: tool_call
  ac_args :: json
  ac_result :: tool_result
  ac_isError :: bool
  ac_context :: "'w agent_context"

record 'w turn_context =
  tn_message :: assistant_message
  tn_toolResults :: "tool_result_message list"
  tn_context :: "'w agent_context"
  tn_newMessages :: "agent_message list"

record 'w turn_update =
  tu_context :: "'w agent_context option"
  tu_model :: "model option"
  tu_thinkingLevel :: "thinking_level option"

record 'w llm_context =
  lx_systemPrompt :: string
  lx_messages :: "agent_message list"
  lx_tools :: "'w agent_tool list option"

record stream_options =
  so_apiKey :: "string option"
  so_reasoning :: "thinking_level option"

text \<open>
  A response is what its iterator yields, whether the iterator ends after that, and what \<open>result()\<close>
  resolves to, if it does.
\<close>

record response =
  rp_events :: "stream_event list"
  rp_ends :: bool
  rp_result :: "assistant_message option"

record 'w loop_config =
  lc_model :: model
  lc_reasoning :: "thinking_level option"
  lc_apiKey :: "string option"
  lc_toolExecution :: "execution_mode option"
  lc_convertToLlm :: "agent_message list \<Rightarrow> ('w, agent_message list) call"
  lc_transformContext :: "(agent_message list \<Rightarrow> ('w, agent_message list) call) option"
  lc_getApiKey :: "(string \<Rightarrow> ('w, string option) call) option"
  lc_shouldStopAfterTurn :: "('w turn_context \<Rightarrow> ('w, bool) call) option"
  lc_prepareNextTurn :: "('w turn_context \<Rightarrow> ('w, 'w turn_update option) call) option"
  lc_getSteeringMessages :: "('w, agent_message list) call option"
  lc_getFollowUpMessages :: "('w, agent_message list) call option"
  lc_beforeToolCall :: "('w before_tool_call_context \<Rightarrow> ('w, before_tool_call_result option \<times> json) call) option"
  lc_afterToolCall :: "('w after_tool_call_context \<Rightarrow> ('w, after_tool_call_result option) call) option"

text \<open>
  The rest of what the loop calls: the event sink, the stream function, the abort signal, the clock,
  the argument validation of \<open>packages/ai\<close>, and the scheduler of concurrent tool executions, which
  picks one of the executions that can move.
\<close>

record 'w loop_env =
  le_emit :: "agent_event \<Rightarrow> ('w, unit) call"
  le_streamFn :: "model \<Rightarrow> 'w llm_context \<Rightarrow> stream_options \<Rightarrow> ('w, response) call"
  le_aborted :: "'w \<Rightarrow> bool"
  le_now :: "'w \<Rightarrow> int"
  le_validate :: "'w agent_tool \<Rightarrow> tool_call \<Rightarrow> string + json"
  le_schedule :: "nat \<Rightarrow> 'w \<Rightarrow> nat \<times> 'w"

definition emit :: "'w loop_env \<Rightarrow> agent_event \<Rightarrow> ('w, agent_event, unit) act" where
  "emit env = emit_to (le_emit env)"

definition call_opt :: "('w, 'a) call option \<Rightarrow> 'a \<Rightarrow> ('w, 'e, 'a) act" where
  "call_opt c dflt = (case c of None \<Rightarrow> ret dflt | Some f \<Rightarrow> await f)"

section \<open>Streaming an assistant response\<close>

text \<open>\<open>xs[xs.length - 1] = x\<close>.\<close>

definition set_last :: "'a list \<Rightarrow> 'a \<Rightarrow> 'a list" where
  "set_last xs x = (if xs = [] then [] else butlast xs @ [x])"

definition push_message :: "agent_message \<Rightarrow> 'w agent_context \<Rightarrow> 'w agent_context" where
  "push_message m cx = cx\<lparr>cx_messages := cx_messages cx @ [m]\<rparr>"

definition replace_message :: "agent_message \<Rightarrow> 'w agent_context \<Rightarrow> 'w agent_context" where
  "replace_message m cx = cx\<lparr>cx_messages := set_last (cx_messages cx) m\<rparr>"

definition finish_response ::
  "'w loop_env \<Rightarrow> assistant_message option \<Rightarrow> bool \<Rightarrow> 'w agent_context
     \<Rightarrow> ('w, agent_event, assistant_message \<times> 'w agent_context) act" where
  "finish_response env result addedPartial cx =
     (case result of
        None \<Rightarrow> hang
      | Some finalMessage \<Rightarrow>
          (if addedPartial
           then seq (emit env (MessageEnd (Assistant finalMessage)))
                  (\<lambda>_. ret (finalMessage, replace_message (Assistant finalMessage) cx))
           else seq (emit env (MessageStart (Assistant finalMessage)))
                  (\<lambda>_. seq (emit env (MessageEnd (Assistant finalMessage)))
                     (\<lambda>_. ret (finalMessage, push_message (Assistant finalMessage) cx)))))"

fun consume_response ::
  "'w loop_env \<Rightarrow> bool \<Rightarrow> assistant_message option \<Rightarrow> stream_event list \<Rightarrow> bool \<Rightarrow> 'w agent_context
     \<Rightarrow> ('w, agent_event, assistant_message \<times> 'w agent_context) act" where
  "consume_response env ends result [] addedPartial cx =
     (if ends then finish_response env result addedPartial cx else hang)"
| "consume_response env ends result (StreamStart p # es) addedPartial cx =
     seq (emit env (MessageStart (Assistant p)))
       (\<lambda>_. consume_response env ends result es True (push_message (Assistant p) cx))"
| "consume_response env ends result (StreamPart t p # es) addedPartial cx =
     (if addedPartial
      then seq (emit env (MessageUpdate (Assistant p) (StreamPart t p)))
             (\<lambda>_. consume_response env ends result es True (replace_message (Assistant p) cx))
      else consume_response env ends result es addedPartial cx)"
| "consume_response env ends result (StreamDone m # es) addedPartial cx =
     finish_response env result addedPartial cx"
| "consume_response env ends result (StreamError m # es) addedPartial cx =
     finish_response env result addedPartial cx"

definition streamAssistantResponse ::
  "'w loop_env \<Rightarrow> 'w loop_config \<Rightarrow> 'w agent_context
     \<Rightarrow> ('w, agent_event, assistant_message \<times> 'w agent_context) act" where
  "streamAssistantResponse env config cx =
     seq (case lc_transformContext config of None \<Rightarrow> ret (cx_messages cx) | Some f \<Rightarrow> await (f (cx_messages cx)))
     (\<lambda>messages. seq (await (lc_convertToLlm config messages))
     (\<lambda>llmMessages. seq (case lc_getApiKey config of None \<Rightarrow> ret None
                          | Some f \<Rightarrow> await (f (mod_provider (lc_model config))))
     (\<lambda>key. seq (await (le_streamFn env (lc_model config)
                   \<lparr>lx_systemPrompt = cx_systemPrompt cx, lx_messages = llmMessages, lx_tools = cx_tools cx\<rparr>
                   \<lparr>so_apiKey = (if truthy_str key then key else lc_apiKey config),
                    so_reasoning = lc_reasoning config\<rparr>))
     (\<lambda>resp. consume_response env (rp_ends resp) (rp_result resp) (rp_events resp) False cx))))"

section \<open>Preparing a tool call\<close>

record 'w prepared_tool_call =
  pp_toolCall :: tool_call
  pp_tool :: "'w agent_tool"
  pp_args :: json

datatype 'w preparation =
    Prepared "'w prepared_tool_call"
  | Immediate tool_result bool

record finalized_tool_call =
  fz_toolCall :: tool_call
  fz_result :: tool_result
  fz_isError :: bool

record tool_batch =
  tb_messages :: "tool_result_message list"
  tb_terminate :: bool

definition createErrorToolResult :: "string \<Rightarrow> tool_result" where
  "createErrorToolResult message =
     \<lparr>res_content = Some [TextContent message None], res_details = Some (JObj []),
      res_addedToolNames = None, res_terminate = None\<rparr>"

definition shouldTerminateToolBatch :: "finalized_tool_call list \<Rightarrow> bool" where
  "shouldTerminateToolBatch finalizedCalls =
     (finalizedCalls \<noteq> [] \<and> list_all (\<lambda>f. res_terminate (fz_result f) = Some True) finalizedCalls)"

definition prepareToolCallArguments :: "'w agent_tool \<Rightarrow> tool_call \<Rightarrow> string + tool_call" where
  "prepareToolCallArguments tool toolCall =
     (case tl_prepareArguments tool of
        None \<Rightarrow> Inr toolCall
      | Some f \<Rightarrow> (case f (tc_arguments toolCall) of
            Inl e \<Rightarrow> Inl e
          | Inr preparedArguments \<Rightarrow>
              if preparedArguments = tc_arguments toolCall then Inr toolCall
              else Inr (toolCall\<lparr>tc_arguments := preparedArguments\<rparr>)))"

definition from_sum :: "string + 'a \<Rightarrow> ('w, 'e, 'a) act" where
  "from_sum x = (case x of Inl e \<Rightarrow> raise e | Inr v \<Rightarrow> ret v)"

definition find_tool :: "'w agent_context \<Rightarrow> string \<Rightarrow> 'w agent_tool option" where
  "find_tool cx name = (case cx_tools cx of None \<Rightarrow> None | Some ts \<Rightarrow> find (\<lambda>t. tl_name t = name) ts)"

definition aborted_outcome :: "'w preparation" where
  "aborted_outcome = Immediate (createErrorToolResult ''Operation aborted'') True"

definition ready_unless_aborted ::
  "'w loop_env \<Rightarrow> 'w agent_tool \<Rightarrow> tool_call \<Rightarrow> json \<Rightarrow> ('w, agent_event, 'w preparation) act" where
  "ready_unless_aborted env tool toolCall args =
     seq (gets (le_aborted env))
       (\<lambda>ab. ret (if ab then aborted_outcome
                  else Prepared \<lparr>pp_toolCall = toolCall, pp_tool = tool, pp_args = args\<rparr>))"

text \<open>
  The part of \<open>prepareToolCall\<close> inside its \<open>try\<close>. The hook gets the validated arguments by reference:
  beside its result it gives what it left in that object.
\<close>

definition prepare_known_tool ::
  "'w loop_env \<Rightarrow> 'w loop_config \<Rightarrow> 'w agent_context \<Rightarrow> assistant_message \<Rightarrow> tool_call \<Rightarrow> 'w agent_tool
     \<Rightarrow> ('w, agent_event, 'w preparation) act" where
  "prepare_known_tool env config cx am toolCall tool =
     seq (from_sum (prepareToolCallArguments tool toolCall))
     (\<lambda>effective. seq (from_sum (le_validate env tool effective))
     (\<lambda>validatedArgs.
        case lc_beforeToolCall config of
          None \<Rightarrow> ready_unless_aborted env tool effective validatedArgs
        | Some hook \<Rightarrow>
            seq (await (hook \<lparr>bc_assistantMessage = am, bc_toolCall = toolCall,
                              bc_args = validatedArgs, bc_context = cx\<rparr>))
            (\<lambda>(beforeResult, mutatedArgs). seq (gets (le_aborted env))
            (\<lambda>ab.
               if ab then ret aborted_outcome
               else case beforeResult of
                      None \<Rightarrow> ready_unless_aborted env tool effective mutatedArgs
                    | Some br \<Rightarrow>
                        if bt_block br
                        then ret (Immediate (createErrorToolResult
                                    (or_str (bt_reason br) ''Tool execution was blocked'')) True)
                        else (case bt_arguments br of
                                None \<Rightarrow> ready_unless_aborted env tool effective mutatedArgs
                              | Some rewritten \<Rightarrow>
                                  seq (from_sum (le_validate env tool (effective\<lparr>tc_arguments := rewritten\<rparr>)))
                                  (\<lambda>args. ready_unless_aborted env tool
                                            (effective\<lparr>tc_arguments := rewritten\<rparr>) args))))))"

definition prepareToolCall ::
  "'w loop_env \<Rightarrow> 'w loop_config \<Rightarrow> 'w agent_context \<Rightarrow> assistant_message \<Rightarrow> tool_call
     \<Rightarrow> ('w, agent_event, 'w preparation) act" where
  "prepareToolCall env config cx am toolCall =
     (case find_tool cx (tc_name toolCall) of
        None \<Rightarrow> ret (Immediate (createErrorToolResult
                  (''Tool '' @ tc_name toolCall @ '' not found'')) True)
      | Some tool \<Rightarrow>
          try_catch (prepare_known_tool env config cx am toolCall tool)
            (\<lambda>msg. ret (Immediate (createErrorToolResult msg) True)))"

section \<open>Executing a prepared tool call\<close>

definition emitToolExecutionStart :: "'w loop_env \<Rightarrow> tool_call \<Rightarrow> ('w, agent_event, unit) act" where
  "emitToolExecutionStart env tc = emit env (ToolExecutionStart (tc_id tc) (tc_name tc) (tc_arguments tc))"

definition emitToolExecutionEnd :: "'w loop_env \<Rightarrow> finalized_tool_call \<Rightarrow> ('w, agent_event, unit) act" where
  "emitToolExecutionEnd env f =
     emit env (ToolExecutionEnd (tc_id (fz_toolCall f)) (tc_name (fz_toolCall f)) (fz_result f) (fz_isError f))"

text \<open>
  Updates are emitted without waiting; their promises are awaited together when the tool settles.
  \<open>Promise.all\<close> rejects as soon as one of them does.
\<close>

fun both_outcomes :: "unit outcome \<Rightarrow> unit outcome \<Rightarrow> unit outcome" where
  "both_outcomes (Raised e) _ = Raised e"
| "both_outcomes (Returned _) b = b"
| "both_outcomes Hung (Raised e) = Raised e"
| "both_outcomes Hung _ = Hung"

definition attempt :: "('w, 'e, unit) act \<Rightarrow> ('w, 'e, unit outcome) act" where
  "attempt m = (\<lambda>w. case m w of (r, w', es) \<Rightarrow> (Returned r, w', es))"

definition await_outcome :: "unit outcome \<Rightarrow> 'a \<Rightarrow> ('w, 'e, 'a) act" where
  "await_outcome r x = (case r of Returned _ \<Rightarrow> ret x | Raised e \<Rightarrow> raise e | Hung \<Rightarrow> hang)"

definition emit_update :: "'w loop_env \<Rightarrow> 'w prepared_tool_call \<Rightarrow> tool_result \<Rightarrow> ('w, agent_event, unit) act" where
  "emit_update env p partial =
     emit env (ToolExecutionUpdate (tc_id (pp_toolCall p)) (tc_name (pp_toolCall p))
                 (tc_arguments (pp_toolCall p)) partial)"

definition settled_result :: "string + tool_result \<Rightarrow> tool_result \<times> bool" where
  "settled_result r = (case r of Inl e \<Rightarrow> (createErrorToolResult e, True) | Inr res \<Rightarrow> (res, False))"

text \<open>
  The script of a tool is played up to its settlement; updates after it are ignored
  (\<open>acceptingUpdates\<close>).
\<close>

fun play_script ::
  "'w loop_env \<Rightarrow> 'w prepared_tool_call \<Rightarrow> unit outcome \<Rightarrow> tool_action list
     \<Rightarrow> ('w, agent_event, tool_result \<times> bool) act" where
  "play_script env p pending [] = hang"
| "play_script env p pending (Update u # s) =
     seq (attempt (emit_update env p u)) (\<lambda>r. play_script env p (both_outcomes pending r) s)"
| "play_script env p pending (Settle r # s) = await_outcome pending (settled_result r)"

definition start_tool :: "'w prepared_tool_call \<Rightarrow> ('w, agent_event, tool_action list) act" where
  "start_tool p = await (\<lambda>w. case tl_execute (pp_tool p) (tc_id (pp_toolCall p)) (pp_args p) w of
                               (script, w') \<Rightarrow> (Returned script, w'))"

definition executePreparedToolCall ::
  "'w loop_env \<Rightarrow> 'w prepared_tool_call \<Rightarrow> ('w, agent_event, tool_result \<times> bool) act" where
  "executePreparedToolCall env p =
     seq (start_tool p) (\<lambda>script. play_script env p (Returned ()) script)"

definition merge_after :: "tool_result \<Rightarrow> bool \<Rightarrow> after_tool_call_result \<Rightarrow> tool_result \<times> bool" where
  "merge_after result isError a =
     (result\<lparr>res_content := nullish_opt (at_content a) (res_content result),
             res_details := nullish_opt (at_details a) (res_details result),
             res_terminate := nullish_opt (at_terminate a) (res_terminate result)\<rparr>,
      nullish (at_isError a) isError)"

definition finalizeExecutedToolCall ::
  "'w loop_env \<Rightarrow> 'w loop_config \<Rightarrow> 'w agent_context \<Rightarrow> assistant_message \<Rightarrow> 'w prepared_tool_call
     \<Rightarrow> tool_result \<times> bool \<Rightarrow> ('w, agent_event, finalized_tool_call) act" where
  "finalizeExecutedToolCall env config cx am p executed =
     seq (case lc_afterToolCall config of
            None \<Rightarrow> ret executed
          | Some hook \<Rightarrow>
              try_catch
                (seq (await (hook \<lparr>ac_assistantMessage = am, ac_toolCall = pp_toolCall p, ac_args = pp_args p,
                                   ac_result = fst executed, ac_isError = snd executed, ac_context = cx\<rparr>))
                   (\<lambda>r. ret (case r of None \<Rightarrow> executed
                                     | Some a \<Rightarrow> merge_after (fst executed) (snd executed) a)))
                (\<lambda>msg. ret (createErrorToolResult msg, True)))
     (\<lambda>(result, isError). ret \<lparr>fz_toolCall = pp_toolCall p, fz_result = result, fz_isError = isError\<rparr>)"

definition createToolResultMessage :: "int \<Rightarrow> finalized_tool_call \<Rightarrow> tool_result_message" where
  "createToolResultMessage now f =
     \<lparr>tr_toolCallId = tc_id (fz_toolCall f), tr_toolName = tc_name (fz_toolCall f),
      tr_content = nullish (res_content (fz_result f)) [],
      tr_details = res_details (fz_result f),
      tr_addedToolNames = (case res_addedToolNames (fz_result f) of
                             None \<Rightarrow> None | Some ns \<Rightarrow> if ns = [] then None else Some ns),
      tr_isError = fz_isError f, tr_timestamp = now\<rparr>"

definition emitToolResultMessage :: "'w loop_env \<Rightarrow> tool_result_message \<Rightarrow> ('w, agent_event, unit) act" where
  "emitToolResultMessage env m =
     seq (emit env (MessageStart (ToolResult m))) (\<lambda>_. emit env (MessageEnd (ToolResult m)))"

text \<open>The message of a finalized call is made and emitted.\<close>

definition publish_result :: "'w loop_env \<Rightarrow> finalized_tool_call \<Rightarrow> ('w, agent_event, tool_result_message) act" where
  "publish_result env f =
     seq (gets (le_now env)) (\<lambda>now. let m = createToolResultMessage now f in
       seq (emitToolResultMessage env m) (\<lambda>_. ret m))"

fun publish_results ::
  "'w loop_env \<Rightarrow> finalized_tool_call list \<Rightarrow> ('w, agent_event, tool_result_message list) act" where
  "publish_results env [] = ret []"
| "publish_results env (f # fs) =
     seq (publish_result env f) (\<lambda>m. seq (publish_results env fs) (\<lambda>ms. ret (m # ms)))"

section \<open>Batches of tool calls\<close>

definition truncated_call :: "tool_call \<Rightarrow> finalized_tool_call" where
  "truncated_call tc =
     \<lparr>fz_toolCall = tc,
      fz_result = createErrorToolResult (''Tool call \"'' @ tc_name tc @ ''\" was not executed: the response hit the output token limit, so its arguments may be truncated. Re-issue the tool call with complete arguments.''),
      fz_isError = True\<rparr>"

fun failToolCallsFromTruncatedMessage ::
  "'w loop_env \<Rightarrow> tool_call list \<Rightarrow> ('w, agent_event, tool_batch) act" where
  "failToolCallsFromTruncatedMessage env [] = ret \<lparr>tb_messages = [], tb_terminate = False\<rparr>"
| "failToolCallsFromTruncatedMessage env (tc # tcs) =
     seq (emitToolExecutionStart env tc)
     (\<lambda>_. seq (emitToolExecutionEnd env (truncated_call tc))
     (\<lambda>_. seq (publish_result env (truncated_call tc))
     (\<lambda>m. seq (failToolCallsFromTruncatedMessage env tcs)
     (\<lambda>b. ret (b\<lparr>tb_messages := m # tb_messages b\<rparr>)))))"

text \<open>One call of a sequential batch, from its preparation to its finalized outcome.\<close>

definition run_sequential_call ::
  "'w loop_env \<Rightarrow> 'w loop_config \<Rightarrow> 'w agent_context \<Rightarrow> assistant_message \<Rightarrow> tool_call
     \<Rightarrow> ('w, agent_event, finalized_tool_call) act" where
  "run_sequential_call env config cx am tc =
     seq (prepareToolCall env config cx am tc)
     (\<lambda>preparation. case preparation of
         Immediate result isError \<Rightarrow> ret \<lparr>fz_toolCall = tc, fz_result = result, fz_isError = isError\<rparr>
       | Prepared p \<Rightarrow> seq (executePreparedToolCall env p)
                        (\<lambda>executed. finalizeExecutedToolCall env config cx am p executed))"

fun sequential_calls ::
  "'w loop_env \<Rightarrow> 'w loop_config \<Rightarrow> 'w agent_context \<Rightarrow> assistant_message \<Rightarrow> tool_call list
     \<Rightarrow> ('w, agent_event, (finalized_tool_call \<times> tool_result_message) list) act" where
  "sequential_calls env config cx am [] = ret []"
| "sequential_calls env config cx am (tc # tcs) =
     seq (emitToolExecutionStart env tc)
     (\<lambda>_. seq (run_sequential_call env config cx am tc)
     (\<lambda>f. seq (emitToolExecutionEnd env f)
     (\<lambda>_. seq (publish_result env f)
     (\<lambda>m. seq (gets (le_aborted env))
     (\<lambda>ab. if ab then ret [(f, m)]
           else seq (sequential_calls env config cx am tcs) (\<lambda>rest. ret ((f, m) # rest)))))))"

definition executeToolCallsSequential ::
  "'w loop_env \<Rightarrow> 'w loop_config \<Rightarrow> 'w agent_context \<Rightarrow> assistant_message \<Rightarrow> tool_call list
     \<Rightarrow> ('w, agent_event, tool_batch) act" where
  "executeToolCallsSequential env config cx am toolCalls =
     seq (sequential_calls env config cx am toolCalls)
     (\<lambda>rs. ret \<lparr>tb_messages = map snd rs, tb_terminate = shouldTerminateToolBatch (map fst rs)\<rparr>)"

text \<open>
  In a parallel batch the calls are prepared one after the other; then the prepared ones run
  together. An entry is a finished outcome, a call that was prepared, or a call somewhere between
  its start and its \<open>tool_execution_end\<close>.
\<close>

datatype 'w entry =
    Finished finalized_tool_call
  | Waiting "'w prepared_tool_call"
  | Running "'w prepared_tool_call" "unit outcome" "tool_action list"
  | Executed "'w prepared_tool_call" "tool_result \<times> bool"
  | Closing finalized_tool_call

fun prepare_entries ::
  "'w loop_env \<Rightarrow> 'w loop_config \<Rightarrow> 'w agent_context \<Rightarrow> assistant_message \<Rightarrow> tool_call list
     \<Rightarrow> ('w, agent_event, 'w entry list) act" where
  "prepare_entries env config cx am [] = ret []"
| "prepare_entries env config cx am (tc # tcs) =
     seq (emitToolExecutionStart env tc)
     (\<lambda>_. seq (prepareToolCall env config cx am tc)
     (\<lambda>preparation. seq (case preparation of
           Immediate result isError \<Rightarrow>
             (let f = \<lparr>fz_toolCall = tc, fz_result = result, fz_isError = isError\<rparr>
              in seq (emitToolExecutionEnd env f) (\<lambda>_. ret (Finished f)))
         | Prepared p \<Rightarrow> ret (Waiting p))
     (\<lambda>entry. seq (gets (le_aborted env))
     (\<lambda>ab. if ab then ret [entry]
           else seq (prepare_entries env config cx am tcs) (\<lambda>rest. ret (entry # rest))))))"

text \<open>\<open>Promise.all(finalizedCalls.map((entry) => entry()))\<close> first calls every \<open>execute\<close>, in order.\<close>

fun start_entries :: "'w entry list \<Rightarrow> ('w, agent_event, 'w entry list) act" where
  "start_entries [] = ret []"
| "start_entries (e # es) =
     seq (case e of Waiting p \<Rightarrow> seq (start_tool p) (\<lambda>script. ret (Running p (Returned ()) script))
                  | _ \<Rightarrow> ret e)
     (\<lambda>e'. seq (start_entries es) (\<lambda>es'. ret (e' # es')))"

text \<open>Entries that can make a step: not those finished, and not those that wait for ever.\<close>

fun can_move :: "'w entry \<Rightarrow> bool" where
  "can_move (Finished f) = False"
| "can_move (Waiting p) = False"
| "can_move (Running p pending []) = False"
| "can_move (Running p pending (Update u # s)) = True"
| "can_move (Running p pending (Settle r # s)) = (pending \<noteq> Hung)"
| "can_move (Executed p x) = True"
| "can_move (Closing f) = True"

fun step_entry ::
  "'w loop_env \<Rightarrow> 'w loop_config \<Rightarrow> 'w agent_context \<Rightarrow> assistant_message \<Rightarrow> 'w entry
     \<Rightarrow> ('w, agent_event, 'w entry) act" where
  "step_entry env config cx am (Running p pending (Update u # s)) =
     seq (attempt (emit_update env p u)) (\<lambda>r. ret (Running p (both_outcomes pending r) s))"
| "step_entry env config cx am (Running p pending (Settle r # s)) =
     await_outcome pending (Executed p (settled_result r))"
| "step_entry env config cx am (Executed p x) =
     seq (finalizeExecutedToolCall env config cx am p x) (\<lambda>f. ret (Closing f))"
| "step_entry env config cx am (Closing f) =
     seq (emitToolExecutionEnd env f) (\<lambda>_. ret (Finished f))"
| "step_entry env config cx am e = ret e"

fun entry_measure :: "'w entry \<Rightarrow> nat" where
  "entry_measure (Finished f) = 0"
| "entry_measure (Waiting p) = 0"
| "entry_measure (Running p pending s) = 3 + length s"
| "entry_measure (Executed p x) = 2"
| "entry_measure (Closing f) = 1"

definition movable :: "'w entry list \<Rightarrow> nat list" where
  "movable es = filter (\<lambda>i. can_move (es ! i)) [0..<length es]"

text \<open>The scheduler names one of the entries that can move; any number is reduced to one of them.\<close>

definition pick_entry :: "'w loop_env \<Rightarrow> 'w entry list \<Rightarrow> ('w, agent_event, nat) act" where
  "pick_entry env es = await (\<lambda>w. case le_schedule env (length (movable es)) w of
      (k, w') \<Rightarrow> (Returned (movable es ! (k mod length (movable es))), w'))"

fun finished :: "'w entry \<Rightarrow> finalized_tool_call option" where
  "finished (Finished f) = Some f"
| "finished _ = None"

text \<open>
  The concurrent phase: as long as some entry can move, one of them makes a step. Each step makes
  the sum of the measures smaller, so that sum bounds the number of steps; \<open>run_entries_enough\<close>
  shows that it is enough.
\<close>

fun run_entries ::
  "nat \<Rightarrow> 'w loop_env \<Rightarrow> 'w loop_config \<Rightarrow> 'w agent_context \<Rightarrow> assistant_message \<Rightarrow> 'w entry list
     \<Rightarrow> ('w, agent_event, finalized_tool_call list) act" where
  "run_entries n env config cx am es =
     (if movable es = []
      then (case those (map finished es) of Some fs \<Rightarrow> ret fs | None \<Rightarrow> hang)
      else (case n of
              0 \<Rightarrow> hang
            | Suc k \<Rightarrow> seq (pick_entry env es)
                (\<lambda>i. seq (step_entry env config cx am (es ! i))
                (\<lambda>e. run_entries k env config cx am (es[i := e])))))"

declare run_entries.simps [simp del]

definition batch_measure :: "'w entry list \<Rightarrow> nat" where
  "batch_measure es = sum_list (map entry_measure es)"

definition executeToolCallsParallel ::
  "'w loop_env \<Rightarrow> 'w loop_config \<Rightarrow> 'w agent_context \<Rightarrow> assistant_message \<Rightarrow> tool_call list
     \<Rightarrow> ('w, agent_event, tool_batch) act" where
  "executeToolCallsParallel env config cx am toolCalls =
     seq (prepare_entries env config cx am toolCalls)
     (\<lambda>es. seq (start_entries es)
     (\<lambda>es'. seq (run_entries (batch_measure es') env config cx am es')
     (\<lambda>fs. seq (publish_results env fs)
     (\<lambda>ms. ret \<lparr>tb_messages = ms, tb_terminate = shouldTerminateToolBatch fs\<rparr>))))"

definition has_sequential_call :: "'w agent_context \<Rightarrow> tool_call list \<Rightarrow> bool" where
  "has_sequential_call cx toolCalls =
     list_ex (\<lambda>tc. case find_tool cx (tc_name tc) of
                     None \<Rightarrow> False | Some t \<Rightarrow> tl_executionMode t = Some Sequential) toolCalls"

definition executeToolCalls ::
  "'w loop_env \<Rightarrow> 'w loop_config \<Rightarrow> 'w agent_context \<Rightarrow> assistant_message
     \<Rightarrow> ('w, agent_event, tool_batch) act" where
  "executeToolCalls env config cx am =
     (let toolCalls = tool_calls_of am in
      if lc_toolExecution config = Some Sequential \<or> has_sequential_call cx toolCalls
      then executeToolCallsSequential env config cx am toolCalls
      else executeToolCallsParallel env config cx am toolCalls)"

section \<open>The loop\<close>

record 'w loop_state =
  ls_context :: "'w agent_context"
  ls_config :: "'w loop_config"
  ls_firstTurn :: bool
  ls_pending :: "agent_message list"
  ls_newMessages :: "agent_message list"
  ls_hasMoreToolCalls :: bool

definition emit_message :: "'w loop_env \<Rightarrow> agent_message \<Rightarrow> ('w, agent_event, unit) act" where
  "emit_message env m = seq (emit env (MessageStart m)) (\<lambda>_. emit env (MessageEnd m))"

definition add_messages :: "agent_message list \<Rightarrow> 'w loop_state \<Rightarrow> 'w loop_state" where
  "add_messages ms st =
     st\<lparr>ls_context := (ls_context st)\<lparr>cx_messages := cx_messages (ls_context st) @ ms\<rparr>,
        ls_newMessages := ls_newMessages st @ ms\<rparr>"

text \<open>The start of a turn: \<open>turn_start\<close> unless it is the first, then the pending messages.\<close>

definition begin_turn :: "'w loop_env \<Rightarrow> 'w loop_state \<Rightarrow> ('w, agent_event, 'w loop_state) act" where
  "begin_turn env st =
     seq (if \<not> ls_firstTurn st then emit env TurnStart else ret ())
     (\<lambda>_. seq (for_each (emit_message env) (ls_pending st))
     (\<lambda>_. ret ((add_messages (ls_pending st) st)\<lparr>ls_pending := [], ls_firstTurn := False\<rparr>)))"

text \<open>The tool calls of the turn: the batch, and whether there may be more calls.\<close>

definition run_tool_calls ::
  "'w loop_env \<Rightarrow> 'w loop_state \<Rightarrow> assistant_message \<Rightarrow> ('w, agent_event, tool_result_message list \<times> bool) act" where
  "run_tool_calls env st message =
     (let toolCalls = tool_calls_of message in
      if toolCalls = [] then ret ([], False)
      else seq (if am_stopReason message = Length
                then failToolCallsFromTruncatedMessage env toolCalls
                else executeToolCalls env (ls_config st) (ls_context st) message)
             (\<lambda>b. ret (tb_messages b, \<not> tb_terminate b)))"

definition apply_turn_update :: "'w turn_update option \<Rightarrow> 'w loop_state \<Rightarrow> 'w loop_state" where
  "apply_turn_update u st =
     (case u of
        None \<Rightarrow> st
      | Some s \<Rightarrow> st\<lparr>ls_context := nullish (tu_context s) (ls_context st),
          ls_config := (ls_config st)\<lparr>lc_model := nullish (tu_model s) (lc_model (ls_config st)),
            lc_reasoning := (case tu_thinkingLevel s of
                               None \<Rightarrow> lc_reasoning (ls_config st)
                             | Some l \<Rightarrow> if l = ThinkOff then None else Some l)\<rparr>\<rparr>)"

definition turn_context_of :: "assistant_message \<Rightarrow> tool_result_message list \<Rightarrow> 'w loop_state \<Rightarrow> 'w turn_context" where
  "turn_context_of message toolResults st =
     \<lparr>tn_message = message, tn_toolResults = toolResults, tn_context = ls_context st,
      tn_newMessages = ls_newMessages st\<rparr>"

text \<open>After \<open>turn_end\<close>: the next-turn update, the request to stop, the steering queue.\<close>

definition after_turn ::
  "'w loop_env \<Rightarrow> assistant_message \<Rightarrow> tool_result_message list \<Rightarrow> 'w loop_state
     \<Rightarrow> ('w, agent_event, agent_message list + 'w loop_state) act" where
  "after_turn env message toolResults st =
     seq (case lc_prepareNextTurn (ls_config st) of
            None \<Rightarrow> ret None | Some f \<Rightarrow> await (f (turn_context_of message toolResults st)))
     (\<lambda>u. let st' = apply_turn_update u st in
        seq (case lc_shouldStopAfterTurn (ls_config st') of
               None \<Rightarrow> ret False | Some f \<Rightarrow> await (f (turn_context_of message toolResults st')))
        (\<lambda>stop.
           if stop then seq (emit env (AgentEnd (ls_newMessages st'))) (\<lambda>_. ret (Inl (ls_newMessages st')))
           else seq (call_opt (lc_getSteeringMessages (ls_config st')) [])
                  (\<lambda>pending. ret (Inr (st'\<lparr>ls_pending := pending\<rparr>)))))"

text \<open>
  The body of the inner loop: \<open>Inl\<close> with the new messages when the loop returns, \<open>Inr\<close> with the
  next state otherwise.
\<close>

definition run_turn ::
  "'w loop_env \<Rightarrow> 'w loop_state \<Rightarrow> ('w, agent_event, agent_message list + 'w loop_state) act" where
  "run_turn env st0 =
     seq (begin_turn env st0)
     (\<lambda>st1. seq (streamAssistantResponse env (ls_config st1) (ls_context st1))
     (\<lambda>(message, cx).
        let st2 = st1\<lparr>ls_context := cx, ls_newMessages := ls_newMessages st1 @ [Assistant message]\<rparr> in
        if am_stopReason message \<in> {StopError, Aborted}
        then seq (emit env (TurnEnd (Assistant message) []))
             (\<lambda>_. seq (emit env (AgentEnd (ls_newMessages st2)))
             (\<lambda>_. ret (Inl (ls_newMessages st2))))
        else seq (run_tool_calls env st2 message)
             (\<lambda>(toolResults, more).
                let st3 = (add_messages (map ToolResult toolResults) st2)\<lparr>ls_hasMoreToolCalls := more\<rparr> in
                seq (emit env (TurnEnd (Assistant message) toolResults))
                (\<lambda>_. after_turn env message toolResults st3))))"

text \<open>
  Both loops of \<open>runLoop\<close>. The fuel bounds the number of turns and of follow-up polls; a run that
  needs more has not returned.
\<close>

fun run_loop ::
  "nat \<Rightarrow> 'w loop_env \<Rightarrow> 'w loop_state \<Rightarrow> ('w, agent_event, agent_message list) act" where
  "run_loop 0 env st = hang"
| "run_loop (Suc n) env st =
     (if ls_hasMoreToolCalls st \<or> ls_pending st \<noteq> []
      then seq (run_turn env st)
             (\<lambda>r. case r of Inl msgs \<Rightarrow> ret msgs | Inr st' \<Rightarrow> run_loop n env st')
      else seq (call_opt (lc_getFollowUpMessages (ls_config st)) [])
             (\<lambda>followUps.
                if followUps \<noteq> []
                then run_loop n env (st\<lparr>ls_pending := followUps, ls_hasMoreToolCalls := True\<rparr>)
                else seq (emit env (AgentEnd (ls_newMessages st))) (\<lambda>_. ret (ls_newMessages st))))"

definition runLoop ::
  "nat \<Rightarrow> 'w loop_env \<Rightarrow> 'w agent_context \<Rightarrow> agent_message list \<Rightarrow> 'w loop_config
     \<Rightarrow> ('w, agent_event, agent_message list) act" where
  "runLoop fuel env cx newMessages config =
     seq (call_opt (lc_getSteeringMessages config) [])
     (\<lambda>pending. run_loop fuel env
        \<lparr>ls_context = cx, ls_config = config, ls_firstTurn = True, ls_pending = pending,
         ls_newMessages = newMessages, ls_hasMoreToolCalls = True\<rparr>)"

definition runAgentLoop ::
  "nat \<Rightarrow> 'w loop_env \<Rightarrow> agent_message list \<Rightarrow> 'w agent_context \<Rightarrow> 'w loop_config
     \<Rightarrow> ('w, agent_event, agent_message list) act" where
  "runAgentLoop fuel env prompts cx config =
     seq (emit env AgentStart)
     (\<lambda>_. seq (emit env TurnStart)
     (\<lambda>_. seq (for_each (emit_message env) prompts)
     (\<lambda>_. runLoop fuel env (cx\<lparr>cx_messages := cx_messages cx @ prompts\<rparr>) prompts config)))"

definition runAgentLoopContinue ::
  "nat \<Rightarrow> 'w loop_env \<Rightarrow> 'w agent_context \<Rightarrow> 'w loop_config
     \<Rightarrow> ('w, agent_event, agent_message list) act" where
  "runAgentLoopContinue fuel env cx config =
     (if cx_messages cx = [] then raise ''Cannot continue: no messages in context''
      else if is_assistant (last (cx_messages cx))
      then raise ''Cannot continue from message role: assistant''
      else seq (emit env AgentStart)
           (\<lambda>_. seq (emit env TurnStart)
           (\<lambda>_. runLoop fuel env cx [] config)))"

end
