(* ===== verification/Agent_Protocol.thy ===== *)
theory Agent_Protocol
  imports Agent_Loop "HOL-Library.Sublist"
begin

text \<open>
  What the agent loop promises its listeners: the grammar of the event stream, as an automaton with
  the open message, the running tools and the transcript in its state. The lemmas show, operation by
  operation, that the loop of \<open>Agent_Loop\<close> follows the automaton from every world and with every
  tool, hook, sink and schedule, and that the transcript the events describe is the list of new
  messages that the loop returns.
\<close>

section \<open>The protocol\<close>

record protocol =
  px_started :: bool
  px_ended :: bool
  px_turn :: bool
  px_open :: "agent_message option"
  px_running :: "string multiset"
  px_transcript :: "agent_message list"

definition protocol_start :: protocol where
  "protocol_start = \<lparr>px_started = False, px_ended = False, px_turn = False, px_open = None,
     px_running = {#}, px_transcript = []\<rparr>"

definition call_key :: "tool_call \<Rightarrow> string \<times> string" where
  "call_key tc = (tc_id tc, tc_name tc)"

definition result_key :: "tool_result_message \<Rightarrow> string \<times> string" where
  "result_key m = (tr_toolCallId m, tr_toolName m)"

text \<open>
  The results of a turn answer the calls of its message in order, from the first on; a failed
  message has none, and a message cut off by the token limit has an error for each of its calls.
\<close>

definition results_answer :: "assistant_message \<Rightarrow> tool_result_message list \<Rightarrow> bool" where
  "results_answer m trs \<longleftrightarrow>
     prefix (map result_key trs) (map call_key (tool_calls_of m)) \<and>
     (am_stopReason m \<in> {StopError, Aborted} \<longrightarrow> trs = []) \<and>
     (am_stopReason m = Length \<longrightarrow>
        length trs = length (tool_calls_of m) \<and> list_all tr_isError trs)"

text \<open>\<open>same_role\<close>: an assistant message may change while it streams; other messages may not.\<close>

definition same_message :: "agent_message \<Rightarrow> agent_message \<Rightarrow> bool" where
  "same_message m m' \<longleftrightarrow> m = m' \<or> (is_assistant m \<and> is_assistant m')"

definition quiet_state :: "protocol \<Rightarrow> bool" where
  "quiet_state q \<longleftrightarrow> px_open q = None \<and> px_running q = {#}"

fun event_step :: "protocol \<Rightarrow> agent_event \<Rightarrow> protocol option" where
  "event_step q TurnStart =
     (if quiet_state q \<and> \<not> px_turn q then Some (q\<lparr>px_turn := True\<rparr>) else None)"
| "event_step q (MessageStart m) =
     (if quiet_state q \<and> px_turn q then Some (q\<lparr>px_open := Some m\<rparr>) else None)"
| "event_step q (MessageUpdate m ev) =
     (case px_open q of
        Some m0 \<Rightarrow> if is_assistant m0 \<and> is_assistant m then Some (q\<lparr>px_open := Some m\<rparr>) else None
      | None \<Rightarrow> None)"
| "event_step q (MessageEnd m) =
     (case px_open q of
        Some m0 \<Rightarrow> if same_message m0 m
          then Some (q\<lparr>px_open := None, px_transcript := px_transcript q @ [m]\<rparr>) else None
      | None \<Rightarrow> None)"
| "event_step q (ToolExecutionStart i n a) =
     (if px_turn q \<and> px_open q = None then Some (q\<lparr>px_running := add_mset i (px_running q)\<rparr>) else None)"
| "event_step q (ToolExecutionUpdate i n a r) =
     (if i \<in># px_running q \<and> px_open q = None then Some q else None)"
| "event_step q (ToolExecutionEnd i n r e) =
     (if i \<in># px_running q \<and> px_open q = None
      then Some (q\<lparr>px_running := px_running q - {#i#}\<rparr>) else None)"
| "event_step q (TurnEnd m trs) =
     (case m of
        Assistant am \<Rightarrow>
          if quiet_state q \<and> px_turn q \<and> suffix (m # map ToolResult trs) (px_transcript q)
             \<and> results_answer am trs
          then Some (q\<lparr>px_turn := False\<rparr>) else None
      | _ \<Rightarrow> None)"
| "event_step q (AgentEnd ms) =
     (if quiet_state q \<and> \<not> px_turn q \<and> ms = px_transcript q then Some (q\<lparr>px_ended := True\<rparr>) else None)"
| "event_step q AgentStart = None"

definition protocol_step :: "protocol \<Rightarrow> agent_event \<Rightarrow> protocol option" where
  "protocol_step q e =
     (if px_ended q then None
      else if \<not> px_started q then (if e = AgentStart then Some (q\<lparr>px_started := True\<rparr>) else None)
      else event_step q e)"

text \<open>The states the loop moves through.\<close>

definition in_turn :: "agent_message list \<Rightarrow> string multiset \<Rightarrow> agent_message option \<Rightarrow> protocol" where
  "in_turn ts running op = \<lparr>px_started = True, px_ended = False, px_turn = True, px_open = op,
     px_running = running, px_transcript = ts\<rparr>"

definition between_turns :: "agent_message list \<Rightarrow> protocol" where
  "between_turns ts = \<lparr>px_started = True, px_ended = False, px_turn = False, px_open = None,
     px_running = {#}, px_transcript = ts\<rparr>"

definition all_over :: "agent_message list \<Rightarrow> protocol" where
  "all_over ts = (between_turns ts)\<lparr>px_ended := True\<rparr>"

lemma protocol_step_in_turn [simp]:
  "protocol_step (in_turn ts M None) (MessageStart m) = (if M = {#} then Some (in_turn ts M (Some m)) else None)"
  "protocol_step (in_turn ts M (Some m0)) (MessageUpdate m ev) =
     (if is_assistant m0 \<and> is_assistant m then Some (in_turn ts M (Some m)) else None)"
  "protocol_step (in_turn ts M (Some m0)) (MessageEnd m) =
     (if same_message m0 m then Some (in_turn (ts @ [m]) M None) else None)"
  "protocol_step (in_turn ts M None) (ToolExecutionStart i n a) = Some (in_turn ts (add_mset i M) None)"
  "protocol_step (in_turn ts M None) (ToolExecutionUpdate i n a r) =
     (if i \<in># M then Some (in_turn ts M None) else None)"
  "protocol_step (in_turn ts M None) (ToolExecutionEnd i n r e) =
     (if i \<in># M then Some (in_turn ts (M - {#i#}) None) else None)"
  "protocol_step (in_turn ts {#} None) (TurnEnd (Assistant am) trs) =
     (if suffix (Assistant am # map ToolResult trs) ts \<and> results_answer am trs
      then Some (between_turns ts) else None)"
  by (simp_all add: protocol_step_def in_turn_def between_turns_def quiet_state_def)

lemma protocol_step_between [simp]:
  "protocol_step (between_turns ts) TurnStart = Some (in_turn ts {#} None)"
  "protocol_step (between_turns ts) (AgentEnd ms) = (if ms = ts then Some (all_over ts) else None)"
  "protocol_step protocol_start AgentStart = Some (between_turns [])"
  by (simp_all add: protocol_step_def in_turn_def between_turns_def all_over_def protocol_start_def
      quiet_state_def)

lemma same_message_simps [simp]:
  "same_message m m" "same_message (Assistant a) (Assistant b)"
  by (simp_all add: same_message_def)

section \<open>Actions that emit nothing\<close>

text \<open>\<open>yields m P\<close>: the action emits no event, and what it returns satisfies \<open>P\<close>.\<close>

definition yields :: "('w, 'e, 'a) act \<Rightarrow> ('a \<Rightarrow> bool) \<Rightarrow> bool" where
  "yields m P \<longleftrightarrow> (\<forall>w r w' es. m w = (r, w', es) \<longrightarrow> es = [] \<and> (\<forall>x. r = Returned x \<longrightarrow> P x))"

lemma yields_ret: "P x \<Longrightarrow> yields (ret x) P"
  by (auto simp: yields_def ret_def)

lemma yields_raise: "yields (raise e) P"
  by (auto simp: yields_def raise_def)

lemma yields_await: "(\<And>x. P x) \<Longrightarrow> yields (await c) P"
  by (auto simp: yields_def await_def split: prod.splits)

lemma yields_gets: "(\<And>x. P x) \<Longrightarrow> yields (gets f) P"
  by (auto simp: yields_def gets_def)

lemma yields_from_sum: "(\<And>v. x = Inr v \<Longrightarrow> P v) \<Longrightarrow> yields (from_sum x) P"
  by (auto simp: from_sum_def yields_ret yields_raise split: sum.splits)

lemma yields_seq: "yields m P \<Longrightarrow> (\<And>x. P x \<Longrightarrow> yields (f x) Q) \<Longrightarrow> yields (seq m f) Q"
  by (fastforce simp: yields_def seq_def split: prod.splits outcome.splits)

lemma yields_try: "yields m P \<Longrightarrow> (\<And>e. yields (h e) P) \<Longrightarrow> yields (try_catch m h) P"
  by (fastforce simp: yields_def try_catch_def split: prod.splits outcome.splits)

lemma yields_mono: "yields m P \<Longrightarrow> (\<And>x. P x \<Longrightarrow> Q x) \<Longrightarrow> yields m Q"
  by (auto simp: yields_def)

lemma follows_yields:
  assumes "yields m P" "\<And>x. P x \<Longrightarrow> R x q"
  shows "follows d q m R"
proof (rule followsI)
  fix w r w' es
  assume "m w = (r, w', es)"
  with assms(1) have "es = []" "\<And>x. r = Returned x \<Longrightarrow> P x" by (auto simp: yields_def)
  with assms(2) show "\<exists>q'. run_events d q es = Some q' \<and> (\<forall>x. r = Returned x \<longrightarrow> R x q')" by auto
qed

lemma follows_seq_yields:
  "yields m P \<Longrightarrow> (\<And>x. P x \<Longrightarrow> follows d q (f x) S) \<Longrightarrow> follows d q (seq m f) S"
  by (rule follows_seq [where R = "\<lambda>x q'. P x \<and> q' = q"]) (auto intro: follows_yields)

lemma follows_attempt_emit:
  "d q e = Some q' \<Longrightarrow> (\<And>r. R r q') \<Longrightarrow> follows d q (attempt (emit_to sink e)) R"
  by (rule followsI) (auto simp: attempt_def emit_to_def split: prod.splits)

lemma follows_await_outcome: "R x q \<Longrightarrow> follows d q (await_outcome r x) R"
  by (cases r) (auto simp: await_outcome_def intro: follows_ret follows_raise follows_hang)

lemma follows_emit_env:
  "d q e = Some q' \<Longrightarrow> R () q' \<Longrightarrow> follows d q (emit env e) R"
  by (simp add: emit_def follows_emit)

lemma follows_seq_emit:
  "d q e = Some q' \<Longrightarrow> follows d q' (f ()) S \<Longrightarrow> follows d q (seq (emit env e) f) S"
  by (rule follows_seq [where R = "\<lambda>_ q''. q'' = q'"]) (auto intro: follows_emit_env)

lemma follows_seq_await: "(\<And>x. follows d q (f x) S) \<Longrightarrow> follows d q (seq (await c) f) S"
  by (rule follows_seq_yields [where P = "\<lambda>_. True"]) (auto intro: yields_await)

lemma follows_seq_gets: "(\<And>x. follows d q (f x) S) \<Longrightarrow> follows d q (seq (gets g) f) S"
  by (rule follows_seq_yields [where P = "\<lambda>_. True"]) (auto intro: yields_gets)

lemma follows_seq_ret: "follows d q (f x) S \<Longrightarrow> follows d q (seq (ret x) f) S"
  by (rule follows_seq_yields [where P = "\<lambda>y. y = x"]) (auto intro: yields_ret)

lemmas follows_rules = follows_seq_emit follows_seq_await follows_seq_gets follows_seq_ret
  follows_ret follows_raise follows_hang follows_await follows_emit_env

section \<open>Messages and responses\<close>

lemma follows_emit_message:
  "follows protocol_step (in_turn ts {#} None) (emit_message env m) (\<lambda>_ q. q = in_turn (ts @ [m]) {#} None)"
  unfolding emit_message_def by (intro follows_rules) simp+

lemma follows_messages:
  "follows protocol_step (in_turn ts {#} None) (for_each (emit_message env) ms)
     (\<lambda>_ q. q = in_turn (ts @ ms) {#} None)"
proof (induction ms arbitrary: ts)
  case Nil
  then show ?case by (simp add: follows_ret)
next
  case (Cons m ms)
  show ?case
    unfolding for_each.simps
    by (rule follows_seq [OF follows_emit_message]) (use Cons[of "ts @ [m]"] in simp)
qed

text \<open>The contract of a response stream: at most one \<open>start\<close> before its last event.\<close>

fun stream_ok :: "bool \<Rightarrow> stream_event list \<Rightarrow> bool" where
  "stream_ok started [] = True"
| "stream_ok started (StreamStart p # es) = (\<not> started \<and> stream_ok True es)"
| "stream_ok started (StreamPart t p # es) = stream_ok started es"
| "stream_ok started (StreamDone m # es) = True"
| "stream_ok started (StreamError m # es) = True"

text \<open>The state while a response is streamed: a message is open exactly after its start.\<close>

definition streaming :: "agent_message list \<Rightarrow> bool \<Rightarrow> protocol \<Rightarrow> bool" where
  "streaming ts added q \<longleftrightarrow>
     (if added then (\<exists>p. q = in_turn ts {#} (Some (Assistant p))) else q = in_turn ts {#} None)"

lemma follows_finish_response:
  "streaming ts added q \<Longrightarrow>
     follows protocol_step q (finish_response env result added cx)
       (\<lambda>(m, _) q'. q' = in_turn (ts @ [Assistant m]) {#} None)"
  unfolding finish_response_def
  by (auto simp: streaming_def split: option.splits intro!: follows_rules)

lemma follows_consume_response:
  "stream_ok added es \<Longrightarrow> streaming ts added q \<Longrightarrow>
     follows protocol_step q (consume_response env ends result es added cx)
       (\<lambda>(m, _) q'. q' = in_turn (ts @ [Assistant m]) {#} None)"
proof (induction env ends result es added cx arbitrary: q rule: consume_response.induct)
  case (1 env ends result added cx)
  then show ?case by (simp add: follows_finish_response follows_hang)
next
  case (2 env ends result p es added cx)
  then show ?case by (auto simp: streaming_def intro!: follows_rules)
next
  case (3 env ends result t p es added cx)
  show ?case
  proof (cases added)
    case True
    with "3.prems" obtain p0 where q: "q = in_turn ts {#} (Some (Assistant p0))" and ok: "stream_ok True es"
      by (auto simp: streaming_def)
    have "follows protocol_step (in_turn ts {#} (Some (Assistant p)))
        (consume_response env ends result es True (replace_message (Assistant p) cx))
        (\<lambda>(m, _) q'. q' = in_turn (ts @ [Assistant m]) {#} None)"
      by (rule "3.IH"(1) [OF True ok]) (auto simp: streaming_def)
    then show ?thesis by (auto simp: True q intro!: follows_seq_emit)
  next
    case False
    with 3 show ?thesis by simp
  qed
qed (simp_all add: follows_finish_response)

definition stream_contract :: "'w loop_env \<Rightarrow> bool" where
  "stream_contract env \<longleftrightarrow> (\<forall>mdl cx opts w resp w'.
     le_streamFn env mdl cx opts w = (Returned resp, w') \<longrightarrow> stream_ok False (rp_events resp))"

lemma yields_streamFn:
  "stream_contract env \<Longrightarrow>
     yields (await (le_streamFn env mdl cx opts)) (\<lambda>resp. stream_ok False (rp_events resp))"
  unfolding yields_def await_def stream_contract_def by (simp split: prod.splits) blast

lemma follows_streamAssistantResponse:
  assumes "stream_contract env"
  shows "follows protocol_step (in_turn ts {#} None) (streamAssistantResponse env config cx)
           (\<lambda>(m, _) q. q = in_turn (ts @ [Assistant m]) {#} None)"
  unfolding streamAssistantResponse_def
  by (intro follows_seq_yields [where P = "\<lambda>_. True"]
        follows_seq_yields [OF yields_streamFn [OF assms]] follows_consume_response)
     (auto split: option.splits intro: yields_ret yields_await simp: streaming_def)

section \<open>Preparing and finalizing a call\<close>

text \<open>Neither the name nor the id of a call changes on its way to its result.\<close>

fun preparation_ok :: "tool_call \<Rightarrow> 'w preparation \<Rightarrow> bool" where
  "preparation_ok tc (Immediate r e) = True"
| "preparation_ok tc (Prepared p) = (call_key (pp_toolCall p) = call_key tc)"

lemma prepareToolCallArguments_key:
  "prepareToolCallArguments tool tc = Inr tc' \<Longrightarrow> call_key tc' = call_key tc"
  by (auto simp: prepareToolCallArguments_def call_key_def split: option.splits sum.splits if_splits)

lemma yields_ready:
  "call_key tc' = call_key tc \<Longrightarrow> yields (ready_unless_aborted env tool tc' args) (preparation_ok tc)"
  unfolding ready_unless_aborted_def
  by (rule yields_seq [OF yields_gets [where P = "\<lambda>_. True"]]) (auto intro!: yields_ret simp: aborted_outcome_def)

lemma call_key_arguments [simp]: "call_key (tc\<lparr>tc_arguments := a\<rparr>) = call_key tc"
  by (simp add: call_key_def)

lemma yields_prepare_known_tool:
  "yields (prepare_known_tool env config cx am tc tool) (preparation_ok tc)"
  unfolding prepare_known_tool_def
proof (rule yields_seq [where P = "\<lambda>tc'. call_key tc' = call_key tc"])
  show "yields (from_sum (prepareToolCallArguments tool tc)) (\<lambda>tc'. call_key tc' = call_key tc)"
    by (auto intro!: yields_from_sum dest: prepareToolCallArguments_key)
qed (auto split: option.splits simp: aborted_outcome_def
      intro!: yields_seq [where P = "\<lambda>_. True"] yields_from_sum yields_await yields_gets yields_ret yields_ready)

lemma yields_prepareToolCall: "yields (prepareToolCall env config cx am tc) (preparation_ok tc)"
  unfolding prepareToolCall_def
  by (auto split: option.splits intro!: yields_ret yields_try yields_prepare_known_tool)

lemma yields_start_tool: "yields (start_tool p) (\<lambda>_. True)"
  unfolding start_tool_def by (rule yields_await) simp

lemma yields_finalize:
  "yields (finalizeExecutedToolCall env config cx am p x) (\<lambda>f. fz_toolCall f = pp_toolCall p)"
  unfolding finalizeExecutedToolCall_def
  by (rule yields_seq [where P = "\<lambda>_. True"])
     (auto split: option.splits intro!: yields_ret yields_try yields_seq [where P = "\<lambda>_. True"] yields_await)

lemma follows_play_script:
  "tc_id (pp_toolCall p) \<in># M \<Longrightarrow>
     follows protocol_step (in_turn ts M None) (play_script env p pending script)
       (\<lambda>_ q. q = in_turn ts M None)"
proof (induction env p pending script rule: play_script.induct)
  case (2 env p pending u s)
  then show ?case
    by (auto simp: emit_update_def emit_def
        intro!: follows_seq [where R = "\<lambda>_ q. q = in_turn ts M None"] follows_attempt_emit)
qed (auto intro: follows_hang follows_await_outcome)

lemma createToolResultMessage_key [simp]:
  "result_key (createToolResultMessage now f) = call_key (fz_toolCall f)"
  by (simp add: result_key_def call_key_def createToolResultMessage_def)

lemma createToolResultMessage_isError [simp]:
  "tr_isError (createToolResultMessage now f) = fz_isError f"
  by (simp add: createToolResultMessage_def)

definition answers :: "finalized_tool_call \<Rightarrow> tool_result_message \<Rightarrow> bool" where
  "answers f m \<longleftrightarrow> result_key m = call_key (fz_toolCall f) \<and> tr_isError m = fz_isError f"

lemma follows_publish_result:
  "follows protocol_step (in_turn ts {#} None) (publish_result env f)
     (\<lambda>m q. q = in_turn (ts @ [ToolResult m]) {#} None \<and> answers f m)"
  unfolding publish_result_def emitToolResultMessage_def Let_def
  by (rule follows_seq_gets, rule follows_seq [where R = "\<lambda>_ q. q = in_turn (ts @ [ToolResult _]) {#} None"])
     (auto intro!: follows_rules simp: answers_def)

lemma follows_publish_results:
  "follows protocol_step (in_turn ts {#} None) (publish_results env fs)
     (\<lambda>ms q. q = in_turn (ts @ map ToolResult ms) {#} None \<and> list_all2 answers fs ms)"
proof (induction fs arbitrary: ts)
  case Nil
  then show ?case by (simp add: follows_ret)
next
  case (Cons f fs)
  show ?case
    unfolding publish_results.simps
    by (rule follows_seq [OF follows_publish_result])
       (auto intro!: follows_ret follows_seq [OF Cons.IH])
qed

section \<open>Batches\<close>

text \<open>What every batch guarantees of its messages.\<close>

definition batch_ok :: "agent_message list \<Rightarrow> tool_call list \<Rightarrow> tool_result_message list \<Rightarrow> protocol \<Rightarrow> bool" where
  "batch_ok ts tcs ms q \<longleftrightarrow> q = in_turn (ts @ map ToolResult ms) {#} None \<and>
     prefix (map result_key ms) (map call_key tcs)"

lemma truncated_call_simps [simp]:
  "fz_toolCall (truncated_call tc) = tc" "fz_isError (truncated_call tc)"
  by (simp_all add: truncated_call_def)

lemma follows_failToolCalls:
  "follows protocol_step (in_turn ts {#} None) (failToolCallsFromTruncatedMessage env tcs)
     (\<lambda>b q. q = in_turn (ts @ map ToolResult (tb_messages b)) {#} None \<and> \<not> tb_terminate b \<and>
        map result_key (tb_messages b) = map call_key tcs \<and> list_all tr_isError (tb_messages b))"
proof (induction tcs arbitrary: ts)
  case Nil
  then show ?case by (simp add: follows_ret)
next
  case (Cons tc tcs)
  show ?case
    unfolding failToolCallsFromTruncatedMessage.simps emitToolExecutionStart_def emitToolExecutionEnd_def
    by (rule follows_seq_emit, simp, rule follows_seq_emit, simp, simp,
        rule follows_seq [OF follows_publish_result],
        auto intro!: follows_ret follows_seq [OF Cons.IH] simp: answers_def)
qed

lemma follows_run_sequential_call:
  "follows protocol_step (in_turn ts {#tc_id tc#} None) (run_sequential_call env config cx am tc)
     (\<lambda>f q. q = in_turn ts {#tc_id tc#} None \<and> call_key (fz_toolCall f) = call_key tc)"
  unfolding run_sequential_call_def executePreparedToolCall_def
proof (rule follows_seq_yields [OF yields_prepareToolCall], split preparation.split, intro conjI allI impI)
  fix prep and p :: "'a prepared_tool_call"
  assume "preparation_ok tc prep" "prep = Prepared p"
  then have key: "call_key (pp_toolCall p) = call_key tc" by simp
  then have mem: "tc_id (pp_toolCall p) \<in># {#tc_id tc#}" by (simp add: call_key_def)
  show "follows protocol_step (in_turn ts {#tc_id tc#} None)
      (seq (seq (start_tool p) (play_script env p (Returned ())))
        (finalizeExecutedToolCall env config cx am p))
      (\<lambda>f q. q = in_turn ts {#tc_id tc#} None \<and> call_key (fz_toolCall f) = call_key tc)"
    by (rule follows_seq [where R = "\<lambda>_ q. q = in_turn ts {#tc_id tc#} None"])
       (auto intro!: follows_seq_yields [OF yields_start_tool] follows_play_script mem
          follows_yields [OF yields_finalize] simp: key)
qed (auto intro: follows_ret)

lemma follows_sequential_calls:
  "follows protocol_step (in_turn ts {#} None) (sequential_calls env config cx am tcs)
     (\<lambda>rs q. batch_ok ts tcs (map snd rs) q)"
proof (induction tcs arbitrary: ts)
  case Nil
  then show ?case by (simp add: follows_ret batch_ok_def)
next
  case (Cons tc tcs)
  show ?case
    unfolding sequential_calls.simps emitToolExecutionStart_def emitToolExecutionEnd_def
  proof (rule follows_seq_emit, simp, rule follows_seq, rule follows_run_sequential_call, erule conjE, hypsubst)
    fix f :: finalized_tool_call
    assume f: "call_key (fz_toolCall f) = call_key tc"
    then have [simp]: "tc_id (fz_toolCall f) = tc_id tc" by (simp add: call_key_def)
    show "follows protocol_step (in_turn ts {#tc_id tc#} None)
        (seq (emit env (ToolExecutionEnd (tc_id (fz_toolCall f)) (tc_name (fz_toolCall f)) (fz_result f) (fz_isError f)))
          (\<lambda>_. seq (publish_result env f) (\<lambda>m. seq (gets (le_aborted env))
            (\<lambda>ab. if ab then ret [(f, m)] else seq (sequential_calls env config cx am tcs) (\<lambda>rest. ret ((f, m) # rest))))))
        (\<lambda>rs q. batch_ok ts (tc # tcs) (map snd rs) q)"
      by (rule follows_seq_emit [where q' = "in_turn ts {#} None"], simp, rule follows_seq [OF follows_publish_result])
         (auto intro!: follows_seq_gets follows_ret follows_seq [OF Cons.IH] simp: batch_ok_def answers_def f)
  qed
qed

section \<open>Concurrent batches\<close>

fun entry_call :: "'w entry \<Rightarrow> tool_call" where
  "entry_call (Finished f) = fz_toolCall f"
| "entry_call (Waiting p) = pp_toolCall p"
| "entry_call (Running p pending s) = pp_toolCall p"
| "entry_call (Executed p x) = pp_toolCall p"
| "entry_call (Closing f) = fz_toolCall f"

fun entry_pending :: "'w entry \<Rightarrow> string multiset" where
  "entry_pending (Finished f) = {#}"
| "entry_pending e = {#tc_id (entry_call e)#}"

abbreviation entry_key :: "'w entry \<Rightarrow> string \<times> string" where
  "entry_key e \<equiv> call_key (entry_call e)"

definition batch_pending :: "'w entry list \<Rightarrow> string multiset" where
  "batch_pending es = sum_list (map entry_pending es)"

lemma batch_pending_simps [simp]:
  "batch_pending [] = {#}" "batch_pending (e # es) = entry_pending e + batch_pending es"
  by (simp_all add: batch_pending_def)

lemma batch_pending_take:
  "i < length es \<Longrightarrow> batch_pending es = entry_pending (es ! i) + batch_pending (take i es @ drop (Suc i) es)"
  by (induction es arbitrary: i) (auto simp: less_Suc_eq_0_disj nth_Cons' split: if_splits)

lemma batch_pending_update:
  "i < length es \<Longrightarrow>
     batch_pending (es[i := e]) = entry_pending e + batch_pending (take i es @ drop (Suc i) es)"
  using batch_pending_take [of i "es[i := e]"] by simp

lemma follows_prepare_entries:
  "follows protocol_step (in_turn ts M None) (prepare_entries env config cx am tcs)
     (\<lambda>es q. q = in_turn ts (M + batch_pending es) None \<and> prefix (map entry_key es) (map call_key tcs))"
proof (induction tcs arbitrary: M)
  case Nil
  then show ?case by (simp add: follows_ret)
next
  case (Cons tc tcs)
  let ?M = "add_mset (tc_id tc) M"
  have entry: "follows protocol_step (in_turn ts ?M None)
      (case prep of
         Immediate result isError \<Rightarrow>
           let f = \<lparr>fz_toolCall = tc, fz_result = result, fz_isError = isError\<rparr>
           in seq (emitToolExecutionEnd env f) (\<lambda>_. ret (Finished f))
       | Prepared p \<Rightarrow> ret (Waiting p))
      (\<lambda>e q. q = in_turn ts (M + entry_pending e) None \<and> entry_key e = call_key tc)"
    if "preparation_ok tc prep" for prep :: "'a preparation"
    using that
    by (cases prep) (auto simp: emitToolExecutionEnd_def Let_def call_key_def intro!: follows_rules)
  show ?case
    unfolding prepare_entries.simps emitToolExecutionStart_def
    by (rule follows_seq_emit, simp, rule follows_seq_yields [OF yields_prepareToolCall],
        rule follows_seq [OF entry], assumption)
       (auto intro!: follows_seq_gets follows_ret follows_seq [OF Cons.IH] simp: ac_simps)
qed

lemma yields_start_entries:
  "yields (start_entries es) (\<lambda>es'. map entry_key es' = map entry_key es \<and> batch_pending es' = batch_pending es)"
proof (induction es)
  case Nil
  then show ?case by (simp add: yields_ret)
next
  case (Cons e es)
  show ?case
    unfolding start_entries.simps
  proof (rule yields_seq [where P = "\<lambda>e'. entry_key e' = entry_key e \<and> entry_pending e' = entry_pending e"])
    show "yields (case e of Waiting p \<Rightarrow> seq (start_tool p) (\<lambda>script. ret (Running p (Returned ()) script)) | _ \<Rightarrow> ret e)
        (\<lambda>e'. entry_key e' = entry_key e \<and> entry_pending e' = entry_pending e)"
      by (cases e) (auto intro!: yields_ret yields_seq [OF yields_start_tool])
  qed (auto intro!: yields_ret yields_seq [OF Cons.IH])
qed

lemma follows_step_entry:
  assumes "can_move e"
  shows "follows protocol_step (in_turn ts (entry_pending e + N) None) (step_entry env config cx am e)
     (\<lambda>e' q. q = in_turn ts (entry_pending e' + N) None \<and> entry_key e' = entry_key e)"
  using assms
proof (cases e rule: can_move.cases)
  case (4 p pending u s)
  then show ?thesis
    by (auto simp: emit_update_def emit_def intro!: follows_ret follows_attempt_emit
        follows_seq [where R = "\<lambda>_ q. q = in_turn ts (entry_pending e + N) None"])
next
  case (5 p pending r s)
  then show ?thesis by (auto intro!: follows_await_outcome)
next
  case (6 p x)
  then show ?thesis by (auto intro!: follows_seq_yields [OF yields_finalize] follows_ret)
next
  case (7 f)
  then show ?thesis by (auto simp: emitToolExecutionEnd_def intro!: follows_rules)
qed auto

lemma movable_nth: "i \<in> set (movable es) \<Longrightarrow> i < length es \<and> can_move (es ! i)"
  by (auto simp: movable_def)

lemma yields_pick_entry: "movable es \<noteq> [] \<Longrightarrow> yields (pick_entry env es) (\<lambda>i. i \<in> set (movable es))"
  by (auto simp: yields_def pick_entry_def await_def split: prod.splits)

lemma finished_all:
  "those (map finished es) = Some fs \<Longrightarrow>
     map (call_key \<circ> fz_toolCall) fs = map entry_key es \<and> batch_pending es = {#}"
proof (induction es arbitrary: fs)
  case Nil
  then show ?case by simp
next
  case (Cons e es)
  then show ?case by (cases e) (auto split: option.splits)
qed

lemma follows_run_entries:
  "follows protocol_step (in_turn ts (batch_pending es) None) (run_entries n env config cx am es)
     (\<lambda>fs q. q = in_turn ts {#} None \<and> map (call_key \<circ> fz_toolCall) fs = map entry_key es)"
proof (induction n arbitrary: es)
  case 0
  show ?case
    by (subst run_entries.simps)
       (auto split: option.splits intro!: follows_hang follows_ret dest!: finished_all)
next
  case (Suc n)
  show ?case
  proof (cases "movable es = []")
    case True
    then show ?thesis
      by (subst run_entries.simps)
         (auto split: option.splits intro!: follows_hang follows_ret dest!: finished_all)
  next
    case False
    have step: "follows protocol_step (in_turn ts (batch_pending es) None)
        (seq (step_entry env config cx am (es ! i)) (\<lambda>e. run_entries n env config cx am (es[i := e])))
        (\<lambda>fs q. q = in_turn ts {#} None \<and> map (call_key \<circ> fz_toolCall) fs = map entry_key es)"
      if i: "i \<in> set (movable es)" for i
    proof -
      from i have lt: "i < length es" and mv: "can_move (es ! i)" using movable_nth by blast+
      show ?thesis
        unfolding batch_pending_take [OF lt]
      proof (rule follows_seq [OF follows_step_entry [OF mv]], elim conjE, hypsubst)
        fix e' :: "'a entry"
        assume key: "entry_key e' = entry_key (es ! i)"
        have "map entry_key (es[i := e']) = map entry_key es"
          using key lt by (simp add: map_update list_update_same_conv)
        with Suc.IH [of "es[i := e']"]
        show "follows protocol_step (in_turn ts (entry_pending e' + batch_pending (take i es @ drop (Suc i) es)) None)
            (run_entries n env config cx am (es[i := e']))
            (\<lambda>fs q. q = in_turn ts {#} None \<and> map (call_key \<circ> fz_toolCall) fs = map entry_key es)"
          by (simp add: batch_pending_update [OF lt] comp_def)
      qed
    qed
    show ?thesis
      by (subst run_entries.simps) (simp add: False follows_seq_yields [OF yields_pick_entry [OF False]] step)
  qed
qed

lemma answers_keys: "list_all2 answers fs ms \<Longrightarrow> map result_key ms = map (call_key \<circ> fz_toolCall) fs"
  by (induction rule: list_all2_induct) (auto simp: answers_def)

lemma follows_executeToolCallsParallel:
  "follows protocol_step (in_turn ts {#} None) (executeToolCallsParallel env config cx am tcs)
     (\<lambda>b q. batch_ok ts tcs (tb_messages b) q)"
  unfolding executeToolCallsParallel_def
proof (rule follows_seq [OF follows_prepare_entries], elim conjE, hypsubst)
  fix es :: "'a entry list"
  assume es: "prefix (map entry_key es) (map call_key tcs)"
  show "follows protocol_step (in_turn ts ({#} + batch_pending es) None)
      (seq (start_entries es) (\<lambda>es'. seq (run_entries (batch_measure es') env config cx am es')
        (\<lambda>fs. seq (publish_results env fs)
          (\<lambda>ms. ret \<lparr>tb_messages = ms, tb_terminate = shouldTerminateToolBatch fs\<rparr>))))
      (\<lambda>b q. batch_ok ts tcs (tb_messages b) q)"
  proof (rule follows_seq_yields [OF yields_start_entries], elim conjE)
    fix es' :: "'a entry list"
    assume es': "map entry_key es' = map entry_key es" "batch_pending es' = batch_pending es"
    show "follows protocol_step (in_turn ts ({#} + batch_pending es) None)
      (seq (run_entries (batch_measure es') env config cx am es')
        (\<lambda>fs. seq (publish_results env fs)
          (\<lambda>ms. ret \<lparr>tb_messages = ms, tb_terminate = shouldTerminateToolBatch fs\<rparr>)))
      (\<lambda>b q. batch_ok ts tcs (tb_messages b) q)"
      unfolding add_0 es'(2) [symmetric]
    proof (rule follows_seq [OF follows_run_entries], elim conjE, hypsubst)
      fix fs :: "finalized_tool_call list"
      assume fs: "map (call_key \<circ> fz_toolCall) fs = map entry_key es'"
      show "follows protocol_step (in_turn ts {#} None)
        (seq (publish_results env fs) (\<lambda>ms. ret \<lparr>tb_messages = ms, tb_terminate = shouldTerminateToolBatch fs\<rparr>))
        (\<lambda>b q. batch_ok ts tcs (tb_messages b) q)"
        by (rule follows_seq [OF follows_publish_results])
           (use es es' fs in \<open>auto intro!: follows_ret simp: batch_ok_def dest: answers_keys\<close>)
    qed
  qed
qed

lemma follows_executeToolCalls:
  "follows protocol_step (in_turn ts {#} None) (executeToolCalls env config cx am)
     (\<lambda>b q. batch_ok ts (tool_calls_of am) (tb_messages b) q)"
  unfolding executeToolCalls_def executeToolCallsSequential_def Let_def
  by (auto intro!: follows_executeToolCallsParallel follows_seq [OF follows_sequential_calls] follows_ret)

section \<open>Turns and runs\<close>

definition loop_at :: "'w loop_state \<Rightarrow> protocol \<Rightarrow> bool" where
  "loop_at st q \<longleftrightarrow>
     q = (if ls_firstTurn st then in_turn (ls_newMessages st) {#} None else between_turns (ls_newMessages st)) \<and>
     (ls_firstTurn st \<longrightarrow> ls_hasMoreToolCalls st)"

fun turn_result_at :: "agent_message list + 'w loop_state \<Rightarrow> protocol \<Rightarrow> bool" where
  "turn_result_at (Inl msgs) q = (q = all_over msgs)"
| "turn_result_at (Inr st) q = (loop_at st q \<and> \<not> ls_firstTurn st)"

lemma add_messages_simps [simp]:
  "ls_newMessages (add_messages ms st) = ls_newMessages st @ ms"
  "ls_firstTurn (add_messages ms st) = ls_firstTurn st"
  by (simp_all add: add_messages_def)

lemma follows_begin_turn:
  "loop_at st q \<Longrightarrow> follows protocol_step q (begin_turn env st)
     (\<lambda>st' q'. q' = in_turn (ls_newMessages st') {#} None \<and> \<not> ls_firstTurn st')"
  unfolding begin_turn_def
  by (rule follows_seq [where R = "\<lambda>_ q'. q' = in_turn (ls_newMessages st) {#} None"])
     (auto simp: loop_at_def intro!: follows_rules follows_seq [OF follows_messages])

lemma results_answer_normal:
  "prefix (map result_key trs) (map call_key (tool_calls_of m)) \<Longrightarrow>
     am_stopReason m \<notin> {StopError, Aborted, Length} \<Longrightarrow> results_answer m trs"
  by (simp add: results_answer_def)

lemma follows_run_tool_calls:
  assumes "am_stopReason m \<notin> {StopError, Aborted}"
  shows "follows protocol_step (in_turn ts {#} None) (run_tool_calls env st m)
     (\<lambda>(trs, _) q. q = in_turn (ts @ map ToolResult trs) {#} None \<and> results_answer m trs)"
proof (cases "am_stopReason m = Length")
  case True
  then show ?thesis
    by (auto simp: run_tool_calls_def Let_def results_answer_def
        intro!: follows_ret follows_seq [OF follows_failToolCalls] dest: map_eq_imp_length_eq)
next
  case False
  then show ?thesis
    using assms by (auto simp: run_tool_calls_def Let_def batch_ok_def results_answer_def
        intro!: follows_ret follows_seq [OF follows_executeToolCalls])
qed

lemma apply_turn_update_simps [simp]:
  "ls_newMessages (apply_turn_update u st) = ls_newMessages st"
  "ls_firstTurn (apply_turn_update u st) = ls_firstTurn st"
  "ls_hasMoreToolCalls (apply_turn_update u st) = ls_hasMoreToolCalls st"
  by (simp_all add: apply_turn_update_def split: option.splits)

lemma yields_call_opt: "yields (call_opt c d) (\<lambda>_. True)"
  by (auto simp: call_opt_def intro: yields_ret yields_await split: option.splits)

lemma follows_after_turn:
  "\<not> ls_firstTurn st \<Longrightarrow>
     follows protocol_step (between_turns (ls_newMessages st)) (after_turn env m trs st) turn_result_at"
  unfolding after_turn_def Let_def
  by (rule follows_seq_yields [where P = "\<lambda>_. True"],
      (auto split: option.splits intro: yields_ret yields_await)[1],
      rule follows_seq_yields [where P = "\<lambda>_. True"],
      (auto split: option.splits intro: yields_ret yields_await)[1])
     (auto intro!: follows_rules follows_seq_yields [OF yields_call_opt] simp: loop_at_def)

lemma follows_run_turn:
  assumes "stream_contract env" "loop_at st q"
  shows "follows protocol_step q (run_turn env st) turn_result_at"
  unfolding run_turn_def
proof (rule follows_seq [OF follows_begin_turn [OF assms(2)]], elim conjE, hypsubst)
  fix st1 :: "'a loop_state"
  assume st1: "\<not> ls_firstTurn st1"
  let ?ts = "ls_newMessages st1"
  have failed: "follows protocol_step (in_turn (?ts @ [Assistant m]) {#} None)
      (seq (emit env (TurnEnd (Assistant m) [])) (\<lambda>_. seq (emit env (AgentEnd (?ts @ [Assistant m])))
        (\<lambda>_. ret (Inl (?ts @ [Assistant m]))))) turn_result_at"
    if "am_stopReason m \<in> {StopError, Aborted}" for m
    by (rule follows_seq_emit [where q' = "between_turns (?ts @ [Assistant m])"])
       (use that in \<open>auto simp: results_answer_def suffix_def intro!: follows_rules\<close>)
  have continued: "follows protocol_step (in_turn (?ts @ [Assistant m]) {#} None)
      (seq (run_tool_calls env st2 m) (\<lambda>(trs, more).
         let st3 = (add_messages (map ToolResult trs) st2)\<lparr>ls_hasMoreToolCalls := more\<rparr>
         in seq (emit env (TurnEnd (Assistant m) trs)) (\<lambda>_. after_turn env m trs st3))) turn_result_at"
    if m: "am_stopReason m \<notin> {StopError, Aborted}"
      and st2: "ls_newMessages st2 = ?ts @ [Assistant m]" "\<not> ls_firstTurn st2" for m and st2 :: "'a loop_state"
  proof (rule follows_seq [OF follows_run_tool_calls [OF m]], clarify)
    fix trs more
    assume ok: "results_answer m trs"
    let ?st3 = "(add_messages (map ToolResult trs) st2)\<lparr>ls_hasMoreToolCalls := more\<rparr>"
    have "follows protocol_step (between_turns (ls_newMessages ?st3)) (after_turn env m trs ?st3) turn_result_at"
      by (rule follows_after_turn) (simp add: st2)
    then show "follows protocol_step (in_turn ((?ts @ [Assistant m]) @ map ToolResult trs) {#} None)
        (let st3 = ?st3 in seq (emit env (TurnEnd (Assistant m) trs)) (\<lambda>_. after_turn env m trs st3)) turn_result_at"
      by (auto simp: Let_def st2 ok suffix_def intro!: follows_seq_emit)
  qed
  show "follows protocol_step (in_turn ?ts {#} None)
    (seq (streamAssistantResponse env (ls_config st1) (ls_context st1)) (\<lambda>(message, cx).
        let st2 = st1\<lparr>ls_context := cx, ls_newMessages := ls_newMessages st1 @ [Assistant message]\<rparr> in
        if am_stopReason message \<in> {StopError, Aborted}
        then seq (emit env (TurnEnd (Assistant message) []))
             (\<lambda>_. seq (emit env (AgentEnd (ls_newMessages st2)))
             (\<lambda>_. ret (Inl (ls_newMessages st2))))
        else seq (run_tool_calls env st2 message)
             (\<lambda>(toolResults, more).
                let st3 = (add_messages (map ToolResult toolResults) st2)\<lparr>ls_hasMoreToolCalls := more\<rparr> in
                seq (emit env (TurnEnd (Assistant message) toolResults))
                (\<lambda>_. after_turn env message toolResults st3)))) turn_result_at"
  proof (rule follows_seq [OF follows_streamAssistantResponse [OF assms(1)]], clarify)
    fix m cx
    let ?st2 = "st1\<lparr>ls_context := cx, ls_newMessages := ls_newMessages st1 @ [Assistant m]\<rparr>"
    show "follows protocol_step (in_turn (?ts @ [Assistant m]) {#} None)
      (let st2 = ?st2 in
        if am_stopReason m \<in> {StopError, Aborted}
        then seq (emit env (TurnEnd (Assistant m) []))
             (\<lambda>_. seq (emit env (AgentEnd (ls_newMessages st2)))
             (\<lambda>_. ret (Inl (ls_newMessages st2))))
        else seq (run_tool_calls env st2 m)
             (\<lambda>(toolResults, more).
                let st3 = (add_messages (map ToolResult toolResults) st2)\<lparr>ls_hasMoreToolCalls := more\<rparr> in
                seq (emit env (TurnEnd (Assistant m) toolResults))
                (\<lambda>_. after_turn env m toolResults st3))) turn_result_at"
    proof (cases "am_stopReason m \<in> {StopError, Aborted}")
      case True
      then show ?thesis using failed [OF True] by (simp add: Let_def)
    next
      case False
      then show ?thesis using continued [OF False, of ?st2] st1 by (simp add: Let_def)
    qed
  qed
qed

lemma follows_run_loop:
  "stream_contract env \<Longrightarrow> loop_at st q \<Longrightarrow>
     follows protocol_step q (run_loop n env st) (\<lambda>msgs q'. q' = all_over msgs)"
proof (induction n arbitrary: st q)
  case 0
  then show ?case by (simp add: follows_hang)
next
  case (Suc n)
  show ?case
  proof (cases "ls_hasMoreToolCalls st \<or> ls_pending st \<noteq> []")
    case True
    then show ?thesis
      by (auto split: sum.splits intro!: follows_seq [OF follows_run_turn [OF Suc.prems]] follows_ret Suc.IH Suc.prems)
  next
    case False
    then have q: "q = between_turns (ls_newMessages st)" "\<not> ls_firstTurn st"
      using Suc.prems(2) by (auto simp: loop_at_def)
    with False show ?thesis
      by (auto intro!: follows_seq_yields [OF yields_call_opt] follows_rules Suc.IH Suc.prems simp: loop_at_def)
  qed
qed

lemma follows_runLoop:
  "stream_contract env \<Longrightarrow>
     follows protocol_step (in_turn ts {#} None) (runLoop fuel env cx ts config) (\<lambda>msgs q. q = all_over msgs)"
  unfolding runLoop_def
  by (rule follows_seq_yields [OF yields_call_opt]) (simp add: follows_run_loop loop_at_def)

lemma follows_runAgentLoop:
  "stream_contract env \<Longrightarrow>
     follows protocol_step protocol_start (runAgentLoop fuel env prompts cx config) (\<lambda>msgs q. q = all_over msgs)"
  unfolding runAgentLoop_def
  by (rule follows_seq_emit, simp, rule follows_seq_emit, simp, rule follows_seq [OF follows_messages])
     (simp add: follows_runLoop)

lemma follows_runAgentLoopContinue:
  "stream_contract env \<Longrightarrow>
     follows protocol_step protocol_start (runAgentLoopContinue fuel env cx config) (\<lambda>msgs q. q = all_over msgs)"
  unfolding runAgentLoopContinue_def
  by (auto intro!: follows_raise follows_seq_emit follows_runLoop)

end
