(* ===== verification/Agent_Safety.thy ===== *)
theory Agent_Safety
  imports Agent_Protocol
begin

text \<open>
  Further properties of the agent loop: the arguments a tool is executed with were validated, a
  blocked call is never prepared, a batch that is not aborted answers every call, the concurrent
  phase never runs out of steps, fuel only bounds the number of turns, and a run with a model that
  stops returns.
\<close>

section \<open>What actions return\<close>

definition returns :: "('w, 'e, 'a) act \<Rightarrow> ('a \<Rightarrow> bool) \<Rightarrow> bool" where
  "returns m P \<longleftrightarrow> (\<forall>w x w' es. m w = (Returned x, w', es) \<longrightarrow> P x)"

lemma returnsD: "returns m P \<Longrightarrow> m w = (Returned x, w', es) \<Longrightarrow> P x"
  by (auto simp: returns_def)

lemma returns_True [simp]: "returns m (\<lambda>_. True)"
  by (simp add: returns_def)

lemma returns_ret: "P x \<Longrightarrow> returns (ret x) P"
  by (simp add: returns_def ret_def)

lemma returns_raise: "returns (raise e) P"
  by (simp add: returns_def raise_def)

lemma returns_hang: "returns hang P"
  by (simp add: returns_def hang_def)

lemma returns_seq: "returns m P \<Longrightarrow> (\<And>x. P x \<Longrightarrow> returns (f x) Q) \<Longrightarrow> returns (seq m f) Q"
  by (fastforce simp: returns_def seq_def split: prod.splits outcome.splits)

lemma returns_seq_any: "(\<And>x. returns (f x) Q) \<Longrightarrow> returns (seq m f) Q"
  by (rule returns_seq [where P = "\<lambda>_. True"]) simp_all

lemma returns_yields: "yields m P \<Longrightarrow> returns m P"
  by (auto simp: returns_def yields_def)

lemma returns_gets: "(\<And>w. P (f w)) \<Longrightarrow> returns (gets f) P"
  by (auto simp: returns_def gets_def)

lemma returns_mono: "returns m P \<Longrightarrow> (\<And>x. P x \<Longrightarrow> Q x) \<Longrightarrow> returns m Q"
  by (auto simp: returns_def)

lemma returns_await_outcome: "P x \<Longrightarrow> returns (await_outcome r x) P"
  by (cases r) (auto simp: await_outcome_def intro: returns_ret returns_raise returns_hang)

section \<open>Validated arguments and blocked calls\<close>

text \<open>
  What a prepared call carries: the tool of that name, and arguments its schema accepted. A hook may
  change the arguments in place after their validation, so this holds for hooks that do not.
\<close>

definition keeps_args :: "'w loop_config \<Rightarrow> bool" where
  "keeps_args config \<longleftrightarrow> (\<forall>hook c w r a w'. lc_beforeToolCall config = Some hook \<longrightarrow>
     hook c w = (Returned (r, a), w') \<longrightarrow> a = bc_args c)"

fun prepared_valid :: "'w loop_env \<Rightarrow> 'w agent_tool \<Rightarrow> 'w preparation \<Rightarrow> bool" where
  "prepared_valid env tool (Immediate r e) = e"
| "prepared_valid env tool (Prepared p) =
     (pp_tool p = tool \<and> le_validate env tool (pp_toolCall p) = Inr (pp_args p))"

lemma yields_ready_valid:
  "le_validate env tool tc = Inr args \<Longrightarrow>
     yields (ready_unless_aborted env tool tc args) (prepared_valid env tool)"
  unfolding ready_unless_aborted_def
  by (rule yields_seq [OF yields_gets [where P = "\<lambda>_. True"]])
     (auto intro!: yields_ret simp: aborted_outcome_def)

lemma yields_hook:
  assumes "keeps_args config" "lc_beforeToolCall config = Some hook"
  shows "yields (await (hook c)) (\<lambda>(r, a). a = bc_args c)"
proof -
  have "a = bc_args c" if "hook c w = (Returned (r, a), w')" for w r a w'
    using assms that unfolding keeps_args_def by blast
  then show ?thesis by (auto simp: yields_def await_def split: prod.splits)
qed

lemma yields_prepare_known_tool_valid:
  assumes "keeps_args config"
  shows "yields (prepare_known_tool env config cx am tc tool) (prepared_valid env tool)"
  unfolding prepare_known_tool_def
proof (rule yields_seq [where P = "\<lambda>_. True"])
  fix effective
  let ?after = "\<lambda>a br ab. if ab then ret aborted_outcome else case br of
      None \<Rightarrow> ready_unless_aborted env tool effective a
    | Some br \<Rightarrow>
        if bt_block br
        then ret (Immediate (createErrorToolResult (or_str (bt_reason br) ''Tool execution was blocked'')) True)
        else (case bt_arguments br of
                None \<Rightarrow> ready_unless_aborted env tool effective a
              | Some rewritten \<Rightarrow>
                  seq (from_sum (le_validate env tool (effective\<lparr>tc_arguments := rewritten\<rparr>)))
                  (\<lambda>args. ready_unless_aborted env tool (effective\<lparr>tc_arguments := rewritten\<rparr>) args))"
  have after: "yields (?after a br ab) (prepared_valid env tool)"
    if "le_validate env tool effective = Inr a" for a br ab
    using that
    by (auto split: option.splits simp: aborted_outcome_def
          intro!: yields_from_sum yields_ret yields_ready_valid
            yields_seq [where P = "\<lambda>args. le_validate env tool (_\<lparr>tc_arguments := _\<rparr>) = Inr args"])
  show "yields (seq (from_sum (le_validate env tool effective))
     (\<lambda>validatedArgs.
        case lc_beforeToolCall config of
          None \<Rightarrow> ready_unless_aborted env tool effective validatedArgs
        | Some hook \<Rightarrow>
            seq (await (hook \<lparr>bc_assistantMessage = am, bc_toolCall = tc,
                              bc_args = validatedArgs, bc_context = cx\<rparr>))
            (\<lambda>(br, a). seq (gets (le_aborted env)) (\<lambda>ab. ?after a br ab))))
     (prepared_valid env tool)"
    by (rule yields_seq [where P = "\<lambda>args. le_validate env tool effective = Inr args"])
       (auto split: option.splits intro!: yields_from_sum yields_ready_valid after
            yields_seq [OF yields_hook [OF assms]]
            yields_seq [OF yields_gets [where P = "\<lambda>_. True"]])
qed (auto intro: yields_from_sum)

lemma prepareToolCall_valid:
  "keeps_args config \<Longrightarrow> prepareToolCall env config cx am tc w = (Returned (Prepared p), w', es) \<Longrightarrow>
     find_tool cx (tc_name tc) = Some (pp_tool p) \<and>
     le_validate env (pp_tool p) (pp_toolCall p) = Inr (pp_args p) \<and> call_key (pp_toolCall p) = call_key tc"
proof -
  assume keeps: "keeps_args config"
    and run: "prepareToolCall env config cx am tc w = (Returned (Prepared p), w', es)"
  then obtain tool where tool: "find_tool cx (tc_name tc) = Some tool"
    by (auto simp: prepareToolCall_def ret_def split: option.splits)
  have "yields (prepareToolCall env config cx am tc) (prepared_valid env tool)"
    unfolding prepareToolCall_def tool
    by (auto intro!: yields_try yields_prepare_known_tool_valid [OF keeps] yields_ret)
  from returnsD [OF returns_yields [OF this] run] have "prepared_valid env tool (Prepared p)" .
  moreover have "preparation_ok tc (Prepared p)"
    using returnsD [OF returns_yields [OF yields_prepareToolCall] run] .
  ultimately show ?thesis using tool by simp
qed

text \<open>Whatever the hook does, a prepared call runs the tool that the context has under its name.\<close>

fun prepared_tool :: "'w agent_tool \<Rightarrow> 'w preparation \<Rightarrow> bool" where
  "prepared_tool tool (Immediate r e) = True"
| "prepared_tool tool (Prepared p) = (pp_tool p = tool)"

lemma yields_ready_tool: "yields (ready_unless_aborted env tool tc args) (prepared_tool tool)"
  unfolding ready_unless_aborted_def
  by (rule yields_seq [OF yields_gets [where P = "\<lambda>_. True"]])
     (auto intro!: yields_ret simp: aborted_outcome_def)

lemma prepareToolCall_tool:
  assumes run: "prepareToolCall env config cx am tc w = (Returned (Prepared p), w', es)"
  shows "find_tool cx (tc_name tc) = Some (pp_tool p)"
proof -
  from run obtain tool where tool: "find_tool cx (tc_name tc) = Some tool"
    by (auto simp: prepareToolCall_def ret_def split: option.splits)
  have "yields (prepareToolCall env config cx am tc) (prepared_tool tool)"
    unfolding prepareToolCall_def prepare_known_tool_def tool
    by (auto split: option.splits prod.splits simp: aborted_outcome_def
        intro!: yields_try yields_ret yields_ready_tool
          yields_seq [OF yields_from_sum [where P = "\<lambda>_. True"]]
          yields_seq [OF yields_await [where P = "\<lambda>_. True"]]
          yields_seq [OF yields_gets [where P = "\<lambda>_. True"]])
  from returnsD [OF returns_yields [OF this] run] show ?thesis using tool by simp
qed

text \<open>A hook that blocks makes an error outcome with its reason; the tool is not prepared.\<close>

lemma prepareToolCall_hook:
  assumes tool: "find_tool cx (tc_name tc) = Some tool"
    and eff: "prepareToolCallArguments tool tc = Inr tc'" and args: "le_validate env tool tc' = Inr args"
    and hook: "lc_beforeToolCall config = Some hook"
    and result: "hook \<lparr>bc_assistantMessage = am, bc_toolCall = tc, bc_args = args, bc_context = cx\<rparr> w
                   = (Returned (br, a), w')"
    and alive: "\<not> le_aborted env w'"
  shows "prepareToolCall env config cx am tc w =
    (Returned (case br of
        None \<Rightarrow> Prepared \<lparr>pp_toolCall = tc', pp_tool = tool, pp_args = a\<rparr>
      | Some b \<Rightarrow>
          if bt_block b
          then Immediate (createErrorToolResult (or_str (bt_reason b) ''Tool execution was blocked'')) True
          else (case bt_arguments b of
                  None \<Rightarrow> Prepared \<lparr>pp_toolCall = tc', pp_tool = tool, pp_args = a\<rparr>
                | Some new \<Rightarrow>
                    (case le_validate env tool (tc'\<lparr>tc_arguments := new\<rparr>) of
                       Inl e \<Rightarrow> Immediate (createErrorToolResult e) True
                     | Inr args' \<Rightarrow> Prepared \<lparr>pp_toolCall = tc'\<lparr>tc_arguments := new\<rparr>, pp_tool = tool,
                                               pp_args = args'\<rparr>))), w', [])"
  using assms
  by (auto simp: prepareToolCall_def prepare_known_tool_def ready_unless_aborted_def try_catch_def seq_def
      from_sum_def ret_def raise_def await_def gets_def split: option.splits sum.splits)

lemma prepareToolCall_blocked:
  assumes "find_tool cx (tc_name tc) = Some tool"
    and "prepareToolCallArguments tool tc = Inr tc'" and "le_validate env tool tc' = Inr args"
    and "lc_beforeToolCall config = Some hook"
    and "hook \<lparr>bc_assistantMessage = am, bc_toolCall = tc, bc_args = args, bc_context = cx\<rparr> w
                   = (Returned (Some br, a), w')" "bt_block br"
    and "\<not> le_aborted env w'"
  shows "prepareToolCall env config cx am tc w =
    (Returned (Immediate (createErrorToolResult (or_str (bt_reason br) ''Tool execution was blocked'')) True), w', [])"
  using prepareToolCall_hook [OF assms(1-5) assms(7)] assms(6) by simp

section \<open>Complete batches\<close>

lemma returns_publish_results:
  "returns (publish_results env fs) (\<lambda>ms. list_all2 answers fs ms)"
proof (induction fs)
  case Nil
  then show ?case by (simp add: returns_ret)
next
  case (Cons f fs)
  have "returns (publish_result env f) (answers f)"
    unfolding publish_result_def Let_def by (intro returns_seq_any returns_ret) (simp add: answers_def)
  then show ?case
    unfolding publish_results.simps
    by (rule returns_seq) (auto intro!: returns_seq [OF Cons.IH] returns_ret)
qed

definition never_aborts :: "'w loop_env \<Rightarrow> bool" where
  "never_aborts env \<longleftrightarrow> (\<forall>w. \<not> le_aborted env w)"

lemma returns_run_sequential_call:
  "returns (run_sequential_call env config cx am tc) (\<lambda>f. call_key (fz_toolCall f) = call_key tc)"
  unfolding run_sequential_call_def
  by (rule returns_seq [OF returns_yields [OF yields_prepareToolCall]])
     (auto split: preparation.splits intro!: returns_ret returns_seq_any
        returns_mono [OF returns_yields [OF yields_finalize]])

lemma returns_gets_aborted: "never_aborts env \<Longrightarrow> returns (gets (le_aborted env)) (\<lambda>ab. \<not> ab)"
  by (rule returns_gets) (simp add: never_aborts_def)

lemma returns_sequential_calls:
  assumes "never_aborts env"
  shows "returns (sequential_calls env config cx am tcs)
           (\<lambda>rs. map (result_key \<circ> snd) rs = map call_key tcs)"
proof (induction tcs)
  case Nil
  then show ?case by (simp add: returns_ret)
next
  case (Cons tc tcs)
  have pub: "returns (publish_result env f) (answers f)" for f
    unfolding publish_result_def Let_def by (intro returns_seq_any returns_ret) (simp add: answers_def)
  show ?case
    unfolding sequential_calls.simps
    by (rule returns_seq_any, rule returns_seq [OF returns_run_sequential_call], rule returns_seq_any,
        rule returns_seq [OF pub], rule returns_seq [OF returns_gets_aborted [OF assms]])
       (auto intro!: returns_ret returns_seq [OF Cons.IH] simp: answers_def)
qed

lemma returns_prepare_entries:
  assumes "never_aborts env"
  shows "returns (prepare_entries env config cx am tcs) (\<lambda>es. map entry_key es = map call_key tcs)"
proof (induction tcs)
  case Nil
  then show ?case by (simp add: returns_ret)
next
  case (Cons tc tcs)
  have entry: "returns (case prep of
         Immediate result isError \<Rightarrow>
           let f = \<lparr>fz_toolCall = tc, fz_result = result, fz_isError = isError\<rparr>
           in seq (emitToolExecutionEnd env f) (\<lambda>_. ret (Finished f))
       | Prepared p \<Rightarrow> ret (Waiting p)) (\<lambda>e. entry_key e = call_key tc)"
    if "preparation_ok tc prep" for prep :: "'a preparation"
    using that by (cases prep) (auto simp: Let_def intro!: returns_ret returns_seq_any)
  show ?case
    unfolding prepare_entries.simps
    by (rule returns_seq_any, rule returns_seq [OF returns_yields [OF yields_prepareToolCall]],
        rule returns_seq [OF entry], assumption, rule returns_seq [OF returns_gets_aborted [OF assms]])
       (auto intro!: returns_ret returns_seq [OF Cons.IH])
qed

lemma returns_run_entries:
  "returns (run_entries n env config cx am es) (\<lambda>fs. map (call_key \<circ> fz_toolCall) fs = map entry_key es)"
  unfolding returns_def
proof (intro allI impI)
  fix w x w' evs
  assume "run_entries n env config cx am es w = (Returned x, w', evs)"
  from followsD [OF follows_run_entries this]
  show "map (call_key \<circ> fz_toolCall) x = map entry_key es" by auto
qed

lemma returns_executeToolCalls:
  assumes "never_aborts env"
  shows "returns (executeToolCalls env config cx am)
           (\<lambda>b. map result_key (tb_messages b) = map call_key (tool_calls_of am))"
proof -
  have sequential: "returns (executeToolCallsSequential env config cx am (tool_calls_of am))
      (\<lambda>b. map result_key (tb_messages b) = map call_key (tool_calls_of am))"
    unfolding executeToolCallsSequential_def
    by (rule returns_seq [OF returns_sequential_calls [OF assms]]) (simp add: returns_ret)
  have parallel: "returns (executeToolCallsParallel env config cx am (tool_calls_of am))
      (\<lambda>b. map result_key (tb_messages b) = map call_key (tool_calls_of am))"
    unfolding executeToolCallsParallel_def
    by (rule returns_seq [OF returns_prepare_entries [OF assms]],
        rule returns_seq [OF returns_yields [OF yields_start_entries]],
        rule returns_seq [OF returns_run_entries],
        rule returns_seq [OF returns_publish_results])
       (auto intro!: returns_ret dest!: answers_keys)
  show ?thesis by (simp add: executeToolCalls_def Let_def sequential parallel)
qed

section \<open>The concurrent phase has enough steps\<close>

lemma step_entry_decreases:
  assumes "can_move e"
  shows "returns (step_entry env config cx am e) (\<lambda>e'. entry_measure e' < entry_measure e)"
  using assms
  by (cases e rule: can_move.cases) (auto intro!: returns_seq_any returns_ret returns_await_outcome)

lemma batch_measure_update:
  "i < length es \<Longrightarrow> batch_measure (es[i := e]) + entry_measure (es ! i) = batch_measure es + entry_measure e"
  unfolding batch_measure_def
  by (induction es arbitrary: i) (auto simp: less_Suc_eq_0_disj nth_Cons' list_update.simps split: nat.splits)

lemma seq_cong_returns:
  "returns m P \<Longrightarrow> (\<And>x. P x \<Longrightarrow> f x = g x) \<Longrightarrow> seq m f = seq m g"
proof (rule ext)
  fix w
  assume m: "returns m P" and fg: "\<And>x. P x \<Longrightarrow> f x = g x"
  obtain r w' es where mw: "m w = (r, w', es)" by (cases "m w") auto
  show "seq m f w = seq m g w"
  proof (cases r)
    case (Returned x)
    then have "f x = g x" using fg returnsD [OF m] mw by blast
    then show ?thesis by (simp add: seq_def mw Returned)
  qed (simp_all add: seq_def mw)
qed

lemma can_move_measure: "can_move e \<Longrightarrow> 0 < entry_measure e"
  by (cases e rule: can_move.cases) auto

lemma movable_measure: "movable es \<noteq> [] \<Longrightarrow> 0 < batch_measure es"
proof -
  assume "movable es \<noteq> []"
  then obtain i where "i < length es" "can_move (es ! i)"
    by (auto simp: movable_def filter_empty_conv)
  then have "0 < entry_measure (es ! i)" "entry_measure (es ! i) \<in> set (map entry_measure es)"
    using can_move_measure by auto
  moreover from this(2) have "entry_measure (es ! i) \<le> batch_measure es"
    unfolding batch_measure_def by (rule member_le_sum_list) simp
  ultimately show ?thesis by simp
qed

text \<open>With at least the measure of the entries as its bound, the phase does not depend on the bound.\<close>

lemma run_entries_enough:
  "batch_measure es \<le> n \<Longrightarrow> batch_measure es \<le> k \<Longrightarrow>
     run_entries n env config cx am es = run_entries k env config cx am es"
proof (induction n arbitrary: es k)
  case 0
  then have "movable es = []" using movable_measure [of es] by fastforce
  then show ?case by (simp add: run_entries.simps)
next
  case (Suc n)
  show ?case
  proof (cases "movable es = []")
    case True
    then show ?thesis by (simp add: run_entries.simps)
  next
    case False
    then obtain k' where k: "k = Suc k'"
      using Suc.prems movable_measure [OF False] by (cases k) auto
    have "seq (step_entry env config cx am (es ! i)) (\<lambda>e. run_entries n env config cx am (es[i := e]))
        = seq (step_entry env config cx am (es ! i)) (\<lambda>e. run_entries k' env config cx am (es[i := e]))"
      if "i \<in> set (movable es)" for i
    proof -
      from that have i: "i < length es" "can_move (es ! i)" using movable_nth by blast+
      have fewer: "run_entries n env config cx am (es[i := e]) = run_entries k' env config cx am (es[i := e])"
        if "entry_measure e < entry_measure (es ! i)" for e :: "'a entry"
      proof (rule Suc.IH)
        have "batch_measure (es[i := e]) < batch_measure es"
          using that batch_measure_update [OF i(1), of e] by linarith
        with Suc.prems k show "batch_measure (es[i := e]) \<le> n" "batch_measure (es[i := e]) \<le> k'"
          by linarith+
      qed
      show ?thesis
        by (rule seq_cong_returns [OF step_entry_decreases [OF i(2)]])
           (rule fewer)
    qed
    then have "seq (pick_entry env es)
          (\<lambda>i. seq (step_entry env config cx am (es ! i)) (\<lambda>e. run_entries n env config cx am (es[i := e])))
        = seq (pick_entry env es)
          (\<lambda>i. seq (step_entry env config cx am (es ! i)) (\<lambda>e. run_entries k' env config cx am (es[i := e])))"
      by (intro seq_cong_returns [OF returns_yields [OF yields_pick_entry [OF False]]])
    then show ?thesis by (simp add: run_entries.simps [of "Suc n"] run_entries.simps [of "Suc k'"] False k)
  qed
qed

section \<open>Fuel and a plain run\<close>

lemma seq_Returned:
  "seq m f w = (Returned y, w', es) \<longleftrightarrow>
     (\<exists>x w1 es1 es2. m w = (Returned x, w1, es1) \<and> f x w1 = (Returned y, w', es2) \<and> es = es1 @ es2)"
  by (auto simp: seq_def split: prod.splits outcome.splits)

lemma seq_run:
  "m w = (Returned x, w1, es1) \<Longrightarrow> seq m f w = (case f x w1 of (r, w2, es2) \<Rightarrow> (r, w2, es1 @ es2))"
  by (simp add: seq_def)

text \<open>A run that returns does so with any larger fuel, with the same result, world and events.\<close>

lemma run_loop_more_fuel:
  "run_loop n env st w = (Returned x, w', es) \<Longrightarrow> run_loop (n + k) env st w = (Returned x, w', es)"
proof (induction n arbitrary: st w es)
  case 0
  then show ?case by (simp add: hang_def)
next
  case (Suc n)
  show ?case
  proof (cases "ls_hasMoreToolCalls st \<or> ls_pending st \<noteq> []")
    case True
    with Suc.prems obtain r w1 es1 es2 where turn: "run_turn env st w = (Returned r, w1, es1)"
      and rest: "(case r of Inl msgs \<Rightarrow> ret msgs | Inr st' \<Rightarrow> run_loop n env st') w1 = (Returned x, w', es2)"
      and es: "es = es1 @ es2"
      by (auto simp: seq_Returned)
    have "(case r of Inl msgs \<Rightarrow> ret msgs | Inr st' \<Rightarrow> run_loop (n + k) env st') w1 = (Returned x, w', es2)"
      using rest by (cases r) (auto intro: Suc.IH)
    with True turn es show ?thesis by (auto simp: seq_Returned)
  next
    case False
    with Suc.prems obtain fs w1 es1 es2 where poll: "call_opt (lc_getFollowUpMessages (ls_config st)) [] w = (Returned fs, w1, es1)"
      and rest: "(if fs \<noteq> [] then run_loop n env (st\<lparr>ls_pending := fs, ls_hasMoreToolCalls := True\<rparr>)
                  else seq (emit env (AgentEnd (ls_newMessages st))) (\<lambda>_. ret (ls_newMessages st))) w1 = (Returned x, w', es2)"
      and es: "es = es1 @ es2"
      by (auto simp: seq_Returned)
    have "(if fs \<noteq> [] then run_loop (n + k) env (st\<lparr>ls_pending := fs, ls_hasMoreToolCalls := True\<rparr>)
           else seq (emit env (AgentEnd (ls_newMessages st))) (\<lambda>_. ret (ls_newMessages st))) w1 = (Returned x, w', es2)"
      using rest by (cases "fs = []") (auto intro: Suc.IH)
    with False poll es show ?thesis by (auto simp: seq_Returned)
  qed
qed

lemma runAgentLoop_more_fuel:
  "runAgentLoop n env prompts cx config w = (Returned x, w', es) \<Longrightarrow>
     runAgentLoop (n + k) env prompts cx config w = (Returned x, w', es)"
  by (fastforce simp: runAgentLoop_def runLoop_def seq_Returned dest: run_loop_more_fuel)

text \<open>
  A world in which everything the loop calls returns at once and changes nothing, and the model
  answers with one message without tool calls.
\<close>

definition plain_env :: "assistant_message \<Rightarrow> 'w loop_env" where
  "plain_env m = \<lparr>le_emit = \<lambda>e w. (Returned (), w),
     le_streamFn = \<lambda>mdl cx opts w. (Returned \<lparr>rp_events = [StreamStart m, StreamDone m], rp_ends = True, rp_result = Some m\<rparr>, w),
     le_aborted = \<lambda>w. False, le_now = \<lambda>w. 0, le_validate = \<lambda>t tc. Inr (tc_arguments tc),
     le_schedule = \<lambda>n w. (0, w)\<rparr>"

definition plain_config :: "model \<Rightarrow> 'w loop_config" where
  "plain_config mdl = \<lparr>lc_model = mdl, lc_reasoning = None, lc_apiKey = None, lc_toolExecution = None,
     lc_convertToLlm = \<lambda>ms w. (Returned (convertToLlm ms), w), lc_transformContext = None, lc_getApiKey = None,
     lc_shouldStopAfterTurn = None, lc_prepareNextTurn = None, lc_getSteeringMessages = None,
     lc_getFollowUpMessages = None, lc_beforeToolCall = None, lc_afterToolCall = None\<rparr>"

lemma for_each_emit_plain:
  "for_each (emit_message (plain_env m)) ms w =
     (Returned (), w, concat (map (\<lambda>x. [MessageStart x, MessageEnd x]) ms))"
  by (induction ms) (simp_all add: act_simps emit_message_def emit_def plain_env_def)

lemma plain_run:
  assumes "tool_calls_of m = []" "am_stopReason m \<notin> {StopError, Aborted}"
  shows "runAgentLoop 2 (plain_env m) prompts cx (plain_config mdl) w =
    (Returned (prompts @ [Assistant m]), w,
     [AgentStart, TurnStart] @ concat (map (\<lambda>x. [MessageStart x, MessageEnd x]) prompts) @
     [MessageStart (Assistant m), MessageEnd (Assistant m), TurnEnd (Assistant m) [],
      AgentEnd (prompts @ [Assistant m])])"
proof -
  let ?env = "plain_env m" and ?cf = "plain_config mdl"
  let ?cx = "cx\<lparr>cx_messages := cx_messages cx @ prompts\<rparr>"
  let ?st = "\<lparr>ls_context = ?cx, ls_config = ?cf, ls_firstTurn = True, ls_pending = [],
     ls_newMessages = prompts, ls_hasMoreToolCalls = True\<rparr>"
  let ?st' = "\<lparr>ls_context = ?cx\<lparr>cx_messages := cx_messages cx @ prompts @ [Assistant m]\<rparr>, ls_config = ?cf,
     ls_firstTurn = False, ls_pending = [], ls_newMessages = prompts @ [Assistant m], ls_hasMoreToolCalls = False\<rparr>"
  have stream: "streamAssistantResponse ?env ?cf ?cx w =
      (Returned (m, ?cx\<lparr>cx_messages := cx_messages cx @ prompts @ [Assistant m]\<rparr>), w,
       [MessageStart (Assistant m), MessageEnd (Assistant m)])"
    by (simp add: streamAssistantResponse_def plain_env_def plain_config_def act_simps emit_def
        finish_response_def push_message_def replace_message_def set_last_def butlast_append)
  have turn: "run_turn ?env ?st w = (Returned (Inr ?st'), w,
      [MessageStart (Assistant m), MessageEnd (Assistant m), TurnEnd (Assistant m) []])"
    using assms
    by (simp add: run_turn_def begin_turn_def act_simps stream add_messages_def run_tool_calls_def Let_def
        after_turn_def apply_turn_update_def call_opt_def plain_config_def emit_def plain_env_def
        stream[unfolded plain_config_def plain_env_def])
  have emit: "emit ?env e w = (Returned (), w, [e])" for e
    by (simp add: emit_def emit_to_def plain_env_def)
  have follow: "call_opt (lc_getFollowUpMessages ?cf) [] w = (Returned [], w, [])"
    and steer: "call_opt (lc_getSteeringMessages ?cf) [] w = (Returned [], w, [])"
    by (simp_all add: call_opt_def plain_config_def ret_def)
  have loop: "run_loop 2 ?env ?st w = (Returned (prompts @ [Assistant m]), w,
      [MessageStart (Assistant m), MessageEnd (Assistant m), TurnEnd (Assistant m) [],
       AgentEnd (prompts @ [Assistant m])])"
    by (simp add: numeral_2_eq_2 seq_run turn follow emit) (simp add: ret_def)
  show ?thesis
    by (simp add: runAgentLoop_def runLoop_def seq_run emit for_each_emit_plain steer loop)
qed

end
