(* ===== verification/Agent_Observer.thy ===== *)
theory Agent_Observer
  imports Agent_Safety
begin

text \<open>
  The interface between the agent loop and the world it runs in: a relation between the world
  before, the events emitted and the world after. When each call out of the loop respects the
  relation, so does a whole run. The agent (\<open>Agent_Runtime\<close>) provides it with the reduction of events
  to its state.
\<close>

section \<open>Worlds related by events\<close>

type_synonym 'w event_relation = "'w \<Rightarrow> agent_event list \<Rightarrow> 'w \<Rightarrow> bool"

definition observed :: "'w event_relation \<Rightarrow> ('w, agent_event, 'a) act \<Rightarrow> bool" where
  "observed R m \<longleftrightarrow> (\<forall>w r w' es. m w = (r, w', es) \<longrightarrow> R w es w')"

text \<open>A call that emits nothing respects the relation.\<close>

definition call_ok :: "'w event_relation \<Rightarrow> ('w, 'a) call \<Rightarrow> bool" where
  "call_ok R c \<longleftrightarrow> (\<forall>w r w'. c w = (r, w') \<longrightarrow> R w [] w')"

definition tool_ok :: "'w event_relation \<Rightarrow> 'w agent_tool \<Rightarrow> bool" where
  "tool_ok R t \<longleftrightarrow> (\<forall>i args w s w'. tl_execute t i args w = (s, w') \<longrightarrow> R w [] w')"

definition context_ok :: "'w event_relation \<Rightarrow> 'w agent_context \<Rightarrow> bool" where
  "context_ok R cx \<longleftrightarrow> (\<forall>ts t. cx_tools cx = Some ts \<longrightarrow> t \<in> set ts \<longrightarrow> tool_ok R t)"

definition config_ok :: "'w event_relation \<Rightarrow> 'w loop_config \<Rightarrow> bool" where
  "config_ok R config \<longleftrightarrow>
     (\<forall>ms. call_ok R (lc_convertToLlm config ms)) \<and>
     (\<forall>f ms. lc_transformContext config = Some f \<longrightarrow> call_ok R (f ms)) \<and>
     (\<forall>f p. lc_getApiKey config = Some f \<longrightarrow> call_ok R (f p)) \<and>
     (\<forall>f tc. lc_shouldStopAfterTurn config = Some f \<longrightarrow> call_ok R (f tc)) \<and>
     (\<forall>f tc. lc_prepareNextTurn config = Some f \<longrightarrow> call_ok R (f tc)) \<and>
     (\<forall>f tc w u w' cx. lc_prepareNextTurn config = Some f \<longrightarrow> f tc w = (Returned (Some u), w') \<longrightarrow>
        tu_context u = Some cx \<longrightarrow> context_ok R cx) \<and>
     (\<forall>f. lc_getSteeringMessages config = Some f \<longrightarrow> call_ok R f) \<and>
     (\<forall>f. lc_getFollowUpMessages config = Some f \<longrightarrow> call_ok R f) \<and>
     (\<forall>f b. lc_beforeToolCall config = Some f \<longrightarrow> call_ok R (f b)) \<and>
     (\<forall>f a. lc_afterToolCall config = Some f \<longrightarrow> call_ok R (f a))"

text \<open>A relation that composes along actions; the loop needs the calls of its environment to respect it too.\<close>

locale world_relation =
  fixes R :: "'w event_relation"
  assumes R_refl: "R w [] w"
    and R_trans: "R w es w' \<Longrightarrow> R w' es' w'' \<Longrightarrow> R w (es @ es') w''"
begin

lemma observed_ret: "observed R (ret x)"
  by (simp add: observed_def ret_def R_refl)

lemma observed_raise: "observed R (raise e)"
  by (simp add: observed_def raise_def R_refl)

lemma observed_hang: "observed R hang"
  by (simp add: observed_def hang_def R_refl)

lemma observed_gets: "observed R (gets f)"
  by (simp add: observed_def gets_def R_refl)

lemma observed_await: "call_ok R c \<Longrightarrow> observed R (await c)"
  by (auto simp: observed_def await_def call_ok_def split: prod.splits)

lemma observed_attempt: "observed R m \<Longrightarrow> observed R (attempt m)"
  by (auto simp: observed_def attempt_def split: prod.splits)

lemma observed_await_outcome: "observed R (await_outcome r x)"
  by (cases r) (auto simp: await_outcome_def observed_ret observed_raise observed_hang)

lemma observed_from_sum: "observed R (from_sum x)"
  by (auto simp: from_sum_def observed_ret observed_raise split: sum.splits)

lemma observed_seq_if:
  assumes m: "observed R m" and P: "returns m P" and f: "\<And>x. P x \<Longrightarrow> observed R (f x)"
  shows "observed R (seq m f)"
  unfolding observed_def
proof (intro allI impI)
  fix w r w' es
  assume run: "seq m f w = (r, w', es)"
  obtain r1 w1 es1 where m1: "m w = (r1, w1, es1)" by (cases "m w") auto
  with m have R1: "R w es1 w1" by (auto simp: observed_def)
  show "R w es w'"
  proof (cases r1)
    case (Returned x)
    obtain r2 w2 es2 where f2: "f x w1 = (r2, w2, es2)" by (cases "f x w1") auto
    have "P x" using returnsD [OF P] m1 Returned by blast
    from f [OF this] f2 have "R w1 es2 w2" by (auto simp: observed_def)
    with R1 run m1 f2 Returned show ?thesis by (auto simp: seq_def intro: R_trans)
  qed (use run m1 R1 in \<open>auto simp: seq_def\<close>)
qed

lemma observed_seq: "observed R m \<Longrightarrow> (\<And>x. observed R (f x)) \<Longrightarrow> observed R (seq m f)"
  by (rule observed_seq_if [where P = "\<lambda>_. True"]) simp_all

lemma observed_try: "observed R m \<Longrightarrow> (\<And>e. observed R (h e)) \<Longrightarrow> observed R (try_catch m h)"
  by (fastforce simp: observed_def try_catch_def split: prod.splits outcome.splits intro: R_trans)

lemma observed_for_each: "(\<And>x. observed R (f x)) \<Longrightarrow> observed R (for_each f xs)"
  by (induction xs) (simp_all add: observed_ret observed_seq)

lemmas observed_basic = observed_seq observed_ret observed_raise observed_hang observed_gets
  observed_attempt observed_await_outcome observed_from_sum observed_try observed_for_each

end

locale loop_observer = world_relation R for R :: "'w event_relation" +
  fixes env :: "'w loop_env"
  assumes R_emit: "le_emit env e w = (r, w') \<Longrightarrow> R w [e] w'"
    and R_stream: "call_ok R (le_streamFn env mdl lx opts)"
    and R_schedule: "le_schedule env n w = (k, w') \<Longrightarrow> R w [] w'"
begin

lemma observed_emit: "observed R (emit env e)"
  by (auto simp: observed_def emit_def emit_to_def R_emit split: prod.splits)

lemmas observed_rules = observed_basic observed_emit

lemma observed_finish_response: "observed R (finish_response env result added cx)"
  by (auto simp: finish_response_def intro!: observed_rules split: option.splits)

lemma observed_consume_response: "observed R (consume_response env ends result es added cx)"
proof (induction es arbitrary: added cx)
  case Nil
  show ?case by (auto intro!: observed_rules observed_finish_response)
next
  case (Cons e es)
  then show ?case by (cases e) (auto intro!: observed_rules observed_finish_response)
qed

lemma observed_streamAssistantResponse:
  "config_ok R config \<Longrightarrow> observed R (streamAssistantResponse env config cx)"
  unfolding streamAssistantResponse_def
  by (auto split: option.splits simp: config_ok_def
      intro!: observed_rules observed_await observed_consume_response R_stream)

lemma observed_prepareToolCall:
  "config_ok R config \<Longrightarrow> observed R (prepareToolCall env config cx am tc)"
  unfolding prepareToolCall_def prepare_known_tool_def ready_unless_aborted_def
  by (auto split: option.splits simp: config_ok_def intro!: observed_rules observed_await)

lemma observed_finalize:
  "config_ok R config \<Longrightarrow> observed R (finalizeExecutedToolCall env config cx am p x)"
  unfolding finalizeExecutedToolCall_def
  by (auto split: option.splits prod.splits simp: config_ok_def intro!: observed_rules observed_await)

lemma observed_start_tool: "tool_ok R (pp_tool p) \<Longrightarrow> observed R (start_tool p)"
  unfolding start_tool_def
  by (rule observed_await) (auto simp: call_ok_def tool_ok_def split: prod.splits)

lemma observed_play_script: "observed R (play_script env p pending script)"
proof (induction script arbitrary: pending)
  case Nil
  show ?case by (simp add: observed_hang)
next
  case (Cons a script)
  then show ?case by (cases a) (auto simp: emit_update_def intro!: observed_rules)
qed

lemma observed_publish: "observed R (publish_result env f)"
  unfolding publish_result_def emitToolResultMessage_def Let_def by (intro observed_rules)

lemma observed_publish_results: "observed R (publish_results env fs)"
  by (induction fs) (auto intro!: observed_rules observed_publish)

lemma find_tool_ok: "context_ok R cx \<Longrightarrow> find_tool cx n = Some t \<Longrightarrow> tool_ok R t"
  by (auto simp: find_tool_def context_ok_def dest: find_Some_in_set split: option.splits)

text \<open>A prepared call comes from the context, so its tool respects the relation.\<close>

fun preparation_tool_ok :: "'w preparation \<Rightarrow> bool" where
  "preparation_tool_ok (Immediate r e) = True"
| "preparation_tool_ok (Prepared p) = tool_ok R (pp_tool p)"

lemma returns_prepare:
  assumes "context_ok R cx"
  shows "returns (prepareToolCall env config cx am tc) preparation_tool_ok"
  unfolding returns_def
proof (intro allI impI)
  fix w prep w' es
  assume run: "prepareToolCall env config cx am tc w = (Returned prep, w', es)"
  show "preparation_tool_ok prep"
  proof (cases prep)
    case (Prepared p)
    with prepareToolCall_tool [of env config cx am tc w p] run find_tool_ok [OF assms]
    show ?thesis by auto
  qed simp
qed

lemma observed_run_sequential_call:
  assumes "config_ok R config" "context_ok R cx"
  shows "observed R (run_sequential_call env config cx am tc)"
  unfolding run_sequential_call_def executePreparedToolCall_def
proof (rule observed_seq_if [OF observed_prepareToolCall [OF assms(1)] returns_prepare [OF assms(2)]])
  fix prep
  assume "preparation_tool_ok prep"
  then show "observed R (case prep of
         Immediate result isError \<Rightarrow> ret \<lparr>fz_toolCall = tc, fz_result = result, fz_isError = isError\<rparr>
       | Prepared p \<Rightarrow> seq (seq (start_tool p) (\<lambda>script. play_script env p (Returned ()) script))
                        (\<lambda>executed. finalizeExecutedToolCall env config cx am p executed))"
    by (cases prep) (auto intro!: observed_rules observed_start_tool observed_play_script
        observed_finalize assms)
qed

lemma observed_failToolCalls: "observed R (failToolCallsFromTruncatedMessage env tcs)"
  by (induction tcs)
     (auto simp: emitToolExecutionStart_def emitToolExecutionEnd_def intro!: observed_rules observed_publish)

lemma observed_sequential_calls:
  "config_ok R config \<Longrightarrow> context_ok R cx \<Longrightarrow> observed R (sequential_calls env config cx am tcs)"
  by (induction tcs)
     (auto simp: emitToolExecutionStart_def emitToolExecutionEnd_def
       intro!: observed_rules observed_publish observed_run_sequential_call)

fun entry_ok :: "'w entry \<Rightarrow> bool" where
  "entry_ok (Waiting p) = tool_ok R (pp_tool p)"
| "entry_ok e = True"

lemma returns_prepare_entries_ok:
  assumes "context_ok R cx"
  shows "returns (prepare_entries env config cx am tcs) (\<lambda>es. list_all entry_ok es)"
proof (induction tcs)
  case Nil
  then show ?case by (simp add: returns_ret)
next
  case (Cons tc tcs)
  have entry: "returns (case prep of
         Immediate result isError \<Rightarrow>
           let f = \<lparr>fz_toolCall = tc, fz_result = result, fz_isError = isError\<rparr>
           in seq (emitToolExecutionEnd env f) (\<lambda>_. ret (Finished f))
       | Prepared p \<Rightarrow> ret (Waiting p)) entry_ok"
    if "preparation_tool_ok prep" for prep
    using that by (cases prep) (auto simp: Let_def intro!: returns_ret returns_seq_any)
  show ?case
    unfolding prepare_entries.simps
    by (rule returns_seq_any, rule returns_seq [OF returns_prepare [OF assms]], rule returns_seq [OF entry],
        assumption, rule returns_seq_any) (auto intro!: returns_ret returns_seq [OF Cons.IH])
qed

lemma observed_prepare_entries:
  "config_ok R config \<Longrightarrow> observed R (prepare_entries env config cx am tcs)"
  by (induction tcs)
     (auto simp: emitToolExecutionStart_def emitToolExecutionEnd_def Let_def split: preparation.splits
       intro!: observed_rules observed_prepareToolCall)

lemma observed_start_entries: "list_all entry_ok es \<Longrightarrow> observed R (start_entries es)"
  by (induction es) (auto split: entry.splits intro!: observed_rules observed_start_tool)

lemma observed_step_entry: "config_ok R config \<Longrightarrow> observed R (step_entry env config cx am e)"
  by (cases e rule: can_move.cases)
     (auto simp: emit_update_def emitToolExecutionEnd_def intro!: observed_rules observed_finalize)

lemma observed_pick_entry: "observed R (pick_entry env es)"
  unfolding pick_entry_def
  by (rule observed_await) (auto simp: call_ok_def dest: R_schedule split: prod.splits)

lemma observed_run_entries: "config_ok R config \<Longrightarrow> observed R (run_entries n env config cx am es)"
proof (induction n arbitrary: es)
  case 0
  then show ?case
    by (subst run_entries.simps) (auto split: option.splits intro: observed_ret observed_hang)
next
  case (Suc n)
  then show ?case
    by (subst run_entries.simps)
       (auto split: option.splits intro!: observed_rules observed_pick_entry observed_step_entry)
qed

lemma observed_executeToolCalls:
  assumes "config_ok R config" "context_ok R cx"
  shows "observed R (executeToolCalls env config cx am)"
proof -
  have "observed R (executeToolCallsParallel env config cx am tcs)" for tcs
    unfolding executeToolCallsParallel_def
    by (rule observed_seq_if [OF observed_prepare_entries [OF assms(1)] returns_prepare_entries_ok [OF assms(2)]])
       (intro observed_rules observed_start_entries observed_run_entries observed_publish_results assms)
  moreover have "observed R (executeToolCallsSequential env config cx am tcs)" for tcs
    unfolding executeToolCallsSequential_def
    by (intro observed_rules observed_sequential_calls assms)
  ultimately show ?thesis by (simp add: executeToolCalls_def Let_def)
qed

lemma observed_call_opt: "(\<And>f. c = Some f \<Longrightarrow> call_ok R f) \<Longrightarrow> observed R (call_opt c d)"
  by (auto simp: call_opt_def intro!: observed_ret observed_await split: option.splits)

text \<open>Streaming keeps the tools of the context; only the update of a turn can replace them.\<close>

lemma tools_of_pushed [simp]:
  "context_ok R (push_message m cx) = context_ok R cx"
  "context_ok R (replace_message m cx) = context_ok R cx"
  "context_ok R (cx\<lparr>cx_messages := ms\<rparr>) = context_ok R cx"
  by (simp_all add: context_ok_def push_message_def replace_message_def)

lemma returns_consume_response:
  "context_ok R cx \<Longrightarrow>
     returns (consume_response env ends result es added cx) (\<lambda>(m, cx'). context_ok R cx')"
proof (induction es arbitrary: added cx)
  case Nil
  then show ?case
    by (auto simp: finish_response_def intro!: returns_ret returns_hang returns_seq_any split: option.splits)
next
  case (Cons e es)
  then show ?case
    by (cases e) (auto simp: finish_response_def intro!: returns_ret returns_hang returns_seq_any split: option.splits)
qed

lemma returns_streamAssistantResponse:
  "context_ok R cx \<Longrightarrow> returns (streamAssistantResponse env config cx) (\<lambda>(m, cx'). context_ok R cx')"
  unfolding streamAssistantResponse_def by (intro returns_seq_any returns_consume_response)

definition state_ok :: "'w loop_state \<Rightarrow> bool" where
  "state_ok st \<longleftrightarrow> config_ok R (ls_config st) \<and> context_ok R (ls_context st)"

lemma state_ok_updates [simp]:
  "state_ok (add_messages ms st) = state_ok st"
  "state_ok (st\<lparr>ls_pending := ps\<rparr>) = state_ok st"
  "state_ok (st\<lparr>ls_firstTurn := b\<rparr>) = state_ok st"
  "state_ok (st\<lparr>ls_hasMoreToolCalls := b\<rparr>) = state_ok st"
  by (simp_all add: state_ok_def add_messages_def)

lemma observed_begin_turn: "observed R (begin_turn env st)"
  unfolding begin_turn_def emit_message_def by (auto intro!: observed_rules)

lemma returns_begin_turn: "state_ok st \<Longrightarrow> returns (begin_turn env st) state_ok"
  unfolding begin_turn_def by (intro returns_seq_any returns_ret) simp

lemma observed_run_tool_calls: "state_ok st \<Longrightarrow> observed R (run_tool_calls env st m)"
  unfolding run_tool_calls_def Let_def
  by (auto simp: state_ok_def intro!: observed_rules observed_failToolCalls observed_executeToolCalls)

lemma config_ok_update [simp]: "config_ok R (c\<lparr>lc_model := a, lc_reasoning := b\<rparr>) = config_ok R c"
  by (simp add: config_ok_def)

fun next_ok :: "agent_message list + 'w loop_state \<Rightarrow> bool" where
  "next_ok (Inl ms) = True"
| "next_ok (Inr st) = state_ok st"

definition update_ok :: "'w turn_update option \<Rightarrow> bool" where
  "update_ok u \<longleftrightarrow> (\<forall>s cx. u = Some s \<longrightarrow> tu_context s = Some cx \<longrightarrow> context_ok R cx)"

lemma state_ok_apply: "state_ok st \<Longrightarrow> update_ok u \<Longrightarrow> state_ok (apply_turn_update u st)"
  by (auto simp: state_ok_def update_ok_def apply_turn_update_def nullish_def split: option.splits)

lemma after_turn_ok:
  assumes "state_ok st"
  shows "observed R (after_turn env m trs st) \<and> returns (after_turn env m trs st) next_ok"
proof -
  let ?prep = "case lc_prepareNextTurn (ls_config st) of
      None \<Rightarrow> ret None | Some f \<Rightarrow> await (f (turn_context_of m trs st))"
  have cf: "config_ok R (ls_config st)" using assms by (simp add: state_ok_def)
  have prep: "observed R ?prep"
    using cf by (auto simp: config_ok_def intro!: observed_ret observed_await split: option.splits)
  have upd: "returns ?prep update_ok"
  proof (cases "lc_prepareNextTurn (ls_config st)")
    case None
    then show ?thesis by (simp add: returns_ret update_ok_def)
  next
    case (Some f)
    then have "\<And>tc w u w' cx. f tc w = (Returned (Some u), w') \<Longrightarrow> tu_context u = Some cx \<Longrightarrow> context_ok R cx"
      using cf unfolding config_ok_def by blast
    then show ?thesis
      unfolding Some by (fastforce simp: returns_def await_def update_ok_def split: prod.splits)
  qed
  have rest: "observed R (seq (case lc_shouldStopAfterTurn (ls_config st') of
               None \<Rightarrow> ret False | Some f \<Rightarrow> await (f (turn_context_of m trs st')))
        (\<lambda>stop. if stop then seq (emit env (AgentEnd (ls_newMessages st'))) (\<lambda>_. ret (Inl (ls_newMessages st')))
           else seq (call_opt (lc_getSteeringMessages (ls_config st')) [])
                  (\<lambda>pending. ret (Inr (st'\<lparr>ls_pending := pending\<rparr>)))))"
    if "state_ok st'" for st'
    using that
    by (auto simp: state_ok_def config_ok_def split: option.splits
        intro!: observed_rules observed_await observed_call_opt)
  have "observed R (after_turn env m trs st)"
    unfolding after_turn_def Let_def
    by (rule observed_seq_if [OF prep upd]) (rule rest [OF state_ok_apply [OF assms]])
  moreover have "returns (after_turn env m trs st) next_ok"
    unfolding after_turn_def Let_def
    by (rule returns_seq [OF upd], rule returns_seq_any)
       (auto intro!: returns_seq_any returns_ret state_ok_apply assms)
  ultimately show ?thesis by blast
qed

lemma run_turn_ok:
  assumes "state_ok st"
  shows "observed R (run_turn env st) \<and> returns (run_turn env st) next_ok"
proof -
  let ?stream = "\<lambda>st1. streamAssistantResponse env (ls_config st1) (ls_context st1)"
  let ?failed = "\<lambda>st2 m. seq (emit env (TurnEnd (Assistant m) []))
      (\<lambda>_. seq (emit env (AgentEnd (ls_newMessages st2))) (\<lambda>_. ret (Inl (ls_newMessages st2))))"
  let ?tools = "\<lambda>st2 m. seq (run_tool_calls env st2 m)
      (\<lambda>(trs, more). let st3 = (add_messages (map ToolResult trs) st2)\<lparr>ls_hasMoreToolCalls := more\<rparr> in
        seq (emit env (TurnEnd (Assistant m) trs)) (\<lambda>_. after_turn env m trs st3))"
  let ?next = "\<lambda>st1 m cx. let st2 = st1\<lparr>ls_context := cx, ls_newMessages := ls_newMessages st1 @ [Assistant m]\<rparr> in
      if am_stopReason m \<in> {StopError, Aborted} then ?failed st2 m else ?tools st2 m"
  have "observed R (?tools st2 m) \<and> returns (?tools st2 m) next_ok" if "state_ok st2" for st2 m
    using that after_turn_ok
    by (auto simp: Let_def intro!: observed_rules observed_run_tool_calls returns_seq_any)
  then have nxt: "observed R (?next st1 m cx) \<and> returns (?next st1 m cx) next_ok"
    if "state_ok st1" "context_ok R cx" for st1 m cx
    using that
    by (auto simp: Let_def state_ok_def intro!: observed_rules returns_seq_any returns_ret)
  have strm: "observed R (?stream st1)" "returns (?stream st1) (\<lambda>(m, cx). context_ok R cx)"
    if "state_ok st1" for st1
    using that by (auto simp: state_ok_def intro: observed_streamAssistantResponse returns_streamAssistantResponse)
  have body: "observed R (seq (?stream st1) (\<lambda>(m, cx). ?next st1 m cx)) \<and>
      returns (seq (?stream st1) (\<lambda>(m, cx). ?next st1 m cx)) next_ok"
    if st1: "state_ok st1" for st1
  proof -
    have "observed R (case x of (m, cx) \<Rightarrow> ?next st1 m cx)" "returns (case x of (m, cx) \<Rightarrow> ?next st1 m cx) next_ok"
      if "case x of (m, cx) \<Rightarrow> context_ok R cx" for x
      using nxt [OF st1] that by (cases x, simp only: prod.case)+
    then show ?thesis
      by (intro conjI observed_seq_if [OF strm [OF st1]] returns_seq [OF strm(2) [OF st1]])
  qed
  show ?thesis
    unfolding run_turn_def
    by (intro conjI observed_seq_if [OF observed_begin_turn returns_begin_turn [OF assms]]
        returns_seq [OF returns_begin_turn [OF assms]] body [THEN conjunct1] body [THEN conjunct2])
qed

lemma observed_run_loop: "state_ok st \<Longrightarrow> observed R (run_loop n env st)"
proof (induction n arbitrary: st)
  case 0
  then show ?case by (simp add: observed_hang)
next
  case (Suc n)
  have turn: "observed R (seq (run_turn env st) (\<lambda>r. case r of Inl msgs \<Rightarrow> ret msgs | Inr st' \<Rightarrow> run_loop n env st'))"
    by (rule observed_seq_if [where P = next_ok])
       (use run_turn_ok [OF Suc.prems] Suc.IH in \<open>auto intro: observed_ret split: sum.splits\<close>)
  have poll: "observed R (call_opt (lc_getFollowUpMessages (ls_config st)) [])"
    using Suc.prems by (auto simp: state_ok_def config_ok_def intro!: observed_call_opt)
  show ?case
    using turn by (auto intro!: observed_rules poll Suc.IH simp: Suc.prems)
qed

lemma observed_runLoop:
  "config_ok R config \<Longrightarrow> context_ok R cx \<Longrightarrow> observed R (runLoop fuel env cx ms config)"
  unfolding runLoop_def
  by (intro observed_seq observed_call_opt observed_run_loop) (auto simp: state_ok_def config_ok_def)

theorem observed_runAgentLoop:
  "config_ok R config \<Longrightarrow> context_ok R cx \<Longrightarrow> observed R (runAgentLoop fuel env prompts cx config)"
  unfolding runAgentLoop_def emit_message_def by (auto intro!: observed_rules observed_runLoop)

theorem observed_runAgentLoopContinue:
  "config_ok R config \<Longrightarrow> context_ok R cx \<Longrightarrow> observed R (runAgentLoopContinue fuel env cx config)"
  unfolding runAgentLoopContinue_def by (auto intro!: observed_rules observed_runLoop)

end

end
