(* ===== verification/Agent_Runtime.thy ===== *)
theory Agent_Runtime
  imports Agent_Observer
begin

text \<open>
  \<open>packages/agent/src/agent.ts\<close>: the stateful agent around the loop: its transcript and runtime
  state, reduced from the events of the loop; the steering and follow-up queues; the life cycle of a
  run with its failure path. Listeners, hooks, tools and the model see an environment \<open>'e\<close> and may
  call back into the agent's queues and its \<open>abort\<close>: each external call returns, beside its result,
  the list of such operations, which are applied when it settles. Tools are arguments of the model,
  not part of the state, because their closures are functions of the whole world.
\<close>

section \<open>Message queues\<close>

datatype queue_mode = QueueAll | OneAtATime

record pending_message_queue =
  pq_messages :: "agent_message list"
  pq_mode :: queue_mode

definition new_queue :: "queue_mode \<Rightarrow> pending_message_queue" where
  "new_queue mode = \<lparr>pq_messages = [], pq_mode = mode\<rparr>"

definition enqueue :: "agent_message \<Rightarrow> pending_message_queue \<Rightarrow> pending_message_queue" where
  "enqueue message q = q\<lparr>pq_messages := pq_messages q @ [message]\<rparr>"

definition hasItems :: "pending_message_queue \<Rightarrow> bool" where
  "hasItems q = (0 < length (pq_messages q))"

definition drain :: "pending_message_queue \<Rightarrow> agent_message list \<times> pending_message_queue" where
  "drain q =
     (if pq_mode q = QueueAll then (pq_messages q, q\<lparr>pq_messages := []\<rparr>)
      else (case pq_messages q of
              [] \<Rightarrow> ([], q)
            | first # rest \<Rightarrow> ([first], q\<lparr>pq_messages := rest\<rparr>)))"

definition clear_queue :: "pending_message_queue \<Rightarrow> pending_message_queue" where
  "clear_queue q = q\<lparr>pq_messages := []\<rparr>"

text \<open>
  The contract the agent relies on, and what follows for any sequence of operations: messages come
  out in the order they went in, each once.
\<close>

locale message_queue =
  fixes items :: "'q \<Rightarrow> 'm list" and put :: "'m \<Rightarrow> 'q \<Rightarrow> 'q" and take_some :: "'q \<Rightarrow> 'm list \<times> 'q"
  assumes items_put: "items (put m q) = items q @ [m]"
    and items_take: "take_some q = (ms, q') \<Longrightarrow> ms @ items q' = items q"
    and take_progress: "items q \<noteq> [] \<Longrightarrow> fst (take_some q) \<noteq> []"
begin

fun queue_run :: "'m option list \<Rightarrow> 'q \<Rightarrow> 'm list \<times> 'q" where
  "queue_run [] q = ([], q)"
| "queue_run (Some m # ops) q = queue_run ops (put m q)"
| "queue_run (None # ops) q =
     (case take_some q of (ms, q') \<Rightarrow> (case queue_run ops q' of (rest, q'') \<Rightarrow> (ms @ rest, q'')))"

lemma queue_run_fifo:
  "queue_run ops q = (out, q') \<Longrightarrow> out @ items q' = items q @ map the (filter (\<lambda>x. x \<noteq> None) ops)"
proof (induction ops q arbitrary: out rule: queue_run.induct)
  case (1 q)
  then show ?case by simp
next
  case (2 m ops q)
  then show ?case by (simp add: items_put)
next
  case (3 ops q)
  obtain ms q1 where t: "take_some q = (ms, q1)" by (cases "take_some q") auto
  obtain rest q2 where r: "queue_run ops q1 = (rest, q2)" by (cases "queue_run ops q1") auto
  from 3(2) t r have out: "out = ms @ rest" "q2 = q'" by auto
  from 3(1) [OF t [symmetric]] r out have "rest @ items q' = items q1 @ map the (filter (\<lambda>x. x \<noteq> None) ops)"
    by simp
  then have "out @ items q' = (ms @ items q1) @ map the (filter (\<lambda>x. x \<noteq> None) ops)"
    using out by simp
  then show ?case by (simp add: items_take [OF t])
qed

lemma drained_empty: "fst (take_some q) = [] \<Longrightarrow> items q = []"
  using take_progress by blast

end

interpretation pmq: message_queue pq_messages enqueue drain
  by unfold_locales (auto simp: enqueue_def drain_def split: list.splits if_splits)

section \<open>The agent\<close>

record agent =
  st_systemPrompt :: string
  st_model :: model
  st_thinkingLevel :: thinking_level
  st_messages :: "agent_message list"
  st_isStreaming :: bool
  st_streamingMessage :: "agent_message option"
  st_pendingToolCalls :: "string set"
  st_errorMessage :: "string option"
  ag_steeringQueue :: pending_message_queue
  ag_followUpQueue :: pending_message_queue
  ag_activeRun :: "bool option"

text \<open>\<open>ag_activeRun\<close> is the active run, if any, with the state of its abort signal.\<close>

definition steer :: "agent_message \<Rightarrow> agent \<Rightarrow> agent" where
  "steer message a = a\<lparr>ag_steeringQueue := enqueue message (ag_steeringQueue a)\<rparr>"

definition followUp :: "agent_message \<Rightarrow> agent \<Rightarrow> agent" where
  "followUp message a = a\<lparr>ag_followUpQueue := enqueue message (ag_followUpQueue a)\<rparr>"

definition clearSteeringQueue :: "agent \<Rightarrow> agent" where
  "clearSteeringQueue a = a\<lparr>ag_steeringQueue := clear_queue (ag_steeringQueue a)\<rparr>"

definition clearFollowUpQueue :: "agent \<Rightarrow> agent" where
  "clearFollowUpQueue a = a\<lparr>ag_followUpQueue := clear_queue (ag_followUpQueue a)\<rparr>"

definition clearAllQueues :: "agent \<Rightarrow> agent" where
  "clearAllQueues a = clearFollowUpQueue (clearSteeringQueue a)"

definition hasQueuedMessages :: "agent \<Rightarrow> bool" where
  "hasQueuedMessages a = (hasItems (ag_steeringQueue a) \<or> hasItems (ag_followUpQueue a))"

definition abort :: "agent \<Rightarrow> agent" where
  "abort a = (case ag_activeRun a of None \<Rightarrow> a | Some _ \<Rightarrow> a\<lparr>ag_activeRun := Some True\<rparr>)"

definition reset :: "agent \<Rightarrow> agent" where
  "reset a = clearSteeringQueue (clearFollowUpQueue
     (a\<lparr>st_messages := [], st_isStreaming := False, st_streamingMessage := None,
        st_pendingToolCalls := {}, st_errorMessage := None\<rparr>))"

text \<open>The state part of \<open>processEvents\<close>.\<close>

fun reduce_event :: "agent_event \<Rightarrow> agent \<Rightarrow> agent" where
  "reduce_event (MessageStart m) a = a\<lparr>st_streamingMessage := Some m\<rparr>"
| "reduce_event (MessageUpdate m ev) a = a\<lparr>st_streamingMessage := Some m\<rparr>"
| "reduce_event (MessageEnd m) a = a\<lparr>st_streamingMessage := None, st_messages := st_messages a @ [m]\<rparr>"
| "reduce_event (ToolExecutionStart i n args) a =
     a\<lparr>st_pendingToolCalls := insert i (st_pendingToolCalls a)\<rparr>"
| "reduce_event (ToolExecutionEnd i n r e) a =
     a\<lparr>st_pendingToolCalls := st_pendingToolCalls a - {i}\<rparr>"
| "reduce_event (TurnEnd m trs) a =
     (case m of
        Assistant am \<Rightarrow> if truthy_str (am_errorMessage am) then a\<lparr>st_errorMessage := am_errorMessage am\<rparr> else a
      | _ \<Rightarrow> a)"
| "reduce_event (AgentEnd ms) a = a\<lparr>st_streamingMessage := None\<rparr>"
| "reduce_event _ a = a"

section \<open>The world of a run\<close>

text \<open>What an external call may do to the agent while it runs.\<close>

datatype agent_op =
    OpSteer agent_message
  | OpFollowUp agent_message
  | OpClearSteering
  | OpClearFollowUp
  | OpClearAll
  | OpSteeringMode queue_mode
  | OpFollowUpMode queue_mode
  | OpAbort

fun apply_op :: "agent_op \<Rightarrow> agent \<Rightarrow> agent" where
  "apply_op (OpSteer m) a = steer m a"
| "apply_op (OpFollowUp m) a = followUp m a"
| "apply_op OpClearSteering a = clearSteeringQueue a"
| "apply_op OpClearFollowUp a = clearFollowUpQueue a"
| "apply_op OpClearAll a = clearAllQueues a"
| "apply_op (OpSteeringMode md) a = a\<lparr>ag_steeringQueue := (ag_steeringQueue a)\<lparr>pq_mode := md\<rparr>\<rparr>"
| "apply_op (OpFollowUpMode md) a = a\<lparr>ag_followUpQueue := (ag_followUpQueue a)\<lparr>pq_mode := md\<rparr>\<rparr>"
| "apply_op OpAbort a = abort a"

record 'e agent_world =
  aw_agent :: agent
  aw_skipPoll :: bool
  aw_env :: 'e

type_synonym ('e, 'a) ext = "'e \<Rightarrow> 'a outcome \<times> agent_op list \<times> 'e"

definition apply_ops :: "agent_op list \<Rightarrow> agent \<Rightarrow> agent" where
  "apply_ops ops a = fold apply_op ops a"

definition lift_ext :: "('e, 'a) ext \<Rightarrow> ('e agent_world, 'a) call" where
  "lift_ext f = (\<lambda>w. case f (aw_env w) of
     (r, ops, e') \<Rightarrow> (r, w\<lparr>aw_agent := apply_ops ops (aw_agent w), aw_env := e'\<rparr>))"

text \<open>Tools and contexts as the embedder of the agent supplies them.\<close>

record 'e ext_tool =
  xt_name :: string
  xt_description :: string
  xt_parameters :: json
  xt_label :: string
  xt_policy :: "tool_policy_descriptor option"
  xt_prepareArguments :: "(json \<Rightarrow> string + json) option"
  xt_execute :: "string \<Rightarrow> json \<Rightarrow> 'e \<Rightarrow> tool_action list \<times> agent_op list \<times> 'e"
  xt_executionMode :: "execution_mode option"

definition lift_tool :: "'e ext_tool \<Rightarrow> 'e agent_world agent_tool" where
  "lift_tool t = \<lparr>tl_name = xt_name t, tl_description = xt_description t, tl_parameters = xt_parameters t,
     tl_label = xt_label t, tl_policy = xt_policy t, tl_prepareArguments = xt_prepareArguments t,
     tl_execute = (\<lambda>i args w. case xt_execute t i args (aw_env w) of
        (script, ops, e') \<Rightarrow> (script, w\<lparr>aw_agent := apply_ops ops (aw_agent w), aw_env := e'\<rparr>)),
     tl_executionMode = xt_executionMode t\<rparr>"

record 'e ext_turn_update =
  xu_context :: "(string \<times> agent_message list \<times> 'e ext_tool list option) option"
  xu_model :: "model option"
  xu_thinkingLevel :: "thinking_level option"

definition lift_context :: "string \<times> agent_message list \<times> 'e ext_tool list option \<Rightarrow> 'e agent_world agent_context" where
  "lift_context c = (case c of (sp, ms, ts) \<Rightarrow>
     \<lparr>cx_systemPrompt = sp, cx_messages = ms, cx_tools = map_option (map lift_tool) ts\<rparr>)"

definition lift_update :: "'e ext_turn_update \<Rightarrow> 'e agent_world turn_update" where
  "lift_update u = \<lparr>tu_context = map_option lift_context (xu_context u), tu_model = xu_model u,
     tu_thinkingLevel = xu_thinkingLevel u\<rparr>"

text \<open>
  The public fields of the agent that a run reads. The two hooks \<open>prepareNextTurnWithContext\<close> and
  \<open>prepareNextTurn\<close> are both present; the first wins.
\<close>

record 'e agent_options =
  ao_tools :: "'e ext_tool list"
  ao_convertToLlm :: "(agent_message list \<Rightarrow> ('e, agent_message list) ext) option"
  ao_transformContext :: "(agent_message list \<Rightarrow> ('e, agent_message list) ext) option"
  ao_streamFn :: "model \<Rightarrow> 'e agent_world llm_context \<Rightarrow> stream_options \<Rightarrow> ('e, response) ext"
  ao_getApiKey :: "(string \<Rightarrow> ('e, string option) ext) option"
  ao_beforeToolCall :: "('e agent_world before_tool_call_context \<Rightarrow> ('e, before_tool_call_result option \<times> json) ext) option"
  ao_afterToolCall :: "('e agent_world after_tool_call_context \<Rightarrow> ('e, after_tool_call_result option) ext) option"
  ao_prepareNextTurn :: "('e, 'e ext_turn_update option) ext option"
  ao_prepareNextTurnWithContext :: "('e agent_world turn_context \<Rightarrow> ('e, 'e ext_turn_update option) ext) option"
  ao_toolExecution :: execution_mode
  ao_listeners :: "(agent_event \<Rightarrow> bool \<Rightarrow> ('e, unit) ext) list"
  ao_now :: "'e \<Rightarrow> int"
  ao_validate :: "'e agent_world agent_tool \<Rightarrow> tool_call \<Rightarrow> string + json"
  ao_schedule :: "nat \<Rightarrow> 'e \<Rightarrow> nat \<times> 'e"

definition defaultConvertToLlm :: "agent_message list \<Rightarrow> agent_message list" where
  "defaultConvertToLlm messages = filter is_llm_message messages"

definition is_aborted :: "'e agent_world \<Rightarrow> bool" where
  "is_aborted w = (ag_activeRun (aw_agent w) = Some True)"

text \<open>The listeners run one after the other; the first that raises or hangs ends the delivery.\<close>

fun notify_listeners ::
  "(agent_event \<Rightarrow> bool \<Rightarrow> ('e, unit) ext) list \<Rightarrow> agent_event \<Rightarrow> ('e agent_world, unit) call" where
  "notify_listeners [] e w = (Returned (), w)"
| "notify_listeners (l # ls) e w =
     (case lift_ext (l e (is_aborted w)) w of
        (Returned _, w') \<Rightarrow> notify_listeners ls e w'
      | (Raised msg, w') \<Rightarrow> (Raised msg, w')
      | (Hung, w') \<Rightarrow> (Hung, w'))"

definition processEvents :: "'e agent_options \<Rightarrow> agent_event \<Rightarrow> ('e agent_world, unit) call" where
  "processEvents opts e w =
     (let w' = w\<lparr>aw_agent := reduce_event e (aw_agent w)\<rparr>
      in if ag_activeRun (aw_agent w') = None
         then (Raised ''Agent listener invoked outside active run'', w')
         else notify_listeners (ao_listeners opts) e w')"

definition poll_steering :: "('e agent_world, agent_message list) call" where
  "poll_steering w =
     (if aw_skipPoll w then (Returned [], w\<lparr>aw_skipPoll := False\<rparr>)
      else (case drain (ag_steeringQueue (aw_agent w)) of
              (ms, q) \<Rightarrow> (Returned ms, w\<lparr>aw_agent := (aw_agent w)\<lparr>ag_steeringQueue := q\<rparr>\<rparr>)))"

definition poll_followUp :: "('e agent_world, agent_message list) call" where
  "poll_followUp w =
     (case drain (ag_followUpQueue (aw_agent w)) of
        (ms, q) \<Rightarrow> (Returned ms, w\<lparr>aw_agent := (aw_agent w)\<lparr>ag_followUpQueue := q\<rparr>\<rparr>))"

definition createContextSnapshot :: "'e agent_options \<Rightarrow> agent \<Rightarrow> 'e agent_world agent_context" where
  "createContextSnapshot opts a =
     \<lparr>cx_systemPrompt = st_systemPrompt a, cx_messages = st_messages a,
      cx_tools = Some (map lift_tool (ao_tools opts))\<rparr>"

definition lift_update_call :: "('e, 'e ext_turn_update option) ext \<Rightarrow> ('e agent_world, 'e agent_world turn_update option) call" where
  "lift_update_call f = (\<lambda>w. case lift_ext f w of
      (Returned u, w') \<Rightarrow> (Returned (map_option lift_update u), w')
    | (Raised msg, w') \<Rightarrow> (Raised msg, w')
    | (Hung, w') \<Rightarrow> (Hung, w'))"

definition createLoopConfig :: "'e agent_options \<Rightarrow> agent \<Rightarrow> 'e agent_world loop_config" where
  "createLoopConfig opts a =
     \<lparr>lc_model = st_model a,
      lc_reasoning = (if st_thinkingLevel a = ThinkOff then None else Some (st_thinkingLevel a)),
      lc_apiKey = None,
      lc_toolExecution = Some (ao_toolExecution opts),
      lc_convertToLlm = (case ao_convertToLlm opts of
          None \<Rightarrow> (\<lambda>ms w. (Returned (defaultConvertToLlm ms), w)) | Some f \<Rightarrow> (\<lambda>ms. lift_ext (f ms))),
      lc_transformContext = map_option (\<lambda>f ms. lift_ext (f ms)) (ao_transformContext opts),
      lc_getApiKey = map_option (\<lambda>f p. lift_ext (f p)) (ao_getApiKey opts),
      lc_shouldStopAfterTurn = None,
      lc_prepareNextTurn = (case ao_prepareNextTurnWithContext opts of
          Some f \<Rightarrow> Some (\<lambda>tc. lift_update_call (f tc))
        | None \<Rightarrow> map_option (\<lambda>f tc. lift_update_call f) (ao_prepareNextTurn opts)),
      lc_getSteeringMessages = Some poll_steering,
      lc_getFollowUpMessages = Some poll_followUp,
      lc_beforeToolCall = map_option (\<lambda>f c. lift_ext (f c)) (ao_beforeToolCall opts),
      lc_afterToolCall = map_option (\<lambda>f c. lift_ext (f c)) (ao_afterToolCall opts)\<rparr>"

definition agent_env :: "'e agent_options \<Rightarrow> 'e agent_world loop_env" where
  "agent_env opts =
     \<lparr>le_emit = processEvents opts,
      le_streamFn = (\<lambda>mdl lx so. lift_ext (ao_streamFn opts mdl lx so)),
      le_aborted = is_aborted,
      le_now = (\<lambda>w. ao_now opts (aw_env w)),
      le_validate = ao_validate opts,
      le_schedule = (\<lambda>n w. case ao_schedule opts n (aw_env w) of (k, e') \<Rightarrow> (k, w\<lparr>aw_env := e'\<rparr>))\<rparr>"

section \<open>The life cycle of a run\<close>

definition begin_run :: "agent \<Rightarrow> agent" where
  "begin_run a = a\<lparr>ag_activeRun := Some False, st_isStreaming := True, st_streamingMessage := None,
     st_errorMessage := None\<rparr>"

definition finishRun :: "agent \<Rightarrow> agent" where
  "finishRun a = a\<lparr>st_isStreaming := False, st_streamingMessage := None, st_pendingToolCalls := {},
     ag_activeRun := None\<rparr>"

definition EMPTY_USAGE :: usage where
  "EMPTY_USAGE = \<lparr>us_input = 0, us_output = 0, us_cacheRead = 0, us_cacheWrite = 0, us_totalTokens = 0,
     us_cost = \<lparr>uc_input = 0, uc_output = 0, uc_cacheRead = 0, uc_cacheWrite = 0, uc_total = 0\<rparr>\<rparr>"

definition failure_message :: "string \<Rightarrow> bool \<Rightarrow> int \<Rightarrow> agent \<Rightarrow> assistant_message" where
  "failure_message err aborted now a =
     \<lparr>am_content = [AText [] None], am_api = mod_api (st_model a), am_provider = mod_provider (st_model a),
      am_model = mod_id (st_model a), am_usage = EMPTY_USAGE,
      am_stopReason = (if aborted then Aborted else StopError), am_errorMessage = Some err, am_timestamp = now\<rparr>"

definition handleRunFailure :: "'e agent_options \<Rightarrow> string \<Rightarrow> ('e agent_world, agent_event, unit) act" where
  "handleRunFailure opts err =
     seq (gets (\<lambda>w. failure_message err (is_aborted w) (ao_now opts (aw_env w)) (aw_agent w)))
     (\<lambda>m. seq (emit (agent_env opts) (MessageStart (Assistant m)))
     (\<lambda>_. seq (emit (agent_env opts) (MessageEnd (Assistant m)))
     (\<lambda>_. seq (emit (agent_env opts) (TurnEnd (Assistant m) []))
     (\<lambda>_. emit (agent_env opts) (AgentEnd [Assistant m])))))"

definition upd_agent :: "(agent \<Rightarrow> agent) \<Rightarrow> 'e agent_world \<Rightarrow> 'e agent_world" where
  "upd_agent f w = w\<lparr>aw_agent := f (aw_agent w)\<rparr>"

text \<open>
  \<open>runWithLifecycle\<close>: the run is marked active, the executor runs, a raised error is reported by
  \<open>handleRunFailure\<close>, and the run is finished unless something never settles.
\<close>

definition runWithLifecycle ::
  "'e agent_options \<Rightarrow> ('e agent_world, agent_event, 'a) act \<Rightarrow> ('e agent_world, agent_event, unit) act" where
  "runWithLifecycle opts executor = (\<lambda>w.
     if ag_activeRun (aw_agent w) \<noteq> None then (Raised ''Agent is already processing.'', w, [])
     else case executor (upd_agent begin_run w) of
            (Returned _, w1, es) \<Rightarrow> (Returned (), upd_agent finishRun w1, es)
          | (Hung, w1, es) \<Rightarrow> (Hung, w1, es)
          | (Raised err, w1, es) \<Rightarrow>
              (case handleRunFailure opts err w1 of
                 (Hung, w2, es') \<Rightarrow> (Hung, w2, es @ es')
               | (r, w2, es') \<Rightarrow> (r, upd_agent finishRun w2, es @ es')))"

definition set_skip :: "bool \<Rightarrow> ('e agent_world, 'x, unit) act" where
  "set_skip b = (\<lambda>w. (Returned (), w\<lparr>aw_skipPoll := b\<rparr>, []))"

definition runPromptMessages ::
  "nat \<Rightarrow> 'e agent_options \<Rightarrow> agent_message list \<Rightarrow> bool \<Rightarrow> ('e agent_world, agent_event, unit) act" where
  "runPromptMessages fuel opts messages skipInitialSteeringPoll =
     runWithLifecycle opts
       (seq (set_skip skipInitialSteeringPoll)
       (\<lambda>_. seq (gets aw_agent)
       (\<lambda>a. runAgentLoop fuel (agent_env opts) messages (createContextSnapshot opts a) (createLoopConfig opts a))))"

definition runContinuation :: "nat \<Rightarrow> 'e agent_options \<Rightarrow> ('e agent_world, agent_event, unit) act" where
  "runContinuation fuel opts =
     runWithLifecycle opts
       (seq (set_skip False)
       (\<lambda>_. seq (gets aw_agent)
       (\<lambda>a. runAgentLoopContinue fuel (agent_env opts) (createContextSnapshot opts a) (createLoopConfig opts a))))"

text \<open>The three forms of a prompt.\<close>

datatype prompt_input = PromptMessages "agent_message list" | PromptMessage agent_message | PromptText string "media list"

definition normalizePromptInput :: "int \<Rightarrow> prompt_input \<Rightarrow> agent_message list" where
  "normalizePromptInput now input =
     (case input of
        PromptMessages ms \<Rightarrow> ms
      | PromptMessage m \<Rightarrow> [m]
      | PromptText s images \<Rightarrow>
          [User \<lparr>um_content = Parts (TextContent s None # images), um_timestamp = Some now\<rparr>])"

definition prompt ::
  "nat \<Rightarrow> 'e agent_options \<Rightarrow> prompt_input \<Rightarrow> ('e agent_world, agent_event, unit) act" where
  "prompt fuel opts input = (\<lambda>w.
     if ag_activeRun (aw_agent w) \<noteq> None
     then (Raised ''Agent is already processing a prompt. Use steer() or followUp() to queue messages, or wait for completion.'', w, [])
     else runPromptMessages fuel opts (normalizePromptInput (ao_now opts (aw_env w)) input) False w)"

definition drain_steering :: "'e agent_world \<Rightarrow> agent_message list \<times> 'e agent_world" where
  "drain_steering w = (case drain (ag_steeringQueue (aw_agent w)) of
     (ms, q) \<Rightarrow> (ms, upd_agent (\<lambda>a. a\<lparr>ag_steeringQueue := q\<rparr>) w))"

definition drain_followUp :: "'e agent_world \<Rightarrow> agent_message list \<times> 'e agent_world" where
  "drain_followUp w = (case drain (ag_followUpQueue (aw_agent w)) of
     (ms, q) \<Rightarrow> (ms, upd_agent (\<lambda>a. a\<lparr>ag_followUpQueue := q\<rparr>) w))"

definition continue_run :: "nat \<Rightarrow> 'e agent_options \<Rightarrow> ('e agent_world, agent_event, unit) act" where
  "continue_run fuel opts = (\<lambda>w.
     if ag_activeRun (aw_agent w) \<noteq> None
     then (Raised ''Agent is already processing. Wait for completion before continuing.'', w, [])
     else case last_opt (st_messages (aw_agent w)) of
       None \<Rightarrow> (Raised ''No messages to continue from'', w, [])
     | Some lastMessage \<Rightarrow>
         if is_assistant lastMessage
         then (case drain_steering w of (queuedSteering, w1) \<Rightarrow>
                 if queuedSteering \<noteq> [] then runPromptMessages fuel opts queuedSteering True w1
                 else (case drain_followUp w1 of (queuedFollowUps, w2) \<Rightarrow>
                         if queuedFollowUps \<noteq> [] then runPromptMessages fuel opts queuedFollowUps False w2
                         else (Raised ''Cannot continue from message role: assistant'', w2, [])))
         else runContinuation fuel opts w)"

end
