(* ===== verification/Agent_Lifecycle.thy ===== *)
theory Agent_Lifecycle
  imports Agent_Runtime
begin

text \<open>
  Correctness of \<open>packages/agent/src/agent.ts\<close>: the runtime state of the agent is the reduction of
  the events of a run (\<open>loop_observer\<close> interpreted on the agent), the reduction refines the
  protocol of the loop (transcript, open message, running tools), and a run that settles leaves the
  agent idle with its transcript extended by what the events reported.
\<close>

section \<open>The state is the reduction of the events\<close>

text \<open>The part of the agent that only events write: all but the queues and the state of the signal.\<close>

definition core :: "agent \<Rightarrow> agent" where
  "core a = a\<lparr>ag_steeringQueue := new_queue QueueAll, ag_followUpQueue := new_queue QueueAll,
     ag_activeRun := map_option (\<lambda>_. False) (ag_activeRun a)\<rparr>"

lemma core_apply_op [simp]: "core (apply_op x a) = core a"
  by (cases x) (auto simp: core_def steer_def followUp_def clearAllQueues_def clearSteeringQueue_def
      clearFollowUpQueue_def abort_def split: option.splits)

lemma core_apply_ops [simp]: "core (apply_ops ops a) = core a"
  unfolding apply_ops_def by (induction ops arbitrary: a) simp_all

lemma core_reduce: "core (reduce_event e a) = reduce_event e (core a)"
  by (cases e) (auto simp: core_def split: agent_message.splits)

lemma core_fold_reduce: "core (fold reduce_event es a) = fold reduce_event es (core a)"
  by (induction es arbitrary: a) (simp_all add: core_reduce)

lemma core_queues [simp]:
  "core (a\<lparr>ag_steeringQueue := q\<rparr>) = core a" "core (a\<lparr>ag_followUpQueue := q\<rparr>) = core a"
  by (simp_all add: core_def)

definition reduced :: "'e agent_world event_relation" where
  "reduced w es w' \<longleftrightarrow> core (aw_agent w') = core (fold reduce_event es (aw_agent w))"

lemma lift_ext_core: "lift_ext f w = (r, w') \<Longrightarrow> core (aw_agent w') = core (aw_agent w)"
  by (auto simp: lift_ext_def split: prod.splits)

lemma notify_core: "notify_listeners ls e w = (r, w') \<Longrightarrow> core (aw_agent w') = core (aw_agent w)"
  by (induction ls e w rule: notify_listeners.induct)
     (auto split: prod.splits outcome.splits dest!: lift_ext_core)

lemma processEvents_reduced: "processEvents opts e w = (r, w') \<Longrightarrow> reduced w [e] w'"
  by (auto simp: processEvents_def reduced_def Let_def split: if_splits dest: notify_core)

lemma call_ok_lift_ext: "call_ok reduced (lift_ext f)"
  by (auto simp: call_ok_def reduced_def dest: lift_ext_core)

lemma call_ok_lift_update: "call_ok reduced (lift_update_call f)"
  by (auto simp: call_ok_def reduced_def lift_update_call_def split: prod.splits outcome.splits
      dest: lift_ext_core)

interpretation ao: loop_observer reduced "agent_env opts"
  by unfold_locales
     (auto simp: reduced_def core_fold_reduce agent_env_def call_ok_def split: prod.splits
       dest: processEvents_reduced [unfolded reduced_def] lift_ext_core)

lemma tool_ok_lift: "tool_ok reduced (lift_tool t)"
  by (auto simp: tool_ok_def lift_tool_def reduced_def split: prod.splits)

lemma context_ok_snapshot: "context_ok reduced (createContextSnapshot opts a)"
  by (auto simp: context_ok_def createContextSnapshot_def tool_ok_lift)

lemma context_ok_lift: "context_ok reduced (lift_context c)"
  by (auto simp: context_ok_def lift_context_def tool_ok_lift split: prod.splits)

lemma lift_update_call_context:
  "lift_update_call f w = (Returned (Some u), w') \<Longrightarrow> tu_context u = Some cx \<Longrightarrow> context_ok reduced cx"
  by (auto simp: lift_update_call_def lift_update_def context_ok_lift split: prod.splits outcome.splits)

lemma call_ok_polls: "call_ok reduced poll_steering" "call_ok reduced poll_followUp"
  by (auto simp: call_ok_def reduced_def poll_steering_def poll_followUp_def split: prod.splits if_splits)

lemma config_ok_loop: "config_ok reduced (createLoopConfig opts a)"
  unfolding config_ok_def
  by (intro conjI allI impI)
     (auto simp: createLoopConfig_def call_ok_lift_ext call_ok_lift_update call_ok_polls
       split: option.splits dest: lift_update_call_context, simp add: call_ok_def reduced_def)

lemma loop_reduces:
  "runAgentLoop n (agent_env opts) ps (createContextSnapshot opts a) (createLoopConfig opts b) w = (r, w', es) \<Longrightarrow>
     reduced w es w'"
  by (rule ao.observed_runAgentLoop [OF config_ok_loop context_ok_snapshot, unfolded observed_def, rule_format])

lemma continue_reduces:
  "runAgentLoopContinue n (agent_env opts) (createContextSnapshot opts a) (createLoopConfig opts b) w = (r, w', es) \<Longrightarrow>
     reduced w es w'"
  by (rule ao.observed_runAgentLoopContinue [OF config_ok_loop context_ok_snapshot, unfolded observed_def, rule_format])

section \<open>Refinement of the protocol\<close>

text \<open>
  The abstraction: the transcript of the agent is what it had plus the transcript of the protocol,
  its streaming message is the open message, its pending calls are running.
\<close>

definition refines :: "agent_message list \<Rightarrow> protocol \<Rightarrow> agent \<Rightarrow> bool" where
  "refines base q a \<longleftrightarrow> st_messages a = base @ px_transcript q \<and> st_streamingMessage a = px_open q \<and>
     st_pendingToolCalls a \<subseteq> set_mset (px_running q)"

lemma reduce_event_refines:
  assumes "refines base q a" "protocol_step q e = Some q'"
  shows "refines base q' (reduce_event e a)"
proof -
  have step: "event_step q e = Some q' \<or> (e = AgentStart \<and> q' = q\<lparr>px_started := True\<rparr>)"
    using assms(2) by (auto simp: protocol_step_def split: if_splits)
  show ?thesis
    using assms(1) step
    by (cases e) (auto simp: refines_def quiet_state_def split: if_splits option.splits agent_message.splits
        dest: in_diffD, (metis in_diff_count insert_DiffM insert_iff set_mset_add_mset_insert subsetD)?)
qed

lemma run_events_refines:
  "refines base q a \<Longrightarrow> run_events protocol_step q es = Some q' \<Longrightarrow> refines base q' (fold reduce_event es a)"
  by (induction es arbitrary: q a) (auto split: option.splits intro: reduce_event_refines)

lemma refines_core: "refines base q (core a) = refines base q a"
  by (simp add: refines_def core_def)

lemma reduced_refines:
  "reduced w es w' \<Longrightarrow> refines base q (aw_agent w) \<Longrightarrow> run_events protocol_step q es = Some q' \<Longrightarrow>
     refines base q' (aw_agent w')"
  by (metis reduced_def refines_core run_events_refines)

lemma reduced_active: "reduced w es w' \<Longrightarrow> (ag_activeRun (aw_agent w') = None) = (ag_activeRun (aw_agent w) = None)"
proof -
  have "ag_activeRun (fold reduce_event es a) = ag_activeRun a" for a
  proof (induction es arbitrary: a)
    case (Cons e es)
    then show ?case by (cases e) (auto split: agent_message.splits)
  qed simp
  then show "reduced w es w' \<Longrightarrow> ?thesis"
    by (metis core_fold_reduce reduced_def core_def agent.select_convs(11) agent.surjective agent.update_convs(9,10,11) option.map_disc_iff)
qed

section \<open>The transcript of a run starts with its prompts\<close>

lemma event_step_prefix: "protocol_step q e = Some q' \<Longrightarrow> prefix (px_transcript q) (px_transcript q')"
  by (cases e) (auto simp: protocol_step_def split: if_splits option.splits agent_message.splits)

lemma run_events_prefix: "run_events protocol_step q es = Some q' \<Longrightarrow> prefix (px_transcript q) (px_transcript q')"
  by (induction es arbitrary: q)
     (auto split: option.splits intro: prefix_order.trans dest: event_step_prefix)

lemma follows_prefix:
  "follows protocol_step q m R \<Longrightarrow> follows protocol_step q m (\<lambda>x q'. R x q' \<and> prefix (px_transcript q) (px_transcript q'))"
  by (fastforce simp: follows_def dest: run_events_prefix)

lemma px_transcript_simps [simp]:
  "px_transcript (in_turn ts M m) = ts" "px_transcript (all_over ts) = ts" "px_transcript protocol_start = []"
  by (simp_all add: in_turn_def all_over_def between_turns_def protocol_start_def)

lemma follows_runAgentLoop_prompts:
  "stream_contract env \<Longrightarrow>
     follows protocol_step protocol_start (runAgentLoop fuel env prompts cx config)
       (\<lambda>msgs q. q = all_over msgs \<and> prefix prompts msgs)"
  unfolding runAgentLoop_def
  by (rule follows_seq_emit, simp, rule follows_seq_emit, simp, rule follows_seq [OF follows_messages])
     (auto intro!: follows_mono [OF follows_prefix [OF follows_runLoop]])

section \<open>The life cycle\<close>

definition idle :: "agent \<Rightarrow> bool" where
  "idle a \<longleftrightarrow> ag_activeRun a = None \<and> \<not> st_isStreaming a \<and> st_streamingMessage a = None \<and>
     st_pendingToolCalls a = {}"

lemma idle_finishRun: "idle (finishRun a)"
  by (simp add: idle_def finishRun_def)

lemma refines_begin: "idle a \<Longrightarrow> refines (st_messages a) protocol_start (begin_run a)"
  by (simp add: refines_def idle_def begin_run_def protocol_start_def)

lemma runWithLifecycle_idle:
  assumes "runWithLifecycle opts ex w = (r, w', es)" "ag_activeRun (aw_agent w) = None" "r \<noteq> Hung"
  shows "idle (aw_agent w')"
  using assms by (auto simp: runWithLifecycle_def upd_agent_def idle_finishRun
      split: prod.splits outcome.splits)

text \<open>What the failure path adds to the events of a run.\<close>

definition failure_events :: "assistant_message \<Rightarrow> agent_event list" where
  "failure_events m = [MessageStart (Assistant m), MessageEnd (Assistant m), TurnEnd (Assistant m) [],
     AgentEnd [Assistant m]]"

lemma emit_Returned: "emit env e w = (Returned (), w', es) \<Longrightarrow> es = [e]"
  by (auto simp: emit_def emit_to_def split: prod.splits)

lemma emit_events: "emit env e w = (r, w', es) \<Longrightarrow> es = [e]"
  by (auto simp: emit_def emit_to_def split: prod.splits)

lemma handleRunFailure_reduced: "handleRunFailure opts err w = (r, w', es) \<Longrightarrow> reduced w es w'"
proof -
  have "observed reduced (handleRunFailure opts err)"
    unfolding handleRunFailure_def by (intro ao.observed_rules)
  then show "handleRunFailure opts err w = (r, w', es) \<Longrightarrow> ?thesis" by (auto simp: observed_def)
qed

lemma handleRunFailure_events:
  assumes "handleRunFailure opts err w = (Returned (), w', es)"
  shows "es = failure_events (failure_message err (is_aborted w) (ao_now opts (aw_env w)) (aw_agent w))"
  using assms unfolding handleRunFailure_def seq_def gets_def failure_events_def
  by (auto split: prod.splits outcome.splits dest!: emit_events)

lemma failure_messages:
  "st_messages (fold reduce_event (failure_events m) a) = st_messages a @ [Assistant m]"
  by (simp add: failure_events_def)

lemma core_messages [simp]: "st_messages (core a) = st_messages a"
  by (simp add: core_def)

lemma reduced_messages: "reduced w es w' \<Longrightarrow> st_messages (aw_agent w') = st_messages (fold reduce_event es (aw_agent w))"
  by (metis reduced_def core_messages)

text \<open>
  What the events of a settled run report: the transcript of a complete run of the protocol, or the
  transcript of an interrupted one and the failure message.
\<close>

definition reports :: "agent_event list \<Rightarrow> agent_message list \<Rightarrow> bool" where
  "reports es ts \<longleftrightarrow>
     run_events protocol_step protocol_start es = Some (all_over ts) \<or>
     (\<exists>es1 q m. es = es1 @ failure_events m \<and> run_events protocol_step protocol_start es1 = Some q \<and>
        ts = px_transcript q @ [Assistant m] \<and> am_stopReason m \<in> {StopError, Aborted})"

lemma runWithLifecycle_reports:
  assumes run: "runWithLifecycle opts ex w = (Returned (), w', es)"
    and idle: "idle (aw_agent w)"
    and obs: "\<And>w r w' es. ex w = (r, w', es) \<Longrightarrow> reduced w es w'"
    and fol: "follows protocol_step protocol_start ex (\<lambda>_ q. \<exists>ts. q = all_over ts)"
  shows "\<exists>ts. reports es ts \<and> st_messages (aw_agent w') = st_messages (aw_agent w) @ ts"
proof -
  have act: "ag_activeRun (aw_agent w) = None" using idle by (simp add: idle_def)
  obtain r1 w1 es1 where e1: "ex (upd_agent begin_run w) = (r1, w1, es1)"
    by (cases "ex (upd_agent begin_run w)") auto
  from followsD [OF fol e1] obtain q where q: "run_events protocol_step protocol_start es1 = Some q"
    and ret: "\<And>x. r1 = Returned x \<Longrightarrow> \<exists>ts. q = all_over ts" by blast
  have start: "refines (st_messages (aw_agent w)) protocol_start (aw_agent (upd_agent begin_run w))"
    using refines_begin [OF idle] by (simp add: upd_agent_def)
  have m1: "st_messages (aw_agent w1) = st_messages (aw_agent w) @ px_transcript q"
    using reduced_refines [OF obs [OF e1] start q] by (simp add: refines_def)
  show ?thesis
  proof (cases r1)
    case (Returned x)
    with run act e1 have "w' = upd_agent finishRun w1" "es = es1" by (auto simp: runWithLifecycle_def)
    with ret [OF Returned] q m1 show ?thesis
      by (auto simp: reports_def upd_agent_def finishRun_def)
  next
    case (Raised err)
    obtain r2 w2 es2 where h: "handleRunFailure opts err w1 = (r2, w2, es2)"
      by (cases "handleRunFailure opts err w1") auto
    let ?m = "failure_message err (is_aborted w1) (ao_now opts (aw_env w1)) (aw_agent w1)"
    from run act e1 Raised h have r2: "r2 = Returned ()" and w': "w' = upd_agent finishRun w2" and es: "es = es1 @ es2"
      by (auto simp: runWithLifecycle_def split: outcome.splits)
    from handleRunFailure_events h r2 have es2: "es2 = failure_events ?m" by blast
    have "st_messages (aw_agent w2) = st_messages (aw_agent w) @ px_transcript q @ [Assistant ?m]"
      using reduced_messages [OF handleRunFailure_reduced [OF h]] m1 by (simp add: es2 failure_messages)
    moreover have "am_stopReason ?m \<in> {StopError, Aborted}" by (simp add: failure_message_def)
    ultimately show ?thesis
      using q by (auto simp: w' es es2 reports_def upd_agent_def finishRun_def)
  next
    case Hung
    with run act e1 show ?thesis by (auto simp: runWithLifecycle_def)
  qed
qed

section \<open>Prompts and continuations\<close>

lemma set_skip_agent: "reduced w [] (w\<lparr>aw_skipPoll := b\<rparr>)"
  by (simp add: reduced_def)

lemma reduced_seq_start:
  "reduced (w\<lparr>aw_skipPoll := b\<rparr>) es w' \<Longrightarrow> reduced w es w'"
  by (simp add: reduced_def)

definition prompt_body :: "nat \<Rightarrow> 'e agent_options \<Rightarrow> agent_message list \<Rightarrow> bool \<Rightarrow> ('e agent_world, agent_event, agent_message list) act" where
  "prompt_body fuel opts messages skip = seq (set_skip skip) (\<lambda>_. seq (gets aw_agent)
     (\<lambda>a. runAgentLoop fuel (agent_env opts) messages (createContextSnapshot opts a) (createLoopConfig opts a)))"

definition continue_body :: "nat \<Rightarrow> 'e agent_options \<Rightarrow> ('e agent_world, agent_event, agent_message list) act" where
  "continue_body fuel opts = seq (set_skip False) (\<lambda>_. seq (gets aw_agent)
     (\<lambda>a. runAgentLoopContinue fuel (agent_env opts) (createContextSnapshot opts a) (createLoopConfig opts a)))"

lemma seq_quiet_run:
  "seq (set_skip b) (\<lambda>_. seq (gets aw_agent) f) w = f (aw_agent w) (w\<lparr>aw_skipPoll := b\<rparr>)"
  by (auto simp: seq_def set_skip_def gets_def split: prod.splits)

lemma bodies_reduced:
  "prompt_body fuel opts ms b w = (r, w', es) \<Longrightarrow> reduced w es w'"
  "continue_body fuel opts w = (r, w', es) \<Longrightarrow> reduced w es w'"
  unfolding prompt_body_def continue_body_def seq_quiet_run
  by (auto intro: reduced_seq_start dest: loop_reduces continue_reduces)

lemma follows_set_skip: "R () q \<Longrightarrow> follows d q (set_skip b) R"
  by (auto simp: follows_def set_skip_def)

lemma follows_bodies:
  assumes "stream_contract (agent_env opts)"
  shows "follows protocol_step protocol_start (prompt_body fuel opts ms b) (\<lambda>x q. q = all_over x \<and> prefix ms x)"
    and "follows protocol_step protocol_start (continue_body fuel opts) (\<lambda>x q. q = all_over x)"
  unfolding prompt_body_def continue_body_def
  by (rule follows_seq [OF follows_set_skip [where R = "\<lambda>_ q. q = protocol_start"]], simp, simp,
      rule follows_seq [OF follows_gets [where R = "\<lambda>_ q. q = protocol_start"]], simp,
      simp add: follows_runAgentLoop_prompts [OF assms] follows_runAgentLoopContinue [OF assms])+

lemma runPromptMessages_body:
  "runPromptMessages fuel opts ms b = runWithLifecycle opts (prompt_body fuel opts ms b)"
  "runContinuation fuel opts = runWithLifecycle opts (continue_body fuel opts)"
  by (simp_all add: runPromptMessages_def runContinuation_def prompt_body_def continue_body_def)

lemma runPromptMessages_reports:
  assumes "stream_contract (agent_env opts)" "idle (aw_agent w)"
    "runPromptMessages fuel opts ms b w = (Returned (), w', es)"
  shows "\<exists>ts. reports es ts \<and> st_messages (aw_agent w') = st_messages (aw_agent w) @ ts"
  using assms(3) unfolding runPromptMessages_body
  by (rule runWithLifecycle_reports)
     (use assms follows_bodies(1) [OF assms(1)] in \<open>auto intro: bodies_reduced follows_mono\<close>)

lemma runContinuation_reports:
  assumes "stream_contract (agent_env opts)" "idle (aw_agent w)"
    "runContinuation fuel opts w = (Returned (), w', es)"
  shows "\<exists>ts. reports es ts \<and> st_messages (aw_agent w') = st_messages (aw_agent w) @ ts"
  using assms(3) unfolding runPromptMessages_body
  by (rule runWithLifecycle_reports)
     (use assms follows_bodies(2) [OF assms(1)] in \<open>auto intro: bodies_reduced follows_mono\<close>)

lemma prompt_reports:
  assumes "stream_contract (agent_env opts)" "idle (aw_agent w)"
    "prompt fuel opts input w = (Returned (), w', es)"
  shows "\<exists>ts. reports es ts \<and> st_messages (aw_agent w') = st_messages (aw_agent w) @ ts"
  using assms by (auto simp: prompt_def idle_def intro!: runPromptMessages_reports)

lemma drain_world:
  "drain_steering w = (ms, w') \<Longrightarrow> core (aw_agent w') = core (aw_agent w)"
  "drain_followUp w = (ms, w') \<Longrightarrow> core (aw_agent w') = core (aw_agent w)"
  by (auto simp: drain_steering_def drain_followUp_def upd_agent_def split: prod.splits)

lemma core_idle: "core a = core b \<Longrightarrow> idle a = idle b \<and> st_messages a = st_messages b"
proof -
  have "idle (core c) = idle c" for c by (simp add: idle_def core_def)
  then show "core a = core b \<Longrightarrow> ?thesis" by (metis core_messages)
qed

lemma continue_reports:
  assumes "stream_contract (agent_env opts)" "idle (aw_agent w)"
    "continue_run fuel opts w = (Returned (), w', es)"
  shows "\<exists>ts. reports es ts \<and> st_messages (aw_agent w') = st_messages (aw_agent w) @ ts"
proof -
  obtain sm w1 where d1: "drain_steering w = (sm, w1)" by (cases "drain_steering w")
  obtain fm w2 where d2: "drain_followUp w1 = (fm, w2)" by (cases "drain_followUp w1")
  have i1: "idle (aw_agent w1)" "st_messages (aw_agent w1) = st_messages (aw_agent w)"
    using core_idle [OF drain_world(1) [OF d1]] assms(2) by auto
  have i2: "idle (aw_agent w2)" "st_messages (aw_agent w2) = st_messages (aw_agent w)"
    using core_idle [OF drain_world(2) [OF d2]] i1 by auto
  show ?thesis
    using assms(3) d1 d2 runContinuation_reports [OF assms(1,2)]
      runPromptMessages_reports [OF assms(1) i1(1)] runPromptMessages_reports [OF assms(1) i2(1)] i1 i2
    by (auto simp: continue_run_def split: if_splits option.splits)
qed

lemma prompt_idle:
  assumes "prompt fuel opts input w = (r, w', es)" "idle (aw_agent w)" "r \<noteq> Hung"
  shows "idle (aw_agent w')"
proof (rule runWithLifecycle_idle [OF _ _ assms(3)])
  show "ag_activeRun (aw_agent w) = None" using assms(2) by (simp add: idle_def)
  then show "runWithLifecycle opts (prompt_body fuel opts (normalizePromptInput (ao_now opts (aw_env w)) input) False) w
      = (r, w', es)"
    using assms(1) by (simp add: prompt_def runPromptMessages_body)
qed

lemma prompt_busy:
  "ag_activeRun (aw_agent w) \<noteq> None \<Longrightarrow> \<exists>msg. prompt fuel opts input w = (Raised msg, w, [])"
  by (auto simp: prompt_def)

lemma continue_nothing:
  assumes "idle (aw_agent w)" "last_opt (st_messages (aw_agent w)) = Some (Assistant m)"
    "\<not> hasQueuedMessages (aw_agent w)"
  shows "\<exists>msg. continue_run fuel opts w = (Raised msg, w, [])"
proof -
  have "drain q = ([], q)" if "\<not> hasItems q" for q
    using that by (cases q) (auto simp: drain_def hasItems_def)
  then have "drain_steering w = ([], w)" "drain_followUp w = ([], w)"
    using assms(3) by (auto simp: hasQueuedMessages_def drain_steering_def drain_followUp_def upd_agent_def)
  with assms show ?thesis by (simp add: continue_run_def idle_def)
qed

text \<open>The guard of \<open>processEvents\<close>: during a run the listeners always find an active run.\<close>

lemma reduced_run_active:
  "reduced (upd_agent begin_run w) es w' \<Longrightarrow> ag_activeRun (aw_agent w') \<noteq> None"
  using reduced_active by (fastforce simp: upd_agent_def begin_run_def)

end
