(* ===== verification/Agent_Hooks.thy ===== *)
theory Agent_Hooks
  imports Agent_Lifecycle
begin

text \<open>
  The tool hooks that \<open>packages/coding-agent/src/core/agent-session.ts\<close> installs on the agent
  (\<open>_installAgentToolHooks\<close>, \<open>_reviewPolicy\<close>), the built-in tool policies of \<open>tools/index.ts\<close>, and
  the two interception points of \<open>extensions/runner.ts\<close>. The world \<open>'w\<close> holds whatever the
  extension handlers, the approval dialog and the trace change; the session reads its tools, mode
  and dialog from it at the time of a call.
\<close>

section \<open>Extension handlers\<close>

record tool_call_event_result =
  tcr_block :: bool
  tcr_reason :: "string option"

record tool_result_event =
  tre_content :: "media list option"
  tre_details :: "json option"
  tre_isError :: bool

record tool_result_event_result =
  trr_content :: "media list option"
  trr_details :: "json option"
  trr_isError :: "bool option"

text \<open>A \<open>tool_call\<close> handler may mutate \<open>event.input\<close>: it gives its result and the input it leaves.\<close>

type_synonym 'w tool_call_handler =
  "string \<Rightarrow> string \<Rightarrow> json \<Rightarrow> ('w, tool_call_event_result option \<times> json) call"
type_synonym 'w tool_result_handler =
  "string \<Rightarrow> string \<Rightarrow> json \<Rightarrow> tool_result_event \<Rightarrow> ('w, tool_result_event_result option) call"

record 'w extension =
  ex_path :: string
  ex_tool_call :: "'w tool_call_handler list"
  ex_tool_result :: "'w tool_result_handler list"

record 'w extension_runner =
  rn_extensions :: "'w extension list"
  rn_emitError :: "string \<Rightarrow> string \<Rightarrow> string \<Rightarrow> 'w \<Rightarrow> 'w"

definition hasHandlers_tool_call :: "'w extension_runner \<Rightarrow> bool" where
  "hasHandlers_tool_call runner = list_ex (\<lambda>e. 0 < length (ex_tool_call e)) (rn_extensions runner)"

definition hasHandlers_tool_result :: "'w extension_runner \<Rightarrow> bool" where
  "hasHandlers_tool_result runner = list_ex (\<lambda>e. 0 < length (ex_tool_result e)) (rn_extensions runner)"

text \<open>The two nested loops run over the handlers in the order of the extensions.\<close>

fun call_handlers ::
  "'w tool_call_handler list \<Rightarrow> string \<Rightarrow> string \<Rightarrow> json \<Rightarrow> tool_call_event_result option
     \<Rightarrow> ('w, tool_call_event_result option \<times> json) call" where
  "call_handlers [] name i input result w = (Returned (result, input), w)"
| "call_handlers (h # hs) name i input result w =
     (case h name i input w of
        (Returned (None, input'), w') \<Rightarrow> call_handlers hs name i input' result w'
      | (Returned (Some r, input'), w') \<Rightarrow>
          if tcr_block r then (Returned (Some r, input'), w')
          else call_handlers hs name i input' (Some r) w'
      | (Raised e, w') \<Rightarrow> (Raised e, w')
      | (Hung, w') \<Rightarrow> (Hung, w'))"

definition emitToolCall ::
  "'w extension_runner \<Rightarrow> string \<Rightarrow> string \<Rightarrow> json \<Rightarrow> ('w, tool_call_event_result option \<times> json) call" where
  "emitToolCall runner name i input =
     call_handlers (concat (map ex_tool_call (rn_extensions runner))) name i input None"

definition patch_result_event :: "tool_result_event_result \<Rightarrow> tool_result_event \<times> bool \<Rightarrow> tool_result_event \<times> bool" where
  "patch_result_event r acc = (case acc of (ev, modified) \<Rightarrow>
     (ev\<lparr>tre_content := nullish_opt (trr_content r) (tre_content ev),
         tre_details := nullish_opt (trr_details r) (tre_details ev),
         tre_isError := nullish (trr_isError r) (tre_isError ev)\<rparr>,
      modified \<or> trr_content r \<noteq> None \<or> trr_details r \<noteq> None \<or> trr_isError r \<noteq> None))"

fun result_handlers ::
  "'w extension_runner \<Rightarrow> (string \<times> 'w tool_result_handler) list \<Rightarrow> string \<Rightarrow> string \<Rightarrow> json
     \<Rightarrow> tool_result_event \<times> bool \<Rightarrow> ('w, tool_result_event \<times> bool) call" where
  "result_handlers runner [] name i input acc w = (Returned acc, w)"
| "result_handlers runner ((path, h) # hs) name i input acc w =
     (case h name i input (fst acc) w of
        (Returned None, w') \<Rightarrow> result_handlers runner hs name i input acc w'
      | (Returned (Some r), w') \<Rightarrow> result_handlers runner hs name i input (patch_result_event r acc) w'
      | (Raised e, w') \<Rightarrow> result_handlers runner hs name i input acc (rn_emitError runner path ''tool_result'' e w')
      | (Hung, w') \<Rightarrow> (Hung, w'))"

definition emitToolResult ::
  "'w extension_runner \<Rightarrow> string \<Rightarrow> string \<Rightarrow> json \<Rightarrow> tool_result_event \<Rightarrow> ('w, tool_result_event option) call" where
  "emitToolResult runner name i input ev = (\<lambda>w.
     case result_handlers runner
            (concat (map (\<lambda>e. map (\<lambda>h. (ex_path e, h)) (ex_tool_result e)) (rn_extensions runner)))
            name i input (ev, False) w of
       (Returned (ev', modified), w') \<Rightarrow> (Returned (if modified then Some ev' else None), w')
     | (Raised e, w') \<Rightarrow> (Raised e, w')
     | (Hung, w') \<Rightarrow> (Hung, w'))"

section \<open>The policies of the built-in tools\<close>

definition scope :: "resource_kind \<Rightarrow> resource_access \<Rightarrow> string list option \<Rightarrow> tool_resource_scope" where
  "scope k a ps = \<lparr>rs_kind = k, rs_access = a, rs_patterns = ps\<rparr>"

definition policy :: "risk_level \<Rightarrow> tool_resource_scope list \<Rightarrow> tool_policy_descriptor" where
  "policy r rs = \<lparr>pd_risk = r, pd_resources = rs, pd_description = None\<rparr>"

definition BUILTIN_TOOL_POLICIES :: "(string \<times> tool_policy_descriptor) list" where
  "BUILTIN_TOOL_POLICIES =
     (let cwd = Some [''cwd/**''];
          reading = policy LowRisk [scope Filesystem ReadAccess cwd];
          writing = policy MediumRisk [scope Filesystem WriteAccess cwd]
      in
     [(''run_script'', policy MediumRisk [scope Process ExecuteAccess None, scope Filesystem ReadAccess cwd]),
      (''read'', reading), (''grep'', reading), (''find'', reading), (''ls'', reading),
      (''edit'', writing), (''write'', writing),
      (''bash'', policy HighRisk [scope Process ExecuteAccess None, scope Filesystem WriteAccess cwd]),
      (''spawn_agent'', policy HighRisk [scope Orchestrator ManageAccess None, scope Process ExecuteAccess None]),
      (''wait_agent'', policy LowRisk [scope Orchestrator ReadAccess None]),
      (''cancel_agent'', policy MediumRisk [scope Orchestrator ManageAccess None]),
      (''retry_agent'', policy MediumRisk [scope Orchestrator ManageAccess None]),
      (''list_agents'', policy LowRisk [scope Orchestrator ReadAccess None])])"

definition declareToolPolicy :: "string \<Rightarrow> 'w agent_tool \<Rightarrow> 'w agent_tool" where
  "declareToolPolicy toolName tool = tool\<lparr>tl_policy := map_of BUILTIN_TOOL_POLICIES toolName\<rparr>"

section \<open>The session hooks\<close>

datatype extension_mode = TuiMode | RpcMode | JsonMode | PrintMode

record policy_span =
  ps_toolName :: string
  ps_toolCallId :: string
  ps_decision :: string
  ps_risk :: risk_level
  ps_resourceCount :: nat
  ps_reason :: "string option"

text \<open>The dialog: a title and the choices; the choice made, or none after the timeout.\<close>

type_synonym 'w select_dialog = "string \<Rightarrow> string list \<Rightarrow> ('w, string option) call"

record 'w session_view =
  sv_tools :: "'w \<Rightarrow> 'w agent_tool list"
  sv_extensionMode :: "'w \<Rightarrow> extension_mode"
  sv_ui :: "'w \<Rightarrow> 'w select_dialog option"
  sv_runner :: "'w \<Rightarrow> 'w extension_runner"
  sv_policyEngine :: "'w policy_engine"
  sv_recordPolicyDecision :: "policy_span \<Rightarrow> 'w \<Rightarrow> 'w"

definition resource_kind_name :: "resource_kind \<Rightarrow> string" where
  "resource_kind_name k = (case k of Filesystem \<Rightarrow> ''filesystem'' | Process \<Rightarrow> ''process'' | Network \<Rightarrow> ''network''
     | SessionRes \<Rightarrow> ''session'' | Orchestrator \<Rightarrow> ''orchestrator'' | OtherRes \<Rightarrow> ''other'')"

definition resource_access_name :: "resource_access \<Rightarrow> string" where
  "resource_access_name a = (case a of ReadAccess \<Rightarrow> ''read'' | WriteAccess \<Rightarrow> ''write'' | ExecuteAccess \<Rightarrow> ''execute''
     | ConnectAccess \<Rightarrow> ''connect'' | ManageAccess \<Rightarrow> ''manage'')"

fun join :: "string \<Rightarrow> string list \<Rightarrow> string" where
  "join sep [] = []"
| "join sep [x] = x"
| "join sep (x # y # xs) = x @ sep @ join sep (y # xs)"

definition reviewPolicy :: "'w session_view \<Rightarrow> 'w policy_reviewer" where
  "reviewPolicy view request reason = (\<lambda>w.
     case sv_ui view w of
       None \<Rightarrow> (Returned (Block (Some ''Approval UI is unavailable'')), w)
     | Some select \<Rightarrow>
         (case select (''Approve '' @ pr_toolName request @ ''?'') [''Allow once'', ''Block''] w of
            (Returned choice, w') \<Rightarrow>
              if choice = Some ''Allow once''
              then (let scopes = join '', '' (map (\<lambda>r. resource_kind_name (rs_kind r) @ '':'' @ resource_access_name (rs_access r))
                                                (pd_resources (pr_descriptor request)))
                    in (Returned (Allow (Some (''Approved interactively ('' @ or_str (Some scopes) ''no declared resources'' @ '')''))), w'))
              else (Returned (Block (Some (nullish reason ''User denied tool execution''))), w')
          | (Raised e, w') \<Rightarrow> (Raised e, w')
          | (Hung, w') \<Rightarrow> (Hung, w')))"

definition undeclared_policy :: tool_policy_descriptor where
  "undeclared_policy = \<lparr>pd_risk = LowRisk, pd_resources = [scope OtherRes ReadAccess None],
     pd_description = Some ''Tool did not declare a policy descriptor''\<rparr>"

text \<open>The descriptor is that of the session's current tool of that name.\<close>

definition tool_descriptor :: "'w session_view \<Rightarrow> 'w \<Rightarrow> string \<Rightarrow> tool_policy_descriptor" where
  "tool_descriptor view w name =
     (case find (\<lambda>t. tl_name t = name) (sv_tools view w) of
        None \<Rightarrow> undeclared_policy
      | Some t \<Rightarrow> nullish (tl_policy t) undeclared_policy)"

definition is_interactive :: "'w session_view \<Rightarrow> 'w \<Rightarrow> bool" where
  "is_interactive view w = (sv_extensionMode view w \<noteq> PrintMode \<and> sv_ui view w \<noteq> None)"

definition policy_request :: "'w session_view \<Rightarrow> 'w \<Rightarrow> tool_call \<Rightarrow> json \<Rightarrow> tool_policy_request" where
  "policy_request view w tc args =
     \<lparr>pr_toolName = tc_name tc, pr_toolCallId = tc_id tc, pr_arguments = args,
      pr_descriptor = tool_descriptor view w (tc_name tc), pr_interactive = is_interactive view w\<rparr>"

fun decision_type :: "final_decision \<Rightarrow> string" where
  "decision_type (Allow r) = ''allow''"
| "decision_type (Block r) = ''block''"
| "decision_type (Rewrite a r) = ''rewrite''"

fun decision_reason :: "final_decision \<Rightarrow> string option" where
  "decision_reason (Allow r) = r"
| "decision_reason (Block r) = r"
| "decision_reason (Rewrite a r) = r"

definition decision_span :: "tool_policy_request \<Rightarrow> final_decision \<Rightarrow> policy_span" where
  "decision_span request d =
     \<lparr>ps_toolName = pr_toolName request, ps_toolCallId = pr_toolCallId request, ps_decision = decision_type d,
      ps_risk = pd_risk (pr_descriptor request), ps_resourceCount = length (pd_resources (pr_descriptor request)),
      ps_reason = decision_reason d\<rparr>"

text \<open>After the decision: the extensions see the arguments in force; they may block or mutate them.\<close>

definition extension_check ::
  "'w session_view \<Rightarrow> tool_call \<Rightarrow> json \<Rightarrow> json option \<Rightarrow> ('w, before_tool_call_result option \<times> json) call" where
  "extension_check view tc args rewritten = (\<lambda>w.
     let runner = sv_runner view w; input = nullish rewritten args in
     if \<not> hasHandlers_tool_call runner
     then (Returned (map_option (\<lambda>a. \<lparr>bt_block = False, bt_reason = None, bt_arguments = Some a\<rparr>) rewritten, args), w)
     else (case emitToolCall runner (tc_name tc) (tc_id tc) input w of
             (Returned (r, input'), w') \<Rightarrow>
               (Returned
                  (Some \<lparr>bt_block = (case r of None \<Rightarrow> False | Some x \<Rightarrow> tcr_block x),
                         bt_reason = (case r of None \<Rightarrow> None | Some x \<Rightarrow> tcr_reason x),
                         bt_arguments = (if rewritten \<noteq> None then Some input' else None)\<rparr>,
                   if rewritten \<noteq> None then args else input'), w')
           | (Raised e, w') \<Rightarrow> (Raised e, w')
           | (Hung, w') \<Rightarrow> (Hung, w')))"

definition beforeToolCall ::
  "'w session_view \<Rightarrow> 'w before_tool_call_context \<Rightarrow> ('w, before_tool_call_result option \<times> json) call" where
  "beforeToolCall view c = (\<lambda>w.
     let tc = bc_toolCall c; args = bc_args c; request = policy_request view w tc args in
     case decide (sv_policyEngine view) request (Some (reviewPolicy view)) w of
       (Raised e, w1) \<Rightarrow> (Raised e, w1)
     | (Hung, w1) \<Rightarrow> (Hung, w1)
     | (Returned d, w1) \<Rightarrow>
         (let w2 = sv_recordPolicyDecision view (decision_span request d) w1 in
          case d of
            Block reason \<Rightarrow>
              (Returned (Some \<lparr>bt_block = True, bt_reason = Some (nullish reason ''Tool execution was blocked by policy''),
                               bt_arguments = None\<rparr>, args), w2)
          | Allow reason \<Rightarrow> extension_check view tc args None w2
          | Rewrite a reason \<Rightarrow> extension_check view tc args (Some a) w2))"

definition afterToolCall ::
  "'w session_view \<Rightarrow> 'w after_tool_call_context \<Rightarrow> ('w, after_tool_call_result option) call" where
  "afterToolCall view c = (\<lambda>w.
     let runner = sv_runner view w; tc = ac_toolCall c in
     if \<not> hasHandlers_tool_result runner then (Returned None, w)
     else (case emitToolResult runner (tc_name tc) (tc_id tc) (ac_args c)
                  \<lparr>tre_content = res_content (ac_result c), tre_details = res_details (ac_result c),
                   tre_isError = ac_isError c\<rparr> w of
             (Returned None, w') \<Rightarrow> (Returned None, w')
           | (Returned (Some ev), w') \<Rightarrow>
               (Returned (Some \<lparr>at_content = tre_content ev, at_details = tre_details ev,
                                at_isError = Some (tre_isError ev), at_terminate = None\<rparr>), w')
           | (Raised e, w') \<Rightarrow> (Raised e, w')
           | (Hung, w') \<Rightarrow> (Hung, w')))"

section \<open>What the hooks guarantee\<close>

lemma find_tool_snapshot:
  "cx_tools cx = Some ts \<Longrightarrow> find_tool cx name = find (\<lambda>t. tl_name t = name) ts"
  by (simp add: find_tool_def)

text \<open>The descriptor the policy judges is the declared one when the session still has the tool.\<close>

lemma tool_descriptor_declared:
  "find (\<lambda>t. tl_name t = name) (sv_tools view w) = Some tool \<Longrightarrow> tl_policy tool = Some pd \<Longrightarrow>
     tool_descriptor view w name = pd"
  by (simp add: tool_descriptor_def)

definition default_engine :: "'w session_view \<Rightarrow> bool" where
  "default_engine view \<longleftrightarrow> sv_policyEngine view = new_policy_engine default_policy_options"

lemma beforeToolCall_critical:
  assumes "default_engine view" "pd_risk (tool_descriptor view w (tc_name (bc_toolCall c))) = CriticalRisk"
  shows "\<exists>reason. beforeToolCall view c w =
    (Returned (Some \<lparr>bt_block = True, bt_reason = Some reason, bt_arguments = None\<rparr>, bc_args c),
     sv_recordPolicyDecision view (decision_span (policy_request view w (bc_toolCall c) (bc_args c))
       (Block (Some reason))) w)"
  using assms
  by (simp add: beforeToolCall_def default_engine_def decide_def new_policy_engine_def default_policy_options_def
      defaultDecision_def policy_request_def Let_def)

text \<open>High risk: only an interactive session whose user chose to allow the call lets it pass.\<close>

definition user_allows :: "'w session_view \<Rightarrow> 'w \<Rightarrow> string \<Rightarrow> bool" where
  "user_allows view w name \<longleftrightarrow> sv_extensionMode view w \<noteq> PrintMode \<and>
     (\<exists>select w'. sv_ui view w = Some select \<and>
        select (''Approve '' @ name @ ''?'') [''Allow once'', ''Block''] w = (Returned (Some ''Allow once''), w'))"

lemma reviewPolicy_allows:
  "reviewPolicy view request reason w = (Returned d, w') \<Longrightarrow> \<not> decision_blocks d \<Longrightarrow>
     \<exists>select w'. sv_ui view w = Some select \<and>
       select (''Approve '' @ pr_toolName request @ ''?'') [''Allow once'', ''Block''] w = (Returned (Some ''Allow once''), w')"
  by (auto simp: reviewPolicy_def decision_blocks_def Let_def split: option.splits prod.splits outcome.splits if_splits)

lemma decide_high_passes:
  assumes "default_engine view" "pd_risk (tool_descriptor view w (tc_name tc)) = HighRisk"
    and "decide (sv_policyEngine view) (policy_request view w tc args) (Some (reviewPolicy view)) w = (Returned d, w')"
    and "\<not> decision_blocks d"
  shows "user_allows view w (tc_name tc)"
proof -
  have "is_interactive view w" and
    "reviewPolicy view (policy_request view w tc args) (Some ''High-risk tool execution requires approval'') w = (Returned d, w')"
    using assms(2-4) decide_default_high [of "policy_request view w tc args" "Some (reviewPolicy view)" w]
      assms(1) [unfolded default_engine_def]
    by (auto simp: policy_request_def decision_blocks_def split: if_splits)
  with reviewPolicy_allows [OF this(2) assms(4)] show ?thesis
    by (auto simp: user_allows_def is_interactive_def policy_request_def)
qed

lemma beforeToolCall_passes:
  assumes "beforeToolCall view c w = (Returned (r, a), w')" "\<forall>b. r = Some b \<longrightarrow> \<not> bt_block b"
  shows "\<exists>d w1. decide (sv_policyEngine view) (policy_request view w (bc_toolCall c) (bc_args c))
      (Some (reviewPolicy view)) w = (Returned d, w1) \<and> \<not> decision_blocks d"
  using assms
  by (auto simp: beforeToolCall_def Let_def decision_blocks_def split: prod.splits outcome.splits final_decision.splits)

text \<open>
  The two halves together: with the session's hook installed, the loop prepares a tool for execution
  only if the policy let it pass in the world in which the hook ran.
\<close>

lemma prepareToolCall_policy:
  assumes hook: "lc_beforeToolCall config = Some (beforeToolCall view)"
    and run: "prepareToolCall env config cx am tc w = (Returned (Prepared p), w', es)"
  shows "\<exists>args d w1. decide (sv_policyEngine view) (policy_request view w tc args) (Some (reviewPolicy view)) w = (Returned d, w1)
    \<and> \<not> decision_blocks d"
proof -
  from run obtain tool where tool: "find_tool cx (tc_name tc) = Some tool"
    by (auto simp: prepareToolCall_def ret_def split: option.splits)
  with run obtain tc' args where p: "prepareToolCallArguments tool tc = Inr tc'" "le_validate env tool tc' = Inr args"
    by (auto simp: prepareToolCall_def prepare_known_tool_def try_catch_def seq_def from_sum_def raise_def ret_def
        split: sum.splits prod.splits outcome.splits)
  let ?c = "\<lparr>bc_assistantMessage = am, bc_toolCall = tc, bc_args = args, bc_context = cx\<rparr>"
  obtain r w1 where h: "beforeToolCall view ?c w = (r, w1)" by (cases "beforeToolCall view ?c w")
  have "\<exists>br a. r = Returned (br, a) \<and> \<not> le_aborted env w1 \<and> (\<forall>b. br = Some b \<longrightarrow> \<not> bt_block b)"
    using run tool p h hook
    by (auto simp: prepareToolCall_def prepare_known_tool_def try_catch_def seq_def from_sum_def ret_def
        await_def gets_def aborted_outcome_def split: outcome.splits if_splits option.splits prod.splits)
  then obtain br a where "r = Returned (br, a)" "\<forall>b. br = Some b \<longrightarrow> \<not> bt_block b" by blast
  from beforeToolCall_passes [of view ?c w br a w1] h this show ?thesis by auto
qed

lemma critical_not_prepared:
  assumes "default_engine view" "lc_beforeToolCall config = Some (beforeToolCall view)"
    "pd_risk (tool_descriptor view w (tc_name tc)) = CriticalRisk"
  shows "prepareToolCall env config cx am tc w \<noteq> (Returned (Prepared p), w', es)"
proof
  assume "prepareToolCall env config cx am tc w = (Returned (Prepared p), w', es)"
  from prepareToolCall_policy [OF assms(2) this] obtain args d w1 where
    "decide (sv_policyEngine view) (policy_request view w tc args) (Some (reviewPolicy view)) w = (Returned d, w1)"
    "\<not> decision_blocks d" by blast
  with assms show False
    using decide_default_critical [of "policy_request view w tc args" "Some (reviewPolicy view)" w]
    by (auto simp: default_engine_def policy_request_def decision_blocks_def)
qed

lemma high_needs_approval:
  assumes "default_engine view" "lc_beforeToolCall config = Some (beforeToolCall view)"
    "pd_risk (tool_descriptor view w (tc_name tc)) = HighRisk"
    "prepareToolCall env config cx am tc w = (Returned (Prepared p), w', es)"
  shows "user_allows view w (tc_name tc)"
  using prepareToolCall_policy [OF assms(2,4)] decide_high_passes [OF assms(1,3)] by blast

text \<open>
  Without a descriptor the default engine allows: a tool that is still in the context of the run but
  no longer among the tools of the session runs whatever risk it declared.
\<close>

lemma decide_undeclared:
  assumes "default_engine view" "find (\<lambda>t. tl_name t = tc_name tc) (sv_tools view w) = None"
  shows "\<exists>reason. decide (sv_policyEngine view) (policy_request view w tc args) rv w = (Returned (Allow reason), w)"
  using assms decide_default_low [of "policy_request view w tc args" rv w]
  by (simp add: default_engine_def policy_request_def tool_descriptor_def undeclared_policy_def)

text \<open>Extension handlers see the arguments in order; a blocking handler ends the walk.\<close>

lemma call_handlers_block:
  "call_handlers hs name i input r0 w = (Returned (Some r, input'), w') \<Longrightarrow> tcr_block r \<Longrightarrow>
     r0 = None \<or> \<not> tcr_block (the r0) \<Longrightarrow>
     \<exists>h \<in> set hs. \<exists>input1 w1. h name i input1 w1 = (Returned (Some r, input'), w')"
proof (induction hs name i input r0 w rule: call_handlers.induct)
  case (2 h hs name i input result w)
  then show ?case
    by (auto split: prod.splits outcome.splits option.splits if_splits)
qed auto

lemma call_handlers_append:
  "call_handlers (hs @ ks) name i input r0 w =
     (case call_handlers hs name i input r0 w of
        (Returned (r, input'), w') \<Rightarrow>
          if r \<noteq> r0 \<and> r \<noteq> None \<and> tcr_block (the r) then (Returned (r, input'), w')
          else call_handlers ks name i input' r w'
      | (Raised e, w') \<Rightarrow> (Raised e, w')
      | (Hung, w') \<Rightarrow> (Hung, w'))"
  if "r0 = None \<or> \<not> tcr_block (the r0)"
  using that
proof (induction hs name i input r0 w rule: call_handlers.induct)
  case (2 h hs name i input result w)
  then show ?case
    by (auto split: prod.splits outcome.splits option.splits if_splits)
qed auto

text \<open>Without handlers an allowed call keeps its arguments and nothing is blocked.\<close>

lemma extension_check_none:
  "\<not> hasHandlers_tool_call (sv_runner view w) \<Longrightarrow> extension_check view tc args None w = (Returned (None, args), w)"
  by (simp add: extension_check_def Let_def)

lemma emitToolResult_unmodified:
  assumes "\<forall>e \<in> set (rn_extensions runner). ex_tool_result e = []"
  shows "emitToolResult runner name i input ev w = (Returned None, w)"
proof -
  have "concat (map (\<lambda>e. map (\<lambda>h. (ex_path e, h)) (ex_tool_result e)) (rn_extensions runner)) = []"
    using assms by auto
  then show ?thesis by (simp only: emitToolResult_def) simp
qed

end
