(* ===== verification/Scenarios.thy ===== *)
theory Scenarios
  imports Agent_Hooks
begin

text \<open>
  Concrete inputs on which the properties of the root theory are evaluated: a model, a message with
  and without a tool call, tools of each risk, a session with and without a dialog, and an agent at
  rest whose model answers once.
\<close>

section \<open>Messages and tools\<close>

definition demo_usage :: usage where
  "demo_usage = \<lparr>us_input = 1, us_output = 1, us_cacheRead = 0, us_cacheWrite = 0, us_totalTokens = 2,
     us_cost = \<lparr>uc_input = 0, uc_output = 0, uc_cacheRead = 0, uc_cacheWrite = 0, uc_total = 0\<rparr>\<rparr>"

definition demo_assistant :: "assistant_content list \<Rightarrow> stop_reason \<Rightarrow> assistant_message" where
  "demo_assistant cs reason = \<lparr>am_content = cs, am_api = ''api'', am_provider = ''p'', am_model = ''m'',
     am_usage = demo_usage, am_stopReason = reason, am_errorMessage = None, am_timestamp = 5\<rparr>"

definition demo_answer :: assistant_message where
  "demo_answer = demo_assistant [AText ''hello'' None] Stop"

definition demo_call :: tool_call where
  "demo_call = \<lparr>tc_id = ''c1'', tc_name = ''tool'', tc_arguments = JObj [], tc_thoughtSignature = None\<rparr>"

definition demo_calling :: assistant_message where
  "demo_calling = demo_assistant [AToolCall demo_call, AToolCall (demo_call\<lparr>tc_id := ''c2''\<rparr>)] ToolUse"

definition demo_user :: agent_message where
  "demo_user = User \<lparr>um_content = PlainText ''hi'', um_timestamp = Some 1\<rparr>"

definition demo_model :: model where
  "demo_model = \<lparr>mod_id = ''m'', mod_name = ''M'', mod_api = ''api'', mod_provider = ''p'', mod_baseUrl = [],
     mod_reasoning = False, mod_contextWindow = 1000, mod_maxTokens = 100\<rparr>"

definition demo_result :: tool_result where
  "demo_result = \<lparr>res_content = Some [TextContent ''done'' None], res_details = None, res_addedToolNames = None,
     res_terminate = None\<rparr>"

definition demo_tool :: "risk_level \<Rightarrow> 'w agent_tool" where
  "demo_tool risk = \<lparr>tl_name = ''tool'', tl_description = [], tl_parameters = JObj [], tl_label = [],
     tl_policy = Some \<lparr>pd_risk = risk, pd_resources = [], pd_description = None\<rparr>, tl_prepareArguments = None,
     tl_execute = (\<lambda>i args w. ([tool_action.Settle (Inr demo_result)], w)), tl_executionMode = None\<rparr>"

definition demo_context :: "risk_level \<Rightarrow> 'w agent_context" where
  "demo_context risk = \<lparr>cx_systemPrompt = [], cx_messages = [demo_user], cx_tools = Some [demo_tool risk]\<rparr>"

section \<open>Sessions\<close>

text \<open>The user answers every dialog with the given choice.\<close>

definition demo_view :: "risk_level \<Rightarrow> string \<Rightarrow> unit session_view" where
  "demo_view risk choice = \<lparr>sv_tools = (\<lambda>w. [demo_tool risk]), sv_extensionMode = (\<lambda>w. TuiMode),
     sv_ui = (\<lambda>w. Some (\<lambda>title choices w. (Returned (Some choice), w))),
     sv_runner = (\<lambda>w. \<lparr>rn_extensions = [], rn_emitError = (\<lambda>p e m w. w)\<rparr>),
     sv_policyEngine = new_policy_engine default_policy_options, sv_recordPolicyDecision = (\<lambda>s w. w)\<rparr>"

definition demo_env :: "unit loop_env" where
  "demo_env = plain_env demo_answer"

definition guarded_config :: "risk_level \<Rightarrow> string \<Rightarrow> unit loop_config" where
  "guarded_config risk choice = (plain_config demo_model)\<lparr>lc_beforeToolCall := Some (beforeToolCall (demo_view risk choice))\<rparr>"

lemmas tool_eval = prepareToolCall_def prepare_known_tool_def find_tool_def demo_context_def demo_tool_def demo_call_def
  demo_env_def plain_env_def guarded_config_def plain_config_def demo_view_def beforeToolCall_def policy_request_def
  tool_descriptor_def is_interactive_def decide_def new_policy_engine_def default_policy_options_def
  defaultDecision_def reviewPolicy_def extension_check_def hasHandlers_tool_call_def ready_unless_aborted_def
  prepareToolCallArguments_def from_sum_def act_simps try_catch_def Let_def

text \<open>An approved high-risk call is prepared.\<close>

lemma demo_high_prepared:
  "prepareToolCall demo_env (guarded_config HighRisk ''Allow once'') (demo_context HighRisk) demo_calling demo_call () =
     (Returned (Prepared \<lparr>pp_toolCall = demo_call, pp_tool = demo_tool HighRisk, pp_args = JObj []\<rparr>), (), [])"
  by (simp add: tool_eval)

lemmas batch_eval = executeToolCalls_def executeToolCallsSequential_def run_sequential_call_def executePreparedToolCall_def
  start_tool_def finalizeExecutedToolCall_def publish_result_def createToolResultMessage_def emitToolResultMessage_def
  emitToolExecutionStart_def emitToolExecutionEnd_def emit_def await_outcome_def settled_result_def shouldTerminateToolBatch_def
  demo_calling_def demo_assistant_def demo_result_def tool_calls_of_def List.map_filter_def

definition sequential_config :: "risk_level \<Rightarrow> unit loop_config" where
  "sequential_config risk = (guarded_config risk [])\<lparr>lc_toolExecution := Some Sequential\<rparr>"

text \<open>A batch of two calls.\<close>

lemma demo_batch: "\<exists>b w' es. executeToolCalls demo_env (sequential_config LowRisk) (demo_context LowRisk) demo_calling () =
    (Returned b, w', es)"
  by (simp add: batch_eval sequential_config_def tool_eval)

section \<open>An agent\<close>

definition demo_options :: "unit agent_options" where
  "demo_options = \<lparr>ao_tools = [], ao_convertToLlm = None, ao_transformContext = None,
     ao_streamFn = (\<lambda>mdl cx so e. (Returned \<lparr>rp_events = [StreamStart demo_answer, StreamDone demo_answer],
       rp_ends = True, rp_result = Some demo_answer\<rparr>, [], e)),
     ao_getApiKey = None, ao_beforeToolCall = None, ao_afterToolCall = None, ao_prepareNextTurn = None,
     ao_prepareNextTurnWithContext = None, ao_toolExecution = Parallel, ao_listeners = [], ao_now = (\<lambda>e. 7),
     ao_validate = (\<lambda>t tc. Inr (tc_arguments tc)), ao_schedule = (\<lambda>n e. (0, e))\<rparr>"

definition demo_agent :: agent where
  "demo_agent = \<lparr>st_systemPrompt = [], st_model = demo_model, st_thinkingLevel = ThinkOff, st_messages = [],
     st_isStreaming = False, st_streamingMessage = None, st_pendingToolCalls = {}, st_errorMessage = None,
     ag_steeringQueue = new_queue OneAtATime, ag_followUpQueue = new_queue OneAtATime, ag_activeRun = None\<rparr>"

definition demo_world :: "unit agent_world" where
  "demo_world = \<lparr>aw_agent = demo_agent, aw_skipPoll = False, aw_env = ()\<rparr>"

lemma demo_idle: "idle (aw_agent demo_world)"
  by (simp add: idle_def demo_world_def demo_agent_def)

lemma demo_contract: "stream_contract (agent_env demo_options)"
  by (auto simp: stream_contract_def agent_env_def lift_ext_def demo_options_def)

lemmas loop_eval = runAgentLoop_def runLoop_def run_turn_def begin_turn_def streamAssistantResponse_def
  finish_response_def push_message_def replace_message_def set_last_def add_messages_def run_tool_calls_def
  after_turn_def apply_turn_update_def call_opt_def emit_message_def emit_def act_simps Let_def

lemmas agent_eval = prompt_def normalizePromptInput_def runPromptMessages_def runWithLifecycle_def upd_agent_def
  begin_run_def finishRun_def set_skip_def createContextSnapshot_def createLoopConfig_def agent_env_def lift_ext_def
  processEvents_def poll_steering_def poll_followUp_def drain_def new_queue_def apply_ops_def is_aborted_def
  demo_options_def demo_world_def demo_agent_def demo_answer_def demo_assistant_def tool_calls_of_def
  List.map_filter_def

lemma demo_prompt: "\<exists>w' es. prompt 2 demo_options (PromptMessage demo_user) demo_world = (Returned (), w', es)
    \<and> st_messages (aw_agent w') = [demo_user, Assistant demo_answer]"
  by (simp add: numeral_2_eq_2 loop_eval agent_eval)

end
