(* ===== verification/Event_Stream.thy ===== *)
theory Event_Stream
  imports Messages
begin

text \<open>
  \<open>EventStream\<close> (\<open>packages/ai/src/utils/event-stream.ts\<close>): a queue between one producer and its
  asynchronous iterators, with a promise for the final result. The producer calls \<open>push\<close> and
  \<open>end\<close>; an iterator asks for the next item and is answered at once, told that the stream is over,
  or parked until the producer moves. The lemmas show that items reach the consumers in the order
  of the accepted pushes, none lost and none twice, and that the result is settled once.
\<close>

datatype 't iter_result = Item 't | EndOfStream

text \<open>
  \<open>es_waiting\<close> holds the parked iterators by number; \<open>es_result\<close> is the value the result promise
  was resolved with. The two functions are the constructor's arguments.
\<close>

record ('t, 'r) event_stream =
  es_queue :: "'t list"
  es_waiting :: "nat list"
  es_done :: bool
  es_result :: "'r option"
  es_isComplete :: "'t \<Rightarrow> bool"
  es_extractResult :: "'t \<Rightarrow> 'r"

definition new_event_stream :: "('t \<Rightarrow> bool) \<Rightarrow> ('t \<Rightarrow> 'r) \<Rightarrow> ('t, 'r) event_stream" where
  "new_event_stream isComplete extractResult =
     \<lparr>es_queue = [], es_waiting = [], es_done = False, es_result = None,
      es_isComplete = isComplete, es_extractResult = extractResult\<rparr>"

text \<open>A promise keeps the first value it is resolved with.\<close>

definition resolveFinalResult :: "'r \<Rightarrow> ('t, 'r) event_stream \<Rightarrow> ('t, 'r) event_stream" where
  "resolveFinalResult r s = (case es_result s of None \<Rightarrow> s\<lparr>es_result := Some r\<rparr> | Some _ \<Rightarrow> s)"

text \<open>Each operation also returns the answers it gives, as pairs of an iterator and its result.\<close>

definition es_push :: "'t \<Rightarrow> ('t, 'r) event_stream \<Rightarrow> (nat \<times> 't iter_result) list \<times> ('t, 'r) event_stream" where
  "es_push event s =
     (if es_done s then ([], s)
      else
        let s1 = (if es_isComplete s event
                  then resolveFinalResult (es_extractResult s event) (s\<lparr>es_done := True\<rparr>) else s)
        in (case es_waiting s1 of
              waiter # ws \<Rightarrow> ([(waiter, Item event)], s1\<lparr>es_waiting := ws\<rparr>)
            | [] \<Rightarrow> ([], s1\<lparr>es_queue := es_queue s1 @ [event]\<rparr>)))"

definition es_end :: "'r option \<Rightarrow> ('t, 'r) event_stream \<Rightarrow> (nat \<times> 't iter_result) list \<times> ('t, 'r) event_stream" where
  "es_end result s =
     (let s1 = s\<lparr>es_done := True\<rparr>;
          s2 = (case result of None \<Rightarrow> s1 | Some r \<Rightarrow> resolveFinalResult r s1)
      in (map (\<lambda>waiter. (waiter, EndOfStream)) (es_waiting s2), s2\<lparr>es_waiting := []\<rparr>))"

text \<open>One turn of the loop in the iterator of the consumer \<open>c\<close>.\<close>

definition es_next :: "nat \<Rightarrow> ('t, 'r) event_stream \<Rightarrow> (nat \<times> 't iter_result) list \<times> ('t, 'r) event_stream" where
  "es_next c s =
     (case es_queue s of
        x # xs \<Rightarrow> ([(c, Item x)], s\<lparr>es_queue := xs\<rparr>)
      | [] \<Rightarrow> if es_done s then ([(c, EndOfStream)], s)
               else ([], s\<lparr>es_waiting := es_waiting s @ [c]\<rparr>))"

datatype ('t, 'r) es_op = Push 't | End "'r option" | Next nat

fun es_step :: "('t, 'r) es_op \<Rightarrow> ('t, 'r) event_stream \<Rightarrow> (nat \<times> 't iter_result) list \<times> ('t, 'r) event_stream" where
  "es_step (Push e) s = es_push e s"
| "es_step (End r) s = es_end r s"
| "es_step (Next c) s = es_next c s"

fun es_run :: "('t, 'r) es_op list \<Rightarrow> ('t, 'r) event_stream \<Rightarrow> (nat \<times> 't iter_result) list \<times> ('t, 'r) event_stream" where
  "es_run [] s = ([], s)"
| "es_run (x # xs) s =
     (case es_step x s of (out, s') \<Rightarrow> (case es_run xs s' of (out', s'') \<Rightarrow> (out @ out', s'')))"

section \<open>Order and completeness of delivery\<close>

text \<open>The items pushed while the stream is open, and the items handed out.\<close>

fun accepted :: "('t, 'r) es_op list \<Rightarrow> ('t, 'r) event_stream \<Rightarrow> 't list" where
  "accepted [] s = []"
| "accepted (x # xs) s =
     (case x of Push e \<Rightarrow> if es_done s then [] else [e] | _ \<Rightarrow> []) @ accepted xs (snd (es_step x s))"

fun items_of :: "(nat \<times> 't iter_result) list \<Rightarrow> 't list" where
  "items_of [] = []"
| "items_of ((_, Item x) # rs) = x # items_of rs"
| "items_of ((_, EndOfStream) # rs) = items_of rs"

lemma items_of_append [simp]: "items_of (xs @ ys) = items_of xs @ items_of ys"
  by (induction xs rule: items_of.induct) auto

lemma items_of_ends [simp]: "items_of (map (\<lambda>c. (c, EndOfStream)) cs) = []"
  by (induction cs) auto

text \<open>Items wait only while no iterator is parked.\<close>

definition es_inv :: "('t, 'r) event_stream \<Rightarrow> bool" where
  "es_inv s \<longleftrightarrow> es_queue s = [] \<or> es_waiting s = []"

lemma resolveFinalResult_simps [simp]:
  "es_queue (resolveFinalResult r s) = es_queue s"
  "es_waiting (resolveFinalResult r s) = es_waiting s"
  "es_done (resolveFinalResult r s) = es_done s"
  "es_isComplete (resolveFinalResult r s) = es_isComplete s"
  "es_extractResult (resolveFinalResult r s) = es_extractResult s"
  "es_result (resolveFinalResult r s) = Some (nullish (es_result s) r)"
  by (auto simp: resolveFinalResult_def split: option.splits)

lemma es_inv_new: "es_inv (new_event_stream f g)"
  by (simp add: es_inv_def new_event_stream_def)

lemma es_inv_step: "es_inv s \<Longrightarrow> es_inv (snd (es_step x s))"
  by (cases x) (auto simp: es_inv_def es_push_def es_end_def es_next_def Let_def split: list.splits option.splits)

lemma es_step_delivers:
  "es_inv s \<Longrightarrow> es_step x s = (out, s') \<Longrightarrow>
     items_of out @ es_queue s' =
       es_queue s @ (case x of Push e \<Rightarrow> if es_done s then [] else [e] | _ \<Rightarrow> [])"
  by (cases x) (auto simp: es_inv_def es_push_def es_end_def es_next_def Let_def
      split: list.splits option.splits if_splits)

lemma es_run_delivers:
  "es_inv s \<Longrightarrow> es_run xs s = (out, s') \<Longrightarrow> items_of out @ es_queue s' = es_queue s @ accepted xs s"
proof (induction xs arbitrary: s out s')
  case Nil
  then show ?case by simp
next
  case (Cons x xs)
  obtain o1 s1 where st: "es_step x s = (o1, s1)" by (cases "es_step x s") auto
  obtain o2 s2 where rn: "es_run xs s1 = (o2, s2)" by (cases "es_run xs s1") auto
  from Cons.prems st rn have out: "out = o1 @ o2" "s2 = s'" by auto
  have "es_inv s1" using es_inv_step[OF Cons.prems(1), of x] st by simp
  from Cons.IH[OF this rn] have "items_of o2 @ es_queue s' = es_queue s1 @ accepted xs s1"
    using out by simp
  then have "items_of out @ es_queue s' = (items_of o1 @ es_queue s1) @ accepted xs s1"
    using out by simp
  also note es_step_delivers[OF Cons.prems(1) st]
  finally show ?case using st by simp
qed

section \<open>Closing and the result\<close>

lemma es_done_step: "es_done s \<Longrightarrow> es_done (snd (es_step x s))"
  by (cases x) (auto simp: es_push_def es_end_def es_next_def Let_def split: list.splits option.splits)

lemma es_result_step:
  "es_result s = Some r \<Longrightarrow> es_result (snd (es_step x s)) = Some r"
  by (cases x) (auto simp: es_push_def es_end_def es_next_def Let_def split: list.splits option.splits)

lemma es_result_run: "es_result s = Some r \<Longrightarrow> es_result (snd (es_run xs s)) = Some r"
proof (induction xs arbitrary: s)
  case (Cons x xs)
  have "es_result (snd (es_run xs (snd (es_step x s)))) = Some r"
    by (rule Cons.IH) (rule es_result_step[OF Cons.prems])
  then show ?case by (simp add: case_prod_beta)
qed simp

lemma es_push_result:
  "\<not> es_done s \<Longrightarrow> es_isComplete s e \<Longrightarrow> es_result s = None \<Longrightarrow>
     es_done (snd (es_push e s)) \<and> es_result (snd (es_push e s)) = Some (es_extractResult s e)"
  by (auto simp: es_push_def Let_def split: list.splits)

lemma es_end_wakes: "es_waiting (snd (es_end r s)) = [] \<and> es_done (snd (es_end r s))"
  by (simp add: es_end_def Let_def split: option.splits)

text \<open>After the stream is over, a consumer drains what is left and is then told so; it never parks.\<close>

lemma es_next_done:
  "es_done s \<Longrightarrow> es_next c s =
     (case es_queue s of [] \<Rightarrow> ([(c, EndOfStream)], s) | x # xs \<Rightarrow> ([(c, Item x)], s\<lparr>es_queue := xs\<rparr>))"
  by (simp add: es_next_def split: list.splits)

text \<open>The stream of assistant events, and the stream of an agent loop.\<close>

fun assistant_event_complete :: "stream_event \<Rightarrow> bool" where
  "assistant_event_complete (StreamDone _) = True"
| "assistant_event_complete (StreamError _) = True"
| "assistant_event_complete _ = False"

text \<open>The last case of the source's extractor throws; the constructor's first argument excludes it.\<close>

fun assistant_event_result :: "stream_event \<Rightarrow> assistant_message option" where
  "assistant_event_result (StreamDone m) = Some m"
| "assistant_event_result (StreamError m) = Some m"
| "assistant_event_result _ = None"

definition createAssistantMessageEventStream :: "(stream_event, assistant_message option) event_stream" where
  "createAssistantMessageEventStream =
     new_event_stream assistant_event_complete assistant_event_result"

lemma assistant_event_result_defined:
  "assistant_event_complete e \<Longrightarrow> assistant_event_result e \<noteq> None"
  by (cases e) auto

fun is_agent_end :: "agent_event \<Rightarrow> bool" where
  "is_agent_end (AgentEnd _) = True"
| "is_agent_end _ = False"

fun agent_end_messages :: "agent_event \<Rightarrow> agent_message list" where
  "agent_end_messages (AgentEnd ms) = ms"
| "agent_end_messages _ = []"

definition createAgentStream :: "(agent_event, agent_message list) event_stream" where
  "createAgentStream = new_event_stream is_agent_end agent_end_messages"

end
