(* ===== verification/Session_Tree.thy ===== *)
theory Session_Tree
  imports Messages
begin

text \<open>
  The session tree of \<open>packages/agent/src/harness\<close>: the entries of \<open>types.ts\<close> and the context that
  \<open>session/session.ts\<close> derives from a path of entries (state, compaction, messages for the model).
\<close>

section \<open>Entries\<close>

record compaction_entry =
  ce_summary :: string
  ce_firstKeptEntryId :: string
  ce_tokensBefore :: int
  ce_details :: "json option"
  ce_fromHook :: "bool option"

record branch_summary_entry =
  bse_fromId :: string
  bse_summary :: string
  bse_details :: "json option"
  bse_fromHook :: "bool option"

record custom_message_entry =
  cme_customType :: string
  cme_content :: user_content
  cme_details :: "json option"
  cme_display :: bool

datatype entry_body =
    MessageEntry agent_message
  | ThinkingLevelChange string
  | ModelChange string string
  | ActiveToolsChange "string list"
  | CompactionEntry compaction_entry
  | BranchSummaryEntry branch_summary_entry
  | CustomEntry string "json option"
  | CustomMessageEntry custom_message_entry
  | LabelEntry string "string option"
  | SessionInfo "string option"
  | LeafEntry "string option"
  | OtherEntry string "(string \<times> json) list"

text \<open>\<open>OtherEntry\<close> is an entry of a file that no type describes: its type and its other fields.\<close>

record session_entry =
  en_id :: string
  en_parentId :: "string option"
  en_timestamp :: string
  en_body :: entry_body

fun entry_type :: "entry_body \<Rightarrow> string" where
  "entry_type (MessageEntry _) = ''message''"
| "entry_type (ThinkingLevelChange _) = ''thinking_level_change''"
| "entry_type (ModelChange _ _) = ''model_change''"
| "entry_type (ActiveToolsChange _) = ''active_tools_change''"
| "entry_type (CompactionEntry _) = ''compaction''"
| "entry_type (BranchSummaryEntry _) = ''branch_summary''"
| "entry_type (CustomEntry _ _) = ''custom''"
| "entry_type (CustomMessageEntry _) = ''custom_message''"
| "entry_type (LabelEntry _ _) = ''label''"
| "entry_type (SessionInfo _) = ''session_info''"
| "entry_type (LeafEntry _) = ''leaf''"
| "entry_type (OtherEntry t _) = t"

datatype session_error_code =
    NotFound | InvalidSession | InvalidEntry | InvalidForkTarget | StorageFailure | UnknownFailure

record session_error =
  se_code :: session_error_code
  se_message :: string

definition session_error :: "session_error_code \<Rightarrow> string \<Rightarrow> session_error" where
  "session_error c m = \<lparr>se_code = c, se_message = m\<rparr>"

definition entry_not_found :: "session_error_code \<Rightarrow> string \<Rightarrow> session_error" where
  "entry_not_found c i = session_error c (''Entry '' @ i @ '' not found'')"

section \<open>The context of a path\<close>

record context_state =
  cs_thinkingLevel :: string
  cs_model :: "(string \<times> string) option"
  cs_activeToolNames :: "string list option"

record session_context = context_state +
  sc_messages :: "agent_message list"

type_synonym context_entry_transform = "session_entry list \<Rightarrow> session_entry list"
type_synonym custom_projector = "session_entry \<Rightarrow> nat \<Rightarrow> session_entry list \<Rightarrow> agent_message list option"

record context_build_options =
  cb_entryTransforms :: "context_entry_transform list"
  cb_entryProjectors :: "(string \<times> custom_projector) list"

definition no_options :: context_build_options where
  "no_options = \<lparr>cb_entryTransforms = [], cb_entryProjectors = []\<rparr>"

definition state_step :: "session_entry \<Rightarrow> context_state \<Rightarrow> context_state" where
  "state_step e st =
     (case en_body e of
        ThinkingLevelChange l \<Rightarrow> st\<lparr>cs_thinkingLevel := l\<rparr>
      | ModelChange p m \<Rightarrow> st\<lparr>cs_model := Some (p, m)\<rparr>
      | MessageEntry (Assistant am) \<Rightarrow> st\<lparr>cs_model := Some (am_provider am, am_model am)\<rparr>
      | ActiveToolsChange names \<Rightarrow> st\<lparr>cs_activeToolNames := Some names\<rparr>
      | _ \<Rightarrow> st)"

definition initial_state :: context_state where
  "initial_state = \<lparr>cs_thinkingLevel = ''off'', cs_model = None, cs_activeToolNames = None\<rparr>"

definition deriveSessionContextState :: "session_entry list \<Rightarrow> context_state" where
  "deriveSessionContextState pathEntries = fold state_step pathEntries initial_state"

definition is_compaction :: "session_entry \<Rightarrow> bool" where
  "is_compaction e = (case en_body e of CompactionEntry _ \<Rightarrow> True | _ \<Rightarrow> False)"

definition firstKeptEntryId :: "session_entry \<Rightarrow> string" where
  "firstKeptEntryId e = (case en_body e of CompactionEntry c \<Rightarrow> ce_firstKeptEntryId c | _ \<Rightarrow> [])"

text \<open>\<open>Array.findIndex\<close>: the length of the list stands for -1, which the caller never reads.\<close>

fun find_index :: "('a \<Rightarrow> bool) \<Rightarrow> 'a list \<Rightarrow> nat" where
  "find_index P [] = 0"
| "find_index P (x # xs) = (if P x then 0 else Suc (find_index P xs))"

text \<open>The first loop: the last compaction of the path, or none.\<close>

definition last_compaction :: "session_entry list \<Rightarrow> session_entry option" where
  "last_compaction pathEntries = fold (\<lambda>e acc. if is_compaction e then Some e else acc) pathEntries None"

text \<open>The second loop: the entries from the first kept one on.\<close>

fun kept_entries :: "string \<Rightarrow> bool \<Rightarrow> session_entry list \<Rightarrow> session_entry list" where
  "kept_entries firstKept found [] = []"
| "kept_entries firstKept found (e # es) =
     (let found' = found \<or> en_id e = firstKept
      in if found' then e # kept_entries firstKept found' es else kept_entries firstKept found' es)"

definition defaultContextEntryTransform :: "session_entry list \<Rightarrow> session_entry list" where
  "defaultContextEntryTransform pathEntries =
     (case last_compaction pathEntries of
        None \<Rightarrow> pathEntries
      | Some compaction \<Rightarrow>
          (let idx = find_index (\<lambda>e. is_compaction e \<and> en_id e = en_id compaction) pathEntries
           in compaction # kept_entries (firstKeptEntryId compaction) False (take idx pathEntries)
              @ drop (Suc idx) pathEntries))"

definition buildContextEntries :: "session_entry list \<Rightarrow> context_build_options \<Rightarrow> session_entry list" where
  "buildContextEntries pathEntries options =
     fold (\<lambda>t es. t es) (cb_entryTransforms options) (defaultContextEntryTransform pathEntries)"

definition sessionEntryToContextMessages ::
  "session_entry \<Rightarrow> nat \<Rightarrow> session_entry list \<Rightarrow> context_build_options \<Rightarrow> agent_message list" where
  "sessionEntryToContextMessages e index entries options =
     (case en_body e of
        MessageEntry m \<Rightarrow> [m]
      | CustomMessageEntry c \<Rightarrow>
          [createCustomMessage (cme_customType c) (cme_content c) (cme_display c) (cme_details c) (en_timestamp e)]
      | CompactionEntry c \<Rightarrow>
          [createCompactionSummaryMessage (ce_summary c) (ce_tokensBefore c) (en_timestamp e)]
      | BranchSummaryEntry b \<Rightarrow>
          if bse_summary b \<noteq> [] then [createBranchSummaryMessage (bse_summary b) (bse_fromId b) (en_timestamp e)] else []
      | CustomEntry ct _ \<Rightarrow>
          (case map_of (cb_entryProjectors options) ct of
             None \<Rightarrow> []
           | Some projector \<Rightarrow> nullish (projector e index entries) [])
      | _ \<Rightarrow> [])"

definition buildSessionContext :: "session_entry list \<Rightarrow> context_build_options \<Rightarrow> session_context" where
  "buildSessionContext pathEntries options =
     (let st = deriveSessionContextState pathEntries;
          contextEntries = buildContextEntries pathEntries options
      in \<lparr>cs_thinkingLevel = cs_thinkingLevel st, cs_model = cs_model st,
          cs_activeToolNames = cs_activeToolNames st,
          sc_messages = concat (map (\<lambda>(i, e). sessionEntryToContextMessages e i contextEntries options)
                                    (enumerate 0 contextEntries))\<rparr>)"

text \<open>\<open>mergeContextBuildOptions\<close>: the transforms of the session first; the caller's projectors win.\<close>

definition mergeContextBuildOptions :: "context_build_options \<Rightarrow> context_build_options \<Rightarrow> context_build_options" where
  "mergeContextBuildOptions own options =
     \<lparr>cb_entryTransforms = cb_entryTransforms own @ cb_entryTransforms options,
      cb_entryProjectors = cb_entryProjectors options @ cb_entryProjectors own\<rparr>"

section \<open>What the context of a path is\<close>

lemma last_compaction_fold:
  "fold (\<lambda>e acc. if is_compaction e then Some e else acc) es acc0 =
     (if list_ex is_compaction es then Some (last (filter is_compaction es)) else acc0)"
  by (induction es arbitrary: acc0) (auto simp: list_ex_iff filter_empty_conv)

lemma last_compaction_None: "last_compaction es = None \<longleftrightarrow> (\<forall>e \<in> set es. \<not> is_compaction e)"
  by (auto simp: last_compaction_def last_compaction_fold list_ex_iff)

lemma last_compaction_append:
  "is_compaction c \<Longrightarrow> \<forall>e \<in> set post. \<not> is_compaction e \<Longrightarrow> last_compaction (pre @ c # post) = Some c"
  by (simp add: last_compaction_def last_compaction_fold filter_empty_conv list_ex_iff)

lemma kept_entries_found: "kept_entries k True es = es"
  by (induction es) (simp_all add: Let_def)

lemma kept_entries_dropWhile: "kept_entries k False es = dropWhile (\<lambda>e. en_id e \<noteq> k) es"
  by (induction es) (simp_all add: Let_def kept_entries_found)

lemma find_index_append:
  "\<forall>x \<in> set xs. \<not> P x \<Longrightarrow> find_index P (xs @ ys) = length xs + find_index P ys"
  by (induction xs) auto

lemma find_index_length: "find_index P xs \<le> length xs"
  by (induction xs) auto

lemma defaultContextEntryTransform_none:
  "\<forall>e \<in> set es. \<not> is_compaction e \<Longrightarrow> defaultContextEntryTransform es = es"
  using last_compaction_None [of es] by (simp add: defaultContextEntryTransform_def)

lemma defaultContextEntryTransform_last:
  assumes "is_compaction c" "\<forall>e \<in> set post. \<not> is_compaction e"
    "\<forall>e \<in> set pre. is_compaction e \<longrightarrow> en_id e \<noteq> en_id c"
  shows "defaultContextEntryTransform (pre @ c # post) =
           c # dropWhile (\<lambda>e. en_id e \<noteq> firstKeptEntryId c) pre @ post"
proof -
  have "find_index (\<lambda>e. is_compaction e \<and> en_id e = en_id c) (pre @ c # post) = length pre"
    using assms by (subst find_index_append) auto
  then show ?thesis
    using assms by (simp add: defaultContextEntryTransform_def last_compaction_append kept_entries_dropWhile Let_def)
qed

lemma split_last_compaction:
  "\<exists>e \<in> set es. is_compaction e \<Longrightarrow> \<exists>pre c post. es = pre @ c # post \<and> is_compaction c \<and> (\<forall>e \<in> set post. \<not> is_compaction e)"
  by (metis split_list_last_prop)

lemma deriveSessionContextState_append:
  "deriveSessionContextState (xs @ ys) = fold state_step ys (deriveSessionContextState xs)"
  by (simp add: deriveSessionContextState_def)

lemma defaultContextEntryTransform_subset:
  "set (defaultContextEntryTransform es) \<subseteq> set es"
proof (cases "last_compaction es")
  case None
  then show ?thesis by (simp add: defaultContextEntryTransform_def)
next
  case (Some c)
  then have "c \<in> set es"
    by (auto simp: last_compaction_def last_compaction_fold list_ex_iff split: if_splits)
       (metis (mono_tags) filter_empty_conv filter_is_subset last_in_set subsetD)
  with Some show ?thesis
    by (auto simp: defaultContextEntryTransform_def Let_def kept_entries_dropWhile
        dest!: set_dropWhileD in_set_takeD in_set_dropD)
qed

text \<open>Entries that never project to a message of the context.\<close>

lemma projected_without_options:
  "sessionEntryToContextMessages e i es no_options =
     (case en_body e of
        MessageEntry m \<Rightarrow> [m]
      | CustomMessageEntry c \<Rightarrow>
          [createCustomMessage (cme_customType c) (cme_content c) (cme_display c) (cme_details c) (en_timestamp e)]
      | CompactionEntry c \<Rightarrow>
          [createCompactionSummaryMessage (ce_summary c) (ce_tokensBefore c) (en_timestamp e)]
      | BranchSummaryEntry b \<Rightarrow>
          if bse_summary b \<noteq> [] then [createBranchSummaryMessage (bse_summary b) (bse_fromId b) (en_timestamp e)] else []
      | _ \<Rightarrow> [])"
  by (simp add: sessionEntryToContextMessages_def no_options_def split: entry_body.splits)

text \<open>The messages of an entry when no projector is configured.\<close>

definition entry_messages :: "session_entry \<Rightarrow> agent_message list" where
  "entry_messages e = sessionEntryToContextMessages e 0 [] no_options"

lemma sessionEntryToContextMessages_no_options:
  "sessionEntryToContextMessages e i es no_options = entry_messages e"
  by (simp add: entry_messages_def projected_without_options)

lemma map_enumerate_ignore: "map (\<lambda>(i, e). f e) (enumerate n es) = map f es"
  by (induction es arbitrary: n) simp_all

lemma buildSessionContext_messages:
  "sc_messages (buildSessionContext es no_options) = concat (map entry_messages (defaultContextEntryTransform es))"
proof -
  have t: "buildContextEntries es no_options = defaultContextEntryTransform es"
    by (simp add: buildContextEntries_def no_options_def)
  show ?thesis
    unfolding buildSessionContext_def Let_def sessionEntryToContextMessages_no_options map_enumerate_ignore t
    by simp
qed

text \<open>One more entry at the end of a path.\<close>

lemma find_index_snoc: "\<exists>x \<in> set xs. P x \<Longrightarrow> find_index P (xs @ ys) = find_index P xs"
  by (induction xs) auto

lemma find_index_less: "\<exists>x \<in> set xs. P x \<Longrightarrow> find_index P xs < length xs"
  by (induction xs) auto

lemma last_compaction_Some: "last_compaction es = Some c \<Longrightarrow> c \<in> set es \<and> is_compaction c"
proof -
  assume "last_compaction es = Some c"
  then have ne: "filter is_compaction es \<noteq> []" and c: "c = last (filter is_compaction es)"
    by (auto simp: last_compaction_def last_compaction_fold list_ex_iff filter_empty_conv split: if_splits)
  from last_in_set [OF ne] c show ?thesis by simp
qed

lemma defaultContextEntryTransform_snoc:
  assumes "\<not> is_compaction e"
  shows "defaultContextEntryTransform (es @ [e]) = defaultContextEntryTransform es @ [e]"
proof -
  have lc: "last_compaction (es @ [e]) = last_compaction es"
    using assms by (simp add: last_compaction_def)
  show ?thesis
  proof (cases "last_compaction es")
    case None
    with lc show ?thesis by (simp add: defaultContextEntryTransform_def)
  next
    case (Some c)
    have ex: "\<exists>x \<in> set es. is_compaction x \<and> en_id x = en_id c"
      using last_compaction_Some [OF Some] by auto
    with Some lc find_index_less [OF ex] show ?thesis
      by (simp add: defaultContextEntryTransform_def Let_def find_index_snoc [OF ex])
  qed
qed

lemma buildSessionContext_snoc:
  "\<not> is_compaction e \<Longrightarrow> sc_messages (buildSessionContext (es @ [e]) no_options) =
     sc_messages (buildSessionContext es no_options) @ entry_messages e"
  by (simp add: buildSessionContext_messages defaultContextEntryTransform_snoc)

lemma buildSessionContext_compacted:
  assumes "en_body c = CompactionEntry k" "\<forall>e \<in> set es. en_id e \<noteq> en_id c"
  shows "sc_messages (buildSessionContext (es @ [c]) no_options) =
    createCompactionSummaryMessage (ce_summary k) (ce_tokensBefore k) (en_timestamp c) #
    concat (map entry_messages (dropWhile (\<lambda>e. en_id e \<noteq> ce_firstKeptEntryId k) es))"
  using defaultContextEntryTransform_last [of c "[]" es] assms
  by (simp add: buildSessionContext_messages is_compaction_def firstKeptEntryId_def entry_messages_def
      projected_without_options)

end
