(* ===== verification/Uuid.thy ===== *)
theory Uuid
  imports Prelude "HOL-Library.Word"
begin

unbundle bit_operations_syntax

text \<open>
  \<open>packages/agent/src/harness/session/uuid.ts\<close>: time-ordered identifiers. The module state is the
  last time stamp and a 32-bit sequence; each call gets 16 random bytes and the clock. The lemmas show
  that an identifier determines both, and that they grow strictly from call to call.
\<close>

record uuid_state =
  uv_lastTimestamp :: "int option"
  uv_sequence :: "32 word"

text \<open>\<open>None\<close> is the initial \<open>-Infinity\<close>.\<close>

definition uuid_start :: uuid_state where
  "uuid_start = \<lparr>uv_lastTimestamp = None, uv_sequence = 0\<rparr>"

definition byte :: "8 word list \<Rightarrow> nat \<Rightarrow> 8 word" where
  "byte random i = (if i < length random then random ! i else 0)"

definition seed_sequence :: "8 word list \<Rightarrow> 32 word" where
  "seed_sequence random =
     ucast (byte random 6) * 0x1000000 + ucast (byte random 7) * 0x10000
     + ucast (byte random 8) * 0x100 + ucast (byte random 9)"

definition uuid_tick :: "8 word list \<Rightarrow> int \<Rightarrow> uuid_state \<Rightarrow> uuid_state" where
  "uuid_tick random timestamp st =
     (if (case uv_lastTimestamp st of None \<Rightarrow> True | Some l \<Rightarrow> l < timestamp)
      then \<lparr>uv_lastTimestamp = Some timestamp, uv_sequence = seed_sequence random\<rparr>
      else (let sq = uv_sequence st + 1
            in \<lparr>uv_lastTimestamp = (if sq = 0 then map_option (\<lambda>l. l + 1) (uv_lastTimestamp st)
                                    else uv_lastTimestamp st),
                uv_sequence = sq\<rparr>))"

definition uuid_bytes :: "8 word list \<Rightarrow> int \<Rightarrow> 32 word \<Rightarrow> 8 word list" where
  "uuid_bytes random ts sq =
     [word_of_int (ts div 0x10000000000), word_of_int (ts div 0x100000000), word_of_int (ts div 0x1000000),
      word_of_int (ts div 0x10000), word_of_int (ts div 0x100), word_of_int ts,
      0x70 OR (ucast (drop_bit 28 sq) AND 0x0f),
      ucast (drop_bit 20 sq) AND 0xff,
      0x80 OR (ucast (drop_bit 14 sq) AND 0x3f),
      ucast (drop_bit 6 sq) AND 0xff,
      push_bit 2 (ucast (sq AND 0x3f)) OR (byte random 10 AND 0x03),
      byte random 11, byte random 12, byte random 13, byte random 14, byte random 15]"

definition hex_digit :: "nat \<Rightarrow> char" where
  "hex_digit n = char_of (if n < 10 then 48 + n else 87 + n)"

definition hex_byte :: "8 word \<Rightarrow> string" where
  "hex_byte b = [hex_digit (unat b div 16), hex_digit (unat b mod 16)]"

definition formatUuid :: "8 word list \<Rightarrow> string" where
  "formatUuid bytes =
     (let hex = map hex_byte bytes;
          part = (\<lambda>i j. concat (take (j - i) (drop i hex)))
      in part 0 4 @ ''-'' @ part 4 6 @ ''-'' @ part 6 8 @ ''-'' @ part 8 10 @ ''-'' @ part 10 16)"

definition uuidv7 :: "8 word list \<Rightarrow> int \<Rightarrow> uuid_state \<Rightarrow> string \<times> uuid_state" where
  "uuidv7 random timestamp st =
     (let st' = uuid_tick random timestamp st
      in (formatUuid (uuid_bytes random (nullish (uv_lastTimestamp st') 0) (uv_sequence st')), st'))"

section \<open>What the bytes determine\<close>

definition uuid_sequence_of :: "8 word list \<Rightarrow> 32 word" where
  "uuid_sequence_of bs =
     push_bit 28 (ucast (bs ! 6 AND 0x0f)) OR push_bit 20 (ucast (bs ! 7)) OR push_bit 14 (ucast (bs ! 8 AND 0x3f))
     OR push_bit 6 (ucast (bs ! 9)) OR ucast (drop_bit 2 (bs ! 10))"

definition uuid_timestamp_of :: "8 word list \<Rightarrow> int" where
  "uuid_timestamp_of bs = foldl (\<lambda>acc b. acc * 256 + uint b) 0 (take 6 bs)"

lemma below_32: "n < 32 \<Longrightarrow> n \<in> {0, 1, 2, 3, 4, 5, 6, 7, 8, 9, 10, 11, 12, 13, 14, 15, 16, 17, 18, 19, 20,
    21, 22, 23, 24, 25, 26, 27, 28, 29, 30, 31 :: nat}"
  unfolding insert_iff empty_iff by presburger

lemma uuid_sequence_roundtrip: "uuid_sequence_of (uuid_bytes random ts sq) = sq"
proof (rule bit_word_eqI)
  fix n assume "n < LENGTH(32)"
  then have "n < 32" by simp
  from below_32 [OF this]
  show "bit (uuid_sequence_of (uuid_bytes random ts sq)) n = bit sq n"
    unfolding uuid_sequence_of_def uuid_bytes_def
    by (elim insertE emptyE; simp add: bit_simps numeral_2_eq_2 [symmetric])
qed

lemma mod_step: "0 < m \<Longrightarrow> (t div 256) mod m * 256 + t mod 256 = t mod (256 * m)" for t m :: int
  by (simp add: zmod_zmult2_eq)

lemma uuid_timestamp_roundtrip: "uuid_timestamp_of (uuid_bytes random ts sq) = ts mod 2 ^ 48"
proof -
  let ?b = "\<lambda>k. ts div 256 ^ k mod 256"
  have d: "ts div 256 ^ Suc k = ts div 256 ^ k div 256" for k
    by (simp add: zdiv_zmult2_eq [symmetric] mult.commute)
  have step: "(ts div 256 ^ Suc k) mod 256 ^ n * 256 + ?b k = (ts div 256 ^ k) mod 256 ^ Suc n" for k n
    unfolding d by (subst mod_step) simp_all
  have "uuid_timestamp_of (uuid_bytes random ts sq) =
      (((((?b 5 * 256 + ?b 4) * 256 + ?b 3) * 256 + ?b 2) * 256 + ?b 1) * 256 + ?b 0)"
    by (simp add: uuid_timestamp_of_def uuid_bytes_def uint_word_of_int)
  also have "?b 5 = (ts div 256 ^ 5) mod 256 ^ 1" by simp
  also have "(ts div 256 ^ 5) mod 256 ^ 1 * 256 + ?b 4 = (ts div 256 ^ 4) mod 256 ^ 2"
    using step [of 4 1] by (simp add: numeral_eq_Suc)
  also have "(ts div 256 ^ 4) mod 256 ^ 2 * 256 + ?b 3 = (ts div 256 ^ 3) mod 256 ^ 3"
    using step [of 3 2] by (simp add: numeral_eq_Suc)
  also have "(ts div 256 ^ 3) mod 256 ^ 3 * 256 + ?b 2 = (ts div 256 ^ 2) mod 256 ^ 4"
    using step [of 2 3] by (simp add: numeral_eq_Suc)
  also have "(ts div 256 ^ 2) mod 256 ^ 4 * 256 + ?b 1 = (ts div 256 ^ 1) mod 256 ^ 5"
    using step [of 1 4] by (simp add: numeral_eq_Suc)
  also have "(ts div 256 ^ 1) mod 256 ^ 5 * 256 + ?b 0 = (ts div 256 ^ 0) mod 256 ^ 6"
    using step [of 0 5] by (simp add: numeral_eq_Suc)
  finally show ?thesis by simp
qed

section \<open>Order and uniqueness\<close>

text \<open>The state as a pair, in lexicographic order.\<close>

definition uuid_less :: "uuid_state \<Rightarrow> uuid_state \<Rightarrow> bool" where
  "uuid_less a b =
     (case (uv_lastTimestamp a, uv_lastTimestamp b) of
        (None, Some _) \<Rightarrow> True
      | (Some x, Some y) \<Rightarrow> x < y \<or> (x = y \<and> uv_sequence a < uv_sequence b)
      | _ \<Rightarrow> False)"

lemma uuid_less_trans: "uuid_less a b \<Longrightarrow> uuid_less b c \<Longrightarrow> uuid_less a c"
  by (auto simp: uuid_less_def split: option.splits)

lemma less_plus_one: "x + 1 \<noteq> (0 :: 32 word) \<Longrightarrow> x < x + 1"
  using unatSuc [of x] by (simp add: word_less_nat_alt add.commute)

lemma uuid_tick_less: "uuid_less st (uuid_tick random timestamp st)"
  by (auto simp: uuid_tick_def uuid_less_def Let_def less_plus_one split: option.splits)

lemma uuid_tick_defined: "\<exists>t. uv_lastTimestamp (uuid_tick random timestamp st) = Some t"
  by (auto simp: uuid_tick_def Let_def split: option.splits)

text \<open>A run of the generator: the identifier of each call.\<close>

fun uuid_run :: "(8 word list \<times> int) list \<Rightarrow> uuid_state \<Rightarrow> string list \<times> uuid_state" where
  "uuid_run [] st = ([], st)"
| "uuid_run ((random, ts) # calls) st =
     (case uuidv7 random ts st of (u, st') \<Rightarrow> (case uuid_run calls st' of (us, st'') \<Rightarrow> (u # us, st'')))"

lemma hex_digit_inj: "m < 16 \<Longrightarrow> n < 16 \<Longrightarrow> hex_digit m = hex_digit n \<longleftrightarrow> m = n"
  by (auto simp: hex_digit_def split: if_splits)

lemma hex_byte_inj: "hex_byte a = hex_byte b \<longleftrightarrow> a = b"
proof
  have lt: "unat x div 16 < 16" for x :: "8 word"
    using unsigned_less [of x, where ?'a = nat] by simp
  assume "hex_byte a = hex_byte b"
  then have "unat a div 16 = unat b div 16" "unat a mod 16 = unat b mod 16"
    using lt by (auto simp: hex_byte_def hex_digit_inj)
  then have "unat a = unat b" by (metis div_mult_mod_eq)
  then show "a = b" by (rule word_unat_eq_iff [THEN iffD2])
qed simp

lemma list16: "length xs = 16 \<Longrightarrow> \<exists>a b c d e f g h i j k l m n q r. xs = [a, b, c, d, e, f, g, h, i, j, k, l, m, n, q, r]"
  by (auto simp: eval_nat_numeral length_Suc_conv)

lemma formatUuid_inj:
  assumes "length bs = 16" "length cs = 16" "formatUuid bs = formatUuid cs"
  shows "bs = cs"
  using list16 [OF assms(1)] list16 [OF assms(2)] assms(3)
  by (clarsimp simp: formatUuid_def hex_byte_inj [symmetric] hex_byte_def)

lemma length_uuid_bytes [simp]: "length (uuid_bytes random ts sq) = 16"
  by (simp add: uuid_bytes_def)

lemma length_formatUuid: "length bs = 16 \<Longrightarrow> length (formatUuid bs) = 36"
  by (auto dest!: list16 simp: formatUuid_def hex_byte_def)

lemma length_uuidv7: "length (fst (uuidv7 random ts st)) = 36"
  by (simp add: uuidv7_def Let_def length_formatUuid)

definition ts_in_range :: "uuid_state \<Rightarrow> bool" where
  "ts_in_range st \<longleftrightarrow> (\<forall>t. uv_lastTimestamp st = Some t \<longrightarrow> 0 \<le> t \<and> t < 2 ^ 48)"

text \<open>Identifiers of different states in the 48-bit range differ, whatever the random bytes.\<close>

lemma uuid_text_inj:
  assumes "formatUuid (uuid_bytes r ts sq) = formatUuid (uuid_bytes r' ts' sq')"
    "0 \<le> ts" "ts < 2 ^ 48" "0 \<le> ts'" "ts' < 2 ^ 48"
  shows "ts = ts' \<and> sq = sq'"
proof -
  from assms(1) have "uuid_bytes r ts sq = uuid_bytes r' ts' sq'"
    by (intro formatUuid_inj) simp_all
  then have "ts mod 2 ^ 48 = ts' mod 2 ^ 48" "sq = sq'"
    by (metis uuid_timestamp_roundtrip, metis uuid_sequence_roundtrip)
  with assms(2-5) show ?thesis by simp
qed

definition text_of :: "uuid_state \<Rightarrow> string \<Rightarrow> bool" where
  "text_of st u \<longleftrightarrow> (\<exists>r t. uv_lastTimestamp st = Some t \<and> u = formatUuid (uuid_bytes r t (uv_sequence st)))"

lemma uuidv7_text: "uuidv7 r ts st = (u, st') \<Longrightarrow> st' = uuid_tick r ts st \<and> text_of st' u"
  using uuid_tick_defined [of r ts st] by (auto simp: uuidv7_def Let_def text_of_def)

lemma text_of_less_neq:
  "text_of a u \<Longrightarrow> text_of b v \<Longrightarrow> uuid_less a b \<Longrightarrow> ts_in_range a \<Longrightarrow> ts_in_range b \<Longrightarrow> u \<noteq> v"
  by (auto simp: text_of_def ts_in_range_def uuid_less_def dest: uuid_text_inj)

lemma ts_in_range_less: "uuid_less a b \<Longrightarrow> uv_lastTimestamp a \<noteq> None \<Longrightarrow> ts_in_range b \<Longrightarrow>
    (\<forall>t. uv_lastTimestamp a = Some t \<longrightarrow> 0 \<le> t) \<Longrightarrow> ts_in_range a"
  by (auto simp: uuid_less_def ts_in_range_def split: option.splits)

lemma uuid_run_states:
  "uuid_run calls st = (us, st') \<Longrightarrow> st' = st \<and> calls = [] \<or> uuid_less st st'"
proof (induction calls st arbitrary: us st' rule: uuid_run.induct)
  case (2 r t calls st)
  obtain v st1 where v: "uuidv7 r t st = (v, st1)" by (cases "uuidv7 r t st")
  obtain vs st2 where run: "uuid_run calls st1 = (vs, st2)" by (cases "uuid_run calls st1")
  have "uuid_less st st1" using uuidv7_text [OF v] uuid_tick_less by simp
  moreover have "st2 = st'" using 2(2) v run by auto
  ultimately show ?case using 2(1) [OF v [symmetric] run] by (auto intro: uuid_less_trans)
qed simp

definition nonnegative :: "uuid_state \<Rightarrow> bool" where
  "nonnegative st \<longleftrightarrow> (\<forall>t. uv_lastTimestamp st = Some t \<longrightarrow> 0 \<le> t)"

lemma uuid_tick_nonnegative: "nonnegative st \<Longrightarrow> 0 \<le> ts \<Longrightarrow> nonnegative (uuid_tick r ts st)"
  by (auto simp: nonnegative_def uuid_tick_def Let_def split: if_splits option.splits)

lemma uuid_run_later:
  assumes "uuid_run calls st = (us, st')" "ts_in_range st'" "nonnegative st" "\<forall>(r, t) \<in> set calls. 0 \<le> t"
    "u \<in> set us"
  shows "\<exists>a. text_of a u \<and> uuid_less st a \<and> ts_in_range a"
  using assms
proof (induction calls st arbitrary: us rule: uuid_run.induct)
  case (2 r t calls st)
  obtain v st1 where v: "uuidv7 r t st = (v, st1)" by (cases "uuidv7 r t st")
  obtain vs st2 where r: "uuid_run calls st1 = (vs, st2)" by (cases "uuid_run calls st1")
  note st1 = uuidv7_text [OF v]
  have us: "us = v # vs" "st2 = st'" using 2(2) v r by auto
  have nn: "nonnegative st1" using st1 2(4,5) uuid_tick_nonnegative by auto
  have less: "uuid_less st st1" using st1 uuid_tick_less by simp
  have range: "ts_in_range st1"
    using uuid_run_states [OF r] 2(3) nn st1 us uuid_tick_defined [of r t st]
    by (auto simp: nonnegative_def intro: ts_in_range_less)
  show ?case
  proof (cases "u = v")
    case True
    then show ?thesis using st1 less range by blast
  next
    case False
    with 2(6) us have "u \<in> set vs" by simp
    with 2(1) [OF v [symmetric] r [unfolded us(2)] 2(3) nn] 2(5) obtain a where
      "text_of a u" "uuid_less st1 a" "ts_in_range a" by auto
    with less show ?thesis by (blast intro: uuid_less_trans)
  qed
qed simp

lemma uuid_run_distinct:
  assumes "uuid_run calls st = (us, st')" "ts_in_range st'" "nonnegative st" "\<forall>(r, t) \<in> set calls. 0 \<le> t"
  shows "distinct us"
  using assms
proof (induction calls st arbitrary: us rule: uuid_run.induct)
  case (2 r t calls st)
  obtain v st1 where v: "uuidv7 r t st = (v, st1)" by (cases "uuidv7 r t st")
  obtain vs st2 where r: "uuid_run calls st1 = (vs, st2)" by (cases "uuid_run calls st1")
  note st1 = uuidv7_text [OF v]
  have us: "us = v # vs" "st2 = st'" using 2(2) v r by auto
  have nn: "nonnegative st1" using st1 2(4,5) uuid_tick_nonnegative by auto
  have range: "ts_in_range st1"
    using uuid_run_states [OF r] 2(3) nn st1 us uuid_tick_defined [of r t st]
    by (auto simp: nonnegative_def intro: ts_in_range_less)
  have rest: "\<forall>(r, t) \<in> set calls. 0 \<le> t" using 2(5) by auto
  have "v \<notin> set vs"
    using uuid_run_later [OF r [unfolded us(2)] 2(3) nn rest] st1 range text_of_less_neq by blast
  with 2(1) [OF v [symmetric] r [unfolded us(2)] 2(3) nn rest] us show ?case by simp
qed simp

end
