(* ===== verification/Session_Storage.thy ===== *)
theory Session_Storage
  imports Session_Tree Uuid
begin

text \<open>
  Session storage of \<open>packages/agent/src/harness/session\<close>: the interface \<open>SessionStorage\<close> of
  \<open>harness/types.ts\<close> as a record of operations, the state that both storages keep in memory, and the
  in-memory storage (\<open>memory-storage.ts\<close>). Operations give an error or a value, and the next state.
\<close>

section \<open>Operations that may fail\<close>

type_synonym ('s, 'a) sop = "'s \<Rightarrow> (session_error + 'a) \<times> 's"

definition sret :: "'a \<Rightarrow> ('s, 'a) sop" where
  "sret x = (\<lambda>s. (Inr x, s))"

definition sfail :: "session_error \<Rightarrow> ('s, 'a) sop" where
  "sfail e = (\<lambda>s. (Inl e, s))"

definition sbind :: "('s, 'a) sop \<Rightarrow> ('a \<Rightarrow> ('s, 'b) sop) \<Rightarrow> ('s, 'b) sop" where
  "sbind m f = (\<lambda>s. case m s of (Inl e, s') \<Rightarrow> (Inl e, s') | (Inr x, s') \<Rightarrow> f x s')"

definition sread :: "('s \<Rightarrow> session_error + 'a) \<Rightarrow> ('s, 'a) sop" where
  "sread f = (\<lambda>s. (f s, s))"

named_theorems sop_simps \<open>unfolding the operations of a storage\<close>

declare sret_def [sop_simps] sfail_def [sop_simps] sbind_def [sop_simps] sread_def [sop_simps]

section \<open>The state in memory\<close>

record session_state =
  ss_entries :: "session_entry list"
  ss_byId :: "(string, session_entry) omap"
  ss_labelsById :: "(string, string) omap"
  ss_leafId :: "string option"

definition updateLabelCache :: "session_entry \<Rightarrow> (string, string) omap \<Rightarrow> (string, string) omap" where
  "updateLabelCache e labels =
     (case en_body e of
        LabelEntry targetId label \<Rightarrow>
          (case map_option trim label of
             None \<Rightarrow> om_delete labels targetId
           | Some l \<Rightarrow> if l \<noteq> [] then om_set labels targetId l else om_delete labels targetId)
      | _ \<Rightarrow> labels)"

definition buildLabelsById :: "session_entry list \<Rightarrow> (string, string) omap" where
  "buildLabelsById entries = fold updateLabelCache entries []"

definition leafIdAfterEntry :: "session_entry \<Rightarrow> string option" where
  "leafIdAfterEntry e = (case en_body e of LeafEntry targetId \<Rightarrow> targetId | _ \<Rightarrow> Some (en_id e))"

definition index_entries :: "session_entry list \<Rightarrow> (string, session_entry) omap" where
  "index_entries entries = fold (\<lambda>e m. om_set m (en_id e) e) entries []"

definition state_of_entries :: "session_entry list \<Rightarrow> session_state" where
  "state_of_entries entries =
     \<lparr>ss_entries = entries, ss_byId = index_entries entries, ss_labelsById = buildLabelsById entries,
      ss_leafId = fold (\<lambda>e _. leafIdAfterEntry e) entries None\<rparr>"

text \<open>The effect of \<open>appendEntry\<close> and of \<open>setLeafId\<close> on the caches; the latter leaves the labels alone.\<close>

definition push_entry :: "session_entry \<Rightarrow> session_state \<Rightarrow> session_state" where
  "push_entry e st =
     \<lparr>ss_entries = ss_entries st @ [e], ss_byId = om_set (ss_byId st) (en_id e) e,
      ss_labelsById = updateLabelCache e (ss_labelsById st), ss_leafId = leafIdAfterEntry e\<rparr>"

definition leaf_entry :: "string \<Rightarrow> string \<Rightarrow> string option \<Rightarrow> session_state \<Rightarrow> session_entry" where
  "leaf_entry i now target st =
     \<lparr>en_id = i, en_parentId = ss_leafId st, en_timestamp = now, en_body = LeafEntry target\<rparr>"

definition push_leaf :: "string \<Rightarrow> string \<Rightarrow> string option \<Rightarrow> session_state \<Rightarrow> session_state" where
  "push_leaf i now target st =
     (let e = leaf_entry i now target st
      in st\<lparr>ss_entries := ss_entries st @ [e], ss_byId := om_set (ss_byId st) (en_id e) e, ss_leafId := target\<rparr>)"

definition leaf_or_error :: "session_state \<Rightarrow> session_error + string option" where
  "leaf_or_error st =
     (case ss_leafId st of
        None \<Rightarrow> Inr None
      | Some l \<Rightarrow> if om_has (ss_byId st) l then Inr (Some l) else Inl (entry_not_found InvalidSession l))"

definition target_error :: "session_state \<Rightarrow> string option \<Rightarrow> session_error option" where
  "target_error st leafId =
     (case leafId of None \<Rightarrow> None | Some l \<Rightarrow> if om_has (ss_byId st) l then None else Some (entry_not_found NotFound l))"

text \<open>The loop of \<open>getPathToRoot\<close>; with a cycle of parents it does not end, which is \<open>None\<close>.\<close>

partial_function (option) path_loop ::
  "(string, session_entry) omap \<Rightarrow> session_entry \<Rightarrow> session_entry list \<Rightarrow> (session_error + session_entry list) option" where
  "path_loop byId current path =
     (case en_parentId current of
        None \<Rightarrow> Some (Inr (current # path))
      | Some p \<Rightarrow>
          if p = [] then Some (Inr (current # path))
          else (case om_get byId p of
                  None \<Rightarrow> Some (Inl (entry_not_found InvalidSession p))
                | Some parent \<Rightarrow> path_loop byId parent (current # path)))"

definition getPathToRoot :: "session_state \<Rightarrow> string option \<Rightarrow> (session_error + session_entry list) option" where
  "getPathToRoot st leafId =
     (case leafId of
        None \<Rightarrow> Some (Inr [])
      | Some l \<Rightarrow> (case om_get (ss_byId st) l of
                     None \<Rightarrow> Some (Inl (entry_not_found NotFound l))
                   | Some current \<Rightarrow> path_loop (ss_byId st) current []))"

definition find_entries :: "string \<Rightarrow> session_state \<Rightarrow> session_entry list" where
  "find_entries type st = filter (\<lambda>e. entry_type (en_body e) = type) (ss_entries st)"

section \<open>Entry identifiers\<close>

text \<open>The generator of \<open>uuid.ts\<close> with the random bytes and the clock of each of its calls.\<close>

record id_source =
  is_state :: uuid_state
  is_calls :: nat
  is_inputs :: "nat \<Rightarrow> 8 word list \<times> int"

definition next_uuid :: "id_source \<Rightarrow> string \<times> id_source" where
  "next_uuid src =
     (case is_inputs src (is_calls src) of (random, ts) \<Rightarrow>
        (case uuidv7 random ts (is_state src) of (u, st) \<Rightarrow>
           (u, src\<lparr>is_state := st, is_calls := Suc (is_calls src)\<rparr>)))"

definition last8 :: "string \<Rightarrow> string" where
  "last8 s = drop (length s - 8) s"

fun short_id_loop :: "nat \<Rightarrow> (string \<Rightarrow> bool) \<Rightarrow> id_source \<Rightarrow> string \<times> id_source" where
  "short_id_loop 0 has src = next_uuid src"
| "short_id_loop (Suc n) has src =
     (case next_uuid src of (u, src') \<Rightarrow>
        if \<not> has (last8 u) then (last8 u, src') else short_id_loop n has src')"

definition generateEntryId :: "(string \<Rightarrow> bool) \<Rightarrow> id_source \<Rightarrow> string \<times> id_source" where
  "generateEntryId has src = short_id_loop 100 has src"

lemma length_next_uuid: "next_uuid src = (u, src') \<Longrightarrow> length u = 36"
  using length_uuidv7 by (auto simp: next_uuid_def split: prod.splits) (metis fst_conv)

text \<open>An identifier of eight characters is new; a longer one comes after 100 collisions.\<close>

lemma short_id_loop_fresh:
  "short_id_loop n has src = (i, src') \<Longrightarrow> (length i = 8 \<and> \<not> has i) \<or> length i = 36"
proof (induction n has src rule: short_id_loop.induct)
  case (1 has src)
  then show ?case using length_next_uuid by auto
next
  case (2 n has src)
  obtain u src1 where u: "next_uuid src = (u, src1)" by (cases "next_uuid src")
  with length_next_uuid have "length u = 36" by blast
  with 2 u show ?case by (auto simp: last8_def split: if_splits)
qed

lemma generateEntryId_fresh:
  assumes "generateEntryId has src = (i, src')" "\<And>x. has x \<Longrightarrow> length x = 8"
  shows "\<not> has i \<and> i \<noteq> []"
  using short_id_loop_fresh [OF assms(1) [unfolded generateEntryId_def]] assms(2) by fastforce

section \<open>The storage interface\<close>

record 's storage_ops =
  op_getLeafId :: "('s, string option) sop"
  op_setLeafId :: "string \<Rightarrow> string option \<Rightarrow> ('s, unit) sop"
  op_createEntryId :: "('s, string) sop"
  op_appendEntry :: "session_entry \<Rightarrow> ('s, unit) sop"
  op_getEntry :: "string \<Rightarrow> 's \<Rightarrow> session_entry option"
  op_findEntries :: "string \<Rightarrow> 's \<Rightarrow> session_entry list"
  op_getLabel :: "string \<Rightarrow> 's \<Rightarrow> string option"
  op_getPathToRoot :: "string option \<Rightarrow> 's \<Rightarrow> (session_error + session_entry list) option"
  op_getEntries :: "'s \<Rightarrow> session_entry list"

section \<open>The in-memory storage\<close>

record session_metadata =
  sm_id :: string
  sm_createdAt :: string

record memory_storage =
  mem_metadata :: session_metadata
  mem_state :: session_state
  mem_ids :: id_source

text \<open>The constructor; without metadata the storage makes its own.\<close>

definition mem_create ::
  "session_entry list \<Rightarrow> session_metadata option \<Rightarrow> string \<Rightarrow> id_source \<Rightarrow> session_error + memory_storage" where
  "mem_create entries metadata now ids =
     (let st = state_of_entries entries in
      case leaf_or_error st of
        Inl e \<Rightarrow> Inl e
      | Inr _ \<Rightarrow>
          (case metadata of
             Some m \<Rightarrow> Inr \<lparr>mem_metadata = m, mem_state = st, mem_ids = ids\<rparr>
           | None \<Rightarrow> (case next_uuid ids of (u, ids') \<Rightarrow>
               Inr \<lparr>mem_metadata = \<lparr>sm_id = u, sm_createdAt = now\<rparr>, mem_state = st, mem_ids = ids'\<rparr>)))"

definition mem_new_id :: "memory_storage \<Rightarrow> string \<times> memory_storage" where
  "mem_new_id s = (case generateEntryId (om_has (ss_byId (mem_state s))) (mem_ids s) of
     (i, ids) \<Rightarrow> (i, s\<lparr>mem_ids := ids\<rparr>))"

definition mem_setLeafId :: "string \<Rightarrow> string option \<Rightarrow> (memory_storage, unit) sop" where
  "mem_setLeafId now leafId = (\<lambda>s.
     case target_error (mem_state s) leafId of
       Some e \<Rightarrow> (Inl e, s)
     | None \<Rightarrow> (case mem_new_id s of (i, s') \<Rightarrow> (Inr (), s'\<lparr>mem_state := push_leaf i now leafId (mem_state s')\<rparr>)))"

definition memory_ops :: "memory_storage storage_ops" where
  "memory_ops =
     \<lparr>op_getLeafId = (\<lambda>s. (leaf_or_error (mem_state s), s)),
      op_setLeafId = mem_setLeafId,
      op_createEntryId = (\<lambda>s. case mem_new_id s of (i, s') \<Rightarrow> (Inr i, s')),
      op_appendEntry = (\<lambda>e s. (Inr (), s\<lparr>mem_state := push_entry e (mem_state s)\<rparr>)),
      op_getEntry = (\<lambda>i s. om_get (ss_byId (mem_state s)) i),
      op_findEntries = (\<lambda>t s. find_entries t (mem_state s)),
      op_getLabel = (\<lambda>i s. om_get (ss_labelsById (mem_state s)) i),
      op_getPathToRoot = (\<lambda>l s. getPathToRoot (mem_state s) l),
      op_getEntries = (\<lambda>s. ss_entries (mem_state s))\<rparr>"

section \<open>Well-formed sessions\<close>

text \<open>
  Identifiers are new and non-empty when an entry is added, and a parent is an earlier entry (an
  empty parent counts as none).
\<close>

definition parent_in :: "string set \<Rightarrow> session_entry \<Rightarrow> bool" where
  "parent_in ids e = (case en_parentId e of None \<Rightarrow> True | Some p \<Rightarrow> p = [] \<or> p \<in> ids)"

fun well_ordered :: "string set \<Rightarrow> session_entry list \<Rightarrow> bool" where
  "well_ordered ids [] = True"
| "well_ordered ids (e # es) =
     (en_id e \<noteq> [] \<and> en_id e \<notin> ids \<and> parent_in ids e \<and> well_ordered (insert (en_id e) ids) es)"

abbreviation ids_of :: "session_entry list \<Rightarrow> string set" where
  "ids_of es \<equiv> en_id ` set es"

lemma well_ordered_append:
  "well_ordered ids (xs @ ys) \<longleftrightarrow> well_ordered ids xs \<and> well_ordered (ids \<union> ids_of xs) ys"
  by (induction xs arbitrary: ids) (auto simp: insert_is_Un [symmetric])

lemma well_ordered_distinct: "well_ordered ids es \<Longrightarrow> distinct (map en_id es) \<and> ids_of es \<inter> ids = {}"
  by (induction es arbitrary: ids) force+

definition session_inv :: "session_state \<Rightarrow> bool" where
  "session_inv st \<longleftrightarrow> well_ordered {} (ss_entries st) \<and> st = state_of_entries (ss_entries st) \<and>
     (\<forall>l. ss_leafId st = Some l \<longrightarrow> l \<in> ids_of (ss_entries st))"

lemma index_entries_get:
  "om_get (fold (\<lambda>e m. om_set m (en_id e) e) es m0) i =
     (case find (\<lambda>e. en_id e = i) (rev es) of Some e \<Rightarrow> Some e | None \<Rightarrow> om_get m0 i)"
  by (induction es arbitrary: m0 rule: rev_induct) auto

lemma get_index: "om_get (index_entries es) i = find (\<lambda>e. en_id e = i) (rev es)"
  by (auto simp: index_entries_def index_entries_get split: option.splits)

lemma get_index_distinct:
  "distinct (map en_id es) \<Longrightarrow> e \<in> set es \<Longrightarrow> om_get (index_entries es) (en_id e) = Some e"
proof (induction es rule: rev_induct)
  case (snoc x xs)
  then show ?case by (force simp: get_index)
qed simp

lemma has_index: "om_has (index_entries es) i \<longleftrightarrow> i \<in> ids_of es"
  by (auto simp: om_has_def get_index find_None_iff_ball)

lemma state_of_entries_snoc: "state_of_entries (es @ [e]) = push_entry e (state_of_entries es)"
  by (simp add: state_of_entries_def push_entry_def index_entries_def buildLabelsById_def)

lemma state_of_entries_simps [simp]:
  "ss_entries (state_of_entries es) = es" "ss_byId (state_of_entries es) = index_entries es"
  "ss_leafId (state_of_entries []) = None"
  by (simp_all add: state_of_entries_def)

lemma session_inv_has: "session_inv st \<Longrightarrow> om_has (ss_byId st) i \<longleftrightarrow> i \<in> ids_of (ss_entries st)"
  by (metis has_index session_inv_def state_of_entries_simps(2))

lemma session_inv_empty: "session_inv (state_of_entries [])"
  by (simp add: session_inv_def)

lemma session_inv_leaf: "session_inv st \<Longrightarrow> leaf_or_error st = Inr (ss_leafId st)"
  by (auto simp: leaf_or_error_def session_inv_has split: option.splits) (auto simp: session_inv_def)

lemma push_entry_simps [simp]:
  "ss_entries (push_entry e st) = ss_entries st @ [e]" "ss_leafId (push_entry e st) = leafIdAfterEntry e"
  by (simp_all add: push_entry_def)

lemma push_leaf_entry: "push_leaf i now target st = push_entry (leaf_entry i now target st) st"
  by (simp add: push_leaf_def push_entry_def leaf_entry_def updateLabelCache_def leafIdAfterEntry_def Let_def)

lemma session_inv_push:
  assumes "session_inv st" "en_id e \<noteq> []" "\<not> om_has (ss_byId st) (en_id e)" "parent_in (ids_of (ss_entries st)) e"
    "\<forall>l. leafIdAfterEntry e = Some l \<longrightarrow> l = en_id e \<or> l \<in> ids_of (ss_entries st)"
  shows "session_inv (push_entry e st)"
  unfolding session_inv_def
proof (intro conjI)
  have inv: "well_ordered {} (ss_entries st)" "st = state_of_entries (ss_entries st)"
    using assms(1) by (auto simp: session_inv_def)
  have "en_id e \<notin> ids_of (ss_entries st)" using assms(1,3) session_inv_has by blast
  with assms inv show "well_ordered {} (ss_entries (push_entry e st))" by (simp add: well_ordered_append)
  show "push_entry e st = state_of_entries (ss_entries (push_entry e st))"
    using inv(2) by (simp add: state_of_entries_snoc)
  show "\<forall>l. ss_leafId (push_entry e st) = Some l \<longrightarrow> l \<in> ids_of (ss_entries (push_entry e st))"
    using assms(5) by auto
qed

section \<open>Paths\<close>

text \<open>A path from a root down: its first entry has no parent, each other one has its predecessor as parent.\<close>

definition is_root :: "session_entry \<Rightarrow> bool" where
  "is_root e = (case en_parentId e of None \<Rightarrow> True | Some p \<Rightarrow> p = [])"

fun linked :: "session_entry list \<Rightarrow> bool" where
  "linked (a # b # es) = (en_parentId b = Some (en_id a) \<and> linked (b # es))"
| "linked _ = True"

definition is_path :: "session_entry list \<Rightarrow> bool" where
  "is_path es \<longleftrightarrow> es \<noteq> [] \<and> is_root (hd es) \<and> linked es"

lemma linked_snoc: "linked (es @ [a, b]) \<longleftrightarrow> linked (es @ [a]) \<and> en_parentId b = Some (en_id a)"
  by (induction es rule: linked.induct) auto

lemma is_path_snoc:
  "is_path es \<Longrightarrow> en_parentId e = Some (en_id (last es)) \<Longrightarrow> is_path (es @ [e])"
proof -
  assume a: "is_path es" "en_parentId e = Some (en_id (last es))"
  then obtain xs x where x: "es = xs @ [x]" by (metis is_path_def rev_exhaust)
  with a have "linked (xs @ [x, e])" by (simp only: linked_snoc) (simp add: is_path_def)
  with a x show ?thesis by (cases xs) (simp_all add: is_path_def)
qed

text \<open>
  In a well-ordered list each entry has one path, which the loop finds whatever else the index
  holds.
\<close>

lemma path_exists:
  assumes "well_ordered {} es" "e \<in> set es"
  shows "\<exists>path. is_path path \<and> last path = e \<and> set path \<subseteq> set es \<and> well_ordered {} path \<and>
    (\<forall>byId acc. (\<forall>x \<in> set es. om_get byId (en_id x) = Some x) \<longrightarrow>
       path_loop byId e acc = Some (Inr (path @ acc)))"
  using assms
proof (induction es arbitrary: e rule: rev_induct)
  case (snoc x xs)
  have wo: "well_ordered {} xs" and px: "parent_in (ids_of xs) x"
    using snoc.prems(1) by (auto simp: well_ordered_append)
  show ?case
  proof (cases "e \<in> set xs")
    case True
    from snoc.IH [OF wo True] obtain path where p: "is_path path" "last path = e" "set path \<subseteq> set xs"
      "well_ordered {} path"
      "\<And>byId acc. \<forall>x \<in> set xs. om_get byId (en_id x) = Some x \<Longrightarrow> path_loop byId e acc = Some (Inr (path @ acc))"
      by blast
    then show ?thesis by (intro exI [of _ path]) auto
  next
    case False
    with snoc.prems have e: "e = x" by simp
    show ?thesis
    proof (cases "is_root x")
      case True
      then have "path_loop byId x acc = Some (Inr ([x] @ acc))" for byId acc
        by (auto simp: path_loop.simps [of byId x] is_root_def split: option.splits)
      with True e snoc.prems(1) show ?thesis
        by (intro exI [of _ "[x]"])
           (auto simp: is_path_def is_root_def parent_in_def well_ordered_append split: option.splits)
    next
      case nroot: False
      with px obtain y where y: "y \<in> set xs" "en_parentId x = Some (en_id y)" "en_id y \<noteq> []"
        by (auto simp: parent_in_def is_root_def split: option.splits)
      from snoc.IH [OF wo y(1)] obtain path where p: "is_path path" "last path = y" "set path \<subseteq> set xs"
        "well_ordered {} path"
        "\<And>byId acc. \<forall>x \<in> set xs. om_get byId (en_id x) = Some x \<Longrightarrow> path_loop byId y acc = Some (Inr (path @ acc))"
        by blast
      have "path_loop byId x acc = Some (Inr ((path @ [x]) @ acc))"
        if "\<forall>z \<in> set (xs @ [x]). om_get byId (en_id z) = Some z" for byId acc
        using that y p(5) [of byId "x # acc"] by (simp add: path_loop.simps [of byId x])
      moreover have "is_path (path @ [x])" using p y by (intro is_path_snoc) auto
      moreover have "well_ordered {} (path @ [x])"
      proof -
        have "y \<in> set path" using p(1,2) last_in_set [of path] by (auto simp: is_path_def)
        then show ?thesis using p(3,4) y(2) snoc.prems(1) by (auto simp: well_ordered_append parent_in_def)
      qed
      ultimately show ?thesis using e p(3) by (intro exI [of _ "path @ [x]"]) auto
    qed
  qed
qed simp

definition path_of :: "session_state \<Rightarrow> string option \<Rightarrow> session_entry list" where
  "path_of st l = (case getPathToRoot st l of Some (Inr p) \<Rightarrow> p | _ \<Rightarrow> [])"

lemma getPathToRoot_inv:
  assumes "session_inv st" "i \<in> ids_of (ss_entries st)"
  shows "getPathToRoot st (Some i) = Some (Inr (path_of st (Some i)))"
    and "is_path (path_of st (Some i))" and "en_id (last (path_of st (Some i))) = i"
    and "set (path_of st (Some i)) \<subseteq> set (ss_entries st)" and "well_ordered {} (path_of st (Some i))"
proof -
  from assms(2) obtain e where e: "e \<in> set (ss_entries st)" "en_id e = i" by auto
  have inv: "well_ordered {} (ss_entries st)" "ss_byId st = index_entries (ss_entries st)"
    using assms(1) by (auto simp: session_inv_def) (metis state_of_entries_simps(2))
  have get: "\<forall>x \<in> set (ss_entries st). om_get (ss_byId st) (en_id x) = Some x"
    using get_index_distinct well_ordered_distinct [OF inv(1)] inv(2) by simp
  from path_exists [OF inv(1) e(1)] get obtain path where
    p: "is_path path" "last path = e" "set path \<subseteq> set (ss_entries st)" "path_loop (ss_byId st) e [] = Some (Inr path)"
      "well_ordered {} path"
    by (metis append_Nil2)
  have g: "getPathToRoot st (Some i) = Some (Inr path)"
    using get e p(4) by (auto simp: getPathToRoot_def)
  then have "path_of st (Some i) = path" by (simp add: path_of_def)
  with g p e show "getPathToRoot st (Some i) = Some (Inr (path_of st (Some i)))"
    "is_path (path_of st (Some i))" "en_id (last (path_of st (Some i))) = i"
    "set (path_of st (Some i)) \<subseteq> set (ss_entries st)" "well_ordered {} (path_of st (Some i))" by auto
qed

text \<open>Adding an entry extends the path of its parent and keeps the other paths.\<close>

lemma path_of_push_old:
  assumes "session_inv st" "session_inv (push_entry e st)" "i \<in> ids_of (ss_entries st)"
  shows "path_of (push_entry e st) (Some i) = path_of st (Some i)"
proof -
  from assms(3) obtain x where x: "x \<in> set (ss_entries st)" "en_id x = i" by auto
  have wo: "well_ordered {} (ss_entries st)" and wo': "well_ordered {} (ss_entries st @ [e])"
    using assms by (auto simp: session_inv_def)
  from path_exists [OF wo x(1)] obtain path where
    p: "\<And>byId acc. \<forall>x \<in> set (ss_entries st). om_get byId (en_id x) = Some x \<Longrightarrow> path_loop byId x acc = Some (Inr (path @ acc))"
    by blast
  have "ss_byId st = index_entries (ss_entries st)" "ss_byId (push_entry e st) = index_entries (ss_entries st @ [e])"
    using assms(1,2) unfolding session_inv_def by (metis state_of_entries_simps(2) push_entry_simps(1))+
  then have get: "\<forall>y \<in> set (ss_entries st). om_get (ss_byId st) (en_id y) = Some y"
    "\<forall>y \<in> set (ss_entries st). om_get (ss_byId (push_entry e st)) (en_id y) = Some y"
    using get_index_distinct well_ordered_distinct [OF wo] well_ordered_distinct [OF wo'] by simp_all
  show ?thesis
    using p [OF get(1), of "[]"] p [OF get(2), of "[]"] get x by (auto simp: path_of_def getPathToRoot_def)
qed

lemma path_of_push_new:
  assumes "session_inv st" "session_inv (push_entry e st)"
    "en_parentId e = Some p" "p \<in> ids_of (ss_entries st)"
  shows "path_of (push_entry e st) (Some (en_id e)) = path_of st (Some p) @ [e]"
proof -
  from assms(4) obtain x where x: "x \<in> set (ss_entries st)" "en_id x = p" by auto
  have wo: "well_ordered {} (ss_entries st)" and wo': "well_ordered {} (ss_entries st @ [e])"
    using assms by (auto simp: session_inv_def)
  have ne: "p \<noteq> []" using wo x by (metis Un_iff imageI empty_iff split_list well_ordered.simps(2) well_ordered_append)
  from path_exists [OF wo x(1)] obtain path where
    pt: "\<And>byId acc. \<forall>x \<in> set (ss_entries st). om_get byId (en_id x) = Some x \<Longrightarrow> path_loop byId x acc = Some (Inr (path @ acc))"
    by blast
  have "ss_byId st = index_entries (ss_entries st)" "ss_byId (push_entry e st) = index_entries (ss_entries st @ [e])"
    using assms(1,2) unfolding session_inv_def by (metis state_of_entries_simps(2) push_entry_simps(1))+
  then have get: "\<forall>y \<in> set (ss_entries st). om_get (ss_byId st) (en_id y) = Some y"
    "\<forall>y \<in> set (ss_entries st). om_get (ss_byId (push_entry e st)) (en_id y) = Some y"
    "om_get (ss_byId (push_entry e st)) (en_id e) = Some e"
    using get_index_distinct well_ordered_distinct [OF wo] well_ordered_distinct [OF wo'] by simp_all
  have "path_of st (Some p) = path"
    using pt [OF get(1), of "[]"] get x by (auto simp: path_of_def getPathToRoot_def)
  moreover have "path_loop (ss_byId (push_entry e st)) e [] = Some (Inr (path @ [e]))"
    using pt [OF get(2), of "[e]"] get(2) x ne assms(3)
    by (auto simp: path_loop.simps [of _ e])
  ultimately show ?thesis using get(3) by (simp add: path_of_def getPathToRoot_def)
qed

lemma path_of_push_root:
  assumes "session_inv (push_entry e st)" "en_parentId e = None"
  shows "path_of (push_entry e st) (Some (en_id e)) = [e]"
proof -
  have wo': "well_ordered {} (ss_entries st @ [e])" using assms by (auto simp: session_inv_def)
  have "ss_byId (push_entry e st) = index_entries (ss_entries st @ [e])"
    using assms(1) unfolding session_inv_def by (metis state_of_entries_simps(2) push_entry_simps(1))
  then have "om_get (ss_byId (push_entry e st)) (en_id e) = Some e"
    using get_index_distinct well_ordered_distinct [OF wo'] by simp
  then show ?thesis using assms(2) by (simp add: path_of_def getPathToRoot_def path_loop.simps [of _ e])
qed

section \<open>Cycles\<close>

text \<open>Two entries that are each other's parent: the walk to the root never ends.\<close>

lemma path_loop_cycle:
  assumes "om_get m (en_id a) = Some a" "om_get m (en_id b) = Some b"
    "en_parentId a = Some (en_id b)" "en_parentId b = Some (en_id a)" "en_id a \<noteq> []" "en_id b \<noteq> []"
  shows "path_loop m a acc = None"
proof -
  have "byId = m \<longrightarrow> x \<notin> {a, b}" if run: "path_loop byId x acc = Some r" for byId x acc r
    by (rule path_loop.raw_induct [OF _ run, where P = "\<lambda>byId x acc r. byId = m \<longrightarrow> x \<notin> {a, b}"])
       (use assms in fastforce)
  then show ?thesis by (cases "path_loop m a acc") auto
qed

lemma getPathToRoot_cycle:
  assumes "en_id a \<noteq> en_id b" "en_id a \<noteq> []" "en_id b \<noteq> []"
    "en_parentId a = Some (en_id b)" "en_parentId b = Some (en_id a)"
  shows "getPathToRoot (state_of_entries [a, b]) (Some (en_id a)) = None"
  using path_loop_cycle [of "index_entries [a, b]" a b] assms
  by (simp add: getPathToRoot_def get_index)

end
