(* ===== verification/Session.thy ===== *)
theory Session
  imports Session_Storage
begin

text \<open>
  The class \<open>Session\<close> of \<open>packages/agent/src/harness/session/session.ts\<close> over any storage, and
  \<open>getEntriesToFork\<close> of \<open>repo-utils.ts\<close>. The contract of the storage is the locale
  \<open>session_storage\<close>; inside it the operations are shown to keep the tree well-formed and to extend
  the active branch by exactly what they append. The in-memory storage is its first instance.
\<close>

section \<open>Operations of a session\<close>

definition getBranch ::
  "'s storage_ops \<Rightarrow> string option \<Rightarrow> 's \<Rightarrow> (session_error + session_entry list) option" where
  "getBranch ops fromId s =
     (case fromId of
        Some i \<Rightarrow> op_getPathToRoot ops (Some i) s
      | None \<Rightarrow> (case fst (op_getLeafId ops s) of
                  Inl e \<Rightarrow> Some (Inl e)
                | Inr leafId \<Rightarrow> op_getPathToRoot ops leafId s))"

definition session_buildContext ::
  "'s storage_ops \<Rightarrow> context_build_options \<Rightarrow> context_build_options \<Rightarrow> 's \<Rightarrow> (session_error + session_context) option" where
  "session_buildContext ops own options s =
     map_option (map_sum id (\<lambda>path. buildSessionContext path (mergeContextBuildOptions own options)))
       (getBranch ops None s)"

definition session_buildContextEntries ::
  "'s storage_ops \<Rightarrow> context_build_options \<Rightarrow> context_build_options \<Rightarrow> 's \<Rightarrow> (session_error + session_entry list) option" where
  "session_buildContextEntries ops own options s =
     map_option (map_sum id (\<lambda>path. buildContextEntries path (mergeContextBuildOptions own options)))
       (getBranch ops None s)"

definition getSessionName :: "'s storage_ops \<Rightarrow> 's \<Rightarrow> string option" where
  "getSessionName ops s =
     (case last_opt (op_findEntries ops ''session_info'' s) of
        None \<Rightarrow> None
      | Some e \<Rightarrow> (case en_body e of
          SessionInfo (Some n) \<Rightarrow> if trim n \<noteq> [] then Some (trim n) else None
        | _ \<Rightarrow> None))"

definition appendTypedEntry :: "'s storage_ops \<Rightarrow> session_entry \<Rightarrow> ('s, string) sop" where
  "appendTypedEntry ops e = sbind (op_appendEntry ops e) (\<lambda>_. sret (en_id e))"

text \<open>
  The common shape of the append operations: a new identifier, the leaf as parent, the time. An
  operation's \<open>new Date()\<close> is its argument \<open>now\<close>.
\<close>

definition append_body :: "'s storage_ops \<Rightarrow> string \<Rightarrow> entry_body \<Rightarrow> ('s, string) sop" where
  "append_body ops now body =
     sbind (op_createEntryId ops) (\<lambda>i. sbind (op_getLeafId ops) (\<lambda>leaf.
       appendTypedEntry ops \<lparr>en_id = i, en_parentId = leaf, en_timestamp = now, en_body = body\<rparr>))"

definition appendMessage :: "'s storage_ops \<Rightarrow> string \<Rightarrow> agent_message \<Rightarrow> ('s, string) sop" where
  "appendMessage ops now message = append_body ops now (MessageEntry message)"

definition appendThinkingLevelChange :: "'s storage_ops \<Rightarrow> string \<Rightarrow> string \<Rightarrow> ('s, string) sop" where
  "appendThinkingLevelChange ops now level = append_body ops now (ThinkingLevelChange level)"

definition appendModelChange :: "'s storage_ops \<Rightarrow> string \<Rightarrow> string \<Rightarrow> string \<Rightarrow> ('s, string) sop" where
  "appendModelChange ops now provider modelId = append_body ops now (ModelChange provider modelId)"

definition appendActiveToolsChange :: "'s storage_ops \<Rightarrow> string \<Rightarrow> string list \<Rightarrow> ('s, string) sop" where
  "appendActiveToolsChange ops now names = append_body ops now (ActiveToolsChange names)"

definition appendCompaction ::
  "'s storage_ops \<Rightarrow> string \<Rightarrow> string \<Rightarrow> string \<Rightarrow> int \<Rightarrow> json option \<Rightarrow> bool option \<Rightarrow> ('s, string) sop" where
  "appendCompaction ops now summary firstKept tokensBefore details fromHook =
     append_body ops now (CompactionEntry \<lparr>ce_summary = summary, ce_firstKeptEntryId = firstKept,
       ce_tokensBefore = tokensBefore, ce_details = details, ce_fromHook = fromHook\<rparr>)"

definition appendCustomEntry :: "'s storage_ops \<Rightarrow> string \<Rightarrow> string \<Rightarrow> json option \<Rightarrow> ('s, string) sop" where
  "appendCustomEntry ops now customType data = append_body ops now (CustomEntry customType data)"

definition appendCustomMessageEntry ::
  "'s storage_ops \<Rightarrow> string \<Rightarrow> string \<Rightarrow> user_content \<Rightarrow> bool \<Rightarrow> json option \<Rightarrow> ('s, string) sop" where
  "appendCustomMessageEntry ops now customType content display details =
     append_body ops now (CustomMessageEntry \<lparr>cme_customType = customType, cme_content = content,
       cme_details = details, cme_display = display\<rparr>)"

definition appendLabel :: "'s storage_ops \<Rightarrow> string \<Rightarrow> string \<Rightarrow> string option \<Rightarrow> ('s, string) sop" where
  "appendLabel ops now targetId label = (\<lambda>s.
     if op_getEntry ops targetId s = None then (Inl (entry_not_found NotFound targetId), s)
     else append_body ops now (LabelEntry targetId label) s)"

text \<open>\<open>name.replace(/[\\r\\n]+/g, " ").trim()\<close>: each run of line breaks becomes one space.\<close>

definition is_line_break :: "char \<Rightarrow> bool" where
  "is_line_break c = (of_char c \<in> {10, 13 :: nat})"

fun collapse_breaks :: "bool \<Rightarrow> string \<Rightarrow> string" where
  "collapse_breaks inside [] = []"
| "collapse_breaks inside (c # cs) =
     (if is_line_break c then (if inside then collapse_breaks True cs else CHR '' '' # collapse_breaks True cs)
      else c # collapse_breaks False cs)"

definition appendSessionName :: "'s storage_ops \<Rightarrow> string \<Rightarrow> string \<Rightarrow> ('s, string) sop" where
  "appendSessionName ops now name = append_body ops now (SessionInfo (Some (trim (collapse_breaks False name))))"

record move_summary =
  mv_summary :: string
  mv_details :: "json option"
  mv_fromHook :: "bool option"

definition moveTo ::
  "'s storage_ops \<Rightarrow> string \<Rightarrow> string option \<Rightarrow> move_summary option \<Rightarrow> ('s, string option) sop" where
  "moveTo ops now entryId summary = (\<lambda>s.
     case (case entryId of None \<Rightarrow> None
           | Some i \<Rightarrow> if op_getEntry ops i s = None then Some (entry_not_found NotFound i) else None) of
       Some e \<Rightarrow> (Inl e, s)
     | None \<Rightarrow>
         sbind (op_setLeafId ops now entryId) (\<lambda>_.
           case summary of
             None \<Rightarrow> sret None
           | Some m \<Rightarrow>
               sbind (op_createEntryId ops) (\<lambda>i.
               sbind (appendTypedEntry ops \<lparr>en_id = i, en_parentId = entryId, en_timestamp = now,
                        en_body = BranchSummaryEntry \<lparr>bse_fromId = nullish entryId ''root'', bse_summary = mv_summary m,
                          bse_details = mv_details m, bse_fromHook = mv_fromHook m\<rparr>\<rparr>)
               (\<lambda>j. sret (Some j)))) s)"

datatype fork_position = ForkBefore | ForkAt

text \<open>An empty or absent entry id forks everything.\<close>

definition getEntriesToFork ::
  "'s storage_ops \<Rightarrow> string option \<Rightarrow> fork_position option \<Rightarrow> 's \<Rightarrow> (session_error + session_entry list) option" where
  "getEntriesToFork ops entryId position s =
     (if \<not> truthy_str entryId then Some (Inr (op_getEntries ops s))
      else let i = nullish entryId [] in
        (case op_getEntry ops i s of
           None \<Rightarrow> Some (Inl (entry_not_found InvalidForkTarget i))
         | Some target \<Rightarrow>
             if nullish position ForkBefore = ForkAt then op_getPathToRoot ops (Some (en_id target)) s
             else (case en_body target of
                     MessageEntry (User u) \<Rightarrow> op_getPathToRoot ops (en_parentId target) s
                   | _ \<Rightarrow> Some (Inl (session_error InvalidForkTarget
                              (''Entry '' @ i @ '' is not a user message''))))))"

section \<open>The contract of a storage\<close>

definition fresh_id :: "session_state \<Rightarrow> string \<Rightarrow> bool" where
  "fresh_id st i \<longleftrightarrow> i \<noteq> [] \<and> \<not> om_has (ss_byId st) i"

definition short_ids :: "session_state \<Rightarrow> bool" where
  "short_ids st \<longleftrightarrow> (\<forall>x. om_has (ss_byId st) x \<longrightarrow> length x = 8)"

definition branch :: "session_state \<Rightarrow> session_entry list" where
  "branch st = path_of st (ss_leafId st)"

lemma path_of_None [simp]: "path_of st None = []"
  by (simp add: path_of_def getPathToRoot_def)

lemma merge_no_options [simp]: "mergeContextBuildOptions no_options no_options = no_options"
  by (simp add: mergeContextBuildOptions_def no_options_def)

locale session_storage =
  fixes ops :: "'s storage_ops" and view :: "'s \<Rightarrow> session_state"
  assumes leaf: "op_getLeafId ops s = (leaf_or_error (view s), s)"
    and create: "op_createEntryId ops s = (q, s') \<Longrightarrow> view s' = view s \<and>
      (\<exists>i. q = Inr i \<and> (short_ids (view s) \<longrightarrow> fresh_id (view s) i))"
    and append: "op_appendEntry ops e s = (r, s') \<Longrightarrow>
      (if r = Inr () then view s' = push_entry e (view s) else view s' = view s)"
    and set_leaf: "op_setLeafId ops now l s = (r, s') \<Longrightarrow>
      (if r = Inr () then target_error (view s) l = None \<and>
         (\<exists>i. view s' = push_leaf i now l (view s) \<and> (short_ids (view s) \<longrightarrow> fresh_id (view s) i))
       else view s' = view s)"
    and get_entry: "op_getEntry ops i s = om_get (ss_byId (view s)) i"
    and path: "op_getPathToRoot ops l s = getPathToRoot (view s) l"
    and all_entries: "op_getEntries ops s = ss_entries (view s)"
    and all_of_type: "op_findEntries ops t s = find_entries t (view s)"
    and get_label: "op_getLabel ops i s = om_get (ss_labelsById (view s)) i"
begin

lemma create_view: "op_createEntryId ops s = (r, s') \<Longrightarrow> view s' = view s"
  using create by blast

lemma create_ok: "op_createEntryId ops s = (r, s') \<Longrightarrow> \<exists>i. r = Inr i \<and> (short_ids (view s) \<longrightarrow> fresh_id (view s) i)"
  using create by blast

text \<open>An append that succeeds pushes one entry under the leaf; one that fails changes nothing.\<close>

lemma append_body_result:
  assumes "append_body ops now body s = (r, s')"
  shows "case r of
      Inr i \<Rightarrow> leaf_or_error (view s) = Inr (ss_leafId (view s)) \<and> (short_ids (view s) \<longrightarrow> fresh_id (view s) i) \<and>
        view s' = push_entry \<lparr>en_id = i, en_parentId = ss_leafId (view s), en_timestamp = now, en_body = body\<rparr> (view s)
    | Inl e \<Rightarrow> view s' = view s"
proof -
  obtain r1 s1 where c: "op_createEntryId ops s = (r1, s1)" by (cases "op_createEntryId ops s")
  from create_ok [OF c] obtain i where i: "r1 = Inr i" "short_ids (view s) \<longrightarrow> fresh_id (view s) i" by blast
  have v1: "view s1 = view s" using create_view [OF c] .
  show ?thesis
  proof (cases "leaf_or_error (view s1)")
    case (Inl e)
    with assms c i v1 show ?thesis by (auto simp: append_body_def sop_simps leaf)
  next
    case (Inr l)
    then have l: "l = ss_leafId (view s)" using v1 by (auto simp: leaf_or_error_def split: option.splits if_splits)
    let ?e = "\<lparr>en_id = i, en_parentId = l, en_timestamp = now, en_body = body\<rparr>"
    obtain r2 s2 where a: "op_appendEntry ops ?e s1 = (r2, s2)" by (cases "op_appendEntry ops ?e s1")
    have run: "(r, s') = (case r2 of Inl e \<Rightarrow> Inl e | Inr _ \<Rightarrow> Inr i, s2)"
      using assms c i Inr a by (auto simp: append_body_def appendTypedEntry_def sop_simps leaf split: sum.splits)
    show ?thesis
    proof (cases r2)
      case (Inl e)
      with run append [OF a] v1 show ?thesis by simp
    next
      case (Inr u)
      with run append [OF a] v1 i l \<open>leaf_or_error (view s1) = Inr l\<close> show ?thesis by simp
    qed
  qed
qed

lemma append_body_view:
  "append_body ops now body s = (Inr i, s') \<Longrightarrow>
     view s' = push_entry \<lparr>en_id = i, en_parentId = ss_leafId (view s), en_timestamp = now, en_body = body\<rparr> (view s) \<and>
     (short_ids (view s) \<longrightarrow> fresh_id (view s) i)"
  using append_body_result by fastforce

lemma append_body_error: "append_body ops now body s = (Inl e, s') \<Longrightarrow> view s' = view s"
  using append_body_result by fastforce

lemma append_body_inv:
  assumes "append_body ops now body s = (Inr i, s')" "session_inv (view s)" "short_ids (view s)"
    "\<And>t. body \<noteq> LeafEntry t"
  shows "session_inv (view s')" and "ss_leafId (view s') = Some i"
    and "branch (view s') = branch (view s) @
      [\<lparr>en_id = i, en_parentId = ss_leafId (view s), en_timestamp = now, en_body = body\<rparr>]"
proof -
  let ?e = "\<lparr>en_id = i, en_parentId = ss_leafId (view s), en_timestamp = now, en_body = body\<rparr>"
  from append_body_view [OF assms(1)] assms(3) have v: "view s' = push_entry ?e (view s)" and f: "fresh_id (view s) i"
    by auto
  have leaf_in: "ss_leafId (view s) = Some l \<Longrightarrow> l \<in> ids_of (ss_entries (view s))" for l
    using assms(2) by (auto simp: session_inv_def)
  have la: "leafIdAfterEntry ?e = Some i" using assms(4) by (cases body) (auto simp: leafIdAfterEntry_def)
  show inv: "session_inv (view s')"
    unfolding v using assms(2) f leaf_in la
    by (intro session_inv_push) (auto simp: fresh_id_def parent_in_def split: option.splits)
  show "ss_leafId (view s') = Some i" using v la by simp
  show "branch (view s') = branch (view s) @ [?e]"
  proof (cases "ss_leafId (view s)")
    case None
    then show ?thesis using path_of_push_root [of ?e "view s"] inv la by (simp add: v branch_def)
  next
    case (Some l)
    then show ?thesis using path_of_push_new [of "view s" ?e l] inv la assms(2) leaf_in [OF Some]
      by (simp add: v branch_def)
  qed
qed

lemma getBranch_inv:
  "session_inv (view s) \<Longrightarrow> getBranch ops None s = Some (Inr (branch (view s)))"
proof -
  assume inv: "session_inv (view s)"
  then show ?thesis
    by (cases "ss_leafId (view s)")
       (auto simp: getBranch_def leaf session_inv_leaf path branch_def getPathToRoot_def
          session_inv_def [THEN iffD1, THEN conjunct2, THEN conjunct2, rule_format]
          intro: getPathToRoot_inv(1) [unfolded getPathToRoot_def option.case])
qed

lemma set_leaf_inv:
  assumes "op_setLeafId ops now l s = (Inr (), s')" "session_inv (view s)" "short_ids (view s)"
  shows "session_inv (view s')" and "branch (view s') = path_of (view s) l"
    and "ss_leafId (view s') = l" and "om_has (ss_byId (view s)) i \<Longrightarrow> om_has (ss_byId (view s')) i"
proof -
  from set_leaf [OF assms(1)] assms(3) obtain j where
    t: "target_error (view s) l = None" and v: "view s' = push_entry (leaf_entry j now l (view s)) (view s)"
    and f: "fresh_id (view s) j"
    by (auto simp: push_leaf_entry)
  have l_in: "l = Some k \<Longrightarrow> k \<in> ids_of (ss_entries (view s))" for k
    using t session_inv_has [OF assms(2)] by (auto simp: target_error_def split: if_splits)
  have leaf_in: "ss_leafId (view s) = Some k \<Longrightarrow> k \<in> ids_of (ss_entries (view s))" for k
    using assms(2) by (auto simp: session_inv_def)
  show inv: "session_inv (view s')"
    unfolding v using assms(2) f l_in leaf_in
    by (intro session_inv_push)
       (auto simp: fresh_id_def leaf_entry_def parent_in_def leafIdAfterEntry_def split: option.splits)
  show "ss_leafId (view s') = l" by (simp add: v leaf_entry_def leafIdAfterEntry_def)
  show "branch (view s') = path_of (view s) l"
    using path_of_push_old [OF assms(2) inv [unfolded v]] l_in
    by (cases l) (simp_all add: branch_def v, simp_all add: leaf_entry_def leafIdAfterEntry_def)
  show "om_has (ss_byId (view s)) i \<Longrightarrow> om_has (ss_byId (view s')) i"
    by (simp add: v push_entry_def om_has_def)
qed

text \<open>Moving: the new branch is the path to the target, with the summary of the old one when given.\<close>

lemma moveTo_inv:
  assumes run: "moveTo ops now entryId summary s = (Inr r, s')" and inv: "session_inv (view s)" and
    short: "short_ids (view s)" and none: "summary = None"
  shows "session_inv (view s')" and "branch (view s') = path_of (view s) entryId" and "r = None"
  using run set_leaf_inv(1,2) [OF _ inv short] none
  by (auto simp: moveTo_def sop_simps split: option.splits if_splits prod.splits sum.splits)

lemma moveTo_error:
  assumes "moveTo ops now (Some i) summary s = (Inl e, s')" "op_getEntry ops i s = None"
  shows "s' = s" and "se_code e = NotFound"
  using assms by (auto simp: moveTo_def entry_not_found_def session_error_def)

lemma moveTo_unknown:
  "op_getEntry ops i s = None \<Longrightarrow> moveTo ops now (Some i) summary s = (Inl (entry_not_found NotFound i), s)"
  by (simp add: moveTo_def)

lemma moveTo_summary:
  assumes run: "moveTo ops now entryId (Some m) s = (Inr r, s')" and inv: "session_inv (view s)" and
    short: "short_ids (view s)"
  shows "\<exists>s1 j. op_setLeafId ops now entryId s = (Inr (), s1) \<and> r = Some j \<and>
    view s' = push_entry \<lparr>en_id = j, en_parentId = entryId, en_timestamp = now,
      en_body = BranchSummaryEntry \<lparr>bse_fromId = nullish entryId ''root'', bse_summary = mv_summary m,
        bse_details = mv_details m, bse_fromHook = mv_fromHook m\<rparr>\<rparr> (view s1)
    \<and> (short_ids (view s1) \<longrightarrow> fresh_id (view s1) j)"
proof -
  obtain r1 s1 where sl: "op_setLeafId ops now entryId s = (r1, s1)" by (cases "op_setLeafId ops now entryId s")
  with run have r1: "r1 = Inr ()"
    by (cases r1) (auto simp: moveTo_def sop_simps split: option.splits if_splits)
  obtain r2 s2 where c: "op_createEntryId ops s1 = (r2, s2)" by (cases "op_createEntryId ops s1")
  from create_ok [OF c] obtain j where j: "r2 = Inr j" "short_ids (view s1) \<longrightarrow> fresh_id (view s1) j" by blast
  let ?e = "\<lparr>en_id = j, en_parentId = entryId, en_timestamp = now,
      en_body = BranchSummaryEntry \<lparr>bse_fromId = nullish entryId ''root'', bse_summary = mv_summary m,
        bse_details = mv_details m, bse_fromHook = mv_fromHook m\<rparr>\<rparr>"
  obtain r3 s3 where a: "op_appendEntry ops ?e s2 = (r3, s3)" by (cases "op_appendEntry ops ?e s2")
  with run sl r1 c j have r3: "r3 = Inr ()" "s' = s3" "r = Some j"
    by (cases r3; auto simp: moveTo_def appendTypedEntry_def sop_simps split: option.splits if_splits)+
  with append [OF a] create_view [OF c] sl r1 j show ?thesis by auto
qed

lemma moveTo_summary_branch:
  assumes run: "moveTo ops now entryId (Some m) s = (Inr r, s')" and inv: "session_inv (view s)" and
    short: "short_ids (view s)" and short': "short_ids (view (snd (op_setLeafId ops now entryId s)))"
  shows "session_inv (view s') \<and> (\<exists>j. r = Some j \<and> ss_leafId (view s') = Some j \<and>
    branch (view s') = path_of (view s) entryId @ [\<lparr>en_id = j, en_parentId = entryId, en_timestamp = now,
      en_body = BranchSummaryEntry \<lparr>bse_fromId = nullish entryId ''root'', bse_summary = mv_summary m,
        bse_details = mv_details m, bse_fromHook = mv_fromHook m\<rparr>\<rparr>])"
proof -
  from moveTo_summary [OF run inv short] obtain s1 j where
    sl: "op_setLeafId ops now entryId s = (Inr (), s1)" and r: "r = Some j" and
    v: "view s' = push_entry \<lparr>en_id = j, en_parentId = entryId, en_timestamp = now,
      en_body = BranchSummaryEntry \<lparr>bse_fromId = nullish entryId ''root'', bse_summary = mv_summary m,
        bse_details = mv_details m, bse_fromHook = mv_fromHook m\<rparr>\<rparr> (view s1)" (is "_ = push_entry ?e _")
    and f: "short_ids (view s1) \<longrightarrow> fresh_id (view s1) j" by blast
  note s1 = set_leaf_inv [OF sl inv short]
  have f': "fresh_id (view s1) j" using f short' sl by simp
  have la: "leafIdAfterEntry ?e = Some j" by (simp add: leafIdAfterEntry_def)
  have leaf_in: "entryId = Some l \<Longrightarrow> l \<in> ids_of (ss_entries (view s1))" for l
    using s1(1,3) by (auto simp: session_inv_def)
  have inv': "session_inv (view s')"
    unfolding v using s1(1) f' leaf_in la
    by (intro session_inv_push) (auto simp: fresh_id_def parent_in_def split: option.splits)
  have "branch (view s') = branch (view s1) @ [?e]"
  proof (cases entryId)
    case None
    then show ?thesis using path_of_push_root [of ?e "view s1"] inv' la s1(3) by (simp add: v branch_def)
  next
    case (Some l)
    then show ?thesis using path_of_push_new [of "view s1" ?e l] inv' la s1(1,3) leaf_in [OF Some]
      by (simp add: v branch_def)
  qed
  with inv' r s1(2) la show ?thesis by (simp add: v)
qed

text \<open>The context of the model after an append.\<close>

lemma buildContext_inv:
  "session_inv (view s) \<Longrightarrow>
     session_buildContext ops no_options no_options s = Some (Inr (buildSessionContext (branch (view s)) no_options))"
  by (simp add: session_buildContext_def getBranch_inv merge_no_options)

lemma fork_at_user:
  assumes "session_inv (view s)" "om_get (ss_byId (view s)) i = Some e" "i \<noteq> []"
    "en_body e = MessageEntry (User u)"
  shows "getEntriesToFork ops (Some i) None s = getPathToRoot (view s) (en_parentId e)"
  using assms by (simp add: getEntriesToFork_def truthy_str_def get_entry path)

end

section \<open>The in-memory storage meets the contract\<close>

lemma mem_new_id_fresh:
  "mem_new_id s = (i, s') \<Longrightarrow> mem_state s' = mem_state s \<and> (short_ids (mem_state s) \<longrightarrow> fresh_id (mem_state s) i)"
  using generateEntryId_fresh
  by (fastforce simp: mem_new_id_def short_ids_def fresh_id_def split: prod.splits)

interpretation memory: session_storage memory_ops mem_state
  by unfold_locales
     (auto simp: memory_ops_def mem_setLeafId_def split: prod.splits option.splits dest!: mem_new_id_fresh)

end
