(* ===== verification/Json.thy ===== *)
theory Json
  imports Messages
begin

text \<open>
  \<open>JSON.stringify\<close> and \<open>JSON.parse\<close> on the values of the model (integers for numbers, code units
  below 256), as the session files use them: parsing gives back what was written, and what is
  written is one line.
\<close>

section \<open>Writing\<close>

definition code_of :: "char \<Rightarrow> nat" where "code_of c = of_char c"

definition dquote :: char where "dquote = CHR 0x22"
definition bslash :: char where "bslash = CHR 0x5C"

definition hex_char :: "nat \<Rightarrow> char" where
  "hex_char n = char_of (if n < 10 then 48 + n else 87 + n)"

text \<open>The escapes with a letter of their own: backspace, tab, line feed, form feed, carriage return.\<close>

definition escape_char :: "char \<Rightarrow> string" where
  "escape_char c =
     (if c = dquote then [bslash, dquote] else if c = bslash then [bslash, bslash]
      else if code_of c = 8 then [bslash, CHR ''b''] else if code_of c = 9 then [bslash, CHR ''t'']
      else if code_of c = 10 then [bslash, CHR ''n''] else if code_of c = 12 then [bslash, CHR ''f'']
      else if code_of c = 13 then [bslash, CHR ''r'']
      else if code_of c < 32 then [bslash, CHR ''u'', CHR ''0'', CHR ''0'', hex_char (code_of c div 16), hex_char (code_of c mod 16)]
      else [c])"

definition quote_string :: "string \<Rightarrow> string" where
  "quote_string s = dquote # concat (map escape_char s) @ [dquote]"

fun commas :: "string list \<Rightarrow> string" where
  "commas [] = []"
| "commas [x] = x"
| "commas (x # y # xs) = x @ '','' @ commas (y # xs)"

fun stringify :: "json \<Rightarrow> string" where
  "stringify JNull = ''null''"
| "stringify (JBool b) = (if b then ''true'' else ''false'')"
| "stringify (JNum n) = show_int n"
| "stringify (JStr s) = quote_string s"
| "stringify (JArr vs) = ''['' @ commas (map stringify vs) @ '']''"
| "stringify (JObj fs) = ''{'' @ commas (map (\<lambda>(k, v). quote_string k @ '':'' @ stringify v) fs) @ ''}''"

section \<open>Reading a value\<close>

text \<open>The property \<open>k\<close> of a value: only objects have any.\<close>

definition field_of :: "string \<Rightarrow> json \<Rightarrow> json option" where
  "field_of k v = (case v of JObj fs \<Rightarrow> map_of fs k | _ \<Rightarrow> None)"

definition is_string :: "json option \<Rightarrow> bool" where
  "is_string v = (case v of Some (JStr _) \<Rightarrow> True | _ \<Rightarrow> False)"

section \<open>Parsing\<close>

definition json_space :: "char \<Rightarrow> bool" where
  "json_space c = (code_of c \<in> {9, 10, 13, 32})"

definition skip_ws :: "string \<Rightarrow> string" where
  "skip_ws s = dropWhile json_space s"

definition hex_value :: "char \<Rightarrow> nat option" where
  "hex_value c =
     (if 48 \<le> code_of c \<and> code_of c \<le> 57 then Some (code_of c - 48)
      else if 97 \<le> code_of c \<and> code_of c \<le> 102 then Some (code_of c - 87)
      else if 65 \<le> code_of c \<and> code_of c \<le> 70 then Some (code_of c - 55) else None)"

definition unescape :: "char \<Rightarrow> char option" where
  "unescape d =
     (if d = dquote then Some dquote else if d = bslash then Some bslash else if d = CHR ''/'' then Some (CHR ''/'')
      else if d = CHR ''b'' then Some (char_of (8 :: nat)) else if d = CHR ''t'' then Some (char_of (9 :: nat))
      else if d = CHR ''n'' then Some (char_of (10 :: nat)) else if d = CHR ''f'' then Some (char_of (12 :: nat))
      else if d = CHR ''r'' then Some (char_of (13 :: nat)) else None)"

definition hex4 :: "char \<Rightarrow> char \<Rightarrow> char \<Rightarrow> char \<Rightarrow> char option" where
  "hex4 a b c d =
     (case (hex_value a, hex_value b, hex_value c, hex_value d) of
        (Some w, Some x, Some y, Some z) \<Rightarrow>
          let n = ((w * 16 + x) * 16 + y) * 16 + z in if n < 256 then Some (char_of n) else None
      | _ \<Rightarrow> None)"

definition add_char :: "char \<Rightarrow> (string \<times> string) option \<Rightarrow> (string \<times> string) option" where
  "add_char c r = map_option (\<lambda>(s, rest). (c # s, rest)) r"

text \<open>After the opening quote: the text and what follows the closing quote.\<close>

fun parse_chars :: "string \<Rightarrow> (string \<times> string) option" where
  "parse_chars [] = None"
| "parse_chars (c # cs) =
     (if c = dquote then Some ([], cs)
      else if c = bslash then
        (case cs of
           [] \<Rightarrow> None
         | d # r \<Rightarrow>
             if d = CHR ''u''
             then (case r of
                     h1 # h2 # h3 # h4 # r' \<Rightarrow>
                       (case hex4 h1 h2 h3 h4 of None \<Rightarrow> None | Some ch \<Rightarrow> add_char ch (parse_chars r'))
                   | _ \<Rightarrow> None)
             else (case unescape d of None \<Rightarrow> None | Some ch \<Rightarrow> add_char ch (parse_chars r)))
      else if code_of c < 32 then None
      else add_char c (parse_chars cs))"

definition digit_c :: "char \<Rightarrow> bool" where "digit_c c = (digit_value c \<noteq> None)"

definition parse_nat :: "string \<Rightarrow> (nat \<times> string) option" where
  "parse_nat s = map_option (\<lambda>n. (n, dropWhile digit_c s)) (read_nat (takeWhile digit_c s))"

text \<open>What follows the character \<open>c\<close>, when the text starts with it.\<close>

definition after :: "char \<Rightarrow> string \<Rightarrow> string option" where
  "after c s = (case s of [] \<Rightarrow> None | d # r \<Rightarrow> if d = c then Some r else None)"

lemma after_simps [simp]: "after c [] = None" "after c (d # r) = (if d = c then Some r else None)"
  by (simp_all add: after_def)

definition parse_number :: "string \<Rightarrow> (json \<times> string) option" where
  "parse_number s =
     (case after (CHR ''-'') s of
        Some r \<Rightarrow> map_option (\<lambda>(n, r'). (JNum (- int n), r')) (parse_nat r)
      | None \<Rightarrow> map_option (\<lambda>(n, r'). (JNum (int n), r')) (parse_nat s))"

definition strip :: "string \<Rightarrow> string \<Rightarrow> string option" where
  "strip w s = (if take (length w) s = w then Some (drop (length w) s) else None)"

definition parse_word :: "string \<Rightarrow> (json \<times> string) option" where
  "parse_word s =
     (case strip ''null'' s of Some r \<Rightarrow> Some (JNull, r)
      | None \<Rightarrow> (case strip ''true'' s of Some r \<Rightarrow> Some (JBool True, r)
        | None \<Rightarrow> map_option (\<lambda>r. (JBool False, r)) (strip ''false'' s)))"

text \<open>
  Recursive descent; the fuel bounds the nesting and the number of elements and is the length of the
  text. A repeated key keeps its first place and its last value.
\<close>

fun parse_value :: "nat \<Rightarrow> string \<Rightarrow> (json \<times> string) option"
and parse_elems :: "nat \<Rightarrow> json list \<Rightarrow> string \<Rightarrow> (json \<times> string) option"
and parse_members :: "nat \<Rightarrow> (string \<times> json) list \<Rightarrow> string \<Rightarrow> (json \<times> string) option" where
  "parse_value 0 s = None"
| "parse_value (Suc n) s =
     (case skip_ws s of
        [] \<Rightarrow> None
      | c # cs \<Rightarrow>
          if c = CHR ''{'' then
            (case after (CHR ''}'') (skip_ws cs) of
               Some r \<Rightarrow> Some (JObj [], r)
             | None \<Rightarrow> parse_members n [] (skip_ws cs))
          else if c = CHR ''['' then
            (case after (CHR '']'') (skip_ws cs) of
               Some r \<Rightarrow> Some (JArr [], r)
             | None \<Rightarrow> parse_elems n [] (skip_ws cs))
          else if c = dquote then map_option (\<lambda>(s, r). (JStr s, r)) (parse_chars cs)
          else if c = CHR ''-'' \<or> digit_c c then parse_number (c # cs)
          else parse_word (c # cs))"
| "parse_elems 0 vs s = None"
| "parse_elems (Suc n) vs s =
     (case parse_value n s of
        None \<Rightarrow> None
      | Some (v, r) \<Rightarrow>
          (case after (CHR '','') (skip_ws r) of
             Some r' \<Rightarrow> parse_elems n (vs @ [v]) r'
           | None \<Rightarrow> map_option (\<lambda>r'. (JArr (vs @ [v]), r')) (after (CHR '']'') (skip_ws r))))"
| "parse_members 0 fs s = None"
| "parse_members (Suc n) fs s =
     (case Option.bind (after dquote (skip_ws s)) parse_chars of
        None \<Rightarrow> None
      | Some (k, r) \<Rightarrow>
          (case Option.bind (after (CHR '':'') (skip_ws r)) (parse_value n) of
             None \<Rightarrow> None
           | Some (v, r2) \<Rightarrow>
               (case after (CHR '','') (skip_ws r2) of
                  Some r3 \<Rightarrow> parse_members n (om_set fs k v) r3
                | None \<Rightarrow> map_option (\<lambda>r3. (JObj (om_set fs k v), r3)) (after (CHR ''}'') (skip_ws r2)))))"

definition json_parse :: "string \<Rightarrow> json option" where
  "json_parse s =
     (case parse_value (Suc (length s)) s of
        Some (v, r) \<Rightarrow> if skip_ws r = [] then Some v else None
      | None \<Rightarrow> None)"

section \<open>Parsing gives back what was written\<close>

lemma code_inj: "code_of c = code_of d \<longleftrightarrow> c = d"
  by (simp add: code_of_def)

lemma code_char_of [simp]: "code_of (char_of n) = n mod 256"
  by (simp add: code_of_def)

lemma hex_value_hex_char: "n < 16 \<Longrightarrow> hex_value (hex_char n) = Some n"
  by (auto simp: hex_value_def hex_char_def)

lemma hex_value_zero: "hex_value (CHR ''0'') = Some 0"
  by (simp add: hex_value_def code_of_def)

lemma char_of_code [simp]: "char_of (code_of c) = c"
  by (simp add: code_of_def)

lemma bslash_not_dquote [simp]: "bslash \<noteq> dquote" "dquote \<noteq> bslash"
  by (simp_all add: bslash_def dquote_def)

lemma code_special: "code_of dquote = 34" "code_of bslash = 92"
  by (simp_all add: dquote_def bslash_def code_of_def)

lemma eq_by_code: "code_of c = n \<Longrightarrow> n < 256 \<Longrightarrow> c = char_of n"
  using char_of_code [of c] by simp

lemma unescape_letters:
  "unescape dquote = Some dquote" "unescape bslash = Some bslash"
  "unescape (CHR ''b'') = Some (char_of (8 :: nat))" "unescape (CHR ''t'') = Some (char_of (9 :: nat))"
  "unescape (CHR ''n'') = Some (char_of (10 :: nat))" "unescape (CHR ''f'') = Some (char_of (12 :: nat))"
  "unescape (CHR ''r'') = Some (char_of (13 :: nat))"
  by (simp_all add: unescape_def dquote_def bslash_def)

lemma special_not_u [simp]: "dquote \<noteq> CHR ''u''" "bslash \<noteq> CHR ''u''"
  by (simp_all add: dquote_def bslash_def)

lemma parse_chars_escaped:
  "d \<noteq> CHR ''u'' \<Longrightarrow> unescape d = Some c \<Longrightarrow> parse_chars (bslash # d # rest) = add_char c (parse_chars rest)"
  by simp

lemma parse_chars_escape: "parse_chars (escape_char c @ rest) = add_char c (parse_chars rest)"
proof -
  consider "c = dquote" | "c = bslash" | "code_of c \<in> {8, 9, 10, 12, 13}"
    | "c \<noteq> dquote" "c \<noteq> bslash" "code_of c \<notin> {8, 9, 10, 12, 13}" "code_of c < 32"
    | "c \<noteq> dquote" "c \<noteq> bslash" "\<not> code_of c < 32" by blast
  then show ?thesis
  proof cases
    case 3
    then have "c \<noteq> dquote" "c \<noteq> bslash" by (auto simp: code_special)
    with 3 show ?thesis
      by (auto simp: escape_char_def parse_chars_escaped unescape_letters simp del: parse_chars.simps
          dest!: eq_by_code)
  next
    case 4
    have "code_of c div 16 < 16" "code_of c mod 16 < 16" using 4(4) by auto
    then have "hex4 (CHR ''0'') (CHR ''0'') (hex_char (code_of c div 16)) (hex_char (code_of c mod 16)) = Some c"
      using 4(4) by (simp add: hex4_def hex_value_hex_char hex_value_zero Let_def)
    with 4 show ?thesis by (auto simp: escape_char_def)
  next
    case 5
    then show ?thesis by (auto simp: escape_char_def)
  qed (simp_all add: escape_char_def parse_chars_escaped unescape_letters del: parse_chars.simps)
qed

lemma parse_chars_quoted: "parse_chars (concat (map escape_char s) @ dquote # rest) = Some (s, rest)"
proof (induction s)
  case (Cons c cs)
  have "parse_chars (concat (map escape_char (c # cs)) @ dquote # rest) =
      add_char c (parse_chars (concat (map escape_char cs) @ dquote # rest))"
    using parse_chars_escape by simp
  with Cons show ?case by (simp add: add_char_def)
qed simp

text \<open>Numbers end where no digit follows.\<close>

definition ends :: "string \<Rightarrow> bool" where
  "ends rest \<longleftrightarrow> (case rest of [] \<Rightarrow> True | c # _ \<Rightarrow> \<not> digit_c c)"

lemma digits_show_nat: "\<forall>c \<in> set (show_nat n). digit_c c"
proof (induction n rule: show_nat.induct)
  case (1 n)
  then show ?case by (subst show_nat.simps) (auto simp: digit_c_def digit_value_digit_char)
qed

lemma take_drop_digits:
  "\<forall>c \<in> set s. digit_c c \<Longrightarrow> ends rest \<Longrightarrow> takeWhile digit_c (s @ rest) = s \<and> dropWhile digit_c (s @ rest) = rest"
  by (induction s) (auto simp: ends_def split: list.splits)

lemma parse_nat_show: "ends rest \<Longrightarrow> parse_nat (show_nat n @ rest) = Some (n, rest)"
  using take_drop_digits [OF digits_show_nat] by (simp add: parse_nat_def read_show_nat)

lemma show_nat_hd: "\<exists>c cs. show_nat n = c # cs \<and> digit_c c"
  using digits_show_nat [of n] by (cases "show_nat n") auto

lemma minus_not_digit [simp]: "\<not> digit_c (CHR ''-'')"
  by (simp add: digit_c_def digit_value_def)

lemma parse_number_nat: "ends rest \<Longrightarrow> parse_number (show_nat n @ rest) = Some (JNum (int n), rest)"
proof -
  assume r: "ends rest"
  obtain c cs where c: "show_nat n = c # cs" "digit_c c" using show_nat_hd by blast
  then have "c \<noteq> CHR ''-''" using minus_not_digit by auto
  then have "parse_number ((c # cs) @ rest) = map_option (\<lambda>(n, r'). (JNum (int n), r')) (parse_nat ((c # cs) @ rest))"
    by (simp add: parse_number_def split: list.splits char.splits bool.splits)
  with parse_nat_show [OF r, of n] c show ?thesis by simp
qed

lemma parse_number_show: "ends rest \<Longrightarrow> parse_number (show_int i @ rest) = Some (JNum i, rest)"
  using parse_nat_show [of rest "nat (- i)"] parse_number_nat [of rest "nat i"]
  by (auto simp: show_int_def parse_number_def)

fun json_wf :: "json \<Rightarrow> bool" where
  "json_wf (JArr vs) = list_all json_wf vs"
| "json_wf (JObj fs) = (distinct (map fst fs) \<and> list_all (\<lambda>(k, v). json_wf v) fs)"
| "json_wf _ = True"

definition starts_value :: "string \<Rightarrow> bool" where
  "starts_value s \<longleftrightarrow> (\<exists>c cs. s = c # cs \<and> \<not> json_space c \<and> c \<noteq> CHR '']'' \<and> c \<noteq> CHR ''}'')"

lemma digit_starts: "digit_c c \<Longrightarrow> \<not> json_space c \<and> c \<noteq> CHR '']'' \<and> c \<noteq> CHR ''}'' \<and> c \<noteq> CHR ''{'' \<and> c \<noteq> CHR ''['' \<and> c \<noteq> dquote"
  by (auto simp: digit_c_def digit_value_def json_space_def code_of_def dquote_def split: if_splits)

lemma starts_value_stringify: "starts_value (stringify v @ rest)"
proof (cases v)
  case (JNum n)
  obtain c cs where "show_nat (nat n) = c # cs" "digit_c c" using show_nat_hd by blast
  with digit_starts [of c] JNum show ?thesis
    by (auto simp: starts_value_def show_int_def json_space_def code_of_def)
next
  case (JStr s)
  then show ?thesis by (simp add: starts_value_def quote_string_def json_space_def code_special) (simp add: dquote_def)
qed (auto simp: starts_value_def json_space_def code_of_def)

lemma skip_ws_starts: "starts_value s \<Longrightarrow> skip_ws s = s"
  by (auto simp: starts_value_def skip_ws_def)

lemma skip_ws_nonspace: "\<not> json_space c \<Longrightarrow> skip_ws (c # cs) = c # cs"
  by (simp add: skip_ws_def)

lemma punctuation [simp]:
  "\<not> json_space (CHR '','')" "\<not> json_space (CHR '':'')" "\<not> json_space (CHR '']'')" "\<not> json_space (CHR ''}'')"
  "\<not> json_space dquote" "\<not> json_space (CHR ''{'')" "\<not> json_space (CHR ''['')"
  by (simp_all add: json_space_def code_of_def dquote_def)

lemma punctuation_ends [simp]: "ends (CHR '','' # r)" "ends (CHR '']'' # r)" "ends (CHR ''}'' # r)" "ends []"
  by (simp_all add: ends_def digit_c_def digit_value_def)

lemma starts_not_close:
  "starts_value s \<Longrightarrow> after (CHR '']'') s = None" "starts_value s \<Longrightarrow> after (CHR ''}'') s = None"
  by (auto simp: starts_value_def after_def split: list.splits)

definition parses :: "json \<Rightarrow> bool" where
  "parses v \<longleftrightarrow> (\<forall>n rest. length (stringify v) \<le> n \<longrightarrow> ends rest \<longrightarrow>
     parse_value (Suc n) (stringify v @ rest) = Some (v, rest))"

lemma commas_Cons: "commas (x # xs) = x @ (if xs = [] then [] else CHR '','' # commas xs)"
  by (cases xs) auto

lemma parse_elems_commas:
  assumes "\<forall>v \<in> set vs. parses v" "vs \<noteq> []" "length (commas (map stringify vs)) + 2 \<le> n"
  shows "parse_elems n acc (commas (map stringify vs) @ CHR '']'' # rest) = Some (JArr (acc @ vs), rest)"
  using assms
proof (induction vs arbitrary: n acc)
  case (Cons v vs)
  from Cons.prems(3) obtain m where n: "n = Suc (Suc m)" "length (stringify v) \<le> m"
    by (cases n; cases "n - 1") (auto simp: commas_Cons split: if_splits)
  have pv: "parse_value (Suc m) (stringify v @ rs) = Some (v, rs)" if "ends rs" for rs
    using Cons.prems(1) n(2) that by (auto simp: parses_def)
  show ?case
  proof (cases "vs = []")
    case True
    with pv n show ?thesis by (simp add: commas_Cons skip_ws_nonspace)
  next
    case False
    have le: "length (commas (map stringify vs)) + 2 \<le> Suc m"
      using Cons.prems(3) n False by (simp add: commas_Cons)
    show ?thesis
      using pv [of "CHR '','' # commas (map stringify vs) @ CHR '']'' # rest"] n False
        Cons.IH [OF _ False le, of "acc @ [v]"] Cons.prems(1)
      by (simp add: commas_Cons skip_ws_nonspace)
  qed
qed simp

lemma om_set_new: "k \<notin> fst ` set fs \<Longrightarrow> om_set fs k v = fs @ [(k, v)]"
  by (induction fs k v rule: om_set.induct) auto

lemma parse_members_commas:
  assumes "\<forall>(k, v) \<in> set fs. parses v" "fs \<noteq> []" "distinct (map fst (acc @ fs))"
    "length (commas (map (\<lambda>(k, v). quote_string k @ '':'' @ stringify v) fs)) + 2 \<le> n"
  shows "parse_members n acc (commas (map (\<lambda>(k, v). quote_string k @ '':'' @ stringify v) fs) @ CHR ''}'' # rest)
    = Some (JObj (acc @ fs), rest)"
  using assms
proof (induction fs arbitrary: n acc)
  case (Cons f fs)
  obtain k v where f: "f = (k, v)" by (cases f)
  from Cons.prems(4) obtain m where n: "n = Suc (Suc m)" "length (stringify v) \<le> m"
    by (cases n; cases "n - 1") (auto simp: commas_Cons f split: if_splits)
  have pv: "parse_value (Suc m) (stringify v @ rs) = Some (v, rs)" if "ends rs" for rs
    using Cons.prems(1) n(2) that f by (auto simp: parses_def)
  have new: "om_set acc k v = acc @ [(k, v)]"
    using Cons.prems(3) by (intro om_set_new) (auto simp: f)
  show ?case
  proof (cases "fs = []")
    case True
    with pv n f new show ?thesis
      by (simp add: commas_Cons skip_ws_nonspace quote_string_def parse_chars_quoted)
  next
    case False
    let ?r = "commas (map (\<lambda>(k, v). quote_string k @ '':'' @ stringify v) fs)"
    have le: "length ?r + 2 \<le> Suc m"
      using Cons.prems(4) n False by (simp add: commas_Cons f)
    have d: "distinct (map fst ((acc @ [(k, v)]) @ fs))" using Cons.prems(3) f by simp
    have rest: "parse_members (Suc m) (acc @ [(k, v)]) (?r @ CHR ''}'' # rest) = Some (JObj ((acc @ [(k, v)]) @ fs), rest)"
      using Cons.IH [OF _ False d le] Cons.prems(1) by auto
    show ?thesis
      using pv [of "CHR '','' # ?r @ CHR ''}'' # rest"] n False rest f new
      by (simp add: commas_Cons skip_ws_nonspace quote_string_def parse_chars_quoted del: parse_members.simps(2))
         (simp add: skip_ws_nonspace parse_chars_quoted)
  qed
qed simp

lemma parse_word_words:
  "parse_word (''null'' @ rest) = Some (JNull, rest)" "parse_word (''true'' @ rest) = Some (JBool True, rest)"
  "parse_word (''false'' @ rest) = Some (JBool False, rest)"
  by (simp_all add: parse_word_def strip_def)

lemma letters_plain:
  "\<not> digit_c (CHR ''n'')" "\<not> digit_c (CHR ''t'')" "\<not> digit_c (CHR ''f'')"
  "CHR ''n'' \<noteq> dquote" "CHR ''t'' \<noteq> dquote" "CHR ''f'' \<noteq> dquote" "CHR ''-'' \<noteq> dquote"
  "\<not> json_space (CHR ''n'')" "\<not> json_space (CHR ''t'')" "\<not> json_space (CHR ''f'')" "\<not> json_space (CHR ''-'')"
  "CHR ''{'' \<noteq> dquote" "CHR ''['' \<noteq> dquote"
  by (simp_all add: digit_c_def digit_value_def dquote_def json_space_def code_of_def)

lemma starts_value_quote: "starts_value (quote_string k @ r)"
  by (simp add: starts_value_def quote_string_def) (simp add: dquote_def)

lemma parses_num: "parses (JNum i)"
  unfolding parses_def
proof (intro allI impI)
  fix n rest assume r: "ends rest"
  obtain c cs where c: "show_int i = c # cs" "c = CHR ''-'' \<or> digit_c c"
  proof (cases "i < 0")
    case True
    then show ?thesis by (intro that [of "CHR ''-''" "show_nat (nat (- i))"]) (simp_all add: show_int_def)
  next
    case False
    from show_nat_hd [of "nat i"] obtain c cs where "show_nat (nat i) = c # cs" "digit_c c" by blast
    with False show ?thesis by (intro that [of c cs]) (simp_all add: show_int_def)
  qed
  have ne: "c \<noteq> CHR ''{''" "c \<noteq> CHR ''[''" "c \<noteq> dquote" "\<not> json_space c"
    using c(2) digit_starts [of c] letters_plain by auto
  then have ws: "skip_ws (c # cs @ rest) = c # cs @ rest" by (simp add: skip_ws_nonspace)
  from parse_number_show [OF r, of i] c ne ws
  show "parse_value (Suc n) (stringify (JNum i) @ rest) = Some (JNum i, rest)" by simp
qed

lemma parses_str: "parses (JStr s)"
  using letters_plain(12,13) by (auto simp: parses_def quote_string_def skip_ws_nonspace parse_chars_quoted)

lemma parses_null: "parses JNull"
  using parse_word_words(1) letters_plain by (simp add: parses_def skip_ws_nonspace)

lemma parses_bool: "parses (JBool b)"
  using parse_word_words(2,3) letters_plain by (cases b) (simp_all add: parses_def skip_ws_nonspace)

lemma parses_arr:
  assumes "\<forall>v \<in> set vs. parses v"
  shows "parses (JArr vs)"
  unfolding parses_def
proof (intro allI impI)
  fix n rest assume n: "length (stringify (JArr vs)) \<le> n"
  show "parse_value (Suc n) (stringify (JArr vs) @ rest) = Some (JArr vs, rest)"
  proof (cases vs)
    case Nil
    then show ?thesis by (simp add: skip_ws_nonspace)
  next
    case (Cons v ws)
    let ?body = "commas (map stringify vs) @ CHR '']'' # rest"
    have st: "starts_value ?body"
      using starts_value_stringify [of v] by (cases ws) (simp_all add: Cons)
    have "parse_elems n [] ?body = Some (JArr vs, rest)"
      using parse_elems_commas [OF assms, of n "[]" rest] n Cons by simp
    then show ?thesis
      using starts_not_close(1) [OF st]
      by (simp add: skip_ws_nonspace skip_ws_starts [OF st])
  qed
qed

lemma parses_obj:
  assumes "\<forall>(k, v) \<in> set fs. parses v" "distinct (map fst fs)"
  shows "parses (JObj fs)"
  unfolding parses_def
proof (intro allI impI)
  fix n rest assume n: "length (stringify (JObj fs)) \<le> n"
  show "parse_value (Suc n) (stringify (JObj fs) @ rest) = Some (JObj fs, rest)"
  proof (cases fs)
    case Nil
    then show ?thesis by (simp add: skip_ws_nonspace)
  next
    case (Cons f gs)
    let ?body = "commas (map (\<lambda>(k, v). quote_string k @ '':'' @ stringify v) fs) @ CHR ''}'' # rest"
    have st: "starts_value ?body"
      using starts_value_quote by (cases f; cases gs) (simp_all add: Cons)
    have "parse_members n [] ?body = Some (JObj fs, rest)"
      using parse_members_commas [OF assms(1), of "[]" n rest] n Cons assms(2) by simp
    then show ?thesis
      using starts_not_close(2) [OF st] skip_ws_starts [OF st]
      by (simp add: skip_ws_nonspace)
  qed
qed

lemma parses_all: "json_wf v \<Longrightarrow> parses v"
proof (induction v)
  case (JArr vs)
  then show ?case by (intro parses_arr) (auto simp: list_all_iff)
next
  case (JObj fs)
  then show ?case by (intro parses_obj) (fastforce simp: list_all_iff)+
qed (simp_all add: parses_null parses_bool parses_num parses_str)

lemma json_roundtrip:
  assumes "json_wf v"
  shows "json_parse (stringify v) = Some v"
proof -
  have "parse_value (Suc (length (stringify v))) (stringify v @ []) = Some (v, [])"
    using parses_all [OF assms, unfolded parses_def] punctuation_ends(4) order_refl by blast
  then show ?thesis by (simp add: json_parse_def skip_ws_def del: parse_value.simps)
qed

section \<open>One line\<close>

definition is_newline :: "char \<Rightarrow> bool" where "is_newline c = (code_of c = 10)"

lemma punct_no_newline:
  "\<not> is_newline (CHR '','')" "\<not> is_newline (CHR '':'')" "\<not> is_newline (CHR '']'')" "\<not> is_newline (CHR ''}'')"
  "\<not> is_newline (CHR ''['')" "\<not> is_newline (CHR ''{'')"
  by (simp_all add: is_newline_def code_of_def)

lemma letter_no_newline:
  "\<not> is_newline (CHR ''n'')" "\<not> is_newline (CHR ''u'')" "\<not> is_newline (CHR ''l'')" "\<not> is_newline (CHR ''t'')"
  "\<not> is_newline (CHR ''r'')" "\<not> is_newline (CHR ''e'')" "\<not> is_newline (CHR ''f'')" "\<not> is_newline (CHR ''a'')"
  "\<not> is_newline (CHR ''s'')" "\<not> is_newline (CHR ''-'')"
  by (simp_all add: is_newline_def code_of_def)

lemma hex_char_no_newline: "n < 16 \<Longrightarrow> code_of (hex_char n) \<noteq> 10"
  by (auto simp: hex_char_def)

lemma letters_code: "code_of (CHR ''b'') = 98" "code_of (CHR ''t'') = 116" "code_of (CHR ''n'') = 110"
  "code_of (CHR ''f'') = 102" "code_of (CHR ''r'') = 114" "code_of (CHR ''u'') = 117" "code_of (CHR ''0'') = 48"
  by (simp_all add: code_of_def)

lemma escape_no_newline: "\<not> list_ex is_newline (escape_char c)"
  using hex_char_no_newline [of "code_of c div 16"] hex_char_no_newline [of "code_of c mod 16"]
  by (simp add: escape_char_def is_newline_def code_special letters_code)

lemma no_newline_concat: "\<forall>x \<in> set xs. \<not> list_ex is_newline x \<Longrightarrow> \<not> list_ex is_newline (concat xs)"
  by (induction xs) auto

lemma quote_no_newline: "\<not> list_ex is_newline (quote_string s)"
  using no_newline_concat [of "map escape_char s"] escape_no_newline
  by (auto simp: quote_string_def is_newline_def code_special)

lemma commas_no_newline: "\<forall>x \<in> set xs. \<not> list_ex is_newline x \<Longrightarrow> \<not> list_ex is_newline (commas xs)"
  by (induction xs rule: commas.induct) (auto simp: is_newline_def code_of_def)

lemma show_nat_no_newline: "\<not> list_ex is_newline (show_nat n)"
  using digits_show_nat [of n] by (auto simp: list_ex_iff is_newline_def digit_c_def digit_value_def code_of_def split: if_splits)

lemma stringify_one_line: "\<not> list_ex is_newline (stringify v)"
proof (induction v)
  case (JArr vs)
  have "\<not> list_ex is_newline (commas (map stringify vs))"
    using JArr by (intro commas_no_newline) auto
  then show ?case by (simp add: punct_no_newline)
next
  case (JObj fs)
  have "\<forall>x \<in> set (map (\<lambda>(k, v). quote_string k @ '':'' @ stringify v) fs). \<not> list_ex is_newline x"
    using JObj quote_no_newline by (fastforce simp: punct_no_newline)
  from commas_no_newline [OF this] show ?case by (simp add: punct_no_newline)
qed (simp_all add: letter_no_newline show_int_def show_nat_no_newline quote_no_newline)

end
