(* ===== verification/Session_Codec.thy ===== *)
theory Session_Codec
  imports Session Json
begin

text \<open>
  The lines of a session file: how a header and an entry are written (\<open>JSON.stringify\<close> of the objects
  of \<open>harness/types.ts\<close>, fields that are undefined left out) and how \<open>jsonl-storage.ts\<close> validates and
  reads them (\<open>parseHeaderLine\<close>, \<open>parseEntryLine\<close>). Messages hold fractions (costs), which the integer
  JSON of the model cannot express, so their encoding is a parameter.
\<close>

section \<open>Fields\<close>

record message_codec =
  mc_write :: "agent_message \<Rightarrow> json"
  mc_read :: "json \<Rightarrow> agent_message option"

definition opt_field :: "string \<Rightarrow> ('a \<Rightarrow> json) \<Rightarrow> 'a option \<Rightarrow> (string \<times> json) list" where
  "opt_field k f x = (case x of None \<Rightarrow> [] | Some v \<Rightarrow> [(k, f v)])"

definition or_null :: "string option \<Rightarrow> json" where
  "or_null x = (case x of None \<Rightarrow> JNull | Some s \<Rightarrow> JStr s)"

definition media_json :: "media \<Rightarrow> json" where
  "media_json m =
     (case m of
        TextContent t sig \<Rightarrow> JObj ([(''type'', JStr ''text''), (''text'', JStr t)] @ opt_field ''textSignature'' JStr sig)
      | ImageContent d mt \<Rightarrow> JObj [(''type'', JStr ''image''), (''data'', JStr d), (''mimeType'', JStr mt)])"

definition content_json :: "user_content \<Rightarrow> json" where
  "content_json c = (case c of PlainText s \<Rightarrow> JStr s | Parts ps \<Rightarrow> JArr (map media_json ps))"

definition body_fields :: "message_codec \<Rightarrow> entry_body \<Rightarrow> (string \<times> json) list" where
  "body_fields mc b =
     (case b of
        MessageEntry m \<Rightarrow> [(''message'', mc_write mc m)]
      | ThinkingLevelChange l \<Rightarrow> [(''thinkingLevel'', JStr l)]
      | ModelChange p m \<Rightarrow> [(''provider'', JStr p), (''modelId'', JStr m)]
      | ActiveToolsChange ns \<Rightarrow> [(''activeToolNames'', JArr (map JStr ns))]
      | CompactionEntry c \<Rightarrow> [(''summary'', JStr (ce_summary c)), (''firstKeptEntryId'', JStr (ce_firstKeptEntryId c)),
          (''tokensBefore'', JNum (ce_tokensBefore c))] @ opt_field ''details'' id (ce_details c)
          @ opt_field ''fromHook'' JBool (ce_fromHook c)
      | BranchSummaryEntry c \<Rightarrow> [(''fromId'', JStr (bse_fromId c)), (''summary'', JStr (bse_summary c))]
          @ opt_field ''details'' id (bse_details c) @ opt_field ''fromHook'' JBool (bse_fromHook c)
      | CustomEntry t d \<Rightarrow> (''customType'', JStr t) # opt_field ''data'' id d
      | CustomMessageEntry c \<Rightarrow> [(''customType'', JStr (cme_customType c)), (''content'', content_json (cme_content c)),
          (''display'', JBool (cme_display c))] @ opt_field ''details'' id (cme_details c)
      | LabelEntry t l \<Rightarrow> (''targetId'', JStr t) # opt_field ''label'' JStr l
      | SessionInfo n \<Rightarrow> opt_field ''name'' JStr n
      | LeafEntry t \<Rightarrow> [(''targetId'', or_null t)]
      | OtherEntry t fs \<Rightarrow> fs)"

definition entry_json :: "message_codec \<Rightarrow> session_entry \<Rightarrow> json" where
  "entry_json mc e =
     JObj ([(''type'', JStr (entry_type (en_body e))), (''id'', JStr (en_id e)), (''parentId'', or_null (en_parentId e)),
            (''timestamp'', JStr (en_timestamp e))] @ body_fields mc (en_body e))"

section \<open>Reading\<close>

definition as_str :: "json option \<Rightarrow> string option" where
  "as_str j = (case j of Some (JStr s) \<Rightarrow> Some s | _ \<Rightarrow> None)"

definition as_int :: "json option \<Rightarrow> int option" where
  "as_int j = (case j of Some (JNum n) \<Rightarrow> Some n | _ \<Rightarrow> None)"

definition as_bool :: "json option \<Rightarrow> bool option" where
  "as_bool j = (case j of Some (JBool b) \<Rightarrow> Some b | _ \<Rightarrow> None)"

definition as_str_list :: "json option \<Rightarrow> string list option" where
  "as_str_list j = (case j of Some (JArr vs) \<Rightarrow> those (map (\<lambda>v. as_str (Some v)) vs) | _ \<Rightarrow> None)"

definition read_media :: "json \<Rightarrow> media option" where
  "read_media j =
     (case j of
        JObj fs \<Rightarrow>
          if as_str (map_of fs ''type'') = Some ''text''
          then map_option (\<lambda>t. TextContent t (as_str (map_of fs ''textSignature''))) (as_str (map_of fs ''text''))
          else if as_str (map_of fs ''type'') = Some ''image''
          then (case (as_str (map_of fs ''data''), as_str (map_of fs ''mimeType'')) of
                  (Some d, Some m) \<Rightarrow> Some (ImageContent d m) | _ \<Rightarrow> None)
          else None
      | _ \<Rightarrow> None)"

definition read_content :: "json option \<Rightarrow> user_content option" where
  "read_content j =
     (case j of
        Some (JStr s) \<Rightarrow> Some (PlainText s)
      | Some (JArr vs) \<Rightarrow> map_option Parts (those (map read_media vs))
      | _ \<Rightarrow> None)"

text \<open>The typed view of an entry by its type; \<open>None\<close> when the fields do not fit the type.\<close>

definition read_body :: "message_codec \<Rightarrow> string \<Rightarrow> (string \<times> json) list \<Rightarrow> entry_body option" where
  "read_body mc t fs =
     (if t = ''message'' then map_option MessageEntry (Option.bind (map_of fs ''message'') (mc_read mc))
      else if t = ''thinking_level_change'' then map_option ThinkingLevelChange (as_str (map_of fs ''thinkingLevel''))
      else if t = ''model_change'' then
        (case (as_str (map_of fs ''provider''), as_str (map_of fs ''modelId'')) of
           (Some p, Some m) \<Rightarrow> Some (ModelChange p m) | _ \<Rightarrow> None)
      else if t = ''active_tools_change'' then map_option ActiveToolsChange (as_str_list (map_of fs ''activeToolNames''))
      else if t = ''compaction'' then
        (case (as_str (map_of fs ''summary''), as_str (map_of fs ''firstKeptEntryId''), as_int (map_of fs ''tokensBefore'')) of
           (Some s, Some k, Some n) \<Rightarrow> Some (CompactionEntry \<lparr>ce_summary = s, ce_firstKeptEntryId = k, ce_tokensBefore = n,
              ce_details = map_of fs ''details'', ce_fromHook = as_bool (map_of fs ''fromHook'')\<rparr>) | _ \<Rightarrow> None)
      else if t = ''branch_summary'' then
        (case (as_str (map_of fs ''fromId''), as_str (map_of fs ''summary'')) of
           (Some f, Some s) \<Rightarrow> Some (BranchSummaryEntry \<lparr>bse_fromId = f, bse_summary = s,
              bse_details = map_of fs ''details'', bse_fromHook = as_bool (map_of fs ''fromHook'')\<rparr>) | _ \<Rightarrow> None)
      else if t = ''custom'' then
        map_option (\<lambda>ct. CustomEntry ct (map_of fs ''data'')) (as_str (map_of fs ''customType''))
      else if t = ''custom_message'' then
        (case (as_str (map_of fs ''customType''), read_content (map_of fs ''content''), as_bool (map_of fs ''display'')) of
           (Some ct, Some c, Some d) \<Rightarrow> Some (CustomMessageEntry \<lparr>cme_customType = ct, cme_content = c,
              cme_details = map_of fs ''details'', cme_display = d\<rparr>) | _ \<Rightarrow> None)
      else if t = ''label'' then
        map_option (\<lambda>i. LabelEntry i (as_str (map_of fs ''label''))) (as_str (map_of fs ''targetId''))
      else if t = ''session_info'' then Some (SessionInfo (as_str (map_of fs ''name'')))
      else if t = ''leaf'' then Some (LeafEntry (as_str (map_of fs ''targetId'')))
      else None)"

definition other_fields :: "(string \<times> json) list \<Rightarrow> (string \<times> json) list" where
  "other_fields fs = filter (\<lambda>p. fst p \<notin> {''type'', ''id'', ''parentId'', ''timestamp''}) fs"

definition invalid_entry :: "string \<Rightarrow> nat \<Rightarrow> string \<Rightarrow> session_error" where
  "invalid_entry filePath lineNumber message = session_error InvalidEntry
     (''Invalid JSONL session file '' @ filePath @ '': line '' @ show_nat lineNumber @ '' '' @ message)"

definition invalid_session :: "string \<Rightarrow> string \<Rightarrow> session_error" where
  "invalid_session filePath message = session_error InvalidSession
     (''Invalid JSONL session file '' @ filePath @ '': '' @ message)"

text \<open>An array passes the object test of the source and then misses its type.\<close>

definition parseEntryLine :: "message_codec \<Rightarrow> string \<Rightarrow> string \<Rightarrow> nat \<Rightarrow> session_error + session_entry" where
  "parseEntryLine mc line filePath n =
     (case json_parse line of
        None \<Rightarrow> Inl (invalid_entry filePath n ''is not valid JSON'')
      | Some (JObj fs) \<Rightarrow>
          (case as_str (map_of fs ''type'') of
             None \<Rightarrow> Inl (invalid_entry filePath n ''is missing entry type'')
           | Some t \<Rightarrow>
               if \<not> truthy_str (as_str (map_of fs ''id'')) then Inl (invalid_entry filePath n ''is missing entry id'')
               else if map_of fs ''parentId'' \<noteq> Some JNull \<and> as_str (map_of fs ''parentId'') = None
               then Inl (invalid_entry filePath n ''has invalid parentId'')
               else if \<not> truthy_str (as_str (map_of fs ''timestamp''))
               then Inl (invalid_entry filePath n ''is missing timestamp'')
               else if t = ''leaf'' \<and> map_of fs ''targetId'' \<noteq> Some JNull \<and> as_str (map_of fs ''targetId'') = None
               then Inl (invalid_entry filePath n ''has invalid targetId'')
               else Inr \<lparr>en_id = nullish (as_str (map_of fs ''id'')) [], en_parentId = as_str (map_of fs ''parentId''),
                         en_timestamp = nullish (as_str (map_of fs ''timestamp'')) [],
                         en_body = nullish (read_body mc t fs) (OtherEntry t (other_fields fs))\<rparr>)
      | Some (JArr _) \<Rightarrow> Inl (invalid_entry filePath n ''is missing entry type'')
      | Some _ \<Rightarrow> Inl (invalid_entry filePath n ''is not a valid session entry''))"

record session_header =
  sh_id :: string
  sh_timestamp :: string
  sh_cwd :: string
  sh_parentSession :: "string option"
  sh_metadata :: "(string \<times> json) list option"

definition header_json :: "session_header \<Rightarrow> json" where
  "header_json h =
     JObj ([(''type'', JStr ''session''), (''version'', JNum 3), (''id'', JStr (sh_id h)),
            (''timestamp'', JStr (sh_timestamp h)), (''cwd'', JStr (sh_cwd h))]
           @ opt_field ''parentSession'' JStr (sh_parentSession h) @ opt_field ''metadata'' JObj (sh_metadata h))"

definition parseHeaderLine :: "string \<Rightarrow> string \<Rightarrow> session_error + session_header" where
  "parseHeaderLine line filePath =
     (let bad = (\<lambda>m. Inl (invalid_session filePath m)); no_header = ''first line is not a valid session header'' in
      case json_parse line of
        Some (JObj fs) \<Rightarrow>
          if as_str (map_of fs ''type'') \<noteq> Some ''session'' then bad no_header
          else if map_of fs ''version'' \<noteq> Some (JNum 3) then bad ''unsupported session version''
          else if \<not> truthy_str (as_str (map_of fs ''id'')) then bad ''session header is missing id''
          else if \<not> truthy_str (as_str (map_of fs ''timestamp'')) then bad ''session header is missing timestamp''
          else if \<not> truthy_str (as_str (map_of fs ''cwd'')) then bad ''session header is missing cwd''
          else if map_of fs ''parentSession'' \<noteq> None \<and> as_str (map_of fs ''parentSession'') = None
          then bad ''session header parentSession must be a string''
          else (case map_of fs ''metadata'' of
                  None \<Rightarrow> Inr \<lparr>sh_id = nullish (as_str (map_of fs ''id'')) [], sh_timestamp = nullish (as_str (map_of fs ''timestamp'')) [],
                     sh_cwd = nullish (as_str (map_of fs ''cwd'')) [], sh_parentSession = as_str (map_of fs ''parentSession''),
                     sh_metadata = None\<rparr>
                | Some (JObj m) \<Rightarrow> Inr \<lparr>sh_id = nullish (as_str (map_of fs ''id'')) [], sh_timestamp = nullish (as_str (map_of fs ''timestamp'')) [],
                     sh_cwd = nullish (as_str (map_of fs ''cwd'')) [], sh_parentSession = as_str (map_of fs ''parentSession''),
                     sh_metadata = Some m\<rparr>
                | Some _ \<Rightarrow> bad ''session header metadata must be an object'')
      | _ \<Rightarrow> bad no_header)"

section \<open>Reading gives back what was written\<close>

lemma map_of_opt_field:
  "k \<noteq> k' \<Longrightarrow> map_of (opt_field k f x) k' = None"
  "map_of (opt_field k f x @ rest) k' = (if k = k' then (case x of Some v \<Rightarrow> Some (f v) | None \<Rightarrow> map_of rest k') else map_of rest k')"
  "map_of (opt_field k f x) k' = (if k = k' then map_option f x else None)"
  by (auto simp: opt_field_def split: option.splits)

lemma as_simps [simp]:
  "as_str (Some (JStr s)) = Some s" "as_str None = None" "as_str (Some JNull) = None"
  "as_int (Some (JNum n)) = Some n" "as_bool (Some (JBool b)) = Some b" "as_bool None = None"
  by (simp_all add: as_str_def as_int_def as_bool_def)

lemma as_map_option [simp]:
  "as_str (map_option JStr x) = x" "as_bool (map_option JBool y) = y"
  "as_str (Some (or_null x)) = x"
  by (auto simp: or_null_def as_str_def as_bool_def split: option.splits)

lemma those_map: "\<forall>x \<in> set xs. f x = Some (g x) \<Longrightarrow> those (map f xs) = Some (map g xs)"
  by (induction xs) auto

lemma as_str_list_roundtrip [simp]: "as_str_list (Some (JArr (map JStr ns))) = Some ns"
  using those_map [of ns "\<lambda>n. as_str (Some (JStr n))" id] by (simp add: as_str_list_def comp_def)

lemma read_media_roundtrip [simp]: "read_media (media_json m) = Some m"
  by (cases m) (simp_all add: media_json_def read_media_def map_of_opt_field)

lemma read_content_roundtrip [simp]: "read_content (Some (content_json c)) = Some c"
  using those_map [of _ "\<lambda>m. read_media (media_json m)" id]
  by (cases c) (simp_all add: content_json_def read_content_def comp_def)

definition codec_ok :: "message_codec \<Rightarrow> entry_body \<Rightarrow> bool" where
  "codec_ok mc b \<longleftrightarrow> (case b of
     MessageEntry m \<Rightarrow> mc_read mc (mc_write mc m) = Some m \<and> json_wf (mc_write mc m)
   | OtherEntry t fs \<Rightarrow> False
   | CompactionEntry c \<Rightarrow> (\<forall>d. ce_details c = Some d \<longrightarrow> json_wf d)
   | BranchSummaryEntry c \<Rightarrow> (\<forall>d. bse_details c = Some d \<longrightarrow> json_wf d)
   | CustomEntry t d \<Rightarrow> (\<forall>j. d = Some j \<longrightarrow> json_wf j)
   | CustomMessageEntry c \<Rightarrow> (\<forall>d. cme_details c = Some d \<longrightarrow> json_wf d)
   | _ \<Rightarrow> True)"

lemma option_id: "(case x of None \<Rightarrow> None | Some v \<Rightarrow> Some v) = x"
  by (cases x) auto

lemma case_opt_as [simp]:
  "as_str (case x of None \<Rightarrow> None | Some v \<Rightarrow> Some (JStr v)) = x"
  "as_bool (case y of None \<Rightarrow> None | Some v \<Rightarrow> Some (JBool v)) = y"
  by (auto split: option.splits)

lemma option_default_none: "(case x of None \<Rightarrow> None | Some v \<Rightarrow> Some (id v)) = x"
  by (cases x) auto

lemma read_body_roundtrip:
  assumes "codec_ok mc b"
  shows "read_body mc (entry_type b)
    ([(''type'', JStr t), (''id'', JStr i), (''parentId'', or_null p), (''timestamp'', JStr ts)] @ body_fields mc b) = Some b"
  using assms
  by (cases b)
     (simp_all add: read_body_def body_fields_def map_of_opt_field codec_ok_def option_id option.map_id
        option_default_none del: map_of_append cong: option.case_cong)

text \<open>The object of an entry is well-formed and its base fields pass the checks.\<close>

lemma keys_opt_field: "map fst (opt_field k f x) = (if x = None then [] else [k])"
  by (simp add: opt_field_def split: option.splits)

lemma wf_opt_field: "list_all (\<lambda>(k, v). json_wf v) (opt_field k f x) \<longleftrightarrow> (\<forall>v. x = Some v \<longrightarrow> json_wf (f v))"
  by (simp add: opt_field_def split: option.splits)

lemma wf_or_null [simp]: "json_wf (or_null x)"
  by (simp add: or_null_def split: option.splits)

lemma wf_media [simp]: "json_wf (media_json m)"
  by (cases m) (simp_all add: media_json_def keys_opt_field wf_opt_field)

lemma wf_content [simp]: "json_wf (content_json c)"
  by (cases c) (simp_all add: content_json_def list_all_iff)

lemma wf_entry_json: "codec_ok mc (en_body e) \<Longrightarrow> json_wf (entry_json mc e)"
  by (cases "en_body e")
     (simp_all add: entry_json_def body_fields_def codec_ok_def keys_opt_field wf_opt_field, simp add: list_all_iff)

lemma parseEntryLine_roundtrip:
  assumes "codec_ok mc (en_body e)" "en_id e \<noteq> []" "en_timestamp e \<noteq> []"
  shows "parseEntryLine mc (stringify (entry_json mc e)) filePath n = Inr e"
proof -
  have "json_parse (stringify (entry_json mc e)) = Some (entry_json mc e)"
    by (rule json_roundtrip [OF wf_entry_json [OF assms(1)]])
  moreover have "\<not> (map_of (body_fields mc (en_body e)) ''targetId'' \<noteq> Some JNull \<and>
      as_str (map_of (body_fields mc (en_body e)) ''targetId'') = None)" if "entry_type (en_body e) = ''leaf''"
    using that assms(1) by (cases "en_body e") (auto simp: body_fields_def codec_ok_def or_null_def split: option.splits)
  ultimately show ?thesis
    using read_body_roundtrip [OF assms(1), of "entry_type (en_body e)" "en_id e" "en_parentId e" "en_timestamp e"] assms(2,3)
    by (auto simp: parseEntryLine_def entry_json_def truthy_str_def or_null_def split: option.splits)
qed

lemma wf_header_json: "(\<forall>m. sh_metadata h = Some m \<longrightarrow> json_wf (JObj m)) \<Longrightarrow> json_wf (header_json h)"
  by (simp add: header_json_def keys_opt_field wf_opt_field)

lemma parseHeaderLine_roundtrip:
  assumes "\<forall>m. sh_metadata h = Some m \<longrightarrow> json_wf (JObj m)" "sh_id h \<noteq> []" "sh_timestamp h \<noteq> []" "sh_cwd h \<noteq> []"
  shows "parseHeaderLine (stringify (header_json h)) filePath = Inr h"
  using json_roundtrip [OF wf_header_json [OF assms(1)]] assms(2-4)
  by (cases h) (auto simp: parseHeaderLine_def header_json_def map_of_opt_field truthy_str_def Let_def
      simp del: map_of_append split: option.splits)

end
