(* ===== verification/Lines.thy ===== *)
theory Lines
  imports Json
begin

text \<open>
  Text in lines: \<open>split\<close> and \<open>indexOf\<close> at line feeds, and readers that are fed chunks of text, handle the
  complete lines and keep the rest. Three parts of the program read this way: the session manager, the
  process of an instance and the streams of the orchestrator.
\<close>

section \<open>Splitting\<close>

text \<open>\<open>content.split("\\n")\<close>.\<close>

fun split_lines :: "string \<Rightarrow> string list" where
  "split_lines [] = [[]]"
| "split_lines (c # cs) =
     (if is_newline c then [] # split_lines cs
      else (case split_lines cs of [] \<Rightarrow> [[c]] | l # ls \<Rightarrow> (c # l) # ls))"

text \<open>\<open>buffer.indexOf("\\n", lineStart)\<close>.\<close>

fun newline_index :: "string \<Rightarrow> nat option" where
  "newline_index [] = None"
| "newline_index (c # cs) = (if is_newline c then Some 0 else map_option Suc (newline_index cs))"

lemma newline_index_le: "newline_index s = Some i \<Longrightarrow> i < length s"
  by (induction s arbitrary: i) (auto split: if_splits)

lemma split_lines_ne [simp]: "split_lines s \<noteq> []"
  by (induction s) (auto split: list.split)

lemma newline_index_Some: "newline_index s = Some i \<Longrightarrow> split_lines s = take i s # split_lines (drop (Suc i) s)"
  by (induction s arbitrary: i) (auto split: if_splits list.split)

lemma newline_index_None: "newline_index s = None \<longleftrightarrow> split_lines s = [s]"
proof
  show "newline_index s = None \<Longrightarrow> split_lines s = [s]"
    by (induction s) (auto split: if_splits)
  show "split_lines s = [s] \<Longrightarrow> newline_index s = None"
    using newline_index_Some by (cases "newline_index s") force+
qed

lemma newline_index_ex: "newline_index s = None \<longleftrightarrow> \<not> list_ex is_newline s"
  by (induction s) auto

lemma split_lines_append:
  "split_lines (s @ t) = butlast (split_lines s) @ split_lines (last (split_lines s) @ t)"
proof (induction s)
  case (Cons c s)
  obtain l ls where ls: "split_lines s = l # ls" by (cases "split_lines s") (auto simp: neq_Nil_conv)
  show ?case
  proof (cases "is_newline c")
    case True
    with Cons show ?thesis by simp
  next
    case False
    show ?thesis
    proof (cases "ls = []")
      case True
      with False Cons ls show ?thesis by simp
    next
      case ne: False
      with False Cons ls show ?thesis by simp
    qed
  qed
qed simp

lemma split_lines_last: "split_lines (last (split_lines s)) = [last (split_lines s)]"
  by (induction s) (auto split: list.split)

lemma split_lines_line:
  "\<not> list_ex is_newline l \<Longrightarrow> split_lines (l @ newline @ rest) = l # split_lines rest"
proof (induction l)
  case Nil
  then show ?case by (simp add: newline_def is_newline_def)
next
  case (Cons c cs)
  then show ?case by (auto split: list.splits)
qed


section \<open>Readers of chunks\<close>

text \<open>
  A reader keeps the text after the last line feed and a state that each complete line changes.
\<close>

locale line_reader =
  fixes feed :: "string \<Rightarrow> string \<times> 'a \<Rightarrow> string \<times> 'a"
    and handle :: "string \<Rightarrow> 'a \<Rightarrow> 'a"
  assumes feed_lines: "feed chunk (buffer, a) =
    (last (split_lines (buffer @ chunk)), fold handle (butlast (split_lines (buffer @ chunk))) a)"
begin

lemma feed_all:
  "split_lines buffer = [buffer] \<Longrightarrow> fold feed chunks (buffer, a) =
    (last (split_lines (buffer @ concat chunks)), fold handle (butlast (split_lines (buffer @ concat chunks))) a)"
proof (induction chunks arbitrary: buffer a)
  case (Cons c cs)
  let ?s = "buffer @ c"
  have split: "split_lines (?s @ concat cs) = butlast (split_lines ?s) @ split_lines (last (split_lines ?s) @ concat cs)"
    by (rule split_lines_append)
  have "fold feed (c # cs) (buffer, a) = fold feed cs (last (split_lines ?s), fold handle (butlast (split_lines ?s)) a)"
    by (simp add: feed_lines)
  also have "\<dots> = (last (split_lines (last (split_lines ?s) @ concat cs)),
      fold handle (butlast (split_lines (last (split_lines ?s) @ concat cs))) (fold handle (butlast (split_lines ?s)) a))"
    by (rule Cons.IH [OF split_lines_last])
  finally show ?case using split by (simp add: butlast_append)
qed simp

text \<open>What a reader makes of a text does not depend on how it is cut into chunks.\<close>

lemma chunks_do_not_matter:
  assumes "concat chunks = concat chunks'"
  shows "fold feed chunks ([], a) = fold feed chunks' ([], a)"
  using feed_all [of "[]" chunks a] feed_all [of "[]" chunks' a] assms by simp

end

end
