(* ===== verification/Session_Jsonl.thy ===== *)
theory Session_Jsonl
  imports Session_Codec Lines
begin

text \<open>
  The file storage of sessions (\<open>jsonl-storage.ts\<close>, \<open>getFileSystemResultOrThrow\<close> of
  \<open>repo-utils.ts\<close>) on a disk whose every operation may fail without effect. It is the second instance
  of \<open>session_storage\<close>; the file is shown to hold at any time exactly the entries in memory, so that
  reopening gives the same session.
\<close>

section \<open>The disk\<close>

datatype file_error_code = FileNotFound | FileOther

record file_error =
  fe_code :: file_error_code
  fe_message :: string

text \<open>The files, which operations will fail, and how many there were.\<close>

record disk =
  dk_files :: "(string, string) omap"
  dk_fails :: "nat \<Rightarrow> bool"
  dk_ops :: nat

type_synonym 'a fs_result = "file_error + 'a"

definition io_error :: file_error where
  "io_error = \<lparr>fe_code = FileOther, fe_message = ''input/output error''\<rparr>"

definition disk_op :: "(disk \<Rightarrow> 'a fs_result \<times> disk) \<Rightarrow> disk \<Rightarrow> 'a fs_result \<times> disk" where
  "disk_op f d = (let d' = d\<lparr>dk_ops := Suc (dk_ops d)\<rparr> in if dk_fails d (dk_ops d) then (Inl io_error, d') else f d')"

definition readTextFile :: "string \<Rightarrow> disk \<Rightarrow> string fs_result \<times> disk" where
  "readTextFile path = disk_op (\<lambda>d. case om_get (dk_files d) path of
     None \<Rightarrow> (Inl \<lparr>fe_code = FileNotFound, fe_message = ''no such file''\<rparr>, d) | Some c \<Rightarrow> (Inr c, d))"

definition writeFile :: "string \<Rightarrow> string \<Rightarrow> disk \<Rightarrow> unit fs_result \<times> disk" where
  "writeFile path content = disk_op (\<lambda>d. (Inr (), d\<lparr>dk_files := om_set (dk_files d) path content\<rparr>))"

definition appendFile :: "string \<Rightarrow> string \<Rightarrow> disk \<Rightarrow> unit fs_result \<times> disk" where
  "appendFile path content = disk_op (\<lambda>d.
     (Inr (), d\<lparr>dk_files := om_set (dk_files d) path (nullish (om_get (dk_files d) path) [] @ content)\<rparr>))"

definition getFileSystemResultOrThrow :: "'a fs_result \<Rightarrow> string \<Rightarrow> session_error + 'a" where
  "getFileSystemResultOrThrow r message =
     (case r of
        Inr v \<Rightarrow> Inr v
      | Inl e \<Rightarrow> Inl (session_error (if fe_code e = FileNotFound then NotFound else StorageFailure)
                        (message @ '': '' @ fe_message e)))"

section \<open>Loading\<close>

definition nonblank_lines :: "string \<Rightarrow> string list" where
  "nonblank_lines content = filter (\<lambda>l. trim l \<noteq> []) (split_lines content)"

fun parse_lines :: "message_codec \<Rightarrow> string \<Rightarrow> nat \<Rightarrow> string list \<Rightarrow> session_error + session_entry list" where
  "parse_lines mc filePath n [] = Inr []"
| "parse_lines mc filePath n (l # ls) =
     (case parseEntryLine mc l filePath n of
        Inl e \<Rightarrow> Inl e
      | Inr entry \<Rightarrow> (case parse_lines mc filePath (Suc n) ls of Inl e \<Rightarrow> Inl e | Inr es \<Rightarrow> Inr (entry # es)))"

definition parse_session :: "message_codec \<Rightarrow> string \<Rightarrow> string \<Rightarrow> session_error + session_header \<times> session_entry list" where
  "parse_session mc filePath content =
     (case nonblank_lines content of
        [] \<Rightarrow> Inl (invalid_session filePath ''missing session header'')
      | h # ls \<Rightarrow>
          (case parseHeaderLine h filePath of
             Inl e \<Rightarrow> Inl e
           | Inr header \<Rightarrow> (case parse_lines mc filePath 2 ls of Inl e \<Rightarrow> Inl e | Inr es \<Rightarrow> Inr (header, es))))"

definition loadJsonlStorage ::
  "message_codec \<Rightarrow> string \<Rightarrow> disk \<Rightarrow> (session_error + session_header \<times> session_entry list) \<times> disk" where
  "loadJsonlStorage mc filePath d =
     (case readTextFile filePath d of
        (r, d') \<Rightarrow>
          (case getFileSystemResultOrThrow r (''Failed to read session '' @ filePath) of
             Inl e \<Rightarrow> (Inl e, d')
           | Inr content \<Rightarrow> (parse_session mc filePath content, d')))"

record jsonl_metadata =
  jm_id :: string
  jm_createdAt :: string
  jm_cwd :: string
  jm_path :: string
  jm_parentSessionPath :: "string option"
  jm_metadata :: "(string \<times> json) list option"

definition headerToSessionMetadata :: "session_header \<Rightarrow> string \<Rightarrow> jsonl_metadata" where
  "headerToSessionMetadata h path =
     \<lparr>jm_id = sh_id h, jm_createdAt = sh_timestamp h, jm_cwd = sh_cwd h, jm_path = path,
      jm_parentSessionPath = sh_parentSession h, jm_metadata = sh_metadata h\<rparr>"

text \<open>Only the first line of the file is read; the rest may be anything.\<close>

definition loadJsonlSessionMetadata :: "string \<Rightarrow> disk \<Rightarrow> (session_error + jsonl_metadata) \<times> disk" where
  "loadJsonlSessionMetadata filePath d =
     (case readTextFile filePath d of
        (r, d') \<Rightarrow>
          (case getFileSystemResultOrThrow r (''Failed to read session header '' @ filePath) of
             Inl e \<Rightarrow> (Inl e, d')
           | Inr content \<Rightarrow>
               (case split_lines content of
                  line # _ \<Rightarrow>
                    if trim line \<noteq> []
                    then (map_sum id (\<lambda>h. headerToSessionMetadata h filePath) (parseHeaderLine line filePath), d')
                    else (Inl (invalid_session filePath ''missing session header''), d')
                | [] \<Rightarrow> (Inl (invalid_session filePath ''missing session header''), d'))))"

section \<open>The storage\<close>

record jsonl_storage =
  jl_filePath :: string
  jl_header :: session_header
  jl_state :: session_state
  jl_ids :: id_source
  jl_disk :: disk

definition jsonl_open :: "message_codec \<Rightarrow> string \<Rightarrow> id_source \<Rightarrow> disk \<Rightarrow> (session_error + jsonl_storage) \<times> disk" where
  "jsonl_open mc filePath ids d =
     (case loadJsonlStorage mc filePath d of
        (Inl e, d') \<Rightarrow> (Inl e, d')
      | (Inr (h, es), d') \<Rightarrow>
          (Inr \<lparr>jl_filePath = filePath, jl_header = h, jl_state = state_of_entries es, jl_ids = ids, jl_disk = d'\<rparr>, d'))"

definition json_line :: "json \<Rightarrow> string" where
  "json_line j = stringify j @ newline"

definition jsonl_create :: "string \<Rightarrow> session_header \<Rightarrow> id_source \<Rightarrow> disk \<Rightarrow> (session_error + jsonl_storage) \<times> disk" where
  "jsonl_create filePath header ids d =
     (case writeFile filePath (json_line (header_json header)) d of
        (r, d') \<Rightarrow>
          (case getFileSystemResultOrThrow r (''Failed to create session '' @ filePath) of
             Inl e \<Rightarrow> (Inl e, d')
           | Inr _ \<Rightarrow> (Inr \<lparr>jl_filePath = filePath, jl_header = header, jl_state = state_of_entries [], jl_ids = ids,
                              jl_disk = d'\<rparr>, d')))"

definition jl_new_id :: "jsonl_storage \<Rightarrow> string \<times> jsonl_storage" where
  "jl_new_id s = (case generateEntryId (om_has (ss_byId (jl_state s))) (jl_ids s) of
     (i, ids) \<Rightarrow> (i, s\<lparr>jl_ids := ids\<rparr>))"

text \<open>The line is appended to the file first; the caches change only when that succeeded.\<close>

definition write_entry ::
  "message_codec \<Rightarrow> string \<Rightarrow> session_entry \<Rightarrow> (session_state \<Rightarrow> session_state) \<Rightarrow> (jsonl_storage, unit) sop" where
  "write_entry mc what e f = (\<lambda>s.
     case appendFile (jl_filePath s) (json_line (entry_json mc e)) (jl_disk s) of
       (r, d) \<Rightarrow>
         (case getFileSystemResultOrThrow r (''Failed to append session '' @ what @ '' '' @ en_id e) of
            Inl er \<Rightarrow> (Inl er, s\<lparr>jl_disk := d\<rparr>)
          | Inr _ \<Rightarrow> (Inr (), s\<lparr>jl_disk := d, jl_state := f (jl_state s)\<rparr>)))"

definition jsonl_appendEntry :: "message_codec \<Rightarrow> session_entry \<Rightarrow> (jsonl_storage, unit) sop" where
  "jsonl_appendEntry mc e = write_entry mc ''entry'' e (push_entry e)"

definition jsonl_setLeafId :: "message_codec \<Rightarrow> string \<Rightarrow> string option \<Rightarrow> (jsonl_storage, unit) sop" where
  "jsonl_setLeafId mc now leafId = (\<lambda>s.
     case target_error (jl_state s) leafId of
       Some e \<Rightarrow> (Inl e, s)
     | None \<Rightarrow>
         (case jl_new_id s of
            (i, s') \<Rightarrow> write_entry mc ''leaf'' (leaf_entry i now leafId (jl_state s')) (push_leaf i now leafId) s'))"

definition jsonl_ops :: "message_codec \<Rightarrow> jsonl_storage storage_ops" where
  "jsonl_ops mc =
     \<lparr>op_getLeafId = (\<lambda>s. (leaf_or_error (jl_state s), s)),
      op_setLeafId = jsonl_setLeafId mc,
      op_createEntryId = (\<lambda>s. case jl_new_id s of (i, s') \<Rightarrow> (Inr i, s')),
      op_appendEntry = jsonl_appendEntry mc,
      op_getEntry = (\<lambda>i s. om_get (ss_byId (jl_state s)) i),
      op_findEntries = (\<lambda>t s. find_entries t (jl_state s)),
      op_getLabel = (\<lambda>i s. om_get (ss_labelsById (jl_state s)) i),
      op_getPathToRoot = (\<lambda>l s. getPathToRoot (jl_state s) l),
      op_getEntries = (\<lambda>s. ss_entries (jl_state s))\<rparr>"

section \<open>The contract\<close>

lemma jl_new_id_fresh:
  "jl_new_id s = (i, s') \<Longrightarrow> jl_state s' = jl_state s \<and> jl_disk s' = jl_disk s \<and> jl_filePath s' = jl_filePath s
     \<and> jl_header s' = jl_header s \<and> (short_ids (jl_state s) \<longrightarrow> fresh_id (jl_state s) i)"
  using generateEntryId_fresh
  by (fastforce simp: jl_new_id_def short_ids_def fresh_id_def split: prod.splits)

lemma write_entry_result:
  "write_entry mc what e f s = (r, s') \<Longrightarrow>
     (if r = Inr () then jl_state s' = f (jl_state s) else jl_state s' = jl_state s)"
  by (auto simp: write_entry_def split: prod.splits sum.splits)

interpretation jsonl: session_storage "jsonl_ops mc" jl_state
proof
  fix now l and s s' :: jsonl_storage and r
  assume "op_setLeafId (jsonl_ops mc) now l s = (r, s')"
  then show "if r = Inr () then target_error (jl_state s) l = None \<and>
      (\<exists>i. jl_state s' = push_leaf i now l (jl_state s) \<and> (short_ids (jl_state s) \<longrightarrow> fresh_id (jl_state s) i))
    else jl_state s' = jl_state s"
    by (auto simp: jsonl_ops_def jsonl_setLeafId_def split: option.splits prod.splits if_splits
        dest!: jl_new_id_fresh write_entry_result)
qed (auto simp: jsonl_ops_def jsonl_appendEntry_def split: prod.splits if_splits
       dest!: jl_new_id_fresh write_entry_result)

section \<open>The file holds the session\<close>

definition session_text :: "message_codec \<Rightarrow> session_header \<Rightarrow> session_entry list \<Rightarrow> string" where
  "session_text mc h es = json_line (header_json h) @ concat (map (\<lambda>e. json_line (entry_json mc e)) es)"

definition synced :: "message_codec \<Rightarrow> jsonl_storage \<Rightarrow> bool" where
  "synced mc s \<longleftrightarrow> om_get (dk_files (jl_disk s)) (jl_filePath s) =
     Some (session_text mc (jl_header s) (ss_entries (jl_state s)))"

lemma session_text_snoc: "session_text mc h (es @ [e]) = session_text mc h es @ json_line (entry_json mc e)"
  by (simp add: session_text_def)

lemma appendFile_result:
  "appendFile path t d = (r, d') \<Longrightarrow>
     (if r = Inr () then om_get (dk_files d') path = Some (nullish (om_get (dk_files d) path) [] @ t)
      else dk_files d' = dk_files d)"
  by (auto simp: appendFile_def disk_op_def Let_def split: if_splits)

lemma synced_write:
  assumes "write_entry mc what e f s = (r, s')" "synced mc s" "ss_entries (f (jl_state s)) = ss_entries (jl_state s) @ [e]"
  shows "synced mc s'"
proof -
  obtain q d where a: "appendFile (jl_filePath s) (json_line (entry_json mc e)) (jl_disk s) = (q, d)"
    by (cases "appendFile (jl_filePath s) (json_line (entry_json mc e)) (jl_disk s)")
  show ?thesis
    using assms a appendFile_result [OF a]
    by (cases q) (auto simp: write_entry_def getFileSystemResultOrThrow_def synced_def session_text_snoc)
qed

lemma synced_append: "jsonl_appendEntry mc e s = (r, s') \<Longrightarrow> synced mc s \<Longrightarrow> synced mc s'"
  unfolding jsonl_appendEntry_def by (erule synced_write) simp_all

lemma synced_setLeaf:
  assumes "jsonl_setLeafId mc now l s = (r, s')" "synced mc s"
  shows "synced mc s'"
proof (cases "target_error (jl_state s) l")
  case (Some e)
  with assms show ?thesis by (simp add: jsonl_setLeafId_def)
next
  case None
  obtain i s1 where i: "jl_new_id s = (i, s1)" by (cases "jl_new_id s")
  note same = jl_new_id_fresh [OF i]
  have "synced mc s1" using assms(2) same by (simp add: synced_def)
  with assms(1) None i show ?thesis
    by (auto simp: jsonl_setLeafId_def push_leaf_entry elim!: synced_write)
qed

lemma synced_create: "jsonl_create path h ids d = (Inr s, d') \<Longrightarrow> synced mc s \<and> ss_entries (jl_state s) = []"
  by (auto simp: jsonl_create_def writeFile_def disk_op_def getFileSystemResultOrThrow_def synced_def session_text_def
      Let_def split: if_splits)

section \<open>Reopening\<close>

lemma split_lines_text:
  "split_lines (concat (map json_line js)) = map stringify js @ [[]]"
  by (induction js) (simp_all add: json_line_def split_lines_line stringify_one_line)

lemma trim_nonempty: "\<not> is_space c \<Longrightarrow> c \<in> set s \<Longrightarrow> trim s \<noteq> []"
proof
  assume c: "\<not> is_space c" "c \<in> set s" and "trim s = []"
  then have "dropWhile is_space (rev (dropWhile is_space s)) = []" by (simp add: trim_def trim_start_def)
  then have all: "\<forall>x \<in> set (dropWhile is_space s). is_space x" by (simp add: dropWhile_eq_Nil_conv)
  have "c \<in> set (dropWhile is_space s)"
    using c by (metis Un_iff set_append set_takeWhileD takeWhile_dropWhile_id)
  with all c show False by blast
qed

lemma trim_stringify_obj: "trim (stringify (JObj fs)) \<noteq> []"
  by (rule trim_nonempty [of "CHR ''{''"]) (simp_all add: is_space_def)

lemma trim_Nil [simp]: "trim [] = []"
  by (simp add: trim_def trim_start_def)

lemma nonblank_session_text:
  "nonblank_lines (session_text mc h es) = stringify (header_json h) # map (\<lambda>e. stringify (entry_json mc e)) es"
proof -
  have "session_text mc h es = concat (map json_line (header_json h # map (entry_json mc) es))"
    by (simp add: session_text_def comp_def)
  then have sl: "split_lines (session_text mc h es) =
      stringify (header_json h) # map (\<lambda>e. stringify (entry_json mc e)) es @ [[]]"
    by (simp only: split_lines_text) (simp add: comp_def)
  have "trim (stringify (header_json h)) \<noteq> []" "\<And>e. trim (stringify (entry_json mc e)) \<noteq> []"
    by (simp_all add: header_json_def entry_json_def trim_stringify_obj del: stringify.simps)
  then show ?thesis by (simp add: nonblank_lines_def sl filter_id_conv)
qed

definition entries_writable :: "message_codec \<Rightarrow> session_entry list \<Rightarrow> bool" where
  "entries_writable mc es \<longleftrightarrow> (\<forall>e \<in> set es. codec_ok mc (en_body e) \<and> en_id e \<noteq> [] \<and> en_timestamp e \<noteq> [])"

definition header_writable :: "session_header \<Rightarrow> bool" where
  "header_writable h \<longleftrightarrow> (\<forall>m. sh_metadata h = Some m \<longrightarrow> json_wf (JObj m)) \<and> sh_id h \<noteq> [] \<and> sh_timestamp h \<noteq> []
     \<and> sh_cwd h \<noteq> []"

lemma parse_lines_written:
  "entries_writable mc es \<Longrightarrow> parse_lines mc path n (map (\<lambda>e. stringify (entry_json mc e)) es) = Inr es"
  by (induction es arbitrary: n) (simp_all add: entries_writable_def parseEntryLine_roundtrip)

lemma parse_session_written:
  "header_writable h \<Longrightarrow> entries_writable mc es \<Longrightarrow> parse_session mc path (session_text mc h es) = Inr (h, es)"
  by (simp add: parse_session_def nonblank_session_text parse_lines_written header_writable_def parseHeaderLine_roundtrip)

lemma jsonl_reopen:
  assumes "synced mc s" "header_writable (jl_header s)" "entries_writable mc (ss_entries (jl_state s))"
    "\<not> dk_fails (jl_disk s) (dk_ops (jl_disk s))"
  shows "\<exists>s' d'. jsonl_open mc (jl_filePath s) ids (jl_disk s) = (Inr s', d') \<and> jl_header s' = jl_header s \<and>
    jl_state s' = state_of_entries (ss_entries (jl_state s)) \<and> synced mc s'"
  using assms
  by (simp add: jsonl_open_def loadJsonlStorage_def readTextFile_def disk_op_def Let_def synced_def
      getFileSystemResultOrThrow_def parse_session_written)

lemma jsonl_reopen_inv:
  assumes "synced mc s" "header_writable (jl_header s)" "entries_writable mc (ss_entries (jl_state s))"
    "\<not> dk_fails (jl_disk s) (dk_ops (jl_disk s))" "session_inv (jl_state s)"
  shows "\<exists>s' d'. jsonl_open mc (jl_filePath s) ids (jl_disk s) = (Inr s', d') \<and> jl_state s' = jl_state s"
  using jsonl_reopen [OF assms(1-4), of ids] assms(5) unfolding session_inv_def by metis

section \<open>Directories of sessions\<close>

text \<open>\<open>encodeCwd\<close> of \<open>jsonl-repo.ts\<close>: one leading separator dropped, the others and colons become dashes.\<close>

definition is_separator :: "char \<Rightarrow> bool" where
  "is_separator c = (c = CHR ''/'' \<or> c = bslash)"

definition encodeCwd :: "string \<Rightarrow> string" where
  "encodeCwd cwd =
     (let body = (case cwd of c # cs \<Rightarrow> if is_separator c then cs else cwd | [] \<Rightarrow> [])
      in ''--'' @ map (\<lambda>c. if is_separator c \<or> c = CHR '':'' then CHR ''-'' else c) body @ ''--'')"

end
