(* ===== verification/Session_Repo.thy ===== *)
theory Session_Repo
  imports Session_Jsonl
begin

text \<open>
  The repositories of sessions: \<open>memory-repo.ts\<close> and the life cycle operations of
  \<open>jsonl-repo.ts\<close> that work on one file. A session object is the storage it wraps; \<open>open\<close> gives the
  stored one.
\<close>

section \<open>The in-memory repository\<close>

record memory_repo =
  mr_sessions :: "(string, memory_storage) omap"
  mr_ids :: id_source

definition new_metadata :: "string option \<Rightarrow> string \<Rightarrow> id_source \<Rightarrow> session_metadata \<times> id_source" where
  "new_metadata i now ids =
     (case i of
        Some s \<Rightarrow> (\<lparr>sm_id = s, sm_createdAt = now\<rparr>, ids)
      | None \<Rightarrow> (case next_uuid ids of (u, ids') \<Rightarrow> (\<lparr>sm_id = u, sm_createdAt = now\<rparr>, ids')))"

definition store_session ::
  "session_entry list \<Rightarrow> string option \<Rightarrow> string \<Rightarrow> memory_repo \<Rightarrow> (session_error + memory_storage) \<times> memory_repo" where
  "store_session entries i now repo =
     (case new_metadata i now (mr_ids repo) of (m, ids) \<Rightarrow>
        (case mem_create entries (Some m) now ids of
           Inl e \<Rightarrow> (Inl e, repo\<lparr>mr_ids := ids\<rparr>)
         | Inr storage \<Rightarrow> (Inr storage, repo\<lparr>mr_sessions := om_set (mr_sessions repo) (sm_id m) storage, mr_ids := ids\<rparr>)))"

definition mr_create :: "string option \<Rightarrow> string \<Rightarrow> memory_repo \<Rightarrow> (session_error + memory_storage) \<times> memory_repo" where
  "mr_create i now repo = store_session [] i now repo"

definition mr_open :: "session_metadata \<Rightarrow> memory_repo \<Rightarrow> session_error + memory_storage" where
  "mr_open m repo =
     (case om_get (mr_sessions repo) (sm_id m) of
        None \<Rightarrow> Inl (session_error NotFound (''Session not found: '' @ sm_id m))
      | Some s \<Rightarrow> Inr s)"

definition mr_list :: "memory_repo \<Rightarrow> session_metadata list" where
  "mr_list repo = map mem_metadata (om_values (mr_sessions repo))"

definition mr_delete :: "session_metadata \<Rightarrow> memory_repo \<Rightarrow> memory_repo" where
  "mr_delete m repo = repo\<lparr>mr_sessions := om_delete (mr_sessions repo) (sm_id m)\<rparr>"

definition mr_fork ::
  "session_metadata \<Rightarrow> string option \<Rightarrow> fork_position option \<Rightarrow> string option \<Rightarrow> string \<Rightarrow> memory_repo
     \<Rightarrow> ((session_error + memory_storage) \<times> memory_repo) option" where
  "mr_fork source entryId position i now repo =
     (case mr_open source repo of
        Inl e \<Rightarrow> Some (Inl e, repo)
      | Inr s \<Rightarrow> (case getEntriesToFork memory_ops entryId position s of
                   None \<Rightarrow> None
                 | Some (Inl e) \<Rightarrow> Some (Inl e, repo)
                 | Some (Inr es) \<Rightarrow> Some (store_session es i now repo)))"

lemma mr_open_create:
  "mr_create (Some i) now repo = (Inr s, repo') \<Longrightarrow> mr_open m repo' = (if sm_id m = i then Inr s else mr_open m repo)"
  by (auto simp: mr_create_def store_session_def new_metadata_def mr_open_def split: sum.splits)

lemma mr_open_delete:
  "mr_open m (mr_delete d repo) = (if sm_id m = sm_id d
     then Inl (session_error NotFound (''Session not found: '' @ sm_id m)) else mr_open m repo)"
  by (simp add: mr_open_def mr_delete_def)

text \<open>Forking copies the path it names into a well-formed session whose branch is that path.\<close>

lemma fold_leaf: "fold (\<lambda>e _. leafIdAfterEntry e) es l = (if es = [] then l else leafIdAfterEntry (last es))"
  by (induction es arbitrary: l) auto

lemma state_of_path:
  assumes "is_path es" "well_ordered {} es" "\<forall>e \<in> set es. \<forall>t. en_body e \<noteq> LeafEntry t"
  shows "session_inv (state_of_entries es)" and "branch (state_of_entries es) = es"
proof -
  have ne: "es \<noteq> []" using assms(1) by (simp add: is_path_def)
  have leaf: "ss_leafId (state_of_entries es) = Some (en_id (last es))"
    using ne assms(3) last_in_set [OF ne]
    by (simp add: state_of_entries_def fold_leaf) (auto simp: leafIdAfterEntry_def split: entry_body.splits)
  show inv: "session_inv (state_of_entries es)"
    using assms(2) leaf last_in_set [OF ne] by (auto simp: session_inv_def)
  have get: "\<forall>x \<in> set es. om_get (index_entries es) (en_id x) = Some x"
    using get_index_distinct well_ordered_distinct [OF assms(2)] by simp
  have loop: "linked (pre @ [x]) \<Longrightarrow> is_root (hd (pre @ [x])) \<Longrightarrow> \<forall>y \<in> set (pre @ [x]). y \<in> set es \<Longrightarrow>
      path_loop (index_entries es) x acc = Some (Inr ((pre @ [x]) @ acc))" for pre x acc
  proof (induction pre arbitrary: x acc rule: rev_induct)
    case Nil
    then show ?case by (auto simp: path_loop.simps [of _ x] is_root_def split: option.splits)
  next
    case (snoc y ys)
    then have p: "en_parentId x = Some (en_id y)" "linked (ys @ [y])" using linked_snoc [of ys y x] by simp_all
    have "en_id y \<noteq> []"
      using snoc.prems(3) assms(2) by (metis in_set_conv_decomp well_ordered.simps(2) well_ordered_append UnCI list.set_intros(1) set_append)
    moreover have "om_get (index_entries es) (en_id y) = Some y" using get snoc.prems(3) by simp
    moreover have "path_loop (index_entries es) y (x # acc) = Some (Inr ((ys @ [y]) @ x # acc))"
      using snoc.IH [of y "x # acc"] p(2) snoc.prems by (cases ys) auto
    ultimately show ?case using p(1) by (simp add: path_loop.simps [of _ x])
  qed
  obtain pre x where es: "es = pre @ [x]" using ne by (metis rev_exhaust)
  have "path_loop (index_entries es) x [] = Some (Inr es)"
    using loop [of pre x "[]"] assms(1) es by (simp add: is_path_def)
  then show "branch (state_of_entries es) = es"
    using get es leaf by (simp add: branch_def path_of_def getPathToRoot_def)
qed

lemma mr_fork_before:
  assumes "om_get (mr_sessions repo) (sm_id source) = Some s" "session_inv (mem_state s)"
    "om_get (ss_byId (mem_state s)) i = Some e" "en_body e = MessageEntry (User u)" "i \<noteq> []"
    "en_parentId e = Some p" "p \<in> ids_of (ss_entries (mem_state s))"
    "\<forall>x \<in> set (path_of (mem_state s) (Some p)). \<forall>t. en_body x \<noteq> LeafEntry t"
  shows "\<exists>s' repo'. mr_fork source (Some i) None (Some new) now repo = Some (Inr s', repo') \<and>
    om_get (mr_sessions repo') new = Some s' \<and> session_inv (mem_state s') \<and>
    branch (mem_state s') = path_of (mem_state s) (Some p)"
proof -
  note path = getPathToRoot_inv [OF assms(2,7)]
  have "getEntriesToFork memory_ops (Some i) None s = Some (Inr (path_of (mem_state s) (Some p)))"
    using memory.fork_at_user [OF assms(2,3,5,4)] assms(6) path(1) by simp
  moreover note st = state_of_path [OF path(2) path(5) assms(8)]
  ultimately show ?thesis
    using assms(1) session_inv_leaf [OF st(1)]
    by (simp add: mr_fork_def mr_open_def store_session_def new_metadata_def mem_create_def st)
qed

section \<open>Files of sessions\<close>

text \<open>The fork of \<open>jsonl-repo.ts\<close>: a new file with the header, then one append per entry.\<close>

fun append_all :: "message_codec \<Rightarrow> session_entry list \<Rightarrow> (jsonl_storage, unit) sop" where
  "append_all mc [] = sret ()"
| "append_all mc (e # es) = sbind (jsonl_appendEntry mc e) (\<lambda>_. append_all mc es)"

definition fork_header :: "jsonl_metadata \<Rightarrow> string \<Rightarrow> string \<Rightarrow> string \<Rightarrow> string option \<Rightarrow> (string \<times> json) list option \<Rightarrow> session_header" where
  "fork_header source i createdAt cwd parent metadata =
     \<lparr>sh_id = i, sh_timestamp = createdAt, sh_cwd = cwd,
      sh_parentSession = Some (nullish parent (jm_path source)), sh_metadata = nullish_opt metadata (jm_metadata source)\<rparr>"

definition fork_file ::
  "message_codec \<Rightarrow> string \<Rightarrow> session_header \<Rightarrow> session_entry list \<Rightarrow> id_source \<Rightarrow> disk \<Rightarrow> (session_error + jsonl_storage) \<times> disk" where
  "fork_file mc filePath header es ids d =
     (case jsonl_create filePath header ids d of
        (Inl e, d') \<Rightarrow> (Inl e, d')
      | (Inr s, d') \<Rightarrow> (case append_all mc es s of
            (Inl e, s') \<Rightarrow> (Inl e, jl_disk s')
          | (Inr _, s') \<Rightarrow> (Inr s', jl_disk s')))"

lemma append_all_synced:
  "append_all mc es s = (r, s') \<Longrightarrow> synced mc s \<Longrightarrow>
     synced mc s' \<and> (r = Inr () \<longrightarrow> jl_state s' = fold push_entry es (jl_state s) \<and> jl_header s' = jl_header s)"
proof (induction es arbitrary: s)
  case (Cons e es)
  obtain q s1 where a: "jsonl_appendEntry mc e s = (q, s1)" by (cases "jsonl_appendEntry mc e s")
  have st: "if q = Inr () then jl_state s1 = push_entry e (jl_state s) else jl_state s1 = jl_state s"
    using write_entry_result a unfolding jsonl_appendEntry_def by blast
  have h: "jl_header s1 = jl_header s"
    using a by (auto simp: jsonl_appendEntry_def write_entry_def split: prod.splits sum.splits)
  show ?case
    using Cons.prems Cons.IH [of s1] a st h synced_append [OF a] by (cases q) (auto simp: sop_simps)
qed (simp add: sop_simps)

lemma fold_push_state: "fold push_entry es (state_of_entries ds) = state_of_entries (ds @ es)"
  by (induction es arbitrary: ds) (simp_all add: state_of_entries_snoc [symmetric])

lemma fork_file_synced:
  assumes "fork_file mc path h es ids d = (Inr s, d')"
  shows "synced mc s" and "jl_state s = state_of_entries es" and "jl_header s = h"
proof -
  obtain s0 d0 where c: "jsonl_create path h ids d = (Inr s0, d0)" and a: "append_all mc es s0 = (Inr (), s)"
    using assms by (auto simp: fork_file_def split: prod.splits sum.splits)
  have s0: "synced mc s0" "jl_state s0 = state_of_entries []" "jl_header s0 = h"
    using synced_create [OF c] c by (auto simp: jsonl_create_def split: prod.splits sum.splits)
  from append_all_synced [OF a s0(1)] s0 fold_push_state [of es "[]"]
  show "synced mc s" "jl_state s = state_of_entries es" "jl_header s = h" by simp_all
qed

end
