(* ===== verification/Session_Scenarios.thy ===== *)
theory Session_Scenarios
  imports Session_Repo
begin

text \<open>
  A concrete session for the properties of the root theory: a user message, its answer and a second
  user message, in memory and as a file on a disk that never fails.
\<close>

definition demo_entry :: "string \<Rightarrow> string option \<Rightarrow> entry_body \<Rightarrow> session_entry" where
  "demo_entry i p b = \<lparr>en_id = i, en_parentId = p, en_timestamp = ''t'', en_body = b\<rparr>"

definition said :: "string \<Rightarrow> agent_message" where
  "said s = User \<lparr>um_content = PlainText s, um_timestamp = None\<rparr>"

definition demo_entries :: "session_entry list" where
  "demo_entries = [demo_entry ''aaaaaaaa'' None (MessageEntry (said ''one'')),
     demo_entry ''bbbbbbbb'' (Some ''aaaaaaaa'') (ThinkingLevelChange ''high''),
     demo_entry ''cccccccc'' (Some ''bbbbbbbb'') (MessageEntry (said ''two''))]"

definition demo_ids :: id_source where
  "demo_ids = \<lparr>is_state = uuid_start, is_calls = 0, is_inputs = (\<lambda>n. ([], int n))\<rparr>"

definition demo_memory :: memory_storage where
  "demo_memory = \<lparr>mem_metadata = \<lparr>sm_id = ''s'', sm_createdAt = ''t''\<rparr>, mem_state = state_of_entries demo_entries,
     mem_ids = demo_ids\<rparr>"

lemmas demo_eval = demo_entries_def demo_entry_def state_of_entries_def index_entries_def leafIdAfterEntry_def
  om_has_def om_get_def

lemma demo_inv: "session_inv (state_of_entries demo_entries)"
  by (simp add: session_inv_def) (simp add: demo_eval parent_in_def)

lemma demo_short: "short_ids (state_of_entries demo_entries)"
  by (auto simp: short_ids_def demo_eval split: if_splits)

lemma demo_branch: "branch (state_of_entries demo_entries) = demo_entries"
  by (rule state_of_path) (simp_all add: demo_eval is_path_def is_root_def parent_in_def)

lemma demo_path: "path_of (state_of_entries demo_entries) (Some ''bbbbbbbb'') = take 2 demo_entries"
proof -
  have "getPathToRoot (state_of_entries demo_entries) (Some ''bbbbbbbb'') = Some (Inr (take 2 demo_entries))"
    by (simp add: getPathToRoot_def demo_eval path_loop.simps numeral_2_eq_2)
  then show ?thesis by (simp add: path_of_def)
qed

lemma memory_append_succeeds:
  assumes "session_inv (mem_state s)"
  shows "\<exists>i s'. append_body memory_ops now b s = (Inr i, s')"
proof -
  obtain i s1 where "mem_new_id s = (i, s1)" by (cases "mem_new_id s")
  with mem_new_id_fresh [OF this] session_inv_leaf [OF assms] show ?thesis
    by (simp add: append_body_def appendTypedEntry_def memory_ops_def sop_simps)
qed

text \<open>A move to the second entry.\<close>

definition demo_move :: move_summary where
  "demo_move = \<lparr>mv_summary = ''sum'', mv_details = None, mv_fromHook = None\<rparr>"

lemma demo_uuid: "fst (next_uuid demo_ids) = ''00000000-0000-7000-8000-000000000000''"
  by code_simp

lemma demo_new_id: "fst (generateEntryId (om_has (index_entries demo_entries)) demo_ids) = ''00000000''"
proof -
  obtain ids where "next_uuid demo_ids = (''00000000-0000-7000-8000-000000000000'', ids)"
    using demo_uuid by (cases "next_uuid demo_ids") auto
  moreover have "short_id_loop 100 = short_id_loop (Suc 99)" by simp
  ultimately show ?thesis
    unfolding generateEntryId_def by (simp only: short_id_loop.simps) (simp add: last8_def demo_eval)
qed

lemma demo_move_short:
  "short_ids (mem_state (snd (op_setLeafId memory_ops ''now'' (Some ''bbbbbbbb'') demo_memory)))"
proof -
  obtain ids where "generateEntryId (om_has (index_entries demo_entries)) demo_ids = (''00000000'', ids)"
    using demo_new_id by (cases "generateEntryId (om_has (index_entries demo_entries)) demo_ids") auto
  moreover have "om_has (index_entries demo_entries) ''bbbbbbbb''" by (simp add: demo_eval)
  ultimately show ?thesis
    using demo_short
    by (auto simp: memory_ops_def mem_setLeafId_def demo_memory_def target_error_def mem_new_id_def state_of_entries_def
        push_leaf_def leaf_entry_def short_ids_def om_has_def Let_def split: if_splits)
qed

lemma demo_move_runs: "\<exists>r s'. moveTo memory_ops ''now'' (Some ''bbbbbbbb'') (Some demo_move) demo_memory = (Inr r, s')"
proof -
  have "om_get (ss_byId (mem_state demo_memory)) ''bbbbbbbb'' \<noteq> None" "om_has (ss_byId (mem_state demo_memory)) ''bbbbbbbb''"
    by (simp_all add: demo_memory_def demo_eval)
  then show ?thesis
    by (auto simp: moveTo_def memory_ops_def mem_setLeafId_def target_error_def appendTypedEntry_def sop_simps split: prod.splits)
qed

section \<open>On disk\<close>

text \<open>A codec for the messages of the scenario.\<close>

definition demo_codec :: message_codec where
  "demo_codec = \<lparr>mc_write = (\<lambda>m. case m of User u \<Rightarrow> (case um_content u of PlainText s \<Rightarrow> JStr s | _ \<Rightarrow> JNull) | _ \<Rightarrow> JNull),
     mc_read = (\<lambda>j. case j of JStr s \<Rightarrow> Some (said s) | _ \<Rightarrow> None)\<rparr>"

definition demo_header :: session_header where
  "demo_header = \<lparr>sh_id = ''s'', sh_timestamp = ''t'', sh_cwd = ''/w'', sh_parentSession = None, sh_metadata = None\<rparr>"

definition demo_file :: jsonl_storage where
  "demo_file = \<lparr>jl_filePath = ''f'', jl_header = demo_header, jl_state = state_of_entries demo_entries, jl_ids = demo_ids,
     jl_disk = \<lparr>dk_files = [(''f'', session_text demo_codec demo_header demo_entries)], dk_fails = (\<lambda>n. False), dk_ops = 0\<rparr>\<rparr>"

lemma demo_file_ok: "synced demo_codec demo_file" "header_writable demo_header" "entries_writable demo_codec demo_entries"
  "jl_state demo_file = state_of_entries demo_entries" "jl_header demo_file = demo_header"
  by (simp add: synced_def demo_file_def om_get_def)
     (simp_all add: demo_file_def header_writable_def demo_header_def entries_writable_def demo_entries_def demo_entry_def
       codec_ok_def demo_codec_def said_def)

lemma jsonl_append_succeeds:
  assumes "session_inv (jl_state s)" "\<And>n. \<not> dk_fails (jl_disk s) n"
  shows "\<exists>i s'. append_body (jsonl_ops mc) now b s = (Inr i, s') \<and> (\<forall>n. \<not> dk_fails (jl_disk s') n)"
proof -
  obtain i s1 where "jl_new_id s = (i, s1)" by (cases "jl_new_id s")
  with jl_new_id_fresh [OF this] session_inv_leaf [OF assms(1)] assms(2) show ?thesis
    by (simp add: append_body_def appendTypedEntry_def jsonl_ops_def jsonl_appendEntry_def write_entry_def appendFile_def
        disk_op_def getFileSystemResultOrThrow_def sop_simps Let_def)
qed

section \<open>What the operations of a file session keep\<close>

lemma write_entry_keeps:
  "write_entry mc what e f s = (r, s') \<Longrightarrow> jl_header s' = jl_header s \<and> jl_filePath s' = jl_filePath s"
  by (auto simp: write_entry_def split: prod.splits sum.splits)

lemma jsonl_append_body_synced:
  assumes "append_body (jsonl_ops mc) now b s = (r, s')" "synced mc s"
  shows "synced mc s' \<and> jl_header s' = jl_header s \<and> jl_filePath s' = jl_filePath s"
proof -
  obtain i s1 where i: "jl_new_id s = (i, s1)" by (cases "jl_new_id s")
  note same = jl_new_id_fresh [OF i]
  have s1: "synced mc s1" using assms(2) same by (simp add: synced_def)
  have "synced mc u \<and> jl_header u = jl_header s1 \<and> jl_filePath u = jl_filePath s1"
    if "jsonl_appendEntry mc e s1 = (q, u)" for e q u
    using synced_append [OF that s1] that write_entry_keeps unfolding jsonl_appendEntry_def by blast
  with assms(1) i same s1 show ?thesis
    by (auto simp: append_body_def appendTypedEntry_def jsonl_ops_def sop_simps split: prod.splits sum.splits)
qed

end
