(* ===== verification/Task_Supervisor.thy ===== *)
theory Task_Supervisor
  imports Messages
begin

text \<open>
  \<open>packages/orchestrator/src/task-supervisor.ts\<close>: the scheduler of delegated tasks. Its state is the
  class's fields with the executions in progress; the operations are the public methods and the
  callbacks of the event loop (the pump microtask, the continuation of an execution, its \<open>finally\<close>,
  its timer), each atomic as in JavaScript. The executor is the environment: it settles an execution
  with a result or an error message at any time. Listeners are assumed not to call back
  synchronously, and the repository not to throw.
\<close>

section \<open>Data\<close>

datatype task_status = Queued | Waiting | Running | Completed | Failed | Cancelled | TimedOut

fun terminal :: "task_status \<Rightarrow> bool" where
  "terminal Completed = True" | "terminal Failed = True" | "terminal Cancelled = True" | "terminal TimedOut = True"
| "terminal _ = False"

record task_budget =
  bg_maxTokens :: "int option"
  bg_maxCostUsd :: "rat option"
  bg_timeoutMs :: "nat option"

record task_result =
  tres_summary :: string
  tres_artifacts :: "(string \<times> string option \<times> string option) list"
  tres_sessionId :: "string option"
  tres_sessionFile :: "string option"

record task_record =
  tk_id :: string
  tk_parentTaskId :: "string option"
  tk_childTaskIds :: "string list"
  tk_dependencies :: "string list"
  tk_status :: task_status
  tk_prompt :: string
  tk_cwd :: string
  tk_skillDataDir :: "string option"
  tk_label :: "string option"
  tk_budget :: task_budget
  tk_attempt :: nat
  tk_maxAttempts :: nat
  tk_createdAt :: string
  tk_updatedAt :: string
  tk_startedAt :: "string option"
  tk_completedAt :: "string option"
  tk_result :: "task_result option"
  tk_error :: "string option"

datatype task_event_type =
    EvCreated | EvQueued | EvStarted | EvProgress | EvCompleted | EvFailed | EvCancelled | EvRetrying | EvRecovered

record task_event =
  te_eventType :: task_event_type
  te_taskId :: string
  te_timestamp :: string
  te_status :: task_status
  te_message :: "string option"
  te_attempt :: nat

record spawn_options =
  sp_prompt :: string
  sp_cwd :: string
  sp_skillDataDir :: "string option"
  sp_label :: "string option"
  sp_parentTaskId :: "string option"
  sp_dependencies :: "string list"
  sp_budget :: task_budget
  sp_maxAttempts :: "nat option"

text \<open>An execution: its number, its task and the abort reason of its controller.\<close>

record execution =
  ex_run :: nat
  ex_task :: string
  ex_abort :: "string option"

record task_supervisor =
  su_maxConcurrent :: nat
  su_tasks :: "(string, task_record) omap"
  su_running :: "(string, nat) omap"
  su_live :: "execution list"
  su_finalizing :: "execution list"
  su_waiters :: "(string, nat list) omap"
  su_resolved :: "(nat \<times> task_record) list"
  su_pumpQueued :: bool
  su_shuttingDown :: bool
  su_nextRun :: nat
  su_saved :: "task_record list"
  su_events :: "task_event list"

definition new_task_supervisor :: "nat option \<Rightarrow> task_record list \<Rightarrow> task_supervisor" where
  "new_task_supervisor maxConcurrent stored =
     \<lparr>su_maxConcurrent = max 1 (nullish maxConcurrent 4),
      su_tasks = fold (\<lambda>t m. om_set m (tk_id t) t) stored [], su_running = [], su_live = [], su_finalizing = [],
      su_waiters = [], su_resolved = [], su_pumpQueued = False, su_shuttingDown = False, su_nextRun = 0,
      su_saved = stored, su_events = []\<rparr>"

section \<open>Helpers\<close>

definition task_of :: "task_supervisor \<Rightarrow> string \<Rightarrow> task_record option" where
  "task_of st i = om_get (su_tasks st) i"

definition persist :: "task_supervisor \<Rightarrow> task_supervisor" where
  "persist st = st\<lparr>su_saved := om_values (su_tasks st)\<rparr>"

definition put_task :: "task_record \<Rightarrow> task_supervisor \<Rightarrow> task_supervisor" where
  "put_task t st = st\<lparr>su_tasks := om_set (su_tasks st) (tk_id t) t\<rparr>"

text \<open>\<open>transition\<close>: the other updates are already in the record.\<close>

definition transition :: "string \<Rightarrow> task_record \<Rightarrow> task_status \<Rightarrow> task_supervisor \<Rightarrow> task_supervisor" where
  "transition now t s st = persist (put_task (t\<lparr>tk_status := s, tk_updatedAt := now\<rparr>) st)"

definition emit_task :: "string \<Rightarrow> string \<Rightarrow> task_event_type \<Rightarrow> string option \<Rightarrow> task_supervisor \<Rightarrow> task_supervisor" where
  "emit_task now i ty msg st =
     (case task_of st i of
        None \<Rightarrow> st
      | Some t \<Rightarrow> st\<lparr>su_events := su_events st @
          [\<lparr>te_eventType = ty, te_taskId = i, te_timestamp = now, te_status = tk_status t, te_message = msg,
            te_attempt = tk_attempt t\<rparr>]\<rparr>)"

definition notifyWaiters :: "string \<Rightarrow> task_supervisor \<Rightarrow> task_supervisor" where
  "notifyWaiters i st =
     (case (om_get (su_waiters st) i, task_of st i) of
        (Some ws, Some t) \<Rightarrow> st\<lparr>su_waiters := om_delete (su_waiters st) i,
                               su_resolved := su_resolved st @ map (\<lambda>w. (w, t)) ws\<rparr>
      | _ \<Rightarrow> st)"

definition schedulePump :: "task_supervisor \<Rightarrow> task_supervisor" where
  "schedulePump st = (if su_pumpQueued st \<or> su_shuttingDown st then st else st\<lparr>su_pumpQueued := True\<rparr>)"

definition abort_run :: "string \<Rightarrow> nat \<Rightarrow> execution list \<Rightarrow> execution list" where
  "abort_run reason run xs =
     map (\<lambda>x. if ex_run x = run \<and> ex_abort x = None then x\<lparr>ex_abort := Some reason\<rparr> else x) xs"

section \<open>Public operations\<close>

definition new_task :: "string \<Rightarrow> string \<Rightarrow> spawn_options \<Rightarrow> task_record" where
  "new_task i now opts = \<lparr>tk_id = i, tk_parentTaskId = sp_parentTaskId opts, tk_childTaskIds = [],
     tk_dependencies = sp_dependencies opts, tk_status = Queued, tk_prompt = sp_prompt opts, tk_cwd = sp_cwd opts,
     tk_skillDataDir = sp_skillDataDir opts, tk_label = sp_label opts, tk_budget = sp_budget opts, tk_attempt = 0,
     tk_maxAttempts = max 1 (nullish (sp_maxAttempts opts) 1), tk_createdAt = now, tk_updatedAt = now,
     tk_startedAt = None, tk_completedAt = None, tk_result = None, tk_error = None\<rparr>"

definition link_parent :: "task_record \<Rightarrow> task_supervisor \<Rightarrow> task_supervisor" where
  "link_parent t st =
     (case tk_parentTaskId t of
        None \<Rightarrow> st
      | Some p \<Rightarrow> (case task_of st p of
          None \<Rightarrow> st
        | Some parent \<Rightarrow> if p = [] then st
            else put_task (parent\<lparr>tk_childTaskIds := tk_childTaskIds parent @ [tk_id t]\<rparr>) st))"

text \<open>The identifier is that of \<open>randomUUID\<close>.\<close>

definition spawnTask :: "string \<Rightarrow> string \<Rightarrow> spawn_options \<Rightarrow> task_supervisor \<Rightarrow> (string + task_record) \<times> task_supervisor" where
  "spawnTask i now opts st =
     (if truthy_str (sp_parentTaskId opts) \<and> task_of st (nullish (sp_parentTaskId opts) []) = None
      then (Inl (''Unknown parent task: '' @ nullish (sp_parentTaskId opts) []), st)
      else (case find (\<lambda>d. task_of st d = None) (sp_dependencies opts) of
              Some d \<Rightarrow> (Inl (''Unknown dependency task: '' @ d), st)
            | None \<Rightarrow>
                (let t = new_task i now opts;
                     st1 = persist (link_parent t (put_task t st))
                 in (Inr (nullish (task_of st1 i) t), schedulePump (emit_task now i EvCreated None st1)))))"

definition cancelTask :: "string \<Rightarrow> string \<Rightarrow> task_supervisor \<Rightarrow> task_record option \<times> task_supervisor" where
  "cancelTask now i st =
     (case task_of st i of
        None \<Rightarrow> (None, st)
      | Some t \<Rightarrow>
          if terminal (tk_status t) then (Some t, st)
          else if tk_status t = Running
          then (Some t, case om_get (su_running st) i of
                  None \<Rightarrow> st
                | Some run \<Rightarrow> st\<lparr>su_live := abort_run ''Task cancelled'' run (su_live st)\<rparr>)
          else (let st1 = transition now (t\<lparr>tk_error := Some ''Task cancelled''\<rparr>) Cancelled st;
                    st2 = notifyWaiters i (emit_task now i EvCancelled None st1)
                in (task_of st2 i, st2)))"

definition retryTask :: "string \<Rightarrow> string \<Rightarrow> task_supervisor \<Rightarrow> task_record option \<times> task_supervisor" where
  "retryTask now i st =
     (case task_of st i of
        None \<Rightarrow> (None, st)
      | Some t \<Rightarrow>
          if \<not> terminal (tk_status t) \<or> tk_status t = Completed then (Some t, st)
          else (let st1 = transition now (t\<lparr>tk_maxAttempts := max (tk_maxAttempts t) (tk_attempt t + 1),
                            tk_error := None, tk_completedAt := None\<rparr>) Queued st;
                    st2 = schedulePump (emit_task now i EvRetrying (Some ''Explicit retry requested'') st1)
                in (task_of st2 i, st2)))"

text \<open>\<open>waitForTask\<close>: unknown task, already terminal (resolved at once), or a new waiter.\<close>

definition waitForTask :: "nat \<Rightarrow> string \<Rightarrow> task_supervisor \<Rightarrow> string option \<times> task_supervisor" where
  "waitForTask w i st =
     (case task_of st i of
        None \<Rightarrow> (Some (''Unknown task: '' @ i), st)
      | Some t \<Rightarrow>
          if terminal (tk_status t) then (None, st\<lparr>su_resolved := su_resolved st @ [(w, t)]\<rparr>)
          else (None, st\<lparr>su_waiters := om_set (su_waiters st) i (nullish (om_get (su_waiters st) i) [] @ [w])\<rparr>))"

definition waitTimeout :: "nat \<Rightarrow> string \<Rightarrow> task_supervisor \<Rightarrow> task_supervisor" where
  "waitTimeout w i st =
     (case om_get (su_waiters st) i of
        None \<Rightarrow> st
      | Some ws \<Rightarrow> st\<lparr>su_waiters := om_set (su_waiters st) i (removeAll w ws)\<rparr>)"

text \<open>The synchronous part of \<open>shutdown\<close>; it then waits for the executions to settle.\<close>

definition shutdown :: "task_supervisor \<Rightarrow> task_supervisor" where
  "shutdown st = st\<lparr>su_shuttingDown := True,
     su_live := fold (abort_run ''Orchestrator shutting down'') (om_values (su_running st)) (su_live st)\<rparr>"

definition recover_task :: "string \<Rightarrow> string \<Rightarrow> task_supervisor \<Rightarrow> task_supervisor" where
  "recover_task now i st =
     (case task_of st i of
        None \<Rightarrow> st
      | Some t \<Rightarrow>
          if tk_status t \<noteq> Running then st
          else emit_task now i EvRecovered (Some ''Recovered after orchestrator restart'')
                 (put_task (t\<lparr>tk_status := Queued, tk_updatedAt := now, tk_error := None\<rparr>) st))"

definition recoverAfterRestart :: "string \<Rightarrow> task_supervisor \<Rightarrow> task_supervisor" where
  "recoverAfterRestart now st =
     schedulePump (persist (fold (recover_task now) (om_keys (su_tasks st)) (st\<lparr>su_shuttingDown := False\<rparr>)))"

section \<open>Callbacks of the event loop\<close>

definition startTask :: "string \<Rightarrow> task_record \<Rightarrow> task_supervisor \<Rightarrow> task_supervisor" where
  "startTask now t st =
     (let run = su_nextRun st;
          st1 = transition now (t\<lparr>tk_attempt := tk_attempt t + 1, tk_startedAt := Some now, tk_completedAt := None,
                                  tk_error := None\<rparr>) Running st;
          st2 = emit_task now (tk_id t) EvStarted None st1
      in st2\<lparr>su_live := su_live st2 @ [\<lparr>ex_run = run, ex_task = tk_id t, ex_abort = None\<rparr>],
             su_running := om_set (su_running st2) (tk_id t) run, su_nextRun := Suc run\<rparr>)"

definition dependency_failed :: "task_supervisor \<Rightarrow> string \<Rightarrow> bool" where
  "dependency_failed st d =
     (case task_of st d of None \<Rightarrow> True | Some t \<Rightarrow> terminal (tk_status t) \<and> tk_status t \<noteq> Completed)"

definition dependency_open :: "task_supervisor \<Rightarrow> string \<Rightarrow> bool" where
  "dependency_open st d = (map_option tk_status (task_of st d) \<noteq> Some Completed)"

text \<open>One iteration of the loop of \<open>pump\<close>, for a queued or waiting task.\<close>

definition pump_task :: "string \<Rightarrow> task_record \<Rightarrow> task_supervisor \<Rightarrow> task_supervisor" where
  "pump_task now t st =
     (if list_ex (dependency_failed st) (tk_dependencies t)
      then notifyWaiters (tk_id t)
             (emit_task now (tk_id t) EvFailed (Some ''A dependency did not complete successfully'')
               (transition now (t\<lparr>tk_error := Some ''A dependency did not complete successfully''\<rparr>) Failed st))
      else if list_ex (dependency_open st) (tk_dependencies t)
      then (if tk_status t \<noteq> Waiting then transition now t Waiting st else st)
      else startTask now t st)"

fun pump_loop :: "string \<Rightarrow> string list \<Rightarrow> task_supervisor \<Rightarrow> task_supervisor" where
  "pump_loop now [] st = st"
| "pump_loop now (i # is) st =
     (if su_maxConcurrent st \<le> length (su_running st) then st
      else (case task_of st i of
              None \<Rightarrow> pump_loop now is st
            | Some t \<Rightarrow>
                if tk_status t \<noteq> Queued \<and> tk_status t \<noteq> Waiting then pump_loop now is st
                else pump_loop now is (pump_task now t st)))"

definition pump :: "string \<Rightarrow> task_supervisor \<Rightarrow> task_supervisor" where
  "pump now st = (if su_shuttingDown st then st else pump_loop now (om_keys (su_tasks st)) st)"

definition run_pump :: "string \<Rightarrow> task_supervisor \<Rightarrow> task_supervisor" where
  "run_pump now st = (if su_pumpQueued st then pump now (st\<lparr>su_pumpQueued := False\<rparr>) else st)"

definition handleFailure :: "string \<Rightarrow> task_record \<Rightarrow> task_status \<Rightarrow> string \<Rightarrow> task_supervisor \<Rightarrow> task_supervisor" where
  "handleFailure now t s message st =
     (if tk_attempt t < tk_maxAttempts t
      then emit_task now (tk_id t) EvRetrying (Some message)
             (transition now (t\<lparr>tk_error := Some message, tk_startedAt := None\<rparr>) Queued st)
      else emit_task now (tk_id t) EvFailed (Some message)
             (transition now (t\<lparr>tk_error := Some message, tk_completedAt := Some now\<rparr>) s st))"

fun str_includes :: "string \<Rightarrow> string \<Rightarrow> bool" where
  "str_includes [] w = (w = [])"
| "str_includes (c # cs) w = (take (length w) (c # cs) = w \<or> str_includes cs w)"

text \<open>The continuation of \<open>executeTask\<close> after its executor settled.\<close>

definition finish_execution ::
  "string \<Rightarrow> execution \<Rightarrow> string + task_result \<Rightarrow> task_record \<Rightarrow> task_supervisor \<Rightarrow> task_supervisor" where
  "finish_execution now x outcome t st =
     (case outcome of
        Inr result \<Rightarrow>
          emit_task now (tk_id t) EvCompleted (Some (tres_summary result))
            (transition now (t\<lparr>tk_result := Some result, tk_completedAt := Some now\<rparr>) Completed st)
      | Inl message \<Rightarrow>
          if su_shuttingDown st
          then emit_task now (tk_id t) EvRecovered (Some ''Queued for restart recovery'')
                 (transition now (t\<lparr>tk_error := None, tk_startedAt := None\<rparr>) Queued st)
          else if ex_abort x \<noteq> None \<and> str_includes message ''timed out''
          then handleFailure now t TimedOut message st
          else if ex_abort x \<noteq> None
          then emit_task now (tk_id t) EvCancelled (Some message)
                 (transition now (t\<lparr>tk_error := Some message, tk_completedAt := Some now\<rparr>) Cancelled st)
          else handleFailure now t Failed message st)"

definition settle_execution :: "string \<Rightarrow> nat \<Rightarrow> string + task_result \<Rightarrow> task_supervisor \<Rightarrow> task_supervisor" where
  "settle_execution now run outcome st =
     (case find (\<lambda>x. ex_run x = run) (su_live st) of
        None \<Rightarrow> st
      | Some x \<Rightarrow>
          (case task_of st (ex_task x) of
             None \<Rightarrow> st
           | Some t \<Rightarrow>
               (let st1 = finish_execution now x outcome t st;
                    st2 = (case task_of st1 (ex_task x) of
                             Some t' \<Rightarrow> if terminal (tk_status t') then notifyWaiters (ex_task x) st1 else st1
                           | None \<Rightarrow> st1)
                in st2\<lparr>su_live := filter (\<lambda>y. ex_run y \<noteq> run) (su_live st2),
                       su_finalizing := su_finalizing st2 @ [x]\<rparr>)))"

definition run_finally :: "nat \<Rightarrow> task_supervisor \<Rightarrow> task_supervisor" where
  "run_finally run st =
     (case find (\<lambda>x. ex_run x = run) (su_finalizing st) of
        None \<Rightarrow> st
      | Some x \<Rightarrow> schedulePump (st\<lparr>su_finalizing := filter (\<lambda>y. ex_run y \<noteq> run) (su_finalizing st),
                                   su_running := om_delete (su_running st) (ex_task x)\<rparr>))"

text \<open>The timer of an execution; a budget of zero sets no timer.\<close>

definition timer_fires :: "nat \<Rightarrow> task_supervisor \<Rightarrow> task_supervisor" where
  "timer_fires run st =
     (case find (\<lambda>x. ex_run x = run) (su_live st) of
        None \<Rightarrow> st
      | Some x \<Rightarrow> (case task_of st (ex_task x) of
          None \<Rightarrow> st
        | Some t \<Rightarrow> (case bg_timeoutMs (tk_budget t) of
            None \<Rightarrow> st
          | Some n \<Rightarrow> if n = 0 then st else st\<lparr>su_live := abort_run (''Task timed out after '' @ show_nat n @ ''ms'') run (su_live st)\<rparr>)))"

definition report_progress :: "string \<Rightarrow> nat \<Rightarrow> string \<Rightarrow> task_supervisor \<Rightarrow> task_supervisor" where
  "report_progress now run message st =
     (case find (\<lambda>x. ex_run x = run) (su_live st) of
        None \<Rightarrow> st
      | Some x \<Rightarrow> emit_task now (ex_task x) EvProgress (Some message) st)"

section \<open>Steps\<close>

datatype task_op =
    Spawn string spawn_options
  | Cancel string
  | Retry string
  | WaitFor nat string
  | WaitTimeout nat string
  | RunPump
  | Settle nat "string + task_result"
  | Finally nat
  | Timer nat
  | Progress nat string
  | Shutdown
  | Recover

fun ts_step :: "string \<Rightarrow> task_op \<Rightarrow> task_supervisor \<Rightarrow> task_supervisor" where
  "ts_step now (Spawn i opts) st = snd (spawnTask i now opts st)"
| "ts_step now (Cancel i) st = snd (cancelTask now i st)"
| "ts_step now (Retry i) st = snd (retryTask now i st)"
| "ts_step now (WaitFor w i) st = snd (waitForTask w i st)"
| "ts_step now (WaitTimeout w i) st = waitTimeout w i st"
| "ts_step now RunPump st = run_pump now st"
| "ts_step now (Settle run r) st = settle_execution now run r st"
| "ts_step now (Finally run) st = run_finally run st"
| "ts_step now (Timer run) st = timer_fires run st"
| "ts_step now (Progress run m) st = report_progress now run m st"
| "ts_step now Shutdown st = shutdown st"
| "ts_step now Recover st = recoverAfterRestart now st"

text \<open>
  What the environment promises: spawned tasks get new identifiers (\<open>randomUUID\<close>), and recovery runs
  when no execution of this process is in progress (it is called once, at start-up).
\<close>

fun op_ok :: "task_op \<Rightarrow> task_supervisor \<Rightarrow> bool" where
  "op_ok (Spawn i opts) st = (i \<noteq> [] \<and> task_of st i = None)"
| "op_ok Recover st = (su_live st = [] \<and> su_finalizing st = [])"
| "op_ok _ st = True"

fun ts_run :: "(string \<times> task_op) list \<Rightarrow> task_supervisor \<Rightarrow> task_supervisor" where
  "ts_run [] st = st"
| "ts_run ((now, x) # ops) st = ts_run ops (ts_step now x st)"

fun ops_ok :: "(string \<times> task_op) list \<Rightarrow> task_supervisor \<Rightarrow> bool" where
  "ops_ok [] st = True"
| "ops_ok ((now, x) # ops) st = (op_ok x st \<and> ops_ok ops (ts_step now x st))"

end
