(* ===== verification/Task_Invariants.thy ===== *)
theory Task_Invariants
  imports Task_Supervisor
begin

text \<open>
  What the task scheduler keeps: the table of tasks is acyclic, the executions in progress are
  exactly the running tasks, a running task has its dependencies completed, nobody waits on a
  finished task, and no wake-up is lost.
\<close>

section \<open>Selectors of the helpers\<close>

named_theorems su_simps \<open>what the helpers of the scheduler change\<close>

lemma persist_simps [su_simps]:
  "su_tasks (persist st) = su_tasks st" "su_running (persist st) = su_running st" "su_live (persist st) = su_live st"
  "su_finalizing (persist st) = su_finalizing st" "su_waiters (persist st) = su_waiters st"
  "su_resolved (persist st) = su_resolved st" "su_pumpQueued (persist st) = su_pumpQueued st"
  "su_shuttingDown (persist st) = su_shuttingDown st" "su_nextRun (persist st) = su_nextRun st"
  "su_maxConcurrent (persist st) = su_maxConcurrent st"
  by (simp_all add: persist_def)

lemma put_simps [su_simps]:
  "su_tasks (put_task t st) = om_set (su_tasks st) (tk_id t) t" "su_running (put_task t st) = su_running st"
  "su_live (put_task t st) = su_live st" "su_finalizing (put_task t st) = su_finalizing st"
  "su_waiters (put_task t st) = su_waiters st" "su_resolved (put_task t st) = su_resolved st"
  "su_pumpQueued (put_task t st) = su_pumpQueued st" "su_shuttingDown (put_task t st) = su_shuttingDown st"
  "su_nextRun (put_task t st) = su_nextRun st" "su_maxConcurrent (put_task t st) = su_maxConcurrent st"
  by (simp_all add: put_task_def)

lemma transition_simps [su_simps]:
  "su_tasks (transition now t s st) = om_set (su_tasks st) (tk_id t) (t\<lparr>tk_status := s, tk_updatedAt := now\<rparr>)"
  "su_running (transition now t s st) = su_running st"
  "su_live (transition now t s st) = su_live st" "su_finalizing (transition now t s st) = su_finalizing st"
  "su_waiters (transition now t s st) = su_waiters st" "su_resolved (transition now t s st) = su_resolved st"
  "su_pumpQueued (transition now t s st) = su_pumpQueued st"
  "su_shuttingDown (transition now t s st) = su_shuttingDown st"
  "su_nextRun (transition now t s st) = su_nextRun st" "su_maxConcurrent (transition now t s st) = su_maxConcurrent st"
  by (simp_all add: transition_def su_simps)

lemma emit_simps [su_simps]:
  "su_tasks (emit_task now i ty m st) = su_tasks st" "su_running (emit_task now i ty m st) = su_running st"
  "su_live (emit_task now i ty m st) = su_live st" "su_finalizing (emit_task now i ty m st) = su_finalizing st"
  "su_waiters (emit_task now i ty m st) = su_waiters st" "su_resolved (emit_task now i ty m st) = su_resolved st"
  "su_pumpQueued (emit_task now i ty m st) = su_pumpQueued st"
  "su_shuttingDown (emit_task now i ty m st) = su_shuttingDown st"
  "su_nextRun (emit_task now i ty m st) = su_nextRun st" "su_maxConcurrent (emit_task now i ty m st) = su_maxConcurrent st"
  by (simp_all add: emit_task_def split: option.splits)

lemma notify_simps [su_simps]:
  "su_tasks (notifyWaiters i st) = su_tasks st" "su_running (notifyWaiters i st) = su_running st"
  "su_live (notifyWaiters i st) = su_live st" "su_finalizing (notifyWaiters i st) = su_finalizing st"
  "su_pumpQueued (notifyWaiters i st) = su_pumpQueued st"
  "su_shuttingDown (notifyWaiters i st) = su_shuttingDown st"
  "su_nextRun (notifyWaiters i st) = su_nextRun st" "su_maxConcurrent (notifyWaiters i st) = su_maxConcurrent st"
  by (simp_all add: notifyWaiters_def split: option.splits)

lemma schedule_simps [su_simps]:
  "su_tasks (schedulePump st) = su_tasks st" "su_running (schedulePump st) = su_running st"
  "su_live (schedulePump st) = su_live st" "su_finalizing (schedulePump st) = su_finalizing st"
  "su_waiters (schedulePump st) = su_waiters st" "su_resolved (schedulePump st) = su_resolved st"
  "su_shuttingDown (schedulePump st) = su_shuttingDown st"
  "su_nextRun (schedulePump st) = su_nextRun st" "su_maxConcurrent (schedulePump st) = su_maxConcurrent st"
  "su_pumpQueued (schedulePump st) = (su_pumpQueued st \<or> \<not> su_shuttingDown st)"
  by (auto simp: schedulePump_def)

lemma notify_waiters:
  "task_of st i = Some t \<Longrightarrow> om_get (su_waiters (notifyWaiters i st)) j = (if j = i then None else om_get (su_waiters st) j)"
  by (auto simp: notifyWaiters_def split: option.splits)

lemma notify_resolved:
  "\<exists>ws. su_resolved (notifyWaiters i st) = su_resolved st @ map (\<lambda>w. (w, the (task_of st i))) ws \<and> (ws \<noteq> [] \<longrightarrow> task_of st i \<noteq> None)"
  by (auto simp: notifyWaiters_def split: option.splits)

lemma task_of_simps [su_simps]:
  "task_of (transition now t s st) i = (if i = tk_id t then Some (t\<lparr>tk_status := s, tk_updatedAt := now\<rparr>) else task_of st i)"
  "task_of (put_task t st) i = (if i = tk_id t then Some t else task_of st i)"
  "task_of (emit_task now j ty m st) i = task_of st i" "task_of (notifyWaiters j st) i = task_of st i"
  "task_of (schedulePump st) i = task_of st i" "task_of (persist st) i = task_of st i"
  by (auto simp: task_of_def su_simps)

section \<open>The table of tasks\<close>

text \<open>Dependencies name earlier tasks, so the dependency graph is acyclic.\<close>

fun deps_earlier :: "string set \<Rightarrow> (string \<times> task_record) list \<Rightarrow> bool" where
  "deps_earlier known [] = True"
| "deps_earlier known ((k, t) # m) = (set (tk_dependencies t) \<subseteq> known \<and> deps_earlier (insert k known) m)"

definition tasks_ok :: "(string, task_record) omap \<Rightarrow> bool" where
  "tasks_ok m \<longleftrightarrow> om_wf m \<and> (\<forall>k t. om_get m k = Some t \<longrightarrow> tk_id t = k) \<and> deps_earlier {} m"

lemma deps_earlier_append:
  "deps_earlier S (xs @ ys) \<longleftrightarrow> deps_earlier S xs \<and> deps_earlier (S \<union> fst ` set xs) ys"
  by (induction xs arbitrary: S) auto

lemma deps_earlier_set:
  "om_get m k = Some t \<Longrightarrow> tk_dependencies t' = tk_dependencies t \<Longrightarrow> deps_earlier S m \<Longrightarrow> deps_earlier S (om_set m k t')"
  by (induction m k t' arbitrary: S rule: om_set.induct) (auto simp: om_get_def split: if_splits)

lemma om_set_append_new: "om_get m k = None \<Longrightarrow> om_set m k v = m @ [(k, v)]"
  by (induction m k v rule: om_set.induct) (auto simp: om_get_def split: if_splits)

lemma tasks_ok_set:
  "tasks_ok m \<Longrightarrow> om_get m (tk_id t') = Some t \<Longrightarrow> tk_dependencies t' = tk_dependencies t \<Longrightarrow> tasks_ok (om_set m (tk_id t') t')"
  by (auto simp: tasks_ok_def intro: deps_earlier_set)

lemma tasks_ok_new:
  "tasks_ok m \<Longrightarrow> om_get m (tk_id t) = None \<Longrightarrow> set (tk_dependencies t) \<subseteq> set (om_keys m) \<Longrightarrow> tasks_ok (om_set m (tk_id t) t)"
  by (auto simp: tasks_ok_def om_set_append_new [of m] deps_earlier_append om_keys_def om_wf_def om_get_def
      map_of_eq_None_iff split: if_splits option.splits)

lemma deps_earlier_split:
  "deps_earlier S m \<Longrightarrow> om_keys m = done @ i # rest \<Longrightarrow> distinct (om_keys m) \<Longrightarrow> om_get m i = Some t \<Longrightarrow>
     set (tk_dependencies t) \<subseteq> S \<union> set done"
proof (induction m arbitrary: S "done")
  case (Cons p m)
  obtain k u where p: "p = (k, u)" by (cases p)
  show ?case
  proof (cases "done")
    case Nil
    with Cons.prems p show ?thesis by (auto simp: om_keys_def om_get_def)
  next
    case (Cons d ds)
    then have "k = d" "om_keys m = ds @ i # rest" "i \<noteq> k"
      using Cons.prems(2,3) p by (auto simp: om_keys_def)
    moreover have "om_get m i = Some t" using Cons.prems(4) p \<open>i \<noteq> k\<close> by (simp add: om_get_def)
    ultimately show ?thesis
      using Cons.IH [of "insert k S" ds] Cons.prems(1,3) p Cons by (auto simp: om_keys_def)
  qed
qed (simp add: om_keys_def)

section \<open>Executions\<close>

definition status_of :: "task_supervisor \<Rightarrow> string \<Rightarrow> task_status option" where
  "status_of st i = map_option tk_status (task_of st i)"

definition runs_ok :: "task_supervisor \<Rightarrow> bool" where
  "runs_ok st \<longleftrightarrow>
     distinct (map ex_task (su_live st)) \<and>
     (\<forall>i. status_of st i = Some Running \<longleftrightarrow> i \<in> set (map ex_task (su_live st))) \<and>
     distinct (map ex_run (su_live st) @ map ex_run (su_finalizing st)) \<and>
     (\<forall>n \<in> set (map ex_run (su_live st) @ map ex_run (su_finalizing st)). n < su_nextRun st) \<and>
     om_wf (su_running st) \<and>
     (\<forall>i. om_has (su_running st) i \<longrightarrow> i \<in> set (map ex_task (su_live st) @ map ex_task (su_finalizing st))) \<and>
     length (su_running st) \<le> su_maxConcurrent st \<and> 1 \<le> su_maxConcurrent st"

definition waiters_ok :: "task_supervisor \<Rightarrow> bool" where
  "waiters_ok st \<longleftrightarrow>
     (\<forall>i ws. om_get (su_waiters st) i = Some ws \<longrightarrow> (\<exists>s. status_of st i = Some s \<and> \<not> terminal s)) \<and>
     (\<forall>(w, t) \<in> set (su_resolved st). terminal (tk_status t))"

text \<open>A running task has its dependencies completed.\<close>

definition deps_done :: "task_supervisor \<Rightarrow> bool" where
  "deps_done st \<longleftrightarrow> (\<forall>i t. task_of st i = Some t \<longrightarrow> tk_status t = Running \<longrightarrow>
     (\<forall>d \<in> set (tk_dependencies t). status_of st d = Some Completed))"

definition supervisor_inv :: "task_supervisor \<Rightarrow> bool" where
  "supervisor_inv st \<longleftrightarrow> tasks_ok (su_tasks st) \<and> runs_ok st \<and> waiters_ok st \<and> deps_done st"

lemma tk_id_of: "tasks_ok (su_tasks st) \<Longrightarrow> task_of st i = Some t \<Longrightarrow> tk_id t = i"
  by (simp add: tasks_ok_def task_of_def)

lemma status_of_simps [su_simps]:
  "status_of (transition now t s st) i = (if i = tk_id t then Some s else status_of st i)"
  "status_of (put_task t st) i = (if i = tk_id t then Some (tk_status t) else status_of st i)"
  "status_of (emit_task now j ty m st) i = status_of st i" "status_of (notifyWaiters j st) i = status_of st i"
  "status_of (schedulePump st) i = status_of st i" "status_of (persist st) i = status_of st i"
  by (simp_all add: status_of_def su_simps)

text \<open>
  One change of one task, not from or to \<open>Completed\<close> unless it was running: the shape of all
  transitions. The other fields may change in ways the conditions allow.
\<close>

lemma transition_tasks_ok:
  "tasks_ok (su_tasks st) \<Longrightarrow> task_of st (tk_id t') = Some t \<Longrightarrow> tk_dependencies t' = tk_dependencies t \<Longrightarrow>
     tasks_ok (su_tasks (transition now t' s st))"
  by (auto simp: su_simps task_of_def
      intro!: tasks_ok_set [of _ "t'\<lparr>tk_status := s, tk_updatedAt := now\<rparr>" t, simplified])

lemma transition_deps_done:
  assumes "deps_done st" "task_of st (tk_id t') = Some t" "tk_status t \<noteq> Completed"
    "s = Running \<Longrightarrow> \<forall>d \<in> set (tk_dependencies t'). status_of st d = Some Completed"
  shows "deps_done (transition now t' s st)"
  unfolding deps_done_def
proof (intro allI impI ballI)
  fix i u d
  assume u: "task_of (transition now t' s st) i = Some u" "tk_status u = Running" "d \<in> set (tk_dependencies u)"
  have nd: "status_of st d = Some Completed \<Longrightarrow> status_of (transition now t' s st) d = Some Completed"
    using assms(2,3) by (auto simp: su_simps status_of_def)
  show "status_of (transition now t' s st) d = Some Completed"
  proof (cases "i = tk_id t'")
    case True
    with u have "s = Running" "d \<in> set (tk_dependencies t')" by (auto simp: su_simps)
    with assms(4) nd show ?thesis by blast
  next
    case False
    with u have "task_of st i = Some u" by (simp add: su_simps)
    with u assms(1) nd show ?thesis unfolding deps_done_def by blast
  qed
qed

lemma runs_ok_helpers [simp]:
  "runs_ok (emit_task now i ty m st) = runs_ok st" "runs_ok (notifyWaiters i st) = runs_ok st"
  "runs_ok (schedulePump st) = runs_ok st" "runs_ok (persist st) = runs_ok st"
  by (simp_all add: runs_ok_def su_simps)

lemma deps_done_helpers [simp]:
  "deps_done (emit_task now i ty m st) = deps_done st" "deps_done (notifyWaiters i st) = deps_done st"
  "deps_done (schedulePump st) = deps_done st" "deps_done (persist st) = deps_done st"
  by (simp_all add: deps_done_def su_simps)

lemma waiters_ok_helpers [simp]:
  "waiters_ok (emit_task now i ty m st) = waiters_ok st"
  "waiters_ok (schedulePump st) = waiters_ok st" "waiters_ok (persist st) = waiters_ok st"
  by (simp_all add: waiters_ok_def su_simps)

lemma transition_runs_ok:
  "runs_ok st \<Longrightarrow> task_of st (tk_id t') = Some t \<Longrightarrow> tk_status t \<noteq> Running \<Longrightarrow> s \<noteq> Running \<Longrightarrow>
     runs_ok (transition now t' s st)"
proof -
  assume a: "runs_ok st" "task_of st (tk_id t') = Some t" "tk_status t \<noteq> Running" "s \<noteq> Running"
  then have "status_of st (tk_id t') \<noteq> Some Running" by (simp add: status_of_def)
  with a have "(status_of (transition now t' s st) i = Some Running) = (status_of st i = Some Running)" for i
    by (auto simp: su_simps)
  then show ?thesis using a(1) unfolding runs_ok_def by (simp add: su_simps)
qed

lemma transition_waiters_ok:
  "waiters_ok st \<Longrightarrow> \<not> terminal s \<Longrightarrow> waiters_ok (transition now t' s st)"
  by (auto simp: waiters_ok_def su_simps)

lemma notify_waiters_ok:
  assumes "waiters_ok st" "task_of st (tk_id t') = Some t" "terminal s"
  shows "waiters_ok (notifyWaiters (tk_id t') (emit_task now' i ty m (transition now t' s st)))"
proof -
  let ?st = "emit_task now' i ty m (transition now t' s st)"
  have t: "task_of ?st (tk_id t') = Some (t'\<lparr>tk_status := s, tk_updatedAt := now\<rparr>)" by (simp add: su_simps)
  obtain ws where r: "su_resolved (notifyWaiters (tk_id t') ?st) =
      su_resolved ?st @ map (\<lambda>w. (w, t'\<lparr>tk_status := s, tk_updatedAt := now\<rparr>)) ws"
    using notify_resolved [of "tk_id t'" ?st] t by auto
  show ?thesis
    using assms r by (auto simp: waiters_ok_def su_simps notify_waiters [OF t])
qed

text \<open>Ending a task that is not running: cancelled by a call, failed by the pump.\<close>

lemma end_idle_task:
  assumes "supervisor_inv st" "task_of st (tk_id t') = Some t" "tk_dependencies t' = tk_dependencies t"
    "\<not> terminal (tk_status t)" "tk_status t \<noteq> Running" "terminal s"
  shows "supervisor_inv (notifyWaiters (tk_id t') (emit_task now' i ty m (transition now t' s st)))"
proof -
  have "tk_status t \<noteq> Completed" "s \<noteq> Running" using assms(4,6) by auto
  then show ?thesis
    using assms
    using transition_tasks_ok [of st t' t now s]
    by (auto simp: supervisor_inv_def notify_simps(1) emit_simps(1)
        intro!: transition_runs_ok transition_deps_done notify_waiters_ok)
qed

text \<open>Requeueing or parking a task that is not running.\<close>

lemma requeue_task:
  assumes "supervisor_inv st" "task_of st (tk_id t') = Some t" "tk_dependencies t' = tk_dependencies t"
    "tk_status t \<noteq> Running" "tk_status t \<noteq> Completed" "s \<noteq> Running" "\<not> terminal s"
  shows "supervisor_inv (transition now t' s st)"
  using assms by (auto simp: supervisor_inv_def intro!: transition_tasks_ok transition_runs_ok
      transition_waiters_ok transition_deps_done)

lemma supervisor_inv_helpers [simp]:
  "supervisor_inv (emit_task now i ty m st) = supervisor_inv st"
  "supervisor_inv (schedulePump st) = supervisor_inv st" "supervisor_inv (persist st) = supervisor_inv st"
  by (simp_all add: supervisor_inv_def su_simps)

section \<open>Each operation keeps the invariant\<close>

lemma abort_maps [simp]:
  "map ex_task (abort_run r n xs) = map ex_task xs" "map ex_run (abort_run r n xs) = map ex_run xs"
  by (induction xs) (auto simp: abort_run_def)

lemma live_cong_inv:
  assumes "supervisor_inv st" "map ex_task xs = map ex_task (su_live st)" "map ex_run xs = map ex_run (su_live st)"
  shows "supervisor_inv (st\<lparr>su_live := xs\<rparr>)"
proof -
  have "task_of (st\<lparr>su_live := xs\<rparr>) i = task_of st i" for i by (simp add: task_of_def)
  then have "status_of (st\<lparr>su_live := xs\<rparr>) i = status_of st i" for i by (simp add: status_of_def)
  with assms show ?thesis
    by (simp add: supervisor_inv_def runs_ok_def waiters_ok_def deps_done_def task_of_def del: set_map)
qed

lemma abort_inv: "supervisor_inv st \<Longrightarrow> supervisor_inv (st\<lparr>su_live := abort_run r n (su_live st)\<rparr>)"
  by (rule live_cong_inv) simp_all

lemma cancel_inv: "supervisor_inv st \<Longrightarrow> supervisor_inv (snd (cancelTask now i st))"
proof (cases "task_of st i")
  case (Some t)
  assume inv: "supervisor_inv st"
  with Some have i: "tk_id t = i" using tk_id_of [of st i t] by (simp add: supervisor_inv_def)
  consider "terminal (tk_status t)" | "tk_status t = Running" | "\<not> terminal (tk_status t)" "tk_status t \<noteq> Running" by blast
  then show ?thesis
  proof cases
    case 2
    have "supervisor_inv (st\<lparr>su_live := abort_run r n (su_live st)\<rparr>)" for r n
      using inv by (rule abort_inv)
    with 2 Some inv show ?thesis by (auto simp: cancelTask_def split: option.splits)
  next
    case 3
    with Some inv i end_idle_task [of st "t\<lparr>tk_error := Some ''Task cancelled''\<rparr>" t Cancelled] show ?thesis
      by (simp add: cancelTask_def Let_def)
  qed (use Some inv in \<open>simp add: cancelTask_def\<close>)
qed (simp add: cancelTask_def)

lemma retry_inv: "supervisor_inv st \<Longrightarrow> supervisor_inv (snd (retryTask now i st))"
proof (cases "task_of st i")
  case (Some t)
  assume inv: "supervisor_inv st"
  with Some have i: "tk_id t = i" using tk_id_of [of st i t] by (simp add: supervisor_inv_def)
  let ?t = "t\<lparr>tk_maxAttempts := max (tk_maxAttempts t) (tk_attempt t + 1), tk_error := None, tk_completedAt := None\<rparr>"
  show ?thesis
  proof (cases "\<not> terminal (tk_status t) \<or> tk_status t = Completed")
    case True
    with Some inv show ?thesis by (simp add: retryTask_def)
  next
    case False
    then have "tk_status t \<noteq> Running" by auto
    with False Some inv i requeue_task [of st ?t t Queued now] show ?thesis
      by (simp add: retryTask_def Let_def)
  qed
qed (simp add: retryTask_def)

lemma wait_inv: "supervisor_inv st \<Longrightarrow> supervisor_inv (snd (waitForTask w i st))"
  by (auto simp: waitForTask_def supervisor_inv_def runs_ok_def waiters_ok_def deps_done_def status_of_def task_of_def
      split: option.splits)

lemma wait_timeout_inv: "supervisor_inv st \<Longrightarrow> supervisor_inv (waitTimeout w i st)"
  by (auto simp: waitTimeout_def supervisor_inv_def runs_ok_def waiters_ok_def deps_done_def status_of_def task_of_def
      split: option.splits)

lemma runs_ok_tasks: "runs_ok st \<Longrightarrow> su_tasks st' = su_tasks st \<Longrightarrow> su_live st' = su_live st \<Longrightarrow>
    su_finalizing st' = su_finalizing st \<Longrightarrow> su_running st' = su_running st \<Longrightarrow> su_nextRun st' = su_nextRun st \<Longrightarrow>
    su_maxConcurrent st' = su_maxConcurrent st \<Longrightarrow> runs_ok st'"
  by (simp add: runs_ok_def status_of_def task_of_def)

text \<open>Taking an execution out of a list of executions with distinct numbers.\<close>

lemma filter_run_map:
  assumes "distinct (map ex_run xs)" "x \<in> set xs" "i \<in> set (map ex_task xs)" "i \<noteq> ex_task x"
  shows "i \<in> set (map ex_task (filter (\<lambda>y. ex_run y \<noteq> ex_run x) xs))"
proof -
  from assms(3) obtain y where y: "y \<in> set xs" "i = ex_task y" by auto
  have "ex_run y \<noteq> ex_run x"
    using assms(1,2,4) y by (auto simp: distinct_map inj_on_def)
  with y show ?thesis by auto
qed

lemma finally_inv:
  assumes "supervisor_inv st"
  shows "supervisor_inv (run_finally run st)"
proof (cases "find (\<lambda>x. ex_run x = run) (su_finalizing st)")
  case (Some x)
  have x: "x \<in> set (su_finalizing st)" "ex_run x = run" using find_Some_in_set [OF Some] by auto
  let ?fin = "filter (\<lambda>y. ex_run y \<noteq> run) (su_finalizing st)"
  let ?st = "st\<lparr>su_finalizing := ?fin, su_running := om_delete (su_running st) (ex_task x)\<rparr>"
  have ro: "runs_ok st" using assms by (simp add: supervisor_inv_def)
  have same: "status_of ?st i = status_of st i" "task_of ?st i = task_of st i" for i
    by (simp_all add: status_of_def task_of_def)
  have "distinct (map ex_run (su_live st) @ map ex_run ?fin)"
    using ro by (auto simp: runs_ok_def distinct_map_filter)
  moreover have "\<forall>n \<in> set (map ex_run (su_live st) @ map ex_run ?fin). n < su_nextRun st"
    using ro by (auto simp: runs_ok_def)
  moreover have "om_wf (om_delete (su_running st) (ex_task x))" using ro by (auto simp: runs_ok_def)
  moreover have "i \<in> set (map ex_task (su_live st) @ map ex_task ?fin)"
    if "om_has (om_delete (su_running st) (ex_task x)) i" for i
  proof -
    from that have i: "om_has (su_running st) i" "i \<noteq> ex_task x" by (auto simp: om_has_def split: if_splits)
    have "distinct (map ex_run (su_finalizing st))" using ro by (simp add: runs_ok_def)
    with i ro filter_run_map [OF this x(1) _ i(2)] x(2) show ?thesis by (auto simp: runs_ok_def)
  qed
  moreover have "length (om_delete (su_running st) (ex_task x)) \<le> su_maxConcurrent st"
  proof -
    have "length (om_delete (su_running st) (ex_task x)) \<le> length (su_running st)" by (simp add: om_delete_def)
    then show ?thesis using ro unfolding runs_ok_def by linarith
  qed
  ultimately have "runs_ok ?st"
    using ro unfolding runs_ok_def same by simp
  moreover have "waiters_ok ?st" "deps_done ?st"
    using assms by (simp_all add: supervisor_inv_def waiters_ok_def deps_done_def same)
  ultimately have "supervisor_inv ?st" using assms by (simp add: supervisor_inv_def)
  with Some show ?thesis by (simp add: run_finally_def)
qed (simp add: run_finally_def assms)

text \<open>Changes that keep status and dependencies.\<close>

lemma put_same_inv:
  assumes "supervisor_inv st" "task_of st (tk_id t') = Some t" "tk_status t' = tk_status t"
    "tk_dependencies t' = tk_dependencies t"
  shows "supervisor_inv (put_task t' st)"
proof -
  have same: "status_of (put_task t' st) i = status_of st i" for i
    using assms(2,3) by (auto simp: su_simps status_of_def)
  have "tasks_ok (su_tasks (put_task t' st))"
    using assms by (auto simp: supervisor_inv_def su_simps task_of_def intro: tasks_ok_set)
  moreover have "runs_ok (put_task t' st)"
    using assms(1) unfolding supervisor_inv_def runs_ok_def same by (simp add: su_simps)
  moreover have "waiters_ok (put_task t' st)"
    using assms(1) unfolding supervisor_inv_def waiters_ok_def same by (simp add: su_simps)
  moreover have "deps_done (put_task t' st)"
    using assms unfolding supervisor_inv_def deps_done_def same by (auto simp: su_simps)
  ultimately show ?thesis by (simp add: supervisor_inv_def)
qed

lemma put_new_inv:
  assumes "supervisor_inv st" "task_of st (tk_id t) = None" "tk_status t = Queued"
    "\<forall>d \<in> set (tk_dependencies t). task_of st d \<noteq> None"
  shows "supervisor_inv (put_task t st)"
proof -
  have none: "status_of st (tk_id t) = None" using assms(2) by (simp add: status_of_def)
  have run: "(status_of (put_task t st) i = Some Running) = (status_of st i = Some Running)" for i
    using none assms(3) by (auto simp: su_simps)
  have keys: "set (tk_dependencies t) \<subseteq> set (om_keys (su_tasks st))"
    using assms(4) om_has_iff [of "su_tasks st"] by (fastforce simp: task_of_def om_has_def)
  have "tasks_ok (su_tasks (put_task t st))"
    using assms(1,2) keys by (simp add: supervisor_inv_def su_simps task_of_def tasks_ok_new)
  moreover have "runs_ok (put_task t st)"
    using assms(1) unfolding supervisor_inv_def runs_ok_def run by (simp add: su_simps)
  moreover have "waiters_ok (put_task t st)"
    using assms(1) none unfolding supervisor_inv_def waiters_ok_def by (force simp: su_simps)
  moreover have "deps_done (put_task t st)"
    using assms none unfolding supervisor_inv_def deps_done_def
    by (auto simp: su_simps split: if_splits)
  ultimately show ?thesis by (simp add: supervisor_inv_def)
qed

lemma link_parent_inv:
  assumes "supervisor_inv st"
  shows "supervisor_inv (link_parent t st)"
proof -
  have "supervisor_inv (put_task (p\<lparr>tk_childTaskIds := cs\<rparr>) st)" if "task_of st i = Some p" for i p cs
    using that assms tk_id_of [of st i p] by (intro put_same_inv [of st _ p]) (auto simp: supervisor_inv_def)
  then show ?thesis using assms by (auto simp: link_parent_def split: option.splits)
qed

lemma spawn_inv:
  assumes "supervisor_inv st" "task_of st i = None"
  shows "supervisor_inv (snd (spawnTask i now opts st))"
proof (cases "find (\<lambda>d. task_of st d = None) (sp_dependencies opts)")
  case None
  then have "supervisor_inv (put_task (new_task i now opts) st)"
    using assms by (intro put_new_inv) (auto simp: new_task_def find_None_iff_ball)
  with None assms(1) link_parent_inv show ?thesis by (simp add: spawnTask_def Let_def)
qed (simp add: spawnTask_def assms)

lemma fold_abort_maps:
  "map ex_task (fold (abort_run r) ns xs) = map ex_task xs" "map ex_run (fold (abort_run r) ns xs) = map ex_run xs"
  by (induction ns arbitrary: xs) simp_all

lemma inv_flags [simp]:
  "supervisor_inv (st\<lparr>su_shuttingDown := b\<rparr>) = supervisor_inv st"
  "supervisor_inv (st\<lparr>su_pumpQueued := b\<rparr>) = supervisor_inv st"
  by (simp_all add: supervisor_inv_def runs_ok_def waiters_ok_def deps_done_def status_of_def task_of_def)

lemma shutdown_inv:
  assumes "supervisor_inv st"
  shows "supervisor_inv (shutdown st)"
proof -
  let ?xs = "fold (abort_run ''Orchestrator shutting down'') (om_values (su_running st)) (su_live st)"
  have eq: "shutdown st = (st\<lparr>su_live := ?xs\<rparr>)\<lparr>su_shuttingDown := True\<rparr>" by (simp add: shutdown_def)
  show ?thesis unfolding eq inv_flags by (rule live_cong_inv [OF assms]) (simp_all only: fold_abort_maps)
qed

lemma timer_inv: "supervisor_inv st \<Longrightarrow> supervisor_inv (timer_fires run st)"
  by (auto simp: timer_fires_def abort_inv split: option.splits)

lemma progress_inv: "supervisor_inv st \<Longrightarrow> supervisor_inv (report_progress now run m st)"
  by (auto simp: report_progress_def split: option.splits)

text \<open>Starting a task.\<close>

lemma start_inv:
  assumes inv: "supervisor_inv st" and t: "task_of st (tk_id t) = Some t" and s: "tk_status t \<in> {Queued, Waiting}"
    and deps: "\<forall>d \<in> set (tk_dependencies t). status_of st d = Some Completed"
    and room: "length (su_running st) < su_maxConcurrent st"
  shows "supervisor_inv (startTask now t st)"
proof -
  let ?t = "t\<lparr>tk_attempt := tk_attempt t + 1, tk_startedAt := Some now, tk_completedAt := None, tk_error := None\<rparr>"
  let ?st = "startTask now t st"
  have ro: "runs_ok st" using inv by (simp add: supervisor_inv_def)
  have nr: "status_of st (tk_id t) \<noteq> Some Running" using t s by (auto simp: status_of_def)
  then have fresh: "tk_id t \<notin> set (map ex_task (su_live st))" using ro unfolding runs_ok_def by blast
  have st: "status_of ?st i = (if i = tk_id t then Some Running else status_of st i)"
    "task_of ?st i = (if i = tk_id t then Some (?t\<lparr>tk_status := Running, tk_updatedAt := now\<rparr>) else task_of st i)" for i
    by (simp_all add: startTask_def Let_def status_of_def task_of_def su_simps)
  have sel: "su_live ?st = su_live st @ [\<lparr>ex_run = su_nextRun st, ex_task = tk_id t, ex_abort = None\<rparr>]"
    "su_finalizing ?st = su_finalizing st" "su_running ?st = om_set (su_running st) (tk_id t) (su_nextRun st)"
    "su_nextRun ?st = Suc (su_nextRun st)" "su_maxConcurrent ?st = su_maxConcurrent st" "su_waiters ?st = su_waiters st"
    "su_resolved ?st = su_resolved st"
    by (simp_all add: startTask_def Let_def su_simps)
  have "tasks_ok (su_tasks ?st)"
    using transition_tasks_ok [of st ?t t now Running] inv t
    by (simp add: supervisor_inv_def startTask_def Let_def emit_simps)
  moreover have "runs_ok ?st"
  proof -
    have len: "length (om_set (su_running st) (tk_id t) (su_nextRun st)) \<le> su_maxConcurrent st"
      using room length_om_set [of "su_running st" "tk_id t" "su_nextRun st"] by simp
    have keys: "om_has (om_set (su_running st) (tk_id t) (su_nextRun st)) i \<Longrightarrow>
        i = tk_id t \<or> om_has (su_running st) i" for i
      by (auto simp: om_has_def split: if_splits)
    have lt: "su_nextRun st \<notin> set (map ex_run (su_live st) @ map ex_run (su_finalizing st))"
      using ro unfolding runs_ok_def by blast
    show ?thesis
      using ro fresh len keys lt nr unfolding runs_ok_def st sel
      by (auto simp: om_wf_set less_SucI dest!: keys)
  qed
  moreover have "waiters_ok ?st"
    using inv t unfolding supervisor_inv_def waiters_ok_def st sel by force
  moreover have "deps_done ?st"
    unfolding deps_done_def st
  proof (intro allI impI ballI)
    fix i u d
    assume a: "(if i = tk_id t then Some (?t\<lparr>tk_status := Running, tk_updatedAt := now\<rparr>) else task_of st i) = Some u"
      "tk_status u = Running" "d \<in> set (tk_dependencies u)"
    then have "status_of st d = Some Completed"
      using deps inv by (auto simp: supervisor_inv_def deps_done_def split: if_splits)
    then show "(if d = tk_id t then Some Running else status_of st d) = Some Completed"
      using t s by (auto simp: status_of_def)
  qed
  ultimately show ?thesis by (simp add: supervisor_inv_def)
qed

lemma open_none: "\<not> list_ex (dependency_open st) ds \<longleftrightarrow> (\<forall>d \<in> set ds. status_of st d = Some Completed)"
  by (auto simp: list_ex_iff dependency_open_def status_of_def)

lemma pump_task_inv:
  assumes "supervisor_inv st" "task_of st (tk_id t) = Some t" "tk_status t \<in> {Queued, Waiting}"
    "length (su_running st) < su_maxConcurrent st"
  shows "supervisor_inv (pump_task now t st)"
proof -
  have s: "\<not> terminal (tk_status t)" "tk_status t \<noteq> Running" "tk_status t \<noteq> Completed" using assms(3) by auto
  show ?thesis
    using assms s end_idle_task [OF assms(1), of "t\<lparr>tk_error := Some e\<rparr>" t Failed for e]
      requeue_task [OF assms(1,2), of Waiting now] start_inv [OF assms(1-3) _ assms(4)] open_none
    by (simp add: pump_task_def)
qed

lemma pump_task_other: "i \<noteq> tk_id t \<Longrightarrow> task_of (pump_task now t st) i = task_of st i"
  by (simp add: pump_task_def startTask_def Let_def su_simps task_of_def)

lemma pump_task_keys:
  "task_of st (tk_id t) = Some t \<Longrightarrow> om_keys (su_tasks (pump_task now t st)) = om_keys (su_tasks st)"
  by (simp add: pump_task_def startTask_def Let_def su_simps om_keys_set om_has_def task_of_def)

lemma pump_loop_inv:
  "supervisor_inv st \<Longrightarrow> supervisor_inv (pump_loop now is st)"
proof (induction now "is" st rule: pump_loop.induct)
  case (2 now i "is" st)
  show ?case
  proof (cases "su_maxConcurrent st \<le> length (su_running st)")
    case False
    then show ?thesis
    proof (cases "task_of st i")
      case (Some t)
      have "tk_id t = i" using tk_id_of [of st i t] Some "2.prems" by (simp add: supervisor_inv_def)
      then show ?thesis using False Some 2 pump_task_inv [of st t now] by (auto split: if_splits)
    qed (use False 2 in auto)
  qed (use 2 in auto)
qed simp

lemma pump_inv: "supervisor_inv st \<Longrightarrow> supervisor_inv (run_pump now st)"
proof -
  assume inv: "supervisor_inv st"
  then have "supervisor_inv (st\<lparr>su_pumpQueued := False\<rparr>)" by simp
  with inv show ?thesis by (auto simp: run_pump_def pump_def intro: pump_loop_inv)
qed

text \<open>What the continuation of an execution does to its task.\<close>

lemma finish_shape:
  "\<exists>t' s ty m. finish_execution now x outcome t st = emit_task now (tk_id t) ty m (transition now t' s st) \<and>
     tk_id t' = tk_id t \<and> tk_dependencies t' = tk_dependencies t \<and> s \<notin> {Running, Waiting} \<and>
     tk_attempt t' = tk_attempt t \<and> tk_maxAttempts t' = tk_maxAttempts t \<and>
     (s = Queued \<longrightarrow> su_shuttingDown st \<or> tk_attempt t < tk_maxAttempts t) \<and>
     (s = Completed \<longrightarrow> (\<exists>r. outcome = Inr r \<and> tk_result t' = Some r))"
proof (cases outcome)
  case (Inr r)
  then show ?thesis
    unfolding finish_execution_def
    by (intro exI [of _ "t\<lparr>tk_result := Some r, tk_completedAt := Some now\<rparr>"] exI [of _ Completed] exI) auto
next
  case (Inl msg)
  have hf: "\<exists>t' s' ty m. handleFailure now t s msg st = emit_task now (tk_id t) ty m (transition now t' s' st) \<and>
     tk_id t' = tk_id t \<and> tk_dependencies t' = tk_dependencies t \<and> s' \<notin> {Running, Waiting, Completed} \<and>
     tk_attempt t' = tk_attempt t \<and> tk_maxAttempts t' = tk_maxAttempts t \<and>
     (s' = Queued \<longrightarrow> tk_attempt t < tk_maxAttempts t)" if "s \<in> {Failed, TimedOut}" for s
  proof (cases "tk_attempt t < tk_maxAttempts t")
    case True
    then show ?thesis
      unfolding handleFailure_def
      by (intro exI [of _ "t\<lparr>tk_error := Some msg, tk_startedAt := None\<rparr>"] exI [of _ Queued] exI) auto
  next
    case False
    with that show ?thesis
      unfolding handleFailure_def
      by (intro exI [of _ "t\<lparr>tk_error := Some msg, tk_completedAt := Some now\<rparr>"] exI [of _ s] exI) auto
  qed
  consider "su_shuttingDown st" | "\<not> su_shuttingDown st" "ex_abort x \<noteq> None" "str_includes msg ''timed out''"
    | "\<not> su_shuttingDown st" "ex_abort x \<noteq> None" "\<not> str_includes msg ''timed out''"
    | "\<not> su_shuttingDown st" "ex_abort x = None" by blast
  then show ?thesis
  proof cases
    case 1
    then show ?thesis
      unfolding finish_execution_def Inl
      by (intro exI [of _ "t\<lparr>tk_error := None, tk_startedAt := None\<rparr>"] exI [of _ Queued] exI) auto
  next
    case 2
    with Inl have "finish_execution now x outcome t st = handleFailure now t TimedOut msg st"
      by (simp add: finish_execution_def)
    with hf [of TimedOut] show ?thesis by fastforce
  next
    case 3
    with Inl show ?thesis
      unfolding finish_execution_def
      by (intro exI [of _ "t\<lparr>tk_error := Some msg, tk_completedAt := Some now\<rparr>"] exI [of _ Cancelled] exI) auto
  next
    case 4
    with Inl have "finish_execution now x outcome t st = handleFailure now t Failed msg st"
      by (simp add: finish_execution_def)
    with hf [of Failed] show ?thesis by fastforce
  qed
qed

lemma settle_unfold:
  assumes "find (\<lambda>x. ex_run x = run) (su_live st) = Some x" "task_of st (ex_task x) = Some t" "tk_id t = ex_task x"
  shows "\<exists>t' s ty m st2. settle_execution now run outcome st =
      st2\<lparr>su_live := filter (\<lambda>y. ex_run y \<noteq> run) (su_live st), su_finalizing := su_finalizing st @ [x]\<rparr> \<and>
    st2 = (if terminal s then notifyWaiters (tk_id t') else id) (emit_task now (tk_id t) ty m (transition now t' s st)) \<and>
    tk_id t' = tk_id t \<and> tk_dependencies t' = tk_dependencies t \<and> s \<notin> {Running, Waiting} \<and>
    tk_attempt t' = tk_attempt t \<and> tk_maxAttempts t' = tk_maxAttempts t \<and>
    (s = Queued \<longrightarrow> su_shuttingDown st \<or> tk_attempt t < tk_maxAttempts t) \<and>
    (s = Completed \<longrightarrow> (\<exists>r. outcome = Inr r \<and> tk_result t' = Some r))"
proof -
  from finish_shape [of now x outcome t st] obtain t' s ty m where
    f: "finish_execution now x outcome t st = emit_task now (tk_id t) ty m (transition now t' s st)" and
    p: "tk_id t' = tk_id t" "tk_dependencies t' = tk_dependencies t" "s \<notin> {Running, Waiting}"
      "tk_attempt t' = tk_attempt t" "tk_maxAttempts t' = tk_maxAttempts t"
      "s = Queued \<longrightarrow> su_shuttingDown st \<or> tk_attempt t < tk_maxAttempts t"
      "s = Completed \<longrightarrow> (\<exists>r. outcome = Inr r \<and> tk_result t' = Some r)" by blast
  have "task_of (finish_execution now x outcome t st) (ex_task x) = Some (t'\<lparr>tk_status := s, tk_updatedAt := now\<rparr>)"
    using f p(1) assms(3) by (simp add: su_simps)
  then have eq: "settle_execution now run outcome st =
      (let st2 = (if terminal s then notifyWaiters (ex_task x) (finish_execution now x outcome t st)
                  else finish_execution now x outcome t st)
       in st2\<lparr>su_live := filter (\<lambda>y. ex_run y \<noteq> run) (su_live st2), su_finalizing := su_finalizing st2 @ [x]\<rparr>)"
    using assms(1,2) by (simp add: settle_execution_def Let_def)
  let ?st2 = "(if terminal s then notifyWaiters (tk_id t') else id) (emit_task now (tk_id t) ty m (transition now t' s st))"
  have a: "?st2 = (if terminal s then notifyWaiters (ex_task x) (finish_execution now x outcome t st)
                  else finish_execution now x outcome t st)"
    using f p(1) assms(3) by simp
  have b: "su_live ?st2 = su_live st" "su_finalizing ?st2 = su_finalizing st" by (simp_all add: su_simps)
  have e: "settle_execution now run outcome st =
      ?st2\<lparr>su_live := filter (\<lambda>y. ex_run y \<noteq> run) (su_live st), su_finalizing := su_finalizing st @ [x]\<rparr>"
    unfolding eq Let_def a [symmetric] b ..
  show ?thesis
    by (rule exI [of _ t'], rule exI [of _ s], rule exI [of _ ty], rule exI [of _ m], rule exI [of _ ?st2])
       (intro conjI e refl p)
qed

lemma settle_inv:
  assumes inv: "supervisor_inv st"
  shows "supervisor_inv (settle_execution now run outcome st)"
proof (cases "find (\<lambda>x. ex_run x = run) (su_live st)")
  case (Some x)
  have x: "x \<in> set (su_live st)" "ex_run x = run" using find_Some_in_set [OF Some] by auto
  have ro: "runs_ok st" using inv by (simp add: supervisor_inv_def)
  have "status_of st (ex_task x) = Some Running" using ro x(1) unfolding runs_ok_def by auto
  then obtain t where t: "task_of st (ex_task x) = Some t" "tk_status t = Running" by (auto simp: status_of_def)
  have id: "tk_id t = ex_task x" using t tk_id_of [of st "ex_task x" t] inv by (simp add: supervisor_inv_def)
  from settle_unfold [OF Some t(1) id, of now outcome] obtain t' s ty m st2 where
    run: "settle_execution now run outcome st =
      st2\<lparr>su_live := filter (\<lambda>y. ex_run y \<noteq> run) (su_live st), su_finalizing := su_finalizing st @ [x]\<rparr>" and
    st2: "st2 = (if terminal s then notifyWaiters (tk_id t') else id) (emit_task now (tk_id t) ty m (transition now t' s st))" and
    p: "tk_id t' = tk_id t" "tk_dependencies t' = tk_dependencies t" "s \<notin> {Running, Waiting}" by blast
  let ?live = "filter (\<lambda>y. ex_run y \<noteq> run) (su_live st)"
  let ?st = "settle_execution now run outcome st"
  have sel: "su_live ?st = ?live" "su_finalizing ?st = su_finalizing st @ [x]" "su_running ?st = su_running st"
    "su_nextRun ?st = su_nextRun st" "su_maxConcurrent ?st = su_maxConcurrent st" "su_tasks ?st = su_tasks (transition now t' s st)"
    by (simp_all add: run st2 su_simps)
  have status: "status_of ?st i = (if i = ex_task x then Some s else status_of st i)" for i
    using p(1) id by (simp add: status_of_def task_of_def sel su_simps)
  have dl: "distinct (map ex_run (su_live st))" and dt: "distinct (map ex_task (su_live st))"
    using ro by (simp_all add: runs_ok_def)
  have live_tasks: "i \<in> set (map ex_task ?live) \<longleftrightarrow> i \<in> set (map ex_task (su_live st)) \<and> i \<noteq> ex_task x" for i
  proof
    assume "i \<in> set (map ex_task ?live)"
    then obtain y where y: "y \<in> set (su_live st)" "ex_run y \<noteq> run" "i = ex_task y" by auto
    have "ex_task y \<noteq> ex_task x" using dt x y by (auto simp: distinct_map inj_on_def)
    with y show "i \<in> set (map ex_task (su_live st)) \<and> i \<noteq> ex_task x" by auto
  qed (use filter_run_map [OF dl x(1)] x(2) in auto)
  have "tasks_ok (su_tasks ?st)"
    using transition_tasks_ok [of st t' t now s] inv t(1) p id by (simp add: supervisor_inv_def sel)
  moreover have "runs_ok ?st"
    unfolding runs_ok_def sel
  proof (intro conjI)
    show "distinct (map ex_task ?live)" using dt by (simp add: distinct_map_filter)
    show "\<forall>i. (status_of ?st i = Some Running) = (i \<in> set (map ex_task ?live))"
      using ro p(3) unfolding runs_ok_def status live_tasks by auto
    have "run \<notin> set (map ex_run (su_finalizing st))" using ro x unfolding runs_ok_def by auto
    then show "distinct (map ex_run ?live @ map ex_run (su_finalizing st @ [x]))"
      using ro x(2) by (auto simp: runs_ok_def distinct_map_filter)
    show "\<forall>n \<in> set (map ex_run ?live @ map ex_run (su_finalizing st @ [x])). n < su_nextRun st"
      using ro x by (auto simp: runs_ok_def)
    show "\<forall>i. om_has (su_running st) i \<longrightarrow> i \<in> set (map ex_task ?live @ map ex_task (su_finalizing st @ [x]))"
      using ro live_tasks unfolding runs_ok_def by auto
  qed (use ro in \<open>simp_all add: runs_ok_def\<close>)
  moreover have "waiters_ok ?st"
  proof -
    have w: "waiters_ok st2"
      using inv t(1) p id notify_waiters_ok [of st t' t s] transition_waiters_ok [of st s now t']
      by (auto simp: st2 supervisor_inv_def)
    have "status_of st2 i = status_of ?st i" for i
      by (simp add: run status_of_def task_of_def)
    then show ?thesis using w by (simp add: waiters_ok_def run)
  qed
  moreover have "deps_done ?st"
  proof -
    have "deps_done (transition now t' s st)"
      using inv t p id by (intro transition_deps_done [of st t' t]) (auto simp: supervisor_inv_def)
    moreover have "task_of ?st i = task_of (transition now t' s st) i" for i by (simp add: task_of_def sel)
    ultimately show ?thesis by (simp add: deps_done_def status_of_def)
  qed
  ultimately show ?thesis by (simp add: supervisor_inv_def)
qed (simp add: settle_execution_def inv)

section \<open>Recovery\<close>

text \<open>Recovery establishes the invariant from any table of tasks when nothing runs.\<close>

definition at_rest :: "task_supervisor \<Rightarrow> bool" where
  "at_rest st \<longleftrightarrow> tasks_ok (su_tasks st) \<and> waiters_ok st \<and> su_live st = [] \<and> su_finalizing st = [] \<and> su_running st = []
     \<and> 1 \<le> su_maxConcurrent st"

lemma recover_task_rest:
  assumes "at_rest st"
  shows "at_rest (recover_task now i st)"
    and "status_of (recover_task now i st) j = (if j = i \<and> status_of st i = Some Running then Some Queued else status_of st j)"
    and "su_shuttingDown (recover_task now i st) = su_shuttingDown st"
proof -
  have id: "tk_id t = i" if "task_of st i = Some t" for t
    using assms that tk_id_of [of st i t] by (simp add: at_rest_def)
  show "at_rest (recover_task now i st)"
  proof (cases "task_of st i")
    case (Some t)
    let ?t = "t\<lparr>tk_status := Queued, tk_updatedAt := now, tk_error := None\<rparr>"
    have "tasks_ok (om_set (su_tasks st) (tk_id ?t) ?t)"
      using Some assms id [OF Some] by (intro tasks_ok_set [of _ _ t]) (simp_all add: at_rest_def task_of_def)
    moreover have "waiters_ok (put_task ?t st)"
      using assms by (auto simp: at_rest_def waiters_ok_def su_simps)
    ultimately show ?thesis
      using Some assms by (simp add: recover_task_def at_rest_def su_simps)
  qed (simp add: recover_task_def assms)
  show "status_of (recover_task now i st) j = (if j = i \<and> status_of st i = Some Running then Some Queued else status_of st j)"
    using id by (auto simp: recover_task_def su_simps status_of_def split: option.splits)
  show "su_shuttingDown (recover_task now i st) = su_shuttingDown st"
    by (simp add: recover_task_def su_simps split: option.splits)
qed

lemma fold_recover:
  "at_rest st \<Longrightarrow> at_rest (fold (recover_task now) is st) \<and>
     (\<forall>j. status_of (fold (recover_task now) is st) j =
        (if j \<in> set is \<and> status_of st j = Some Running then Some Queued else status_of st j)) \<and>
     su_shuttingDown (fold (recover_task now) is st) = su_shuttingDown st"
proof (induction "is" arbitrary: st)
  case (Cons i "is")
  show ?case
    using Cons.IH [OF recover_task_rest(1) [OF Cons.prems]] recover_task_rest(2,3) [OF Cons.prems] by auto
qed simp

lemma recover_rest_inv:
  assumes "at_rest st"
  shows "supervisor_inv (recoverAfterRestart now st)"
proof -
  let ?st = "fold (recover_task now) (om_keys (su_tasks st)) (st\<lparr>su_shuttingDown := False\<rparr>)"
  have "at_rest (st\<lparr>su_shuttingDown := False\<rparr>)"
    using assms by (simp add: at_rest_def waiters_ok_def status_of_def task_of_def)
  note f = fold_recover [OF this, of now "om_keys (su_tasks st)"]
  have none: "status_of ?st i \<noteq> Some Running" for i
  proof (cases "i \<in> set (om_keys (su_tasks st))")
    case True
    with f show ?thesis by auto
  next
    case False
    then have "status_of (st\<lparr>su_shuttingDown := False\<rparr>) i = None"
      using om_has_iff [of "su_tasks st" i] by (simp add: status_of_def task_of_def om_has_def)
    with f show ?thesis by auto
  qed
  have rest: "at_rest ?st" using f by blast
  then have "runs_ok ?st" using none by (simp add: runs_ok_def at_rest_def om_has_def)
  moreover have "deps_done ?st"
    using none by (auto simp: deps_done_def status_of_def)
  ultimately have "supervisor_inv ?st" using rest by (simp add: supervisor_inv_def at_rest_def)
  then show ?thesis by (simp add: recoverAfterRestart_def)
qed

lemma rest_of_inv: "supervisor_inv st \<Longrightarrow> su_live st = [] \<Longrightarrow> su_finalizing st = [] \<Longrightarrow> at_rest st"
proof -
  assume a: "supervisor_inv st" "su_live st = []" "su_finalizing st = []"
  then have "\<forall>i. \<not> om_has (su_running st) i" by (simp add: supervisor_inv_def runs_ok_def)
  then have "su_running st = []" by (simp add: om_has_iff om_keys_def)
  with a show ?thesis by (simp add: at_rest_def supervisor_inv_def runs_ok_def)
qed

lemma step_inv: "supervisor_inv st \<Longrightarrow> op_ok x st \<Longrightarrow> supervisor_inv (ts_step now x st)"
  by (cases x)
     (simp_all add: spawn_inv cancel_inv retry_inv wait_inv wait_timeout_inv pump_inv settle_inv finally_inv timer_inv
       progress_inv shutdown_inv recover_rest_inv rest_of_inv)

lemma run_inv: "supervisor_inv st \<Longrightarrow> ops_ok ops st \<Longrightarrow> supervisor_inv (ts_run ops st)"
  by (induction ops st rule: ts_run.induct) (simp_all add: step_inv)

lemma new_rest: "at_rest (new_task_supervisor m [])"
  by (simp add: at_rest_def new_task_supervisor_def tasks_ok_def waiters_ok_def)

lemma new_inv: "supervisor_inv (new_task_supervisor m [])"
  by (simp add: supervisor_inv_def new_task_supervisor_def tasks_ok_def waiters_ok_def runs_ok_def deps_done_def
      status_of_def task_of_def om_has_def)

section \<open>No lost wake-up\<close>

definition all_terminal :: "task_supervisor \<Rightarrow> bool" where
  "all_terminal st \<longleftrightarrow> (\<forall>i s. status_of st i = Some s \<longrightarrow> terminal s)"

text \<open>As long as a task is unfinished, something is due to happen.\<close>

definition awake :: "task_supervisor \<Rightarrow> bool" where
  "awake st \<longleftrightarrow> su_pumpQueued st \<or> su_live st \<noteq> [] \<or> su_finalizing st \<noteq> [] \<or> su_shuttingDown st \<or> all_terminal st"

lemma pump_task_live: "su_live (pump_task now t st) = su_live st \<or> su_live (pump_task now t st) \<noteq> []"
  by (auto simp: pump_task_def startTask_def Let_def su_simps)

lemma pump_task_live_mono: "su_live (pump_task now t st) = [] \<Longrightarrow> su_live st = []"
  by (auto simp: pump_task_def startTask_def Let_def su_simps split: if_splits)

lemma pump_loop_live_mono: "su_live (pump_loop now is st) = [] \<Longrightarrow> su_live st = []"
  by (induction now "is" st rule: pump_loop.induct)
     (auto split: if_splits option.splits dest: pump_task_live_mono)

lemma pump_loop_finalizing: "su_finalizing (pump_loop now is st) = su_finalizing st"
  by (induction now "is" st rule: pump_loop.induct)
     (auto simp: pump_task_def startTask_def Let_def su_simps split: option.splits)

lemma pump_task_settles:
  assumes "supervisor_inv st" "task_of st (tk_id t) = Some t" "tk_status t \<in> {Queued, Waiting}"
    "\<forall>d \<in> set (tk_dependencies t). \<exists>s. status_of st d = Some s \<and> terminal s" "su_live (pump_task now t st) = []"
  shows "status_of (pump_task now t st) (tk_id t) = Some Failed"
proof (cases "list_ex (dependency_failed st) (tk_dependencies t)")
  case True
  then show ?thesis by (simp add: pump_task_def su_simps)
next
  case False
  have "status_of st d = Some Completed" if "d \<in> set (tk_dependencies t)" for d
    using assms(4) False that
    by (fastforce simp: list_ex_iff dependency_failed_def status_of_def split: option.splits)
  then have "\<not> list_ex (dependency_open st) (tk_dependencies t)" using open_none by blast
  with False have "pump_task now t st = startTask now t st" by (simp add: pump_task_def)
  with assms(5) show ?thesis by (simp add: startTask_def Let_def su_simps)
qed

lemma pump_loop_finishes:
  assumes "supervisor_inv st" "om_keys (su_tasks st) = done @ is"
    "\<forall>i \<in> set done. \<exists>s. status_of st i = Some s \<and> terminal s"
    "su_live (pump_loop now is st) = []" "su_finalizing st = []"
  shows "all_terminal (pump_loop now is st)"
  using assms
proof (induction now "is" st arbitrary: "done" rule: pump_loop.induct)
  case (1 now st)
  have "i \<in> set done" if "status_of st i = Some s" for i s
    using that "1.prems"(2) om_has_iff [of "su_tasks st" i] by (auto simp: status_of_def task_of_def om_has_def)
  then show ?case using "1.prems"(3) by (fastforce simp: all_terminal_def)
next
  case (2 now i "is" st)
  have live: "su_live st = []" using pump_loop_live_mono [OF "2.prems"(4)] .
  have rest: "at_rest st" using rest_of_inv [OF "2.prems"(1) live "2.prems"(5)] .
  then have room: "\<not> su_maxConcurrent st \<le> length (su_running st)" by (auto simp: at_rest_def)
  have "om_has (su_tasks st) i" using "2.prems"(2) by (simp add: om_has_iff)
  then obtain t where t: "task_of st i = Some t" by (auto simp: om_has_def task_of_def)
  have id: "tk_id t = i" using tk_id_of [of st i t] t rest by (simp add: at_rest_def)
  have nrun: "tk_status t \<noteq> Running"
    using "2.prems"(1) live t unfolding supervisor_inv_def runs_ok_def status_of_def by auto
  show ?case
  proof (cases "tk_status t \<noteq> Queued \<and> tk_status t \<noteq> Waiting")
    case True
    then have "terminal (tk_status t)" using nrun by (cases "tk_status t") auto
    then have "\<forall>j \<in> set (done @ [i]). \<exists>s. status_of st j = Some s \<and> terminal s"
      using "2.prems"(3) t by (auto simp: status_of_def)
    with True t room "2.IH"(2) [OF room t, of "done @ [i]"] "2.prems" show ?thesis by simp
  next
    case False
    then have q: "tk_status t \<in> {Queued, Waiting}" by auto
    have lt: "length (su_running st) < su_maxConcurrent st" using room by simp
    let ?st = "pump_task now t st"
    have step: "pump_loop now (i # is) st = pump_loop now is ?st" using room t False by (simp; blast)
    have lv: "su_live ?st = []" using "2.prems"(4) step pump_loop_live_mono by metis
    have deps: "set (tk_dependencies t) \<subseteq> set done"
    proof -
      have "deps_earlier {} (su_tasks st)" "distinct (om_keys (su_tasks st))"
        using rest by (simp_all add: at_rest_def tasks_ok_def om_wf_def)
      from deps_earlier_split [OF this(1) "2.prems"(2) this(2)] t show ?thesis by (simp add: task_of_def)
    qed
    have st: "status_of ?st i = Some Failed"
      using pump_task_settles [OF "2.prems"(1), of t now] t id q deps "2.prems"(3) lv by auto
    have fin: "su_finalizing ?st = []"
      using "2.prems"(5) by (simp add: pump_task_def startTask_def Let_def su_simps)
    have others: "\<forall>j \<in> set (done @ [i]). \<exists>s. status_of ?st j = Some s \<and> terminal s"
    proof
      fix j assume j: "j \<in> set (done @ [i])"
      show "\<exists>s. status_of ?st j = Some s \<and> terminal s"
      proof (cases "j = i")
        case False
        then have "status_of ?st j = status_of st j" using pump_task_other [of j t now st] id by (simp add: status_of_def)
        with False j "2.prems"(3) show ?thesis by auto
      qed (use st in simp)
    qed
    show ?thesis
      unfolding step
    proof (rule "2.IH"(3) [OF room t False])
      show "supervisor_inv ?st" using pump_task_inv [OF "2.prems"(1) _ q lt] t id by simp
      show "om_keys (su_tasks ?st) = (done @ [i]) @ is"
        using pump_task_keys [of st t now] t id "2.prems"(2) by simp
      show "su_live (pump_loop now is ?st) = []" using "2.prems"(4) step by simp
    qed (use others fin in auto)
  qed
qed

text \<open>Each operation keeps the supervisor awake.\<close>

lemma awake_flags [simp]:
  "awake (emit_task now i ty m st) = awake st" "awake (notifyWaiters i st) = awake st" "awake (persist st) = awake st"
  by (simp_all add: awake_def all_terminal_def su_simps)

lemma awake_schedule: "awake (schedulePump st)"
  by (auto simp: awake_def su_simps)

lemma awake_transition: "awake st \<Longrightarrow> terminal s \<Longrightarrow> awake (transition now t s st)"
  by (auto simp: awake_def all_terminal_def su_simps)

lemma awake_cancel: "awake st \<Longrightarrow> awake (snd (cancelTask now i st))"
proof -
  have "awake (st\<lparr>su_live := abort_run r n (su_live st)\<rparr>) = awake st" for r n
    by (simp add: awake_def all_terminal_def status_of_def task_of_def abort_run_def)
  then show "awake st \<Longrightarrow> awake (snd (cancelTask now i st))"
    by (auto simp: cancelTask_def Let_def awake_transition split: option.splits)
qed

lemma awake_settle:
  assumes "awake st"
  shows "awake (settle_execution now run r st)"
proof (cases "find (\<lambda>x. ex_run x = run) (su_live st)")
  case (Some x)
  then show ?thesis
    using assms by (cases "task_of st (ex_task x)") (simp_all add: settle_execution_def awake_def Let_def)
qed (simp add: settle_execution_def assms)

lemma awake_finally: "awake st \<Longrightarrow> awake (run_finally run st)"
  by (auto simp: run_finally_def awake_schedule split: option.splits)

lemma awake_pump:
  assumes inv: "supervisor_inv st" and aw: "awake st"
  shows "awake (run_pump now st)"
proof (cases "su_pumpQueued st \<and> \<not> su_shuttingDown st")
  case False
  then show ?thesis
    using aw by (auto simp: run_pump_def pump_def awake_def all_terminal_def status_of_def task_of_def)
next
  case True
  let ?u = "st\<lparr>su_pumpQueued := False\<rparr>"
  let ?st = "pump_loop now (om_keys (su_tasks ?u)) ?u"
  have run: "run_pump now st = ?st" using True by (simp add: run_pump_def pump_def)
  show ?thesis
  proof (cases "su_live ?st = [] \<and> su_finalizing ?st = []")
    case True
    then have "su_finalizing ?u = []" using pump_loop_finalizing by metis
    with True inv pump_loop_finishes [of ?u "[]" "om_keys (su_tasks ?u)" now] have "all_terminal ?st" by simp
    then show ?thesis unfolding run by (simp add: awake_def)
  next
    case False
    then show ?thesis unfolding run by (auto simp: awake_def)
  qed
qed

lemma awake_same:
  "awake st \<Longrightarrow> su_tasks st' = su_tasks st \<Longrightarrow> su_pumpQueued st' = su_pumpQueued st \<Longrightarrow>
     (su_live st' = []) = (su_live st = []) \<Longrightarrow> su_finalizing st' = su_finalizing st \<Longrightarrow>
     (su_shuttingDown st \<Longrightarrow> su_shuttingDown st') \<Longrightarrow> awake st'"
  by (auto simp: awake_def all_terminal_def status_of_def task_of_def)

lemma fold_abort_Nil: "(fold (abort_run r) ns xs = []) = (xs = [])"
  by (induction ns arbitrary: xs) (auto simp: abort_run_def)

lemma awake_step:
  assumes "supervisor_inv st" "awake st"
  shows "awake (ts_step now x st)"
proof (cases x)
  case (Spawn i opts)
  then show ?thesis
    using assms(2) by (auto simp: spawnTask_def Let_def awake_schedule split: option.splits)
next
  case (Retry i)
  then show ?thesis
    using assms(2) by (auto simp: retryTask_def Let_def awake_schedule split: option.splits)
next
  case (WaitFor w i)
  then show ?thesis
    using assms(2) by (auto simp: waitForTask_def split: option.splits intro: awake_same)
next
  case (WaitTimeout w i)
  then show ?thesis
    using assms(2) by (auto simp: waitTimeout_def split: option.splits intro: awake_same)
next
  case (Timer run)
  then show ?thesis
    using assms(2) by (auto simp: timer_fires_def abort_run_def split: option.splits intro: awake_same)
next
  case (Progress run m)
  then show ?thesis
    using assms(2) by (auto simp: report_progress_def split: option.splits)
next
  case Shutdown
  then show ?thesis by (simp add: shutdown_def awake_def)
qed (use assms awake_cancel awake_settle awake_finally awake_pump in \<open>simp_all add: recoverAfterRestart_def awake_schedule\<close>)

lemma awake_run: "supervisor_inv st \<Longrightarrow> awake st \<Longrightarrow> ops_ok ops st \<Longrightarrow> awake (ts_run ops st)"
  by (induction ops st rule: ts_run.induct) (simp_all add: awake_step step_inv)

lemma awake_new: "awake (new_task_supervisor m [])"
  by (simp add: awake_def all_terminal_def new_task_supervisor_def status_of_def task_of_def)

end
