(* ===== verification/Task_Guarantees.thy ===== *)
theory Task_Guarantees
  imports Task_Invariants
begin

text \<open>
  The life of one task under the steps of the scheduler: a completed task keeps its result, a task that
  waits for an execution has an attempt left. And the interleaving that breaks the bound on concurrent
  executions and loses a cancellation.
\<close>

section \<open>How a task advances\<close>

definition attempts_ok :: "task_record \<Rightarrow> bool" where
  "attempts_ok t \<longleftrightarrow> tk_attempt t \<le> tk_maxAttempts t \<and>
     (tk_status t \<in> {Queued, Waiting} \<longrightarrow> tk_attempt t < tk_maxAttempts t)"

text \<open>\<open>b\<close>: the scheduler is not shutting down.\<close>

definition task_advances :: "bool \<Rightarrow> task_record \<Rightarrow> task_record \<Rightarrow> bool" where
  "task_advances b t u \<longleftrightarrow>
     (tk_status t = Completed \<longrightarrow> tk_status u = Completed \<and> tk_result u = tk_result t \<and> tk_attempt u = tk_attempt t) \<and>
     (b \<and> attempts_ok t \<longrightarrow> attempts_ok u) \<and> tk_attempt t \<le> tk_attempt u"

definition advances :: "bool \<Rightarrow> task_supervisor \<Rightarrow> task_supervisor \<Rightarrow> bool" where
  "advances b st st' \<longleftrightarrow>
     (\<forall>i t. task_of st i = Some t \<longrightarrow> (\<exists>u. task_of st' i = Some u \<and> task_advances b t u)) \<and>
     (\<forall>i u. task_of st i = None \<longrightarrow> task_of st' i = Some u \<longrightarrow> b \<longrightarrow> attempts_ok u)"

lemma task_advances_refl [simp]: "task_advances b t t"
  by (simp add: task_advances_def)

lemma task_advances_trans: "task_advances b t u \<Longrightarrow> task_advances b u v \<Longrightarrow> task_advances b t v"
  by (auto simp: task_advances_def)

lemma advances_same: "(\<And>i. task_of st' i = task_of st i) \<Longrightarrow> advances b st st'"
  by (simp add: advances_def)

lemma advancesD: "advances b st st' \<Longrightarrow> task_of st i = Some t \<Longrightarrow> \<exists>u. task_of st' i = Some u \<and> task_advances b t u"
  unfolding advances_def by blast

lemma advances_trans: "advances b st st' \<Longrightarrow> advances b st' st'' \<Longrightarrow> advances b st st''"
proof -
  assume a: "advances b st st'" and b: "advances b st' st''"
  show ?thesis
    unfolding advances_def
  proof (intro conjI allI impI)
    fix i t assume "task_of st i = Some t"
    with advancesD [OF a] obtain u where u: "task_of st' i = Some u" "task_advances b t u" by blast
    with advancesD [OF b] obtain v where "task_of st'' i = Some v" "task_advances b u v" by blast
    with u show "\<exists>v. task_of st'' i = Some v \<and> task_advances b t v" using task_advances_trans by blast
  next
    fix i v assume n: "task_of st i = None" "task_of st'' i = Some v" "b"
    show "attempts_ok v"
    proof (cases "task_of st' i")
      case None
      then show ?thesis using b n by (auto simp: advances_def)
    next
      case (Some u)
      with advancesD [OF b] n obtain v' where "task_of st'' i = Some v'" "task_advances b u v'" by blast
      with Some a n show ?thesis by (auto simp: advances_def task_advances_def)
    qed
  qed
qed

text \<open>Changing one task of the table.\<close>

lemma advances_set:
  assumes "task_of st i = Some t" "task_advances b t u" "\<And>j. task_of st' j = (if j = i then Some u else task_of st j)"
  shows "advances b st st'"
  using assms by (auto simp: advances_def)

section \<open>Every step advances every task\<close>

lemma advances_cancel: "tasks_ok (su_tasks st) \<Longrightarrow> advances b st (snd (cancelTask now i st))"
proof (cases "task_of st i")
  case (Some t)
  assume ok: "tasks_ok (su_tasks st)"
  have id: "tk_id t = i" using tk_id_of [OF ok Some] .
  let ?u = "t\<lparr>tk_error := Some ''Task cancelled'', tk_status := Cancelled, tk_updatedAt := now\<rparr>"
  consider "terminal (tk_status t)" | "tk_status t = Running" | "\<not> terminal (tk_status t)" "tk_status t \<noteq> Running" by blast
  then show ?thesis
  proof cases
    case 3
    then have "task_advances b t ?u" by (auto simp: task_advances_def attempts_ok_def)
    then show ?thesis
      using 3 id Some by (intro advances_set [OF Some]) (auto simp: cancelTask_def Let_def su_simps)
  qed (use Some in \<open>auto simp: cancelTask_def task_of_def intro!: advances_same split: option.splits\<close>)
qed (simp add: cancelTask_def advances_same)

lemma advances_retry: "tasks_ok (su_tasks st) \<Longrightarrow> advances b st (snd (retryTask now i st))"
proof (cases "task_of st i")
  case (Some t)
  assume ok: "tasks_ok (su_tasks st)"
  have id: "tk_id t = i" using tk_id_of [OF ok Some] .
  let ?u = "t\<lparr>tk_maxAttempts := max (tk_maxAttempts t) (tk_attempt t + 1), tk_error := None, tk_completedAt := None,
    tk_status := Queued, tk_updatedAt := now\<rparr>"
  show ?thesis
  proof (cases "\<not> terminal (tk_status t) \<or> tk_status t = Completed")
    case False
    then have "task_advances b t ?u" by (auto simp: task_advances_def attempts_ok_def)
    then show ?thesis
      using False id Some by (intro advances_set [OF Some]) (auto simp: retryTask_def Let_def su_simps)
  qed (use Some in \<open>auto simp: retryTask_def intro!: advances_same\<close>)
qed (simp add: retryTask_def advances_same)

lemma advances_spawn:
  assumes ok: "tasks_ok (su_tasks st)" and new: "task_of st i = None"
  shows "advances b st (snd (spawnTask i now opts st))"
proof -
  let ?t = "new_task i now opts"
  have t: "tk_id ?t = i" "attempts_ok ?t" by (simp_all add: new_task_def attempts_ok_def)
  have put: "advances b st (put_task ?t st)"
    using t new by (auto simp: advances_def su_simps)
  have ids: "tk_id p = j" if "task_of (put_task ?t st) j = Some p" for j p
    using that t(1) tk_id_of [OF ok] by (auto simp: su_simps split: if_splits)
  have "advances b (put_task ?t st) (link_parent ?t (put_task ?t st))"
  proof (cases "tk_parentTaskId ?t")
    case (Some p)
    show ?thesis
    proof (cases "p = [] \<or> task_of (put_task ?t st) p = None")
      case True
      then have "link_parent ?t (put_task ?t st) = put_task ?t st"
        using Some by (auto simp: link_parent_def split: option.splits)
      then show ?thesis by (simp add: advances_same)
    next
      case False
      then obtain parent where parent: "task_of (put_task ?t st) p = Some parent" "p \<noteq> []" by auto
      let ?u = "parent\<lparr>tk_childTaskIds := tk_childTaskIds parent @ [tk_id ?t]\<rparr>"
      have "link_parent ?t (put_task ?t st) = put_task ?u (put_task ?t st)"
        using parent Some by (simp add: link_parent_def)
      moreover have "task_advances b parent ?u" by (auto simp: task_advances_def attempts_ok_def)
      ultimately show ?thesis
        using ids [OF parent(1)] parent(1) by (intro advances_set [OF parent(1), of b ?u]) (simp_all add: task_of_simps(2))
    qed
  qed (simp add: link_parent_def advances_same)
  with put have "advances b st (link_parent ?t (put_task ?t st))" by (rule advances_trans)
  then have "advances b st (schedulePump (emit_task now i EvCreated None (persist (link_parent ?t (put_task ?t st)))))"
    by (simp add: advances_def su_simps)
  then show ?thesis
    by (auto simp: spawnTask_def Let_def advances_same split: option.splits)
qed

lemma advances_start:
  assumes "task_of st (tk_id t) = Some t" "tk_status t \<in> {Queued, Waiting}"
  shows "advances b st (startTask now t st)"
proof -
  let ?u = "t\<lparr>tk_attempt := tk_attempt t + 1, tk_startedAt := Some now, tk_completedAt := None, tk_error := None,
    tk_status := Running, tk_updatedAt := now\<rparr>"
  have "task_advances b t ?u" using assms(2) by (auto simp: task_advances_def attempts_ok_def)
  then show ?thesis
    by (intro advances_set [OF assms(1)]) (auto simp: startTask_def Let_def task_of_def su_simps)
qed

lemma advances_transition:
  assumes "task_of st (tk_id t) = Some t" "tk_status t \<noteq> Completed"
    "tk_id t' = tk_id t" "tk_attempt t' = tk_attempt t" "tk_maxAttempts t' = tk_maxAttempts t"
    "s \<in> {Queued, Waiting} \<Longrightarrow> b \<Longrightarrow> attempts_ok t \<Longrightarrow> tk_attempt t < tk_maxAttempts t"
  shows "advances b st (transition now t' s st)"
proof -
  have "task_advances b t (t'\<lparr>tk_status := s, tk_updatedAt := now\<rparr>)"
    using assms(2-6) by (auto simp: task_advances_def attempts_ok_def)
  then show ?thesis using assms(3) by (intro advances_set [OF assms(1)]) (auto simp: su_simps)
qed

lemma advances_helpers [simp]:
  "advances b st (emit_task now i ty m st') = advances b st st'" "advances b st (notifyWaiters i st') = advances b st st'"
  "advances b st (schedulePump st') = advances b st st'" "advances b st (persist st') = advances b st st'"
  by (simp_all add: advances_def su_simps)

lemma advances_pump_task:
  assumes "task_of st (tk_id t) = Some t" "tk_status t \<in> {Queued, Waiting}"
  shows "advances b st (pump_task now t st)"
proof -
  have "advances b st (transition now (t\<lparr>tk_error := e\<rparr>) Failed st)" for e
    using assms by (intro advances_transition [of st t]) auto
  moreover have "advances b st (transition now t Waiting st)"
    using assms by (intro advances_transition [of st t]) (auto simp: attempts_ok_def)
  ultimately show ?thesis
    using advances_start [OF assms] by (simp add: pump_task_def advances_same)
qed

lemma advances_pump_loop: "supervisor_inv st \<Longrightarrow> advances b st (pump_loop now is st)"
proof (induction now "is" st rule: pump_loop.induct)
  case (2 now i "is" st)
  show ?case
  proof (cases "su_maxConcurrent st \<le> length (su_running st)")
    case False
    then show ?thesis
    proof (cases "task_of st i")
      case (Some t)
      have id: "tk_id t = i" using tk_id_of [of st i t] Some "2.prems" by (simp add: supervisor_inv_def)
      show ?thesis
      proof (cases "tk_status t \<in> {Queued, Waiting}")
        case True
        with Some id False "2.prems" have "supervisor_inv (pump_task now t st)" by (intro pump_task_inv) auto
        with "2.IH"(3) [OF False Some] True have "advances b (pump_task now t st) (pump_loop now is (pump_task now t st))"
          by auto
        with advances_pump_task [of st t b now] Some id True
        have "advances b st (pump_loop now is (pump_task now t st))" by (auto intro: advances_trans)
        then show ?thesis using False Some True by auto
      qed (use False Some 2 in auto)
    qed (use False 2 in auto)
  qed (use 2 in \<open>auto intro: advances_same\<close>)
qed (simp add: advances_same)

lemma advances_settle:
  assumes inv: "supervisor_inv st" and b: "b \<Longrightarrow> \<not> su_shuttingDown st"
  shows "advances b st (settle_execution now run outcome st)"
proof (cases "find (\<lambda>x. ex_run x = run) (su_live st)")
  case (Some x)
  have x: "x \<in> set (su_live st)" using find_Some_in_set [OF Some] by auto
  have "status_of st (ex_task x) = Some Running" using inv x unfolding supervisor_inv_def runs_ok_def by auto
  then obtain t where t: "task_of st (ex_task x) = Some t" "tk_status t = Running" by (auto simp: status_of_def)
  have id: "tk_id t = ex_task x" using t tk_id_of [of st "ex_task x" t] inv by (simp add: supervisor_inv_def)
  from settle_unfold [OF Some t(1) id, of now outcome] obtain t' s ty m st2 where
    run: "settle_execution now run outcome st =
      st2\<lparr>su_live := filter (\<lambda>y. ex_run y \<noteq> run) (su_live st), su_finalizing := su_finalizing st @ [x]\<rparr>" and
    st2: "st2 = (if terminal s then notifyWaiters (tk_id t') else id) (emit_task now (tk_id t) ty m (transition now t' s st))" and
    p: "tk_id t' = tk_id t" "s \<notin> {Running, Waiting}" "tk_attempt t' = tk_attempt t" "tk_maxAttempts t' = tk_maxAttempts t"
      "s = Queued \<longrightarrow> su_shuttingDown st \<or> tk_attempt t < tk_maxAttempts t" by blast
  have "advances b st (transition now t' s st)"
    using t id p b by (intro advances_transition [of st t]) auto
  then have "advances b st st2" by (simp add: st2)
  moreover have "task_of (settle_execution now run outcome st) i = task_of st2 i" for i by (simp add: run task_of_def)
  ultimately show ?thesis by (simp add: advances_def)
qed (simp add: settle_execution_def advances_same)

text \<open>Recovery finds no running task when no execution is in progress.\<close>

lemma advances_recover:
  assumes inv: "supervisor_inv st" and rest: "su_live st = []"
  shows "advances b st (recoverAfterRestart now st)"
proof -
  have "status_of st i \<noteq> Some Running" for i using inv rest by (simp add: supervisor_inv_def runs_ok_def)
  then have "fold (recover_task now) is (st\<lparr>su_shuttingDown := False\<rparr>) = st\<lparr>su_shuttingDown := False\<rparr>" for "is"
    by (induction "is") (auto simp: recover_task_def task_of_def status_of_def split: option.splits)
  then show ?thesis by (auto simp: recoverAfterRestart_def task_of_def intro: advances_same)
qed

lemma task_of_more [simp]:
  "task_of (shutdown st) i = task_of st i" "task_of (waitTimeout w i' st) i = task_of st i"
  "task_of (snd (waitForTask w i' st)) i = task_of st i" "task_of (run_finally run st) i = task_of st i"
  "task_of (timer_fires run st) i = task_of st i" "task_of (report_progress now run m st) i = task_of st i"
  by (simp_all add: shutdown_def waitTimeout_def waitForTask_def run_finally_def timer_fires_def report_progress_def
      task_of_def su_simps split: option.splits)

lemma advances_step:
  assumes inv: "supervisor_inv st" and ok: "op_ok x st" and b: "b \<Longrightarrow> \<not> su_shuttingDown st"
  shows "advances b st (ts_step now x st)"
proof (cases x)
  case RunPump
  have "advances b (st\<lparr>su_pumpQueued := False\<rparr>) (pump_loop now is (st\<lparr>su_pumpQueued := False\<rparr>))" for "is"
    by (rule advances_pump_loop) (simp add: inv)
  then have "advances b st (pump_loop now is (st\<lparr>su_pumpQueued := False\<rparr>))" for "is"
    by (simp add: advances_def task_of_def)
  then show ?thesis using RunPump by (auto simp: run_pump_def pump_def task_of_def intro: advances_same)
next
  case Settle
  then show ?thesis using advances_settle [OF inv b] by simp
qed (use inv ok in \<open>auto simp: supervisor_inv_def intro: advances_same advances_cancel advances_retry advances_spawn\<close>,
     use inv advances_recover ok in auto)

section \<open>Whole runs\<close>

lemma advances_run: "supervisor_inv st \<Longrightarrow> ops_ok ops st \<Longrightarrow> advances False st (ts_run ops st)"
proof (induction ops st rule: ts_run.induct)
  case (2 now x ops st)
  then have "advances False st (ts_step now x st)" "advances False (ts_step now x st) (ts_run ops (ts_step now x st))"
    using advances_step step_inv by auto
  then show ?case using advances_trans by simp
qed (simp add: advances_same)

lemma shutting_pump_loop: "su_shuttingDown (pump_loop now is st) = su_shuttingDown st"
  by (induction now "is" st rule: pump_loop.induct)
     (auto simp: pump_task_def startTask_def Let_def su_simps split: option.splits)

lemma shutting_step:
  "x \<noteq> Shutdown \<Longrightarrow> \<not> su_shuttingDown st \<Longrightarrow> \<not> su_shuttingDown (ts_step now x st)"
proof (cases x)
  case (Settle run r)
  have "su_shuttingDown (finish_execution now x r t st) = su_shuttingDown st" for x t
    by (simp add: finish_execution_def handleFailure_def su_simps split: sum.splits)
  then show "\<not> su_shuttingDown st \<Longrightarrow> ?thesis"
    using Settle by (auto simp: settle_execution_def Let_def su_simps split: option.splits)
next
  case Recover
  have "su_shuttingDown (fold (recover_task now) is u) = su_shuttingDown u" for "is" u
    by (induction "is" arbitrary: u) (auto simp: recover_task_def su_simps split: option.splits)
  then show ?thesis using Recover by (simp add: recoverAfterRestart_def su_simps)
next
  case (Spawn i opts)
  have "su_shuttingDown (link_parent t u) = su_shuttingDown u" for t u
    by (simp add: link_parent_def su_simps split: option.splits)
  then show "\<not> su_shuttingDown st \<Longrightarrow> ?thesis"
    using Spawn by (auto simp: spawnTask_def Let_def su_simps split: option.splits)
qed (auto simp: cancelTask_def retryTask_def waitForTask_def waitTimeout_def run_pump_def pump_def run_finally_def
    timer_fires_def report_progress_def shutting_pump_loop Let_def su_simps split: option.splits)

lemma attempts_run:
  "supervisor_inv st \<Longrightarrow> ops_ok ops st \<Longrightarrow> \<not> su_shuttingDown st \<Longrightarrow> Shutdown \<notin> snd ` set ops \<Longrightarrow>
     advances True st (ts_run ops st)"
proof (induction ops st rule: ts_run.induct)
  case (2 now x ops st)
  then have "advances True st (ts_step now x st)" "advances True (ts_step now x st) (ts_run ops (ts_step now x st))"
    using advances_step step_inv shutting_step [of x st now] by auto
  then show ?case using advances_trans by simp
qed (simp add: advances_same)

section \<open>The race between a restart and the end of the previous execution\<close>

definition plain_spawn :: "nat \<Rightarrow> spawn_options" where
  "plain_spawn attempts = \<lparr>sp_prompt = ''p'', sp_cwd = ''/'', sp_skillDataDir = None, sp_label = None,
     sp_parentTaskId = None, sp_dependencies = [],
     sp_budget = \<lparr>bg_maxTokens = None, bg_maxCostUsd = None, bg_timeoutMs = None\<rparr>, sp_maxAttempts = Some attempts\<rparr>"

text \<open>
  Two slots. Task \<open>a\<close> fails and is queued again; a pump that was already due starts it again before the
  \<open>finally\<close> of the failed execution runs, which then deletes the new entry of \<open>a\<close> from \<open>running\<close>.
\<close>

definition race :: "(string \<times> task_op) list" where
  "race = [([], Spawn ''a'' (plain_spawn 2)), ([], RunPump), ([], Spawn ''b'' (plain_spawn 1)), ([], Settle 0 (Inl ''boom'')),
     ([], RunPump), ([], Finally 0), ([], Spawn ''c'' (plain_spawn 1)), ([], RunPump)]"

lemmas race_eval = race_def plain_spawn_def new_task_supervisor_def spawnTask_def new_task_def link_parent_def
  put_task_def persist_def emit_task_def schedulePump_def run_pump_def pump_def pump_task_def startTask_def
  transition_def settle_execution_def finish_execution_def handleFailure_def run_finally_def cancelTask_def task_of_def
  dependency_failed_def dependency_open_def notifyWaiters_def abort_run_def truthy_str_def om_get_def om_delete_def om_keys_def om_values_def
  Let_def

lemma race_run: "map ex_task (su_live (ts_run race (new_task_supervisor (Some 2) []))) = [''a'', ''b'', ''c'']"
  by (simp add: race_eval)

end
