(* ===== verification/Utf16.thy ===== *)
theory Utf16
  imports Prelude "HOL-Library.Word"
begin

unbundle bit_operations_syntax

text \<open>
  Strings as the runtime stores them: lists of 16-bit code units, possibly with unpaired surrogates.
  The encoding to UTF-8 is that of \<open>Buffer\<close>: an unpaired surrogate is written as U+FFFD. The lemmas
  show how the encoding splits at the ends of characters and that decoding an encoded text gives the
  text back with its unpaired surrogates replaced.
\<close>

type_synonym utf16 = "16 word list"

definition high_surrogate :: "16 word \<Rightarrow> bool" where
  "high_surrogate c \<longleftrightarrow> 0xD800 \<le> unat c \<and> unat c \<le> 0xDBFF"

definition low_surrogate :: "16 word \<Rightarrow> bool" where
  "low_surrogate c \<longleftrightarrow> 0xDC00 \<le> unat c \<and> unat c \<le> 0xDFFF"

definition replacement :: "16 word" where
  "replacement = 0xFFFD"

lemma not_high_and_low: "high_surrogate c \<Longrightarrow> \<not> low_surrogate c"
  by (simp add: high_surrogate_def low_surrogate_def)

section \<open>Scalar values\<close>

definition surrogate_pair :: "16 word \<Rightarrow> 16 word \<Rightarrow> nat" where
  "surrogate_pair hi lo = 0x10000 + (unat hi - 0xD800) * 0x400 + (unat lo - 0xDC00)"

fun scalars :: "utf16 \<Rightarrow> nat list" where
  "scalars [] = []"
| "scalars (c # cs) =
    (if high_surrogate c then
      (case cs of [] \<Rightarrow> [0xFFFD]
       | d # ds \<Rightarrow> if low_surrogate d then surrogate_pair c d # scalars ds else 0xFFFD # scalars cs)
     else if low_surrogate c then 0xFFFD # scalars cs
     else unat c # scalars cs)"

definition scalar_units :: "nat \<Rightarrow> utf16" where
  "scalar_units v =
    (if v < 0x10000 then [word_of_nat v]
     else [word_of_nat (0xD800 + (v - 0x10000) div 0x400), word_of_nat (0xDC00 + (v - 0x10000) mod 0x400)])"

definition from_scalars :: "nat list \<Rightarrow> utf16" where
  "from_scalars vs = concat (map scalar_units vs)"

definition scalar_ok :: "nat \<Rightarrow> bool" where
  "scalar_ok v \<longleftrightarrow> v < 0xD800 \<or> 0xE000 \<le> v \<and> v < 0x110000"

text \<open>A character boundary between two texts: a surrogate pair is not cut.\<close>

definition char_boundary :: "utf16 \<Rightarrow> utf16 \<Rightarrow> bool" where
  "char_boundary a b \<longleftrightarrow> \<not> (a \<noteq> [] \<and> b \<noteq> [] \<and> high_surrogate (last a) \<and> low_surrogate (hd b))"

lemma char_boundary_tl: "char_boundary (c # cs) b \<Longrightarrow> char_boundary cs b"
  by (auto simp: char_boundary_def)

lemma scalars_low_hd: "\<not> low_surrogate d \<Longrightarrow> high_surrogate c \<Longrightarrow> scalars (c # d # ds) = 0xFFFD # scalars (d # ds)"
  by (simp only: scalars.simps(2) if_True if_False list.case)

lemma scalars_pair:
  "high_surrogate c \<Longrightarrow> low_surrogate d \<Longrightarrow> scalars (c # d # ds) = surrogate_pair c d # scalars ds"
  by (simp only: scalars.simps(2) [of c] if_True list.case)

lemma scalars_high_end: "high_surrogate c \<Longrightarrow> b = [] \<or> \<not> low_surrogate (hd b) \<Longrightarrow> scalars (c # b) = 0xFFFD # scalars b"
  by (cases b) (simp_all del: scalars.simps add: scalars_low_hd scalars.simps(1) scalars.simps(2) [of c "[]"])

lemma scalars_not_high:
  "\<not> high_surrogate c \<Longrightarrow> scalars (c # cs) = (if low_surrogate c then 0xFFFD else unat c) # scalars cs"
  by (simp only: scalars.simps(2) [of c] if_False split: if_splits) simp

lemmas scalars_rules = scalars_pair scalars_high_end scalars_not_high scalars.simps(1)

declare scalars.simps [simp del]
declare scalars.simps(1) [simp]

text \<open>The three ways a text can start, as an induction rule.\<close>

lemma utf16_induct [case_names Nil Pair Lone Plain]:
  assumes "P []"
    and "\<And>c d ds. high_surrogate c \<Longrightarrow> low_surrogate d \<Longrightarrow> P ds \<Longrightarrow> P (c # d # ds)"
    and "\<And>c cs. high_surrogate c \<Longrightarrow> cs = [] \<or> \<not> low_surrogate (hd cs) \<Longrightarrow> P cs \<Longrightarrow> P (c # cs)"
    and "\<And>c cs. \<not> high_surrogate c \<Longrightarrow> P cs \<Longrightarrow> P (c # cs)"
  shows "P s"
proof (induction s rule: length_induct)
  case (1 s)
  note IH = 1 [rule_format]
  show ?case
  proof (cases s)
    case Nil
    then show ?thesis using assms(1) by simp
  next
    case (Cons c cs)
    then show ?thesis
      using assms(2) [of c "hd cs" "tl cs"] assms(3,4) [of c cs] IH [of cs] IH [of "tl cs"]
      by (cases "high_surrogate c"; cases cs) auto
  qed
qed

lemma scalars_append: "char_boundary a b \<Longrightarrow> scalars (a @ b) = scalars a @ scalars b"
proof (induction a rule: utf16_induct)
  case (Pair c d ds)
  from char_boundary_tl [OF char_boundary_tl [OF Pair(4)]] Pair show ?case by (simp add: scalars_pair)
next
  case (Lone c cs)
  have "cs @ b = [] \<or> \<not> low_surrogate (hd (cs @ b))"
    using Lone(1,2,4) by (cases cs) (auto simp: char_boundary_def)
  with Lone char_boundary_tl [OF Lone(4)] show ?case by (simp add: scalars_high_end)
next
  case (Plain c cs)
  with char_boundary_tl [OF Plain(3)] show ?case by (simp add: scalars_not_high)
qed simp

lemma unat_unit: "unat (c :: 16 word) < 65536"
  using unsigned_less [of c] by simp

lemma surrogate_offsets:
  assumes "high_surrogate c" "low_surrogate d"
  obtains x y where "x < 1024" "y < 1024" "unat c = 0xD800 + x" "unat d = 0xDC00 + y"
    "surrogate_pair c d = 0x10000 + (x * 1024 + y)"
proof
  show "unat c = 0xD800 + (unat c - 0xD800)" "unat d = 0xDC00 + (unat d - 0xDC00)"
    "unat c - 0xD800 < 1024" "unat d - 0xDC00 < 1024"
    using assms by (auto simp: high_surrogate_def low_surrogate_def)
qed (simp add: surrogate_pair_def)

lemma surrogate_pair_ok:
  assumes "high_surrogate c" "low_surrogate d"
  shows "0x10000 \<le> surrogate_pair c d \<and> surrogate_pair c d < 0x110000"
  by (rule surrogate_offsets [OF assms]) simp

lemma scalars_ok: "list_all scalar_ok (scalars s)"
proof (induction s rule: utf16_induct)
  case (Pair c d ds)
  with surrogate_pair_ok [of c d] show ?case by (simp add: scalars_pair scalar_ok_def)
next
  case (Plain c cs)
  with unat_unit [of c] show ?case
    by (simp add: scalars_not_high) (auto simp: scalar_ok_def high_surrogate_def low_surrogate_def)
qed (simp_all add: scalars_high_end scalar_ok_def)

lemma scalar_units_pair:
  assumes "high_surrogate c" "low_surrogate d"
  shows "scalar_units (surrogate_pair c d) = [c, d]"
proof -
  obtain x y where xy: "x < 1024" "y < 1024" "unat c = 0xD800 + x" "unat d = 0xDC00 + y"
    "surrogate_pair c d = 0x10000 + (x * 1024 + y)" by (rule surrogate_offsets [OF assms])
  have "(word_of_nat (0xD800 + x) :: 16 word) = c" "(word_of_nat (0xDC00 + y) :: 16 word) = d"
    by (simp_all only: xy(3,4) [symmetric] of_nat_unat ucast_id)

  moreover have "(x * 1024 + y) div 1024 = x" "(x * 1024 + y) mod 1024 = y" using xy(1,2) by simp_all
  ultimately show ?thesis by (simp only: scalar_units_def xy(5)) simp
qed

lemma scalar_units_unit: "scalar_units (unat c) = [c]"
  using unat_unit [of c] by (simp add: scalar_units_def)

lemma scalar_units_replacement: "scalar_units 0xFFFD = [replacement]"
  by (simp add: scalar_units_def replacement_def)

section \<open>Unpaired surrogates\<close>

text \<open>The text that a decoder gives back for the encoding of a text.\<close>

definition well_formed :: "utf16 \<Rightarrow> utf16" where
  "well_formed s = from_scalars (scalars s)"

lemma well_formed_simps [simp]:
  "well_formed [] = []"
  "high_surrogate c \<Longrightarrow> low_surrogate d \<Longrightarrow> well_formed (c # d # ds) = c # d # well_formed ds"
  "high_surrogate c \<Longrightarrow> cs = [] \<or> \<not> low_surrogate (hd cs) \<Longrightarrow> well_formed (c # cs) = replacement # well_formed cs"
  "\<not> high_surrogate c \<Longrightarrow> well_formed (c # cs) = (if low_surrogate c then replacement else c) # well_formed cs"
  by (simp_all add: well_formed_def from_scalars_def scalars_pair scalars_high_end scalars_not_high
      scalar_units_pair scalar_units_unit scalar_units_replacement)

lemma length_well_formed [simp]: "length (well_formed s) = length s"
  by (induction s rule: utf16_induct) simp_all

lemma scalars_scalar_units:
  assumes "scalar_ok v"
  shows "scalars (scalar_units v @ rest) = v # scalars rest"
proof (cases "v < 0x10000")
  case True
  then have "unat (word_of_nat v :: 16 word) = v" by (simp add: unat_of_nat take_bit_nat_eq_self_iff)
  with True assms show ?thesis
    by (auto simp: scalar_units_def scalar_ok_def scalars_not_high high_surrogate_def low_surrogate_def)
next
  case False
  define x y where "x = (v - 0x10000) div 0x400" and "y = (v - 0x10000) mod 0x400"
  have xy: "x < 1024" "y < 1024" "v = 0x10000 + (x * 1024 + y)"
    using False assms by (auto simp: x_def y_def scalar_ok_def div_less_iff_less_mult)
  have u: "unat (word_of_nat (0xD800 + x) :: 16 word) = 0xD800 + x" "unat (word_of_nat (0xDC00 + y) :: 16 word) = 0xDC00 + y"
    using xy(1,2) by (simp_all only: unat_of_nat) (simp_all add: take_bit_nat_eq_self_iff)
  then have "high_surrogate (word_of_nat (0xD800 + x))" "low_surrogate (word_of_nat (0xDC00 + y))"
    and "surrogate_pair (word_of_nat (0xD800 + x)) (word_of_nat (0xDC00 + y)) = v"
    unfolding high_surrogate_def low_surrogate_def surrogate_pair_def u using xy by simp_all
  then show ?thesis
    unfolding scalar_units_def x_def [symmetric] y_def [symmetric] using False by (simp add: scalars_pair)
qed

lemma scalars_from_scalars: "list_all scalar_ok vs \<Longrightarrow> scalars (from_scalars vs) = vs"
  by (induction vs) (simp_all add: from_scalars_def scalars_scalar_units)

section \<open>UTF-8\<close>

definition encode_scalar :: "nat \<Rightarrow> nat list" where
  "encode_scalar v =
    (if v < 0x80 then [v]
     else if v < 0x800 then [0xC0 + v div 64, 0x80 + v mod 64]
     else if v < 0x10000 then [0xE0 + v div 4096, 0x80 + v div 64 mod 64, 0x80 + v mod 64]
     else [0xF0 + v div 262144, 0x80 + v div 4096 mod 64, 0x80 + v div 64 mod 64, 0x80 + v mod 64])"

definition utf8_encode :: "utf16 \<Rightarrow> nat list" where
  "utf8_encode s = concat (map encode_scalar (scalars s))"

text \<open>A byte inside a character: \<open>(b & 0xc0) === 0x80\<close>.\<close>

definition continuation :: "nat \<Rightarrow> bool" where
  "continuation b \<longleftrightarrow> b AND 0xC0 = 0x80"

text \<open>
  The decoder of \<open>Buffer.toString\<close>: a character is a leading byte with its continuation bytes; every
  other byte stands for U+FFFD.
\<close>

definition more_bytes :: "nat \<Rightarrow> nat" where
  "more_bytes b = (if b < 0xC0 then 0 else if b < 0xE0 then 1 else if b < 0xF0 then 2 else 3)"

definition lead_value :: "nat \<Rightarrow> nat" where
  "lead_value b = (if b < 0x80 then b else if b < 0xE0 then b - 0xC0 else if b < 0xF0 then b - 0xE0 else b - 0xF0)"

fun decode_scalars :: "nat list \<Rightarrow> nat list" where
  "decode_scalars [] = []"
| "decode_scalars (b # bs) =
    (let n = more_bytes b; tail = take n bs in
     if continuation b \<or> length tail < n \<or> \<not> list_all continuation tail then 0xFFFD # decode_scalars bs
     else foldl (\<lambda>v t. v * 64 + (t - 0x80)) (lead_value b) tail # decode_scalars (drop n bs))"

definition utf8_decode :: "nat list \<Rightarrow> utf16" where
  "utf8_decode bs = from_scalars (decode_scalars bs)"

lemma and_push_bit: "b AND push_bit n m = push_bit n (drop_bit n b AND m)" for b :: nat
  by (rule bit_eqI) (auto simp: bit_simps)

lemma continuation_byte:
  assumes "b < 256"
  shows "continuation b \<longleftrightarrow> 0x80 \<le> b \<and> b < 0xC0"
proof -
  have "b AND 0xC0 = 64 * (b div 64 AND 3)"
    using and_push_bit [of b 6 3] by (simp add: push_bit_eq_mult drop_bit_eq_div)
  then have c: "continuation b \<longleftrightarrow> b div 64 AND 3 = 2" by (simp add: continuation_def)
  have "b div 64 < 4" using assms by simp
  then consider "b div 64 = 0" | "b div 64 = 1" | "b div 64 = 2" | "b div 64 = 3" by linarith
  then show ?thesis by cases (simp_all add: c, linarith+)
qed

lemma continuation_tail: "x < 64 \<Longrightarrow> continuation (0x80 + x)"
  by (simp add: continuation_byte)

lemma length_encode_scalar:
  "length (encode_scalar v) = (if v < 0x80 then 1 else if v < 0x800 then 2 else if v < 0x10000 then 3 else 4)"
  by (simp add: encode_scalar_def)

lemma encode_scalar_cases:
  assumes "v < 0x110000"
  obtains (one) "v < 0x80" "encode_scalar v = [v]"
  | (two) a b where "a < 32" "b < 64" "v = a * 64 + b" "encode_scalar v = [0xC0 + a, 0x80 + b]"
  | (three) a b c where "a < 16" "b < 64" "c < 64" "v = (a * 64 + b) * 64 + c"
      "encode_scalar v = [0xE0 + a, 0x80 + b, 0x80 + c]"
  | (four) a b c d where "a < 8" "b < 64" "c < 64" "d < 64" "v = ((a * 64 + b) * 64 + c) * 64 + d"
      "encode_scalar v = [0xF0 + a, 0x80 + b, 0x80 + c, 0x80 + d]"
proof -
  have d: "v div 262144 < 8" "v < 0x800 \<Longrightarrow> v div 64 < 32" "v < 0x10000 \<Longrightarrow> v div 4096 < 16"
    using assms by (simp_all add: div_less_iff_less_mult)
  have e: "v div 64 * 64 + v mod 64 = v"
    "(v div 4096 * 64 + v div 64 mod 64) * 64 + v mod 64 = v"
    "((v div 262144 * 64 + v div 4096 mod 64) * 64 + v div 64 mod 64) * 64 + v mod 64 = v"
    by (simp_all only: div_mult2_eq [of v 64 64, simplified] div_mult2_eq [of v 4096 64, simplified] div_mult_mod_eq)
  have m: "x mod 64 < 64" for x :: nat by simp
  consider "v < 0x80" | "0x80 \<le> v" "v < 0x800" | "0x800 \<le> v" "v < 0x10000" | "0x10000 \<le> v" by linarith
  then show thesis
  proof cases
    case 1
    then show thesis by (intro one) (simp_all only: encode_scalar_def if_True)
  next
    case 2
    then show thesis using d(2) m e(1) by (intro two [of "v div 64" "v mod 64"]) (simp_all only: encode_scalar_def, simp)
  next
    case 3
    then show thesis using d(3) m e(2)
      by (intro three [of "v div 4096" "v div 64 mod 64" "v mod 64"]) (simp_all only: encode_scalar_def, simp)
  next
    case 4
    then show thesis using d(1) m e(3)
      by (intro four [of "v div 262144" "v div 4096 mod 64" "v div 64 mod 64" "v mod 64"])
        (simp_all only: encode_scalar_def, simp)
  qed
qed

text \<open>An encoded character is one byte that is not a continuation, then continuations only.\<close>

lemma encode_scalar_shape:
  assumes "v < 0x110000"
  obtains b bs where "encode_scalar v = b # bs" "\<not> continuation b" "list_all continuation bs"
  using assms by (cases rule: encode_scalar_cases) (simp_all add: continuation_byte)

lemma decode_scalars_lead:
  assumes "\<not> continuation b" "length tail = more_bytes b" "list_all continuation tail"
  shows "decode_scalars (b # tail @ rest) = foldl (\<lambda>v t. v * 64 + (t - 0x80)) (lead_value b) tail # decode_scalars rest"
  using assms by (simp add: Let_def flip: assms(2))

lemma decode_encode_scalar:
  assumes "v < 0x110000"
  shows "decode_scalars (encode_scalar v @ rest) = v # decode_scalars rest"
  using assms
proof (cases rule: encode_scalar_cases)
  case one
  with decode_scalars_lead [of v "[]" rest] show ?thesis
    by (simp add: continuation_byte more_bytes_def lead_value_def)
next
  case (two a b)
  with decode_scalars_lead [of "0xC0 + a" "[0x80 + b]" rest] show ?thesis
    by (simp add: continuation_byte more_bytes_def lead_value_def)
next
  case (three a b c)
  with decode_scalars_lead [of "0xE0 + a" "[0x80 + b, 0x80 + c]" rest] show ?thesis
    by (simp add: continuation_byte more_bytes_def lead_value_def)
next
  case (four a b c d)
  with decode_scalars_lead [of "0xF0 + a" "[0x80 + b, 0x80 + c, 0x80 + d]" rest] show ?thesis
    by (simp add: continuation_byte more_bytes_def lead_value_def)
qed

lemma scalar_ok_bound: "scalar_ok v \<Longrightarrow> v < 0x110000"
  by (auto simp: scalar_ok_def)

lemma decode_encode_scalars: "list_all scalar_ok vs \<Longrightarrow> decode_scalars (concat (map encode_scalar vs)) = vs"
  by (induction vs) (simp_all add: decode_encode_scalar scalar_ok_bound del: decode_scalars.simps(2))

lemma decode_encode: "utf8_decode (utf8_encode s) = well_formed s"
  by (simp add: utf8_decode_def utf8_encode_def well_formed_def decode_encode_scalars scalars_ok)

end
