(* ===== verification/Truncation.thy ===== *)
theory Truncation
  imports Utf16 Messages
begin

text \<open>
  The limits on tool output: \<open>agent/src/harness/utils/truncate.ts\<close> and its twin in the coding agent,
  \<open>coding-agent/src/core/tools/truncate.ts\<close>. Content is cut to a number of lines and a number of
  bytes of UTF-8, from the front or from the end. The two files differ in how they count bytes, split
  lines and cut a line that is too long by itself; what they share is stated in the locale
  \<open>byte_count\<close>, an interface of a byte counter and a cutter of lines, of which both are instances.
  Limits are natural numbers.
\<close>

section \<open>Counting bytes\<close>

text \<open>\<open>Buffer.byteLength(content, "utf8")\<close>, and the loop for runtimes without \<open>Buffer\<close>.\<close>

definition Buffer_byteLength :: "utf16 \<Rightarrow> nat" where
  "Buffer_byteLength s = length (utf8_encode s)"

fun count_bytes :: "utf16 \<Rightarrow> nat" where
  "count_bytes [] = 0"
| "count_bytes (c # cs) =
    (if unat c \<le> 0x7F then 1 + count_bytes cs
     else if unat c \<le> 0x7FF then 2 + count_bytes cs
     else if high_surrogate c then
       (case cs of [] \<Rightarrow> 3
        | d # ds \<Rightarrow> if low_surrogate d then 4 + count_bytes ds else 3 + count_bytes cs)
     else 3 + count_bytes cs)"

definition utf8ByteLength :: "bool \<Rightarrow> utf16 \<Rightarrow> nat" where
  "utf8ByteLength hasBuffer content =
    (if hasBuffer then Buffer_byteLength content
     else let ascii = takeWhile (\<lambda>c. unat c \<le> 0x7F) content in
       if length ascii = length content then length content
       else length ascii + count_bytes (drop (length ascii) content))"

fun replaceUnpairedSurrogates :: "utf16 \<Rightarrow> utf16" where
  "replaceUnpairedSurrogates [] = []"
| "replaceUnpairedSurrogates (c # cs) =
    (if high_surrogate c then
       (case cs of [] \<Rightarrow> [replacement]
        | d # ds \<Rightarrow> if low_surrogate d then c # d # replaceUnpairedSurrogates ds
                    else replacement # replaceUnpairedSurrogates cs)
     else if low_surrogate c then replacement # replaceUnpairedSurrogates cs
     else c # replaceUnpairedSurrogates cs)"

lemma replaceUnpaired_well_formed: "replaceUnpairedSurrogates s = well_formed s"
proof (induction s rule: utf16_induct)
  case (Lone c cs)
  then show ?case by (cases cs) auto
qed simp_all

lemma Buffer_byteLength_simps [simp]:
  "Buffer_byteLength [] = 0"
  "high_surrogate c \<Longrightarrow> low_surrogate d \<Longrightarrow> Buffer_byteLength (c # d # ds) = 4 + Buffer_byteLength ds"
  "high_surrogate c \<Longrightarrow> cs = [] \<or> \<not> low_surrogate (hd cs) \<Longrightarrow> Buffer_byteLength (c # cs) = 3 + Buffer_byteLength cs"
  by (auto simp: Buffer_byteLength_def utf8_encode_def scalars_pair scalars_high_end length_encode_scalar
      dest: surrogate_pair_ok)

lemma Buffer_byteLength_plain [simp]:
  assumes "\<not> high_surrogate c"
  shows "Buffer_byteLength (c # cs) =
    (if unat c \<le> 0x7F then 1 else if unat c \<le> 0x7FF then 2 else 3) + Buffer_byteLength cs"
  using assms unat_unit [of c]
  by (auto simp: Buffer_byteLength_def utf8_encode_def scalars_not_high length_encode_scalar low_surrogate_def)

lemma high_surrogate_big: "high_surrogate c \<Longrightarrow> \<not> unat c \<le> 0x7FF" "high_surrogate c \<Longrightarrow> \<not> unat c \<le> 0x7F"
  by (simp_all add: high_surrogate_def)

lemma count_bytes_eq: "count_bytes s = Buffer_byteLength s"
proof (induction s rule: utf16_induct)
  case (Lone c cs)
  then show ?case by (cases cs) (auto simp: high_surrogate_big)
qed (auto simp: high_surrogate_big)

lemma ascii_prefix:
  "\<forall>c \<in> set p. unat c \<le> 0x7F \<Longrightarrow> Buffer_byteLength (p @ s) = length p + Buffer_byteLength s"
proof (induction p)
  case (Cons c p)
  then have "\<not> high_surrogate c" by (auto simp: high_surrogate_def)
  with Cons show ?case by simp
qed simp

lemma utf8ByteLength_eq: "utf8ByteLength b s = Buffer_byteLength s"
proof -
  let ?p = "takeWhile (\<lambda>c. unat c \<le> 0x7F) s"
  have p: "\<forall>c \<in> set ?p. unat c \<le> 0x7F" by (auto dest: set_takeWhileD)
  have s: "s = ?p @ drop (length ?p) s" by (metis append_take_drop_id takeWhile_eq_take)
  have "Buffer_byteLength s = length ?p + Buffer_byteLength (drop (length ?p) s)"
    by (subst s) (rule ascii_prefix [OF p])
  then show ?thesis by (cases "length ?p = length s") (auto simp: utf8ByteLength_def count_bytes_eq Let_def)
qed

section \<open>Cutting a line\<close>

text \<open>
  \<open>truncateStringToBytesFromEnd\<close> of the harness walks back over characters; \<open>cut_loop\<close> has the index, the
  bytes counted, the start of the output and whether an unpaired surrogate was met.
\<close>

definition previous_character :: "utf16 \<Rightarrow> nat \<Rightarrow> nat \<times> nat \<times> bool" where
  "previous_character str i =
    (let characterStart = i - 1; code = str ! characterStart in
     if low_surrogate code \<and> characterStart > 0 then
       if high_surrogate (str ! (characterStart - 1)) then (characterStart - 1, 4, False)
       else (characterStart, 3, True)
     else if high_surrogate code \<or> low_surrogate code then (characterStart, 3, True)
     else (characterStart, if unat code \<le> 0x7F then 1 else if unat code \<le> 0x7FF then 2 else 3, False))"

lemma previous_character_less: "0 < i \<Longrightarrow> previous_character str i = (j, n, u) \<Longrightarrow> j < i"
  by (auto simp: previous_character_def Let_def split: if_splits)

function cut_loop :: "utf16 \<Rightarrow> nat \<Rightarrow> nat \<Rightarrow> nat \<Rightarrow> nat \<Rightarrow> bool \<Rightarrow> nat \<times> bool" where
  "cut_loop str maxBytes i outputBytes start needsReplacement =
    (if i = 0 then (start, needsReplacement)
     else case previous_character str i of (characterStart, characterBytes, unpairedSurrogate) \<Rightarrow>
       if outputBytes + characterBytes > maxBytes then (start, needsReplacement)
       else cut_loop str maxBytes characterStart (outputBytes + characterBytes) characterStart
         (needsReplacement \<or> unpairedSurrogate))"
  by pat_completeness auto
termination
  by (relation "measure (\<lambda>(_, _, i, _). i)") (auto dest: previous_character_less [OF _ sym])

declare cut_loop.simps [simp del]

definition truncateStringToBytesFromEnd :: "utf16 \<Rightarrow> nat \<Rightarrow> utf16" where
  "truncateStringToBytesFromEnd str maxBytes =
    (if maxBytes = 0 then []
     else case cut_loop str maxBytes (length str) 0 (length str) False of
       (start, needsReplacement) \<Rightarrow>
         let output = drop start str
         in if needsReplacement then replaceUnpairedSurrogates output else output)"

text \<open>
  The function of the same name in the coding agent works on the encoded bytes: it skips forward to
  the start of a character and decodes the rest.
\<close>

function skip_continuation :: "nat list \<Rightarrow> nat \<Rightarrow> nat" where
  "skip_continuation buf start =
    (if start < length buf \<and> continuation (buf ! start) then skip_continuation buf (start + 1) else start)"
  by pat_completeness auto
termination
  by (relation "measure (\<lambda>(buf, start). length buf - start)") auto

declare skip_continuation.simps [simp del]

definition ca_truncateStringToBytesFromEnd :: "utf16 \<Rightarrow> nat \<Rightarrow> utf16" where
  "ca_truncateStringToBytesFromEnd str maxBytes =
    (let buf = utf8_encode str in
     if length buf \<le> maxBytes then str
     else utf8_decode (drop (skip_continuation buf (length buf - maxBytes)) buf))"

text \<open>
  What both compute: \<open>fit m vs\<close> is the longest end of the characters \<open>vs\<close> that takes at most \<open>m\<close> bytes.
\<close>

definition size_of :: "nat list \<Rightarrow> nat" where
  "size_of vs = length (concat (map encode_scalar vs))"

fun fit :: "nat \<Rightarrow> nat list \<Rightarrow> nat list" where
  "fit m [] = []"
| "fit m (v # vs) = (if size_of (v # vs) \<le> m then v # vs else fit m vs)"

lemma size_of_simps [simp]: "size_of [] = 0" "size_of (v # vs) = length (encode_scalar v) + size_of vs"
  "size_of (us @ vs) = size_of us + size_of vs"
  by (simp_all add: size_of_def)

lemma size_of_scalars: "size_of (scalars s) = Buffer_byteLength s"
  by (simp add: size_of_def Buffer_byteLength_def utf8_encode_def)

lemma encode_scalar_pos: "0 < length (encode_scalar v)"
  by (simp add: length_encode_scalar)

lemma size_fit: "size_of (fit m vs) \<le> m"
  by (induction vs) auto

lemma fit_all: "size_of vs \<le> m \<Longrightarrow> fit m vs = vs"
  by (cases vs) auto

lemma fit_zero: "fit 0 vs = []"
  using encode_scalar_pos by (induction vs) auto

lemma skip_continuation_drop: "drop (skip_continuation buf k) buf = dropWhile continuation (drop k buf)"
proof (induction buf k rule: skip_continuation.induct)
  case (1 buf k)
  show ?case
  proof (cases "k < length buf")
    case True
    then have "drop k buf = buf ! k # drop (k + 1) buf" by (simp add: Cons_nth_drop_Suc)
    with 1 True show ?thesis by (subst skip_continuation.simps) auto
  next
    case False
    then show ?thesis by (subst skip_continuation.simps) simp
  qed
qed

lemma dropWhile_encoded:
  "list_all scalar_ok vs \<Longrightarrow> dropWhile continuation (concat (map encode_scalar vs)) = concat (map encode_scalar vs)"
proof (cases vs)
  case (Cons v us)
  assume "list_all scalar_ok vs"
  with Cons have "v < 0x110000" by (simp add: scalar_ok_bound)
  then obtain b bs where "encode_scalar v = b # bs" "\<not> continuation b" by (rule encode_scalar_shape)
  with Cons show ?thesis by simp
qed simp

lemma skip_to_fit:
  assumes "list_all scalar_ok vs"
  shows "dropWhile continuation (drop (size_of vs - m) (concat (map encode_scalar vs)))
    = concat (map encode_scalar (fit m vs))"
  using assms
proof (induction vs)
  case (Cons v vs)
  let ?k = "size_of (v # vs) - m"
  have "v < 0x110000" using Cons(2) by (simp add: scalar_ok_bound)
  then obtain b bs where e: "encode_scalar v = b # bs" "\<not> continuation b" "list_all continuation bs"
    by (rule encode_scalar_shape)
  consider "size_of (v # vs) \<le> m" | "size_of (v # vs) > m" "size_of vs \<le> m" | "size_of vs > m" by linarith
  then show ?case
  proof cases
    case 1
    with e show ?thesis by simp
  next
    case 2
    then obtain j where j: "?k = Suc j" "j \<le> length bs" using e(1) by (cases ?k) auto
    have "dropWhile continuation (drop j bs @ concat (map encode_scalar vs)) = concat (map encode_scalar vs)"
      using e(3) Cons(2) by (subst dropWhile_append2)
        (auto simp: list_all_iff dropWhile_encoded dest: in_set_dropD)
    with 2 e j show ?thesis by (simp add: fit_all)
  next
    case 3
    then have "?k = length (b # bs) + (size_of vs - m)" using e(1) by simp
    with 3 e Cons show ?thesis by simp
  qed
qed simp

lemma list_all_fit: "list_all P vs \<Longrightarrow> list_all P (fit m vs)"
  by (induction vs) auto

lemma ca_cut_eq:
  "ca_truncateStringToBytesFromEnd str m =
    (if Buffer_byteLength str \<le> m then str else from_scalars (fit m (scalars str)))"
proof -
  have "drop (skip_continuation (utf8_encode str) (length (utf8_encode str) - m)) (utf8_encode str)
    = concat (map encode_scalar (fit m (scalars str)))"
    using skip_to_fit [OF scalars_ok, of str m] unfolding skip_continuation_drop
    by (simp add: utf8_encode_def size_of_def)
  then show ?thesis
    by (simp add: ca_truncateStringToBytesFromEnd_def Buffer_byteLength_def Let_def utf8_decode_def
        decode_encode_scalars list_all_fit scalars_ok)
qed

text \<open>One step back of the loop finds the last character before a boundary.\<close>

lemma drop_pred: "0 < p \<Longrightarrow> p \<le> length s \<Longrightarrow> drop (p - 1) s = s ! (p - 1) # drop p s"
  using Cons_nth_drop_Suc [of "p - 1" s] by simp

lemma last_take_pred: "0 < p \<Longrightarrow> p \<le> length s \<Longrightarrow> last (take p s) = s ! (p - 1)"
  by (subst last_conv_nth) (auto simp: min_def)

definition boundary_at :: "utf16 \<Rightarrow> nat \<Rightarrow> bool" where
  "boundary_at s p \<longleftrightarrow> p \<le> length s \<and> char_boundary (take p s) (drop p s)"

lemma boundary_atD: "boundary_at s p \<Longrightarrow> p \<le> length s"
  "boundary_at s p \<Longrightarrow> 0 < p \<Longrightarrow> drop p s = [] \<or> \<not> high_surrogate (s ! (p - 1)) \<or> \<not> low_surrogate (hd (drop p s))"
  by (auto simp: boundary_at_def char_boundary_def last_take_pred)

lemma boundary_atI:
  "p \<le> length s \<Longrightarrow> p = 0 \<or> \<not> low_surrogate (hd (drop p s)) \<or> \<not> high_surrogate (s ! (p - 1)) \<Longrightarrow> boundary_at s p"
  by (auto simp: boundary_at_def char_boundary_def last_take_pred)

lemma boundary_scalars: "boundary_at s p \<Longrightarrow> scalars s = scalars (take p s) @ scalars (drop p s)"
  using scalars_append [of "take p s" "drop p s"] by (simp add: boundary_at_def)

lemma previous_character_sound:
  assumes "boundary_at s p" "0 < p" "previous_character s p = (j, n, u)"
  shows "boundary_at s j"
    and "\<exists>v. scalars (drop j s) = v # scalars (drop p s) \<and> length (encode_scalar v) = n"
    and "\<not> u \<Longrightarrow> well_formed (drop p s) = drop p s \<Longrightarrow> well_formed (drop j s) = drop j s"
proof -
  let ?c = "s ! (p - 1)"
  note p = boundary_atD [OF assms(1)] assms(2)
  have d: "drop (p - 1) s = ?c # drop p s" using p by (intro drop_pred)
  consider (pair) "low_surrogate ?c" "1 < p" "high_surrogate (s ! (p - 2))"
    | (low) "low_surrogate ?c" "p = 1 \<or> \<not> high_surrogate (s ! (p - 2))"
    | (high) "high_surrogate ?c" | (plain) "\<not> high_surrogate ?c" "\<not> low_surrogate ?c"
    using p(3) by (cases "p = 1") auto
  then have "boundary_at s j \<and> (\<exists>v. scalars (drop j s) = v # scalars (drop p s) \<and> length (encode_scalar v) = n)
    \<and> (\<not> u \<longrightarrow> well_formed (drop p s) = drop p s \<longrightarrow> well_formed (drop j s) = drop j s)"
  proof cases
    case pair
    have j: "j = p - 2" "n = 4" "\<not> u"
      using assms(3) pair by (auto simp: previous_character_def Let_def numeral_2_eq_2)
    have dj: "drop j s = s ! (p - 2) # ?c # drop p s"
      using drop_pred [of "p - 1" s] pair(2) p(1) d j by (simp add: numeral_2_eq_2)
    have "\<not> low_surrogate (hd (drop j s))" unfolding dj using pair(3) by (auto dest: not_high_and_low)
    then have "boundary_at s j" using j p(1) by (intro boundary_atI) auto
    then show ?thesis using pair j dj surrogate_pair_ok [of "s ! (p - 2)" ?c]
      by (auto simp: scalars_pair length_encode_scalar)
  next
    case low
    have j: "j = p - 1" "n = 3" "u"
      using assms(3) low not_high_and_low [of ?c] p(3)
      by (auto simp: previous_character_def Let_def numeral_2_eq_2 split: if_splits)
    have "boundary_at s j" using j p low(2) by (intro boundary_atI) (auto simp: numeral_2_eq_2)
    moreover have "\<not> high_surrogate ?c" using low(1) by (auto dest: not_high_and_low)
    then have "scalars (drop j s) = 0xFFFD # scalars (drop p s)"
      unfolding j(1) d using low(1) by (simp add: scalars_not_high)
    ultimately show ?thesis using j by (auto simp: length_encode_scalar)
  next
    case high
    have j: "j = p - 1" "n = 3" "u"
      using assms(3) high not_high_and_low [of ?c] by (auto simp: previous_character_def Let_def split: if_splits)
    have "\<not> low_surrogate (hd (drop j s))" unfolding j(1) d using high by (auto dest: not_high_and_low)
    then have "boundary_at s j" using j p by (intro boundary_atI) auto
    moreover have "scalars (drop j s) = 0xFFFD # scalars (drop p s)"
      unfolding j(1) d using p(2) p(3) high by (intro scalars_high_end) auto
    ultimately show ?thesis using j by (auto simp: length_encode_scalar)
  next
    case plain
    have j: "j = p - 1" "n = (if unat ?c \<le> 0x7F then 1 else if unat ?c \<le> 0x7FF then 2 else 3)" "\<not> u"
      using assms(3) plain by (auto simp: previous_character_def Let_def)
    have "\<not> low_surrogate (hd (drop j s))" unfolding j(1) d using plain by simp
    then have "boundary_at s j" using j p by (intro boundary_atI) auto
    then show ?thesis using plain j d unat_unit [of ?c] by (auto simp: scalars_not_high length_encode_scalar)
  qed
  then show "boundary_at s j" "\<exists>v. scalars (drop j s) = v # scalars (drop p s) \<and> length (encode_scalar v) = n"
    "\<not> u \<Longrightarrow> well_formed (drop p s) = drop p s \<Longrightarrow> well_formed (drop j s) = drop j s" by auto
qed

lemma fit_cut:
  "size_of vs \<le> m \<Longrightarrow> m < length (encode_scalar v) + size_of vs \<Longrightarrow> fit m (us @ v # vs) = vs"
  by (induction us) (auto simp: fit_all)

lemma cut_loop_fit:
  assumes "boundary_at s p" "size_of (scalars (drop p s)) \<le> m"
    "\<not> needs \<Longrightarrow> well_formed (drop p s) = drop p s"
    "cut_loop s m p (size_of (scalars (drop p s))) p needs = (q, needs')"
  shows "scalars (drop q s) = fit m (scalars s) \<and> (\<not> needs' \<longrightarrow> well_formed (drop q s) = drop q s)"
  using assms
proof (induction p arbitrary: needs rule: less_induct)
  case (less p)
  show ?case
  proof (cases "p = 0")
    case True
    with less.prems(4) have "q = 0" "needs' = needs" by (subst (asm) cut_loop.simps, simp)+
    with True less.prems show ?thesis by (simp add: fit_all)
  next
    case False
    obtain j n u where pc: "previous_character s p = (j, n, u)" by (cases "previous_character s p") auto
    note step = previous_character_sound [OF less.prems(1) _ pc]
    from step(2) False obtain v where v: "scalars (drop j s) = v # scalars (drop p s)" "length (encode_scalar v) = n" by blast
    show ?thesis
    proof (cases "size_of (scalars (drop p s)) + n > m")
      case True
      from step(1) False have "scalars s = scalars (take j s) @ v # scalars (drop p s)"
        using boundary_scalars [of s j] v(1) by simp
      moreover from less.prems(4) True False pc have "q = p" "needs' = needs"
        by (subst (asm) cut_loop.simps, simp)+
      ultimately show ?thesis using True v(2) less.prems by (simp add: fit_cut)
    next
      case False
      note le = this
      have sz: "size_of (scalars (drop p s)) + n = size_of (scalars (drop j s))" using v by simp
      have "cut_loop s m j (size_of (scalars (drop j s))) j (needs \<or> u) = (q, needs')"
        using less.prems(4) \<open>p \<noteq> 0\<close> pc le sz by (subst (asm) cut_loop.simps) (simp del: size_of_simps)
      moreover have "j < p" using previous_character_less [OF _ pc] \<open>p \<noteq> 0\<close> by simp
      moreover have "\<not> (needs \<or> u) \<Longrightarrow> well_formed (drop j s) = drop j s"
        using step(3) less.prems(3) \<open>p \<noteq> 0\<close> by blast
      ultimately show ?thesis
        using step(1) \<open>p \<noteq> 0\<close> le sz by (intro less.IH [of j "needs \<or> u"]) simp_all
    qed
  qed
qed

lemma cut_eq: "truncateStringToBytesFromEnd str m = from_scalars (fit m (scalars str))"
proof (cases "m = 0")
  case True
  then show ?thesis by (simp add: truncateStringToBytesFromEnd_def fit_zero from_scalars_def)
next
  case False
  obtain q needs where c: "cut_loop str m (length str) 0 (length str) False = (q, needs)"
    by (cases "cut_loop str m (length str) 0 (length str) False") auto
  have "boundary_at str (length str)" by (simp add: boundary_at_def char_boundary_def)
  then have "scalars (drop q str) = fit m (scalars str) \<and> (\<not> needs \<longrightarrow> well_formed (drop q str) = drop q str)"
    using c by (intro cut_loop_fit [of str "length str" m False q needs]) auto
  then show ?thesis using False c
    by (auto simp: truncateStringToBytesFromEnd_def replaceUnpaired_well_formed well_formed_def Let_def)
qed

lemma Buffer_byteLength_fit: "Buffer_byteLength (from_scalars (fit m (scalars str))) \<le> m"
  using size_fit [of m "scalars str"]
  by (simp add: scalars_from_scalars list_all_fit scalars_ok flip: size_of_scalars)

section \<open>Lines\<close>

definition line_feed :: "16 word" where
  "line_feed = 10"

fun split_at_lf :: "utf16 \<Rightarrow> utf16 list" where
  "split_at_lf [] = [[]]"
| "split_at_lf (c # cs) =
    (if c = line_feed then [] # split_at_lf cs
     else case split_at_lf cs of [] \<Rightarrow> [[c]] | l # ls \<Rightarrow> (c # l) # ls)"

fun join_lines :: "utf16 list \<Rightarrow> utf16" where
  "join_lines [] = []"
| "join_lines [l] = l"
| "join_lines (l # m # ls) = l @ line_feed # join_lines (m # ls)"

text \<open>The lines of the harness: all of them for the front, without a last empty one for the end.\<close>

definition tail_lines :: "utf16 \<Rightarrow> utf16 list" where
  "tail_lines content =
    (let lines = split_at_lf content in
     if length lines > 1 \<and> last lines = [] then butlast lines else lines)"

definition splitLinesForCounting :: "utf16 \<Rightarrow> utf16 list" where
  "splitLinesForCounting content =
    (if content = [] then []
     else let lines = split_at_lf content in
       if last content = line_feed then butlast lines else lines)"

lemma split_at_lf_not_Nil [simp]: "split_at_lf s \<noteq> []"
  by (cases s) (auto split: list.splits)

lemma join_lines_Cons: "ls \<noteq> [] \<Longrightarrow> join_lines (l # ls) = l @ line_feed # join_lines ls"
  by (cases ls) auto

lemma join_split [simp]: "join_lines (split_at_lf s) = s"
proof (induction s)
  case (Cons c s)
  then show ?case by (cases "split_at_lf s"; cases "tl (split_at_lf s)") (auto simp: join_lines_Cons)
qed simp

lemma join_lines_snoc: "ls \<noteq> [] \<Longrightarrow> join_lines (ls @ [l]) = join_lines ls @ line_feed # l"
  by (induction ls rule: join_lines.induct) (auto simp: join_lines_Cons)

lemma Buffer_byteLength_line_feed:
  "Buffer_byteLength (a @ line_feed # b) = Buffer_byteLength a + 1 + Buffer_byteLength b"
proof -
  have "\<not> low_surrogate line_feed" "\<not> high_surrogate line_feed" "unat line_feed \<le> 0x7F"
    by (simp_all add: low_surrogate_def high_surrogate_def line_feed_def)
  then show ?thesis
    using scalars_append [of a "line_feed # b"] by (simp add: char_boundary_def flip: size_of_scalars)
      (simp add: size_of_scalars)
qed

section \<open>Truncation\<close>

datatype limit = ByLines | ByBytes

record truncation =
  tn_content :: utf16
  tn_truncated :: bool
  tn_truncatedBy :: "limit option"
  tn_totalLines :: nat
  tn_totalBytes :: nat
  tn_outputLines :: nat
  tn_outputBytes :: nat
  tn_lastLinePartial :: bool
  tn_firstLineExceedsLimit :: bool
  tn_maxLines :: nat
  tn_maxBytes :: nat

record truncation_options =
  op_maxLines :: "nat option"
  op_maxBytes :: "nat option"

definition DEFAULT_MAX_LINES :: nat where
  "DEFAULT_MAX_LINES = 2000"

definition DEFAULT_MAX_BYTES :: nat where
  "DEFAULT_MAX_BYTES = 50 * 1024"

definition GREP_MAX_LINE_LENGTH :: nat where
  "GREP_MAX_LINE_LENGTH = 500"

text \<open>
  The loop over the lines from the front: index of the line, output so far and its bytes. It ends at
  the limit of lines or at the first line that does not fit.
\<close>

fun head_loop :: "(utf16 \<Rightarrow> nat) \<Rightarrow> nat \<Rightarrow> nat \<Rightarrow> utf16 list \<Rightarrow> nat \<Rightarrow> utf16 list \<Rightarrow> nat \<Rightarrow> utf16 list \<times> nat \<times> limit" where
  "head_loop bytes maxLines maxBytes [] i out n = (out, n, ByLines)"
| "head_loop bytes maxLines maxBytes (line # rest) i out n =
    (if i < maxLines then
       let lineBytes = bytes line + (if i > 0 then 1 else 0) in
       if n + lineBytes > maxBytes then (out, n, ByBytes)
       else head_loop bytes maxLines maxBytes rest (i + 1) (out @ [line]) (n + lineBytes)
     else (out, n, ByLines))"

definition untouched :: "utf16 \<Rightarrow> nat \<Rightarrow> nat \<Rightarrow> nat \<Rightarrow> nat \<Rightarrow> truncation" where
  "untouched content totalLines totalBytes maxLines maxBytes =
    \<lparr>tn_content = content, tn_truncated = False, tn_truncatedBy = None, tn_totalLines = totalLines,
     tn_totalBytes = totalBytes, tn_outputLines = totalLines, tn_outputBytes = totalBytes,
     tn_lastLinePartial = False, tn_firstLineExceedsLimit = False, tn_maxLines = maxLines, tn_maxBytes = maxBytes\<rparr>"

definition head_truncation :: "(utf16 \<Rightarrow> nat) \<Rightarrow> utf16 \<Rightarrow> utf16 list \<Rightarrow> truncation_options \<Rightarrow> truncation" where
  "head_truncation bytes content lines options =
    (let maxLines = nullish (op_maxLines options) DEFAULT_MAX_LINES;
       maxBytes = nullish (op_maxBytes options) DEFAULT_MAX_BYTES;
       totalBytes = bytes content; totalLines = length lines in
     if totalLines \<le> maxLines \<and> totalBytes \<le> maxBytes
     then untouched content totalLines totalBytes maxLines maxBytes
     else if bytes (lines ! 0) > maxBytes
     then \<lparr>tn_content = [], tn_truncated = True, tn_truncatedBy = Some ByBytes, tn_totalLines = totalLines,
       tn_totalBytes = totalBytes, tn_outputLines = 0, tn_outputBytes = 0,
       tn_lastLinePartial = False, tn_firstLineExceedsLimit = True, tn_maxLines = maxLines, tn_maxBytes = maxBytes\<rparr>
     else case head_loop bytes maxLines maxBytes lines 0 [] 0 of (out, n, by) \<Rightarrow>
       let by = (if length out \<ge> maxLines \<and> n \<le> maxBytes then ByLines else by);
         outputContent = join_lines out in
       \<lparr>tn_content = outputContent, tn_truncated = True, tn_truncatedBy = Some by, tn_totalLines = totalLines,
        tn_totalBytes = totalBytes, tn_outputLines = length out, tn_outputBytes = bytes outputContent,
        tn_lastLinePartial = False, tn_firstLineExceedsLimit = False, tn_maxLines = maxLines, tn_maxBytes = maxBytes\<rparr>)"

definition truncateHead :: "bool \<Rightarrow> utf16 \<Rightarrow> truncation_options \<Rightarrow> truncation" where
  "truncateHead hasBuffer content options =
    head_truncation (utf8ByteLength hasBuffer) content (split_at_lf content) options"

definition ca_truncateHead :: "utf16 \<Rightarrow> truncation_options \<Rightarrow> truncation" where
  "ca_truncateHead content options =
    head_truncation Buffer_byteLength content (splitLinesForCounting content) options"

text \<open>The loop from the last line back; the lines are given in reverse order.\<close>

fun tail_loop :: "(utf16 \<Rightarrow> nat) \<Rightarrow> (utf16 \<Rightarrow> nat \<Rightarrow> utf16) \<Rightarrow> nat \<Rightarrow> nat \<Rightarrow> utf16 list \<Rightarrow> utf16 list \<Rightarrow> nat
    \<Rightarrow> utf16 list \<times> nat \<times> limit \<times> bool" where
  "tail_loop bytes cutEnd maxLines maxBytes [] out n = (out, n, ByLines, False)"
| "tail_loop bytes cutEnd maxLines maxBytes (line # rest) out n =
    (if length out < maxLines then
       let lineBytes = bytes line + (if length out > 0 then 1 else 0) in
       if n + lineBytes > maxBytes then
         if length out = 0 then
           let truncatedLine = cutEnd line maxBytes in ([truncatedLine], bytes truncatedLine, ByBytes, True)
         else (out, n, ByBytes, False)
       else tail_loop bytes cutEnd maxLines maxBytes rest (line # out) (n + lineBytes)
     else (out, n, ByLines, False))"

definition tail_truncation ::
  "(utf16 \<Rightarrow> nat) \<Rightarrow> (utf16 \<Rightarrow> nat \<Rightarrow> utf16) \<Rightarrow> utf16 \<Rightarrow> utf16 list \<Rightarrow> truncation_options \<Rightarrow> truncation" where
  "tail_truncation bytes cutEnd content lines options =
    (let maxLines = nullish (op_maxLines options) DEFAULT_MAX_LINES;
       maxBytes = nullish (op_maxBytes options) DEFAULT_MAX_BYTES;
       totalBytes = bytes content; totalLines = length lines in
     if totalLines \<le> maxLines \<and> totalBytes \<le> maxBytes
     then untouched content totalLines totalBytes maxLines maxBytes
     else case tail_loop bytes cutEnd maxLines maxBytes (rev lines) [] 0 of (out, n, by, lastLinePartial) \<Rightarrow>
       let by = (if length out \<ge> maxLines \<and> n \<le> maxBytes then ByLines else by);
         outputContent = join_lines out in
       \<lparr>tn_content = outputContent, tn_truncated = True, tn_truncatedBy = Some by, tn_totalLines = totalLines,
        tn_totalBytes = totalBytes, tn_outputLines = length out, tn_outputBytes = bytes outputContent,
        tn_lastLinePartial = lastLinePartial, tn_firstLineExceedsLimit = False, tn_maxLines = maxLines,
        tn_maxBytes = maxBytes\<rparr>)"

definition truncateTail :: "bool \<Rightarrow> utf16 \<Rightarrow> truncation_options \<Rightarrow> truncation" where
  "truncateTail hasBuffer content options =
    tail_truncation (utf8ByteLength hasBuffer) truncateStringToBytesFromEnd content (tail_lines content) options"

definition ca_truncateTail :: "utf16 \<Rightarrow> truncation_options \<Rightarrow> truncation" where
  "ca_truncateTail content options =
    tail_truncation Buffer_byteLength ca_truncateStringToBytesFromEnd content (splitLinesForCounting content) options"

text \<open>A match line of \<open>grep\<close> is cutEnd to a number of code units.\<close>

definition ascii_units :: "string \<Rightarrow> utf16" where
  "ascii_units s = map (\<lambda>c. word_of_nat (of_char c)) s"

definition truncateLine :: "utf16 \<Rightarrow> nat \<Rightarrow> utf16 \<times> bool" where
  "truncateLine line maxChars =
    (if length line \<le> maxChars then (line, False)
     else (take maxChars line @ ascii_units ''... [truncated]'', True))"

text \<open>
  \<open>toFixed(1)\<close> of an exact quotient \<open>a / b\<close>: the nearest number of tenths, the larger one for a tie.
\<close>

definition tenths :: "nat \<Rightarrow> nat \<Rightarrow> string" where
  "tenths a b = (let n = (20 * a + b) div (2 * b) in show_nat (n div 10) @ ''.'' @ show_nat (n mod 10))"

definition formatSize :: "nat \<Rightarrow> string" where
  "formatSize bytes =
    (if bytes < 1024 then show_nat bytes @ ''B''
     else if bytes < 1024 * 1024 then tenths bytes 1024 @ ''KB''
     else tenths bytes (1024 * 1024) @ ''MB'')"

section \<open>What truncation keeps\<close>

text \<open>Bytes of the output when a line is put at one of its ends.\<close>

lemma bytes_join_snoc:
  "Buffer_byteLength (join_lines (out @ [l])) =
    Buffer_byteLength (join_lines out) + (Buffer_byteLength l + (if out = [] then 0 else 1))"
  by (cases "out = []") (simp_all add: join_lines_snoc Buffer_byteLength_line_feed)

lemma bytes_join_Cons:
  "Buffer_byteLength (join_lines (l # out)) =
    Buffer_byteLength (join_lines out) + (Buffer_byteLength l + (if out = [] then 0 else 1))"
  by (cases "out = []") (simp_all add: join_lines_Cons Buffer_byteLength_line_feed)

locale byte_count =
  fixes bytes :: "utf16 \<Rightarrow> nat" and cutEnd :: "utf16 \<Rightarrow> nat \<Rightarrow> utf16"
  assumes bytes_eq: "bytes s = Buffer_byteLength s"
    and cut_bound: "bytes (cutEnd s m) \<le> m \<or> bytes s \<le> m"
begin

lemma join_snoc: "bytes (join_lines (out @ [l])) = bytes (join_lines out) + (bytes l + (if out = [] then 0 else 1))"
  unfolding bytes_eq by (rule bytes_join_snoc)

lemma join_Cons: "bytes (join_lines (l # out)) = bytes (join_lines out) + (bytes l + (if out = [] then 0 else 1))"
  unfolding bytes_eq by (rule bytes_join_Cons)

lemma bytes_Nil: "bytes [] = 0"
  unfolding bytes_eq by simp

lemma head_loop_spec:
  assumes "head_loop bytes mL mB rest (length out) out (bytes (join_lines out)) = (out', n, by)"
    "lines = out @ rest" "bytes (join_lines out) \<le> mB" "length out \<le> mL"
  shows "\<exists>k. k \<le> length lines \<and> out' = take k lines \<and> n = bytes (join_lines out') \<and> n \<le> mB \<and> k \<le> mL \<and>
    (k = length lines \<or> k = mL \<or> bytes (join_lines (take (Suc k) lines)) > mB)"
  using assms
proof (induction rest arbitrary: out)
  case Nil
  then show ?case by (intro exI [of _ "length out"]) auto
next
  case (Cons l rest)
  show ?case
  proof (cases "length out < mL \<and> bytes (join_lines (out @ [l])) \<le> mB")
    case True
    then have "head_loop bytes mL mB rest (length (out @ [l])) (out @ [l]) (bytes (join_lines (out @ [l]))) = (out', n, by)"
      using Cons.prems(1) by (auto simp: bytes_Nil join_snoc Let_def split: if_splits)
    from Cons.IH [OF this] True Cons.prems(2) show ?thesis by simp
  next
    case False
    then have "out' = out" "n = bytes (join_lines out)"
      using Cons.prems(1) by (auto simp: bytes_Nil join_snoc Let_def split: if_splits)
    moreover have "take (Suc (length out)) lines = out @ [l]" using Cons.prems(2) by simp
    ultimately show ?thesis using False Cons.prems by (intro exI [of _ "length out"]) auto
  qed
qed

lemma tail_loop_spec:
  assumes "tail_loop bytes cutEnd mL mB rest out (bytes (join_lines out)) = (out', n, by, partial)"
    "lines = rev rest @ out" "bytes (join_lines out) \<le> mB" "length out \<le> mL"
  shows "if partial then out' = [cutEnd (last lines) mB] \<and> n = bytes (join_lines out') \<and> bytes (last lines) > mB \<and> 1 \<le> mL
    else \<exists>k \<le> length lines. out' = drop k lines \<and> n = bytes (join_lines out') \<and> n \<le> mB \<and> length out' \<le> mL \<and>
      (k = 0 \<or> length out' = mL \<or> bytes (join_lines (drop (k - 1) lines)) > mB)"
  using assms
proof (induction rest arbitrary: out)
  case Nil
  then show ?case by (auto intro!: exI [of _ 0])
next
  case (Cons l rest)
  show ?case
  proof (cases "length out < mL \<and> bytes (join_lines (l # out)) \<le> mB")
    case True
    then have "tail_loop bytes cutEnd mL mB rest (l # out) (bytes (join_lines (l # out))) = (out', n, by, partial)"
      using Cons.prems(1) by (auto simp: bytes_Nil join_Cons Let_def split: if_splits)
    from Cons.IH [OF this] True Cons.prems(2) show ?thesis by simp
  next
    case stop: False
    show ?thesis
    proof (cases "out = [] \<and> length out < mL")
      case True
      with stop Cons.prems show ?thesis by (auto simp: bytes_Nil Let_def)
    next
      case False
      with stop have "out' = out" "n = bytes (join_lines out)" "\<not> partial"
        using Cons.prems(1) by (auto simp: bytes_Nil join_Cons Let_def split: if_splits)
      moreover have "drop (length rest) lines = l # out" "drop (Suc (length rest)) lines = out"
        using Cons.prems(2) by simp_all
      ultimately show ?thesis using stop Cons.prems by (auto intro!: exI [of _ "Suc (length rest)"])
    qed
  qed
qed

lemma head_result:
  assumes r: "r = head_truncation bytes content lines options" and lines: "lines \<noteq> []"
    and whole: "bytes (join_lines lines) \<le> bytes content"
  shows "if tn_truncated r then
      tn_content r = join_lines (take (tn_outputLines r) lines) \<and> tn_outputBytes r = bytes (tn_content r) \<and>
      tn_outputBytes r \<le> tn_maxBytes r \<and> tn_outputLines r \<le> tn_maxLines r \<and> tn_outputLines r \<le> length lines \<and>
      (tn_outputLines r = length lines \<or> tn_outputLines r = tn_maxLines r \<or>
        bytes (join_lines (take (Suc (tn_outputLines r)) lines)) > tn_maxBytes r)
    else tn_content r = content \<and> tn_outputLines r = length lines \<and> tn_outputBytes r = bytes content \<and>
      bytes content \<le> tn_maxBytes r \<and> length lines \<le> tn_maxLines r"
proof -
  define mL mB where "mL = nullish (op_maxLines options) DEFAULT_MAX_LINES"
    and "mB = nullish (op_maxBytes options) DEFAULT_MAX_BYTES"
  note defs = head_truncation_def Let_def mL_def [symmetric] mB_def [symmetric]
  consider (fits) "length lines \<le> mL" "bytes content \<le> mB"
    | (first) "\<not> (length lines \<le> mL \<and> bytes content \<le> mB)" "bytes (lines ! 0) > mB"
    | (loop) "\<not> (length lines \<le> mL \<and> bytes content \<le> mB)" "bytes (lines ! 0) \<le> mB" by linarith
  then show ?thesis
  proof cases
    case fits
    then show ?thesis by (simp add: r defs untouched_def)
  next
    case first
    moreover have "join_lines (take (Suc 0) lines) = lines ! 0" using lines by (cases lines) auto
    ultimately show ?thesis unfolding r defs if_not_P [OF first(1)] if_P [OF first(2)] by (simp add: bytes_Nil)
  next
    case loop
    obtain out n by' where h: "head_loop bytes mL mB lines 0 [] 0 = (out, n, by')"
      by (cases "head_loop bytes mL mB lines 0 [] 0") auto
    from loop(2) have nf: "\<not> bytes (lines ! 0) > mB" by simp
    from head_loop_spec [of mL mB lines "[]" out n by' lines] h
    obtain k where k: "k \<le> length lines" "out = take k lines" "n = bytes (join_lines out)" "n \<le> mB" "k \<le> mL"
      "k = length lines \<or> k = mL \<or> bytes (join_lines (take (Suc k) lines)) > mB" by (auto simp: bytes_Nil)
    then show ?thesis unfolding r defs if_not_P [OF loop(1)] if_not_P [OF nf] h by auto
  qed
qed

lemma tail_result:
  assumes r: "r = tail_truncation bytes cutEnd content lines options"
  shows "tn_outputBytes r = bytes (tn_content r)" "tn_outputBytes r \<le> tn_maxBytes r" "tn_outputLines r \<le> tn_maxLines r"
    and "if tn_lastLinePartial r then tn_content r = cutEnd (last lines) (tn_maxBytes r) \<and> bytes (last lines) > tn_maxBytes r
      else if tn_truncated r then tn_outputLines r \<le> length lines \<and>
        tn_content r = join_lines (drop (length lines - tn_outputLines r) lines) \<and>
        (tn_outputLines r = length lines \<or> tn_outputLines r = tn_maxLines r \<or>
          bytes (join_lines (drop (length lines - Suc (tn_outputLines r)) lines)) > tn_maxBytes r)
      else tn_content r = content \<and> tn_outputLines r = length lines"
proof -
  define mL mB where "mL = nullish (op_maxLines options) DEFAULT_MAX_LINES"
    and "mB = nullish (op_maxBytes options) DEFAULT_MAX_BYTES"
  note defs = tail_truncation_def Let_def mL_def [symmetric] mB_def [symmetric]
  have "tn_outputBytes r = bytes (tn_content r) \<and> tn_outputBytes r \<le> tn_maxBytes r \<and> tn_outputLines r \<le> tn_maxLines r \<and>
    (if tn_lastLinePartial r then tn_content r = cutEnd (last lines) (tn_maxBytes r) \<and> bytes (last lines) > tn_maxBytes r
      else if tn_truncated r then tn_outputLines r \<le> length lines \<and>
        tn_content r = join_lines (drop (length lines - tn_outputLines r) lines) \<and>
        (tn_outputLines r = length lines \<or> tn_outputLines r = tn_maxLines r \<or>
          bytes (join_lines (drop (length lines - Suc (tn_outputLines r)) lines)) > tn_maxBytes r)
      else tn_content r = content \<and> tn_outputLines r = length lines)"
  proof (cases "length lines \<le> mL \<and> bytes content \<le> mB")
    case True
    then show ?thesis by (simp add: r defs untouched_def)
  next
    case False
    obtain out n by' partial where h: "tail_loop bytes cutEnd mL mB (rev lines) [] 0 = (out, n, by', partial)"
      by (cases "tail_loop bytes cutEnd mL mB (rev lines) [] 0") auto
    note spec = tail_loop_spec [of mL mB "rev lines" "[]" out n by' partial lines]
    show ?thesis
    proof (cases partial)
      case True
      with spec h have "out = [cutEnd (last lines) mB]" "bytes (last lines) > mB" "1 \<le> mL" by (auto simp: bytes_Nil)
      moreover have "bytes (cutEnd (last lines) mB) \<le> mB"
        using cut_bound [of "last lines" mB] calculation(2) by linarith
      ultimately show ?thesis unfolding r defs if_not_P [OF False] h using True by simp
    next
      case full: False
      with spec h have "\<exists>k \<le> length lines. out = drop k lines \<and> n = bytes (join_lines out) \<and> n \<le> mB \<and>
        length out \<le> mL \<and> (k = 0 \<or> length out = mL \<or> bytes (join_lines (drop (k - 1) lines)) > mB)"
        by (simp add: bytes_Nil)
      then obtain k where k: "k \<le> length lines" "out = drop k lines" "n = bytes (join_lines out)" "n \<le> mB"
        "length out \<le> mL" "k = 0 \<or> length out = mL \<or> bytes (join_lines (drop (k - 1) lines)) > mB" by blast
      then have "length lines - length out = k" "length lines - Suc (length out) = k - 1" by simp_all
      with k full show ?thesis unfolding r defs if_not_P [OF False] h by auto
    qed
  qed
  then show "tn_outputBytes r = bytes (tn_content r)" "tn_outputBytes r \<le> tn_maxBytes r" "tn_outputLines r \<le> tn_maxLines r"
    and "if tn_lastLinePartial r then tn_content r = cutEnd (last lines) (tn_maxBytes r) \<and> bytes (last lines) > tn_maxBytes r
      else if tn_truncated r then tn_outputLines r \<le> length lines \<and>
        tn_content r = join_lines (drop (length lines - tn_outputLines r) lines) \<and>
        (tn_outputLines r = length lines \<or> tn_outputLines r = tn_maxLines r \<or>
          bytes (join_lines (drop (length lines - Suc (tn_outputLines r)) lines)) > tn_maxBytes r)
      else tn_content r = content \<and> tn_outputLines r = length lines" by blast+
qed

end

interpretation harness_bytes: byte_count "utf8ByteLength hasBuffer" truncateStringToBytesFromEnd for hasBuffer
  by unfold_locales (simp_all add: utf8ByteLength_eq cut_eq Buffer_byteLength_fit)

interpretation ca_bytes: byte_count Buffer_byteLength ca_truncateStringToBytesFromEnd
  by unfold_locales (simp_all add: ca_cut_eq Buffer_byteLength_fit)

text \<open>The two ways of cutting a line agree up to unpaired surrogates.\<close>

lemma cut_agree:
  "truncateStringToBytesFromEnd str m = replaceUnpairedSurrogates (ca_truncateStringToBytesFromEnd str m)"
proof (cases "Buffer_byteLength str \<le> m")
  case True
  then show ?thesis
    by (simp add: cut_eq ca_cut_eq replaceUnpaired_well_formed well_formed_def fit_all size_of_scalars)
next
  case False
  then show ?thesis
    by (simp add: cut_eq ca_cut_eq replaceUnpaired_well_formed well_formed_def scalars_from_scalars list_all_fit scalars_ok)
qed

text \<open>
  The limit that is reported is not always the one that was hit: four bytes in one line, cut to three
  bytes, are reported as too many lines.
\<close>

lemma byte_limit_reported_as_lines:
  fixes options
  defines "options \<equiv> \<lparr>op_maxLines = None, op_maxBytes = Some 3\<rparr>"
  shows "tn_truncatedBy (ca_truncateTail [97, 98, 99, line_feed] options) = Some ByLines"
    and "tn_totalLines (ca_truncateTail [97, 98, 99, line_feed] options) = 1"
proof -
  have bytes: "Buffer_byteLength [97, 98, 99] = 3" "Buffer_byteLength [97, 98, 99, line_feed] = 4"
    using ascii_prefix [of "[97, 98, 99]" "[]"] ascii_prefix [of "[97, 98, 99, line_feed]" "[]"]
    by (simp_all add: line_feed_def)
  have lines: "splitLinesForCounting [97, 98, 99, line_feed] = [[97, 98, 99]]"
    by (simp add: splitLinesForCounting_def line_feed_def Let_def)
  show "tn_truncatedBy (ca_truncateTail [97, 98, 99, line_feed] options) = Some ByLines"
    and "tn_totalLines (ca_truncateTail [97, 98, 99, line_feed] options) = 1"
    unfolding ca_truncateTail_def lines tail_truncation_def bytes options_def
    by (simp_all add: DEFAULT_MAX_LINES_def bytes Let_def)
qed

end
