(* ===== verification/Manager_Context.thy ===== *)
theory Manager_Context
  imports Session_Storage
begin

text \<open>
  How the coding agent derives the context of a session: the pure functions at the top of
  \<open>coding-agent/src/core/session-manager.ts\<close>. Entries are those of the session tree; an entry whose
  parent is not in the index ends the walk to the root, a cycle of parents makes it diverge (\<open>None\<close>).
\<close>

definition getLatestCompactionEntry :: "session_entry list \<Rightarrow> session_entry option" where
  "getLatestCompactionEntry entries = find is_compaction (rev entries)"

definition buildEntryIndex ::
  "session_entry list \<Rightarrow> (string, session_entry) omap option \<Rightarrow> (string, session_entry) omap" where
  "buildEntryIndex entries byId = (case byId of Some m \<Rightarrow> m | None \<Rightarrow> index_entries entries)"

text \<open>The loop up the parents that \<open>buildSessionPath\<close> and \<open>getBranch\<close> share.\<close>

partial_function (option) walk_up ::
  "(string, session_entry) omap \<Rightarrow> session_entry option \<Rightarrow> session_entry list \<Rightarrow> session_entry list option" where
  "walk_up index current path =
     (case current of
        None \<Rightarrow> Some path
      | Some e \<Rightarrow> walk_up index
          (case en_parentId e of None \<Rightarrow> None | Some p \<Rightarrow> if p = [] then None else om_get index p) (e # path))"

text \<open>The leaf argument: not given, \<open>null\<close>, or an identifier.\<close>

datatype leaf_arg = NoLeaf | NullLeaf | AtLeaf string

definition buildSessionPath ::
  "session_entry list \<Rightarrow> leaf_arg \<Rightarrow> (string, session_entry) omap option \<Rightarrow> session_entry list option" where
  "buildSessionPath entries leafId byId =
     (let index = buildEntryIndex entries byId in
      case leafId of
        NullLeaf \<Rightarrow> Some []
      | _ \<Rightarrow>
        let found = (case leafId of AtLeaf l \<Rightarrow> if l = [] then None else om_get index l | _ \<Rightarrow> None);
          leaf = nullish_opt found (last_opt entries)
        in case leaf of None \<Rightarrow> Some [] | Some e \<Rightarrow> walk_up index (Some e) [])"

definition settings_step :: "session_entry \<Rightarrow> string \<times> (string \<times> string) option \<Rightarrow> string \<times> (string \<times> string) option" where
  "settings_step e st =
     (case en_body e of
        ThinkingLevelChange l \<Rightarrow> (l, snd st)
      | ModelChange p m \<Rightarrow> (fst st, Some (p, m))
      | MessageEntry (Assistant am) \<Rightarrow> (fst st, Some (am_provider am, am_model am))
      | _ \<Rightarrow> st)"

definition getSessionContextSettings :: "session_entry list \<Rightarrow> string \<times> (string \<times> string) option" where
  "getSessionContextSettings path = fold settings_step path (''off'', None)"

definition ca_sessionEntryToContextMessages :: "session_entry \<Rightarrow> agent_message list" where
  "ca_sessionEntryToContextMessages e =
     (case en_body e of
        MessageEntry m \<Rightarrow> [m]
      | CustomMessageEntry c \<Rightarrow>
          [createCustomMessage (cme_customType c) (cme_content c) (cme_display c) (cme_details c) (en_timestamp e)]
      | BranchSummaryEntry b \<Rightarrow>
          if bse_summary b \<noteq> [] then [createBranchSummaryMessage (bse_summary b) (bse_fromId b) (en_timestamp e)] else []
      | CompactionEntry c \<Rightarrow>
          [createCompactionSummaryMessage (ce_summary c) (ce_tokensBefore c) (en_timestamp e)]
      | _ \<Rightarrow> [])"

text \<open>The entries of the context of a path; the last compaction is looked up by its identifier.\<close>

definition context_of_path :: "session_entry list \<Rightarrow> session_entry list" where
  "context_of_path path =
     (case last_compaction path of
        None \<Rightarrow> path
      | Some compaction \<Rightarrow>
          let idx = find_index (\<lambda>e. en_id e = en_id compaction) path in
          if idx = length path then path
          else compaction # kept_entries (firstKeptEntryId compaction) False (take idx path) @ drop (Suc idx) path)"

definition ca_buildContextEntries ::
  "session_entry list \<Rightarrow> leaf_arg \<Rightarrow> (string, session_entry) omap option \<Rightarrow> session_entry list option" where
  "ca_buildContextEntries entries leafId byId = map_option context_of_path (buildSessionPath entries leafId byId)"

record manager_context =
  mc_messages :: "agent_message list"
  mc_thinkingLevel :: string
  mc_model :: "(string \<times> string) option"

definition ca_buildSessionContext ::
  "session_entry list \<Rightarrow> leaf_arg \<Rightarrow> (string, session_entry) omap option \<Rightarrow> manager_context option" where
  "ca_buildSessionContext entries leafId byId =
     (case buildSessionPath entries leafId byId of
        None \<Rightarrow> None
      | Some path \<Rightarrow>
          (case getSessionContextSettings path of (level, model) \<Rightarrow>
             map_option (\<lambda>es. \<lparr>mc_messages = concat (map ca_sessionEntryToContextMessages es),
                                mc_thinkingLevel = level, mc_model = model\<rparr>)
               (ca_buildContextEntries entries leafId byId)))"

section \<open>The context is that of the harness\<close>

lemma ca_entry_messages: "ca_sessionEntryToContextMessages = entry_messages"
  by (rule ext) (simp add: ca_sessionEntryToContextMessages_def entry_messages_def projected_without_options)

lemma context_of_path_none: "\<forall>e \<in> set es. \<not> is_compaction e \<Longrightarrow> context_of_path es = es"
  using last_compaction_None [of es] by (simp add: context_of_path_def)

lemma context_of_path_last:
  assumes "is_compaction c" "\<forall>e \<in> set post. \<not> is_compaction e" "\<forall>e \<in> set pre. en_id e \<noteq> en_id c"
  shows "context_of_path (pre @ c # post) = c # dropWhile (\<lambda>e. en_id e \<noteq> firstKeptEntryId c) pre @ post"
proof -
  have "find_index (\<lambda>e. en_id e = en_id c) (pre @ c # post) = length pre"
    using assms by (subst find_index_append) auto
  then show ?thesis
    using assms by (simp add: context_of_path_def last_compaction_append kept_entries_dropWhile Let_def)
qed

lemma context_of_path_distinct:
  assumes "distinct (map en_id es)"
  shows "context_of_path es = defaultContextEntryTransform es"
proof (cases "\<exists>e \<in> set es. is_compaction e")
  case True
  then obtain pre c post where es: "es = pre @ c # post" "is_compaction c" "\<forall>e \<in> set post. \<not> is_compaction e"
    using split_last_compaction by blast
  with assms have "\<forall>e \<in> set pre. en_id e \<noteq> en_id c" by (auto simp: image_iff)
  with es show ?thesis by (simp add: context_of_path_last defaultContextEntryTransform_last)
next
  case False
  then show ?thesis by (simp add: context_of_path_none defaultContextEntryTransform_none)
qed

lemma settings_fold:
  "fold settings_step es (cs_thinkingLevel st, cs_model st) =
     (cs_thinkingLevel (fold state_step es st), cs_model (fold state_step es st))"
proof (induction es arbitrary: st)
  case (Cons e es)
  have "settings_step e (cs_thinkingLevel st, cs_model st) =
    (cs_thinkingLevel (state_step e st), cs_model (state_step e st))"
    by (simp add: settings_step_def state_step_def split: entry_body.splits agent_message.splits)
  with Cons show ?case by simp
qed simp

lemma getSessionContextSettings_harness:
  "getSessionContextSettings es =
     (cs_thinkingLevel (deriveSessionContextState es), cs_model (deriveSessionContextState es))"
  using settings_fold [of es initial_state]
  by (simp add: getSessionContextSettings_def deriveSessionContextState_def initial_state_def)

text \<open>On a path without repeated identifiers both implementations give the same context.\<close>

lemma ca_context_harness:
  assumes "buildSessionPath entries leafId byId = Some path" "distinct (map en_id path)"
  shows "ca_buildSessionContext entries leafId byId = Some
    \<lparr>mc_messages = sc_messages (buildSessionContext path no_options),
     mc_thinkingLevel = cs_thinkingLevel (buildSessionContext path no_options),
     mc_model = cs_model (buildSessionContext path no_options)\<rparr>"
proof -
  have "cs_thinkingLevel (buildSessionContext path no_options) = cs_thinkingLevel (deriveSessionContextState path)"
    "cs_model (buildSessionContext path no_options) = cs_model (deriveSessionContextState path)"
    by (simp_all add: buildSessionContext_def Let_def)
  then show ?thesis
    using assms by (simp add: ca_buildSessionContext_def ca_buildContextEntries_def getSessionContextSettings_harness
        buildSessionContext_messages context_of_path_distinct ca_entry_messages)
qed

end
