(* ===== verification/Compaction_Cut.thy ===== *)
theory Compaction_Cut
  imports Manager_Context Json
begin

text \<open>
  Token estimates and cut points of compaction: \<open>agent/src/harness/compaction/compaction.ts\<close> and the
  variant of the coding agent, \<open>coding-agent/src/core/compaction/compaction.ts\<close>. The two differ in
  which entries are valid cut points, count towards the budget or start a turn; the walk they share is
  \<open>find_cut\<close>, and the locale \<open>cut_rules\<close> states what it needs of these choices. An index \<open>-1\<close> of the source is
  \<open>None\<close>. Counts of characters are exact on text of one-byte characters.
\<close>

section \<open>Usage and estimates\<close>

definition calculateContextTokens :: "usage \<Rightarrow> int" where
  "calculateContextTokens u =
     (if us_totalTokens u \<noteq> 0 then us_totalTokens u
      else us_input u + us_output u + us_cacheRead u + us_cacheWrite u)"

definition getAssistantUsage :: "agent_message \<Rightarrow> usage option" where
  "getAssistantUsage msg =
     (case msg of
        Assistant am \<Rightarrow>
          if am_stopReason am \<noteq> Aborted \<and> am_stopReason am \<noteq> StopError \<and> calculateContextTokens (am_usage am) > 0
          then Some (am_usage am) else None
      | _ \<Rightarrow> None)"

fun first_usage :: "session_entry list \<Rightarrow> usage option" where
  "first_usage [] = None"
| "first_usage (e # es) =
     (case en_body e of
        MessageEntry m \<Rightarrow> (case getAssistantUsage m of Some u \<Rightarrow> Some u | None \<Rightarrow> first_usage es)
      | _ \<Rightarrow> first_usage es)"

definition getLastAssistantUsage :: "session_entry list \<Rightarrow> usage option" where
  "getLastAssistantUsage entries = first_usage (rev entries)"

definition ESTIMATED_IMAGE_CHARS :: nat where
  "ESTIMATED_IMAGE_CHARS = 4800"

fun block_chars :: "media \<Rightarrow> nat" where
  "block_chars (TextContent t _) = length t"
| "block_chars (ImageContent _ _) = ESTIMATED_IMAGE_CHARS"

fun estimateTextAndImageContentChars :: "user_content \<Rightarrow> nat" where
  "estimateTextAndImageContentChars (PlainText s) = length s"
| "estimateTextAndImageContentChars (Parts bs) = sum_list (map block_chars bs)"

fun assistant_block_chars :: "assistant_content \<Rightarrow> nat" where
  "assistant_block_chars (AText t _) = length t"
| "assistant_block_chars (AThinking t _ _) = length t"
| "assistant_block_chars (AToolCall tc) = length (tc_name tc) + length (stringify (tc_arguments tc))"

text \<open>\<open>Math.ceil(chars / 4)\<close>.\<close>

definition quarter :: "nat \<Rightarrow> nat" where
  "quarter chars = (chars + 3) div 4"

fun estimateTokens :: "agent_message \<Rightarrow> nat" where
  "estimateTokens (User m) = quarter (estimateTextAndImageContentChars (um_content m))"
| "estimateTokens (Assistant m) = quarter (sum_list (map assistant_block_chars (am_content m)))"
| "estimateTokens (Custom m) = quarter (estimateTextAndImageContentChars (cm_content m))"
| "estimateTokens (ToolResult m) = quarter (estimateTextAndImageContentChars (Parts (tr_content m)))"
| "estimateTokens (BashExecution m) = quarter (length (be_command m) + length (be_output m))"
| "estimateTokens (BranchSummary m) = quarter (length (bsm_summary m))"
| "estimateTokens (CompactionSummary m) = quarter (length (csm_summary m))"

text \<open>The last message with usage, as its usage and the messages after it.\<close>

fun last_usage_split :: "agent_message list \<Rightarrow> (usage \<times> agent_message list) option" where
  "last_usage_split [] = None"
| "last_usage_split (m # ms) =
     (case last_usage_split ms of
        Some r \<Rightarrow> Some r
      | None \<Rightarrow> (case getAssistantUsage m of Some u \<Rightarrow> Some (u, ms) | None \<Rightarrow> None))"

record context_usage_estimate =
  cue_tokens :: int
  cue_usageTokens :: int
  cue_trailingTokens :: nat
  cue_lastUsageIndex :: "nat option"

definition total_estimate :: "agent_message list \<Rightarrow> nat" where
  "total_estimate ms = sum_list (map estimateTokens ms)"

definition estimateContextTokens :: "agent_message list \<Rightarrow> context_usage_estimate" where
  "estimateContextTokens messages =
     (case last_usage_split messages of
        None \<Rightarrow> \<lparr>cue_tokens = int (total_estimate messages), cue_usageTokens = 0,
                 cue_trailingTokens = total_estimate messages, cue_lastUsageIndex = None\<rparr>
      | Some (u, rest) \<Rightarrow>
          \<lparr>cue_tokens = calculateContextTokens u + int (total_estimate rest), cue_usageTokens = calculateContextTokens u,
           cue_trailingTokens = total_estimate rest, cue_lastUsageIndex = Some (length messages - Suc (length rest))\<rparr>)"

record compaction_settings =
  cps_enabled :: bool
  cps_reserveTokens :: int
  cps_keepRecentTokens :: nat

definition DEFAULT_COMPACTION_SETTINGS :: compaction_settings where
  "DEFAULT_COMPACTION_SETTINGS = \<lparr>cps_enabled = True, cps_reserveTokens = 16384, cps_keepRecentTokens = 20000\<rparr>"

definition shouldCompact :: "int \<Rightarrow> int \<Rightarrow> compaction_settings \<Rightarrow> bool" where
  "shouldCompact contextTokens contextWindow settings =
     (if \<not> cps_enabled settings then False else contextTokens > contextWindow - cps_reserveTokens settings)"

section \<open>The walk to a cut point\<close>

record cut_point =
  cut_firstKept :: nat
  cut_turnStart :: "nat option"
  cut_isSplit :: bool

text \<open>Walk back from the end while the budget is not reached; the result is the index where it is.\<close>

fun budget_index :: "(session_entry \<Rightarrow> nat option) \<Rightarrow> nat \<Rightarrow> session_entry list \<Rightarrow> nat \<Rightarrow> nat \<Rightarrow> nat \<Rightarrow> nat option" where
  "budget_index weight keep es start 0 acc = None"
| "budget_index weight keep es start (Suc i) acc =
     (if i < start then None
      else case weight (es ! i) of
          None \<Rightarrow> budget_index weight keep es start i acc
        | Some t \<Rightarrow> if acc + t \<ge> keep then Some i else budget_index weight keep es start i (acc + t))"

text \<open>Include the entries before the cut point down to one that stops the walk.\<close>

fun widen :: "(session_entry \<Rightarrow> bool) \<Rightarrow> session_entry list \<Rightarrow> nat \<Rightarrow> nat \<Rightarrow> nat" where
  "widen stop es start 0 = 0"
| "widen stop es start (Suc i) =
     (if Suc i > start then if stop (es ! i) then Suc i else widen stop es start i else Suc i)"

fun turn_start_index :: "(session_entry \<Rightarrow> bool) \<Rightarrow> session_entry list \<Rightarrow> nat \<Rightarrow> nat \<Rightarrow> nat option" where
  "turn_start_index starts es start i =
     (if i < start then None
      else if starts (es ! i) then Some i
      else case i of 0 \<Rightarrow> None | Suc j \<Rightarrow> turn_start_index starts es start j)"

definition valid_cuts :: "(session_entry \<Rightarrow> bool) \<Rightarrow> session_entry list \<Rightarrow> nat \<Rightarrow> nat \<Rightarrow> nat list" where
  "valid_cuts valid es start endIndex = filter (\<lambda>i. valid (es ! i)) [start..<endIndex]"

definition find_cut ::
  "(session_entry \<Rightarrow> bool) \<Rightarrow> (session_entry \<Rightarrow> nat option) \<Rightarrow> (session_entry \<Rightarrow> bool) \<Rightarrow> (session_entry \<Rightarrow> bool) \<Rightarrow>
   (session_entry \<Rightarrow> bool) \<Rightarrow> session_entry list \<Rightarrow> nat \<Rightarrow> nat \<Rightarrow> nat \<Rightarrow> cut_point" where
  "find_cut valid weight stop whole_turn starts es start endIndex keep =
     (case valid_cuts valid es start endIndex of
        [] \<Rightarrow> \<lparr>cut_firstKept = start, cut_turnStart = None, cut_isSplit = False\<rparr>
      | c0 # _ \<Rightarrow>
          let cut0 = (case budget_index weight keep es start endIndex 0 of
                 None \<Rightarrow> c0
               | Some i \<Rightarrow> (case find (\<lambda>c. c \<ge> i) (valid_cuts valid es start endIndex) of None \<Rightarrow> c0 | Some c \<Rightarrow> c));
            cutIndex = widen stop es start cut0;
            turnStart = (if whole_turn (es ! cutIndex) then None else turn_start_index starts es start cutIndex)
          in \<lparr>cut_firstKept = cutIndex, cut_turnStart = turnStart,
              cut_isSplit = (\<not> whole_turn (es ! cutIndex) \<and> turnStart \<noteq> None)\<rparr>)"

section \<open>The cut of the harness\<close>

definition valid_cut :: "session_entry \<Rightarrow> bool" where
  "valid_cut e =
     (case en_body e of
        MessageEntry m \<Rightarrow> \<not> is_tool_result m
      | BranchSummaryEntry _ \<Rightarrow> True
      | CustomMessageEntry _ \<Rightarrow> True
      | _ \<Rightarrow> False)"

definition findValidCutPoints :: "session_entry list \<Rightarrow> nat \<Rightarrow> nat \<Rightarrow> nat list" where
  "findValidCutPoints entries startIndex endIndex = valid_cuts valid_cut entries startIndex endIndex"

definition message_weight :: "session_entry \<Rightarrow> nat option" where
  "message_weight e = (case en_body e of MessageEntry m \<Rightarrow> Some (estimateTokens m) | _ \<Rightarrow> None)"

definition message_or_compaction :: "session_entry \<Rightarrow> bool" where
  "message_or_compaction e = (case en_body e of MessageEntry _ \<Rightarrow> True | CompactionEntry _ \<Rightarrow> True | _ \<Rightarrow> False)"

definition is_user_entry :: "session_entry \<Rightarrow> bool" where
  "is_user_entry e = (case en_body e of MessageEntry (User _) \<Rightarrow> True | _ \<Rightarrow> False)"

definition starts_turn :: "session_entry \<Rightarrow> bool" where
  "starts_turn e =
     (case en_body e of
        BranchSummaryEntry _ \<Rightarrow> True
      | CustomMessageEntry _ \<Rightarrow> True
      | MessageEntry (User _) \<Rightarrow> True
      | MessageEntry (BashExecution _) \<Rightarrow> True
      | _ \<Rightarrow> False)"

definition findTurnStartIndex :: "session_entry list \<Rightarrow> nat \<Rightarrow> nat \<Rightarrow> nat option" where
  "findTurnStartIndex entries entryIndex startIndex = turn_start_index starts_turn entries startIndex entryIndex"

definition findCutPoint :: "session_entry list \<Rightarrow> nat \<Rightarrow> nat \<Rightarrow> nat \<Rightarrow> cut_point" where
  "findCutPoint entries startIndex endIndex keepRecentTokens =
     find_cut valid_cut message_weight message_or_compaction is_user_entry starts_turn
       entries startIndex endIndex keepRecentTokens"

section \<open>The cut of the coding agent\<close>

fun isCutPointMessage :: "agent_message \<Rightarrow> bool" where
  "isCutPointMessage (ToolResult _) = False"
| "isCutPointMessage _ = True"

fun isTurnStartMessage :: "agent_message \<Rightarrow> bool" where
  "isTurnStartMessage (Assistant _) = False"
| "isTurnStartMessage (ToolResult _) = False"
| "isTurnStartMessage _ = True"

definition isTurnStartEntry :: "session_entry \<Rightarrow> bool" where
  "isTurnStartEntry e =
     (if is_compaction e then False else list_ex isTurnStartMessage (ca_sessionEntryToContextMessages e))"

definition ca_valid_cut :: "session_entry \<Rightarrow> bool" where
  "ca_valid_cut e = (\<not> is_compaction e \<and> list_ex isCutPointMessage (ca_sessionEntryToContextMessages e))"

definition ca_findValidCutPoints :: "session_entry list \<Rightarrow> nat \<Rightarrow> nat \<Rightarrow> nat list" where
  "ca_findValidCutPoints entries startIndex endIndex = valid_cuts ca_valid_cut entries startIndex endIndex"

definition ca_findTurnStartIndex :: "session_entry list \<Rightarrow> nat \<Rightarrow> nat \<Rightarrow> nat option" where
  "ca_findTurnStartIndex entries entryIndex startIndex = turn_start_index isTurnStartEntry entries startIndex entryIndex"

definition context_weight :: "session_entry \<Rightarrow> nat option" where
  "context_weight e =
     (let t = total_estimate (ca_sessionEntryToContextMessages e) in if t = 0 then None else Some t)"

definition visible_or_compaction :: "session_entry \<Rightarrow> bool" where
  "visible_or_compaction e = (is_compaction e \<or> ca_sessionEntryToContextMessages e \<noteq> [])"

definition ca_findCutPoint :: "session_entry list \<Rightarrow> nat \<Rightarrow> nat \<Rightarrow> nat \<Rightarrow> cut_point" where
  "ca_findCutPoint entries startIndex endIndex keepRecentTokens =
     find_cut ca_valid_cut context_weight visible_or_compaction isTurnStartEntry isTurnStartEntry
       entries startIndex endIndex keepRecentTokens"

section \<open>What a cut guarantees\<close>

definition result_entry :: "session_entry \<Rightarrow> bool" where
  "result_entry e = (case en_body e of MessageEntry (ToolResult _) \<Rightarrow> True | _ \<Rightarrow> False)"

lemma budget_index_bounds:
  "budget_index weight keep es start n acc = Some i \<Longrightarrow> start \<le> i \<and> i < n"
  by (induction weight keep es start n acc rule: budget_index.induct) (auto split: if_splits option.splits)

lemma widen_bounds: "start \<le> i \<Longrightarrow> start \<le> widen stop es start i \<and> widen stop es start i \<le> i"
  by (induction stop es start i rule: widen.induct) (auto split: if_splits)

lemma widen_passes:
  "start \<le> i \<Longrightarrow> widen stop es start i \<le> j \<Longrightarrow> j < i \<Longrightarrow> \<not> stop (es ! j)"
proof (induction stop es start i rule: widen.induct)
  case (2 stop es start i)
  then show ?case by (cases "j = i") (auto split: if_splits)
qed simp

declare turn_start_index.simps [simp del]

lemma turn_start_bounds:
  "turn_start_index starts es start i = Some t \<Longrightarrow> start \<le> t \<and> t \<le> i \<and> starts (es ! t)"
proof (induction i)
  case 0
  then show ?case by (subst (asm) turn_start_index.simps) (simp split: if_splits)
next
  case (Suc i)
  from Suc(2) have "start \<le> Suc i \<and> (starts (es ! Suc i) \<and> t = Suc i \<or> turn_start_index starts es start i = Some t)"
    by (subst (asm) turn_start_index.simps) (simp split: if_splits)
  with Suc(1) show ?case by auto
qed

lemma valid_cuts_mem: "c \<in> set (valid_cuts valid es start e) \<longleftrightarrow> start \<le> c \<and> c < e \<and> valid (es ! c)"
  by (auto simp: valid_cuts_def)

locale cut_rules =
  fixes valid stop :: "session_entry \<Rightarrow> bool"
  assumes valid_not_result: "valid e \<Longrightarrow> \<not> result_entry e \<and> \<not> is_compaction e"
    and stop_result: "result_entry e \<or> is_compaction e \<Longrightarrow> stop e"
begin

text \<open>The cut lies in the range, and what is kept starts with a valid cut point after entries that are
  neither tool results nor compactions.\<close>

lemma cut_anchor:
  assumes c: "c \<in> set (valid_cuts valid es start n)"
  shows "\<exists>a. start \<le> cut_firstKept (find_cut valid weight stop whole starts es start n keep) \<and>
    cut_firstKept (find_cut valid weight stop whole starts es start n keep) \<le> a \<and> a < n \<and> valid (es ! a) \<and>
    (\<forall>j. cut_firstKept (find_cut valid weight stop whole starts es start n keep) \<le> j \<and> j \<le> a
      \<longrightarrow> \<not> result_entry (es ! j) \<and> \<not> is_compaction (es ! j))"
proof -
  obtain c0 cs where cs: "valid_cuts valid es start n = c0 # cs" using c by (cases "valid_cuts valid es start n") auto
  define a where "a = (case budget_index weight keep es start n 0 of
       None \<Rightarrow> c0
     | Some i \<Rightarrow> (case find (\<lambda>c. c \<ge> i) (valid_cuts valid es start n) of None \<Rightarrow> c0 | Some c \<Rightarrow> c))"
  have mem: "a \<in> set (valid_cuts valid es start n)"
    using cs by (auto simp: a_def dest: find_Some_in_set split: option.splits)
  then have a: "start \<le> a" "a < n" "valid (es ! a)" by (auto simp: valid_cuts_mem)
  have cut: "cut_firstKept (find_cut valid weight stop whole starts es start n keep) = widen stop es start a"
    by (simp add: find_cut_def cs a_def Let_def)
  have "\<not> result_entry (es ! j) \<and> \<not> is_compaction (es ! j)" if "widen stop es start a \<le> j" "j \<le> a" for j
  proof (cases "j = a")
    case True
    then show ?thesis using valid_not_result a(3) by blast
  next
    case False
    with that widen_passes [OF a(1) that(1)] stop_result show ?thesis by fastforce
  qed
  with a widen_bounds [OF a(1), of stop es] show ?thesis unfolding cut by blast
qed

lemma cut_range:
  "start \<le> n \<Longrightarrow> start \<le> cut_firstKept (find_cut valid weight stop whole starts es start n keep) \<and>
    cut_firstKept (find_cut valid weight stop whole starts es start n keep) \<le> n"
proof (cases "valid_cuts valid es start n")
  case Nil
  assume "start \<le> n"
  with Nil show ?thesis by (simp add: find_cut_def)
next
  case (Cons c cs)
  then have "c \<in> set (valid_cuts valid es start n)" by simp
  from cut_anchor [OF this, of weight whole starts keep] show ?thesis by fastforce
qed

lemma turn_range:
  assumes "cut_turnStart (find_cut valid weight stop whole starts es start n keep) = Some t"
  shows "start \<le> t \<and> t \<le> cut_firstKept (find_cut valid weight stop whole starts es start n keep) \<and> starts (es ! t)"
  using assms by (auto simp: find_cut_def Let_def split: list.splits if_splits dest!: turn_start_bounds)

lemma split_has_turn:
  "cut_isSplit (find_cut valid weight stop whole starts es start n keep) \<Longrightarrow>
    \<exists>t. cut_turnStart (find_cut valid weight stop whole starts es start n keep) = Some t"
  by (auto simp: find_cut_def Let_def split: list.splits if_splits)

end

lemma result_entry_visible: "result_entry e \<Longrightarrow> ca_sessionEntryToContextMessages e \<noteq> []"
  by (simp add: result_entry_def ca_sessionEntryToContextMessages_def split: entry_body.splits)

interpretation harness_cut: cut_rules valid_cut message_or_compaction
  by unfold_locales
    (auto simp: valid_cut_def message_or_compaction_def result_entry_def is_compaction_def split: entry_body.splits agent_message.splits)

interpretation ca_cut: cut_rules ca_valid_cut visible_or_compaction
  by unfold_locales
    (auto simp: ca_valid_cut_def visible_or_compaction_def result_entry_def ca_sessionEntryToContextMessages_def
      split: entry_body.splits agent_message.splits)

end
