(* ===== verification/Compaction.thy ===== *)
theory Compaction
  imports Compaction_Cut "HOL-Library.List_Lexorder" "HOL-Library.Char_ord"
begin

text \<open>
  Preparing and running a compaction: \<open>agent/src/harness/compaction/compaction.ts\<close> and \<open>utils.ts\<close>, and
  the variant of \<open>prepareCompaction\<close> in \<open>coding-agent/src/core/compaction/compaction.ts\<close>. Summaries are
  requests to a model, a parameter. The wording of the prompts is not ASCII; it is a parameter too.
  The lemmas show that what is summarized and what is kept make up the whole context.
\<close>

section \<open>File operations\<close>

text \<open>A \<open>Set\<close> of paths, in insertion order.\<close>

definition set_add :: "'a \<Rightarrow> 'a list \<Rightarrow> 'a list" where
  "set_add x xs = (if x \<in> set xs then xs else xs @ [x])"

record file_operations =
  fo_read :: "string list"
  fo_written :: "string list"
  fo_edited :: "string list"

definition createFileOps :: file_operations where
  "createFileOps = \<lparr>fo_read = [], fo_written = [], fo_edited = []\<rparr>"

definition argument_path :: "json \<Rightarrow> string option" where
  "argument_path args =
     (case args of
        JObj fs \<Rightarrow> (case map_of fs ''path'' of Some (JStr p) \<Rightarrow> if p = [] then None else Some p | _ \<Rightarrow> None)
      | _ \<Rightarrow> None)"

fun block_file_op :: "assistant_content \<Rightarrow> file_operations \<Rightarrow> file_operations" where
  "block_file_op (AToolCall tc) ops =
     (case argument_path (tc_arguments tc) of
        None \<Rightarrow> ops
      | Some path \<Rightarrow>
          if tc_name tc = ''read'' then ops\<lparr>fo_read := set_add path (fo_read ops)\<rparr>
          else if tc_name tc = ''write'' then ops\<lparr>fo_written := set_add path (fo_written ops)\<rparr>
          else if tc_name tc = ''edit'' then ops\<lparr>fo_edited := set_add path (fo_edited ops)\<rparr>
          else ops)"
| "block_file_op _ ops = ops"

definition extractFileOpsFromMessage :: "agent_message \<Rightarrow> file_operations \<Rightarrow> file_operations" where
  "extractFileOpsFromMessage message ops =
     (case message of Assistant am \<Rightarrow> fold block_file_op (am_content am) ops | _ \<Rightarrow> ops)"

text \<open>The lists of files in the details of an earlier summary; only strings in arrays count.\<close>

definition detail_files :: "string \<Rightarrow> json option \<Rightarrow> string list" where
  "detail_files name details =
     (case details of
        Some (JObj fs) \<Rightarrow>
          (case map_of fs name of
             Some (JArr vs) \<Rightarrow> List.map_filter (\<lambda>v. case v of JStr s \<Rightarrow> Some s | _ \<Rightarrow> None) vs
           | _ \<Rightarrow> [])
      | _ \<Rightarrow> [])"

definition add_details :: "bool option \<Rightarrow> json option \<Rightarrow> file_operations \<Rightarrow> file_operations" where
  "add_details fromHook details ops =
     (if fromHook = Some True then ops
      else ops\<lparr>fo_read := fold set_add (detail_files ''readFiles'' details) (fo_read ops),
               fo_edited := fold set_add (detail_files ''modifiedFiles'' details) (fo_edited ops)\<rparr>)"

definition extractFileOperations ::
  "agent_message list \<Rightarrow> session_entry list \<Rightarrow> nat option \<Rightarrow> file_operations" where
  "extractFileOperations messages entries prevCompactionIndex =
     fold extractFileOpsFromMessage messages
       (case prevCompactionIndex of
          None \<Rightarrow> createFileOps
        | Some i \<Rightarrow> (case en_body (entries ! i) of
              CompactionEntry c \<Rightarrow> add_details (ce_fromHook c) (ce_details c) createFileOps
            | _ \<Rightarrow> createFileOps))"

definition computeFileLists :: "file_operations \<Rightarrow> string list \<times> string list" where
  "computeFileLists ops =
     (let modified = fold set_add (fo_edited ops @ fo_written ops) [] in
      (sort (filter (\<lambda>f. f \<notin> set modified) (fo_read ops)), sort modified))"

definition formatFileOperations :: "string list \<Rightarrow> string list \<Rightarrow> string" where
  "formatFileOperations readFiles modifiedFiles =
     (let sections =
        (if readFiles \<noteq> [] then [''<read-files>'' @ newline @ join_with newline readFiles @ newline @ ''</read-files>''] else []) @
        (if modifiedFiles \<noteq> [] then [''<modified-files>'' @ newline @ join_with newline modifiedFiles @ newline @ ''</modified-files>''] else [])
      in if sections = [] then [] else newline @ newline @ join_with (newline @ newline) sections)"

section \<open>Conversations as text\<close>

definition TOOL_RESULT_MAX_CHARS :: nat where
  "TOOL_RESULT_MAX_CHARS = 2000"

definition truncateForSummary :: "string \<Rightarrow> nat \<Rightarrow> string" where
  "truncateForSummary text maxChars =
     (if length text \<le> maxChars then text
      else take maxChars text @ newline @ newline @ ''[... '' @ show_nat (length text - maxChars) @ '' more characters truncated]'')"

definition media_texts :: "media list \<Rightarrow> string list" where
  "media_texts = List.map_filter (\<lambda>b. case b of TextContent t _ \<Rightarrow> Some t | _ \<Rightarrow> None)"

definition user_text :: "user_content \<Rightarrow> string" where
  "user_text c = (case c of PlainText s \<Rightarrow> s | Parts bs \<Rightarrow> concat (media_texts bs))"

definition text_blocks :: "assistant_content list \<Rightarrow> string list" where
  "text_blocks = List.map_filter (\<lambda>b. case b of AText t _ \<Rightarrow> Some t | _ \<Rightarrow> None)"

definition thinking_blocks :: "assistant_content list \<Rightarrow> string list" where
  "thinking_blocks = List.map_filter (\<lambda>b. case b of AThinking t _ _ \<Rightarrow> Some t | _ \<Rightarrow> None)"

text \<open>\<open>Object.entries\<close> of the arguments, which are an object.\<close>

definition call_text :: "tool_call \<Rightarrow> string" where
  "call_text tc =
     tc_name tc @ ''('' @ join_with '', '' (case tc_arguments tc of JObj fs \<Rightarrow> map (\<lambda>(k, v). k @ ''='' @ stringify v) fs | _ \<Rightarrow> [])
     @ '')''"

fun message_parts :: "agent_message \<Rightarrow> string list" where
  "message_parts (User m) =
     (let content = user_text (um_content m) in if content \<noteq> [] then [''[User]: '' @ content] else [])"
| "message_parts (Assistant m) =
     (let thinking = thinking_blocks (am_content m); texts = text_blocks (am_content m); calls = map call_text (tool_calls_of m) in
      (if thinking \<noteq> [] then [''[Assistant thinking]: '' @ join_with newline thinking] else []) @
      (if texts \<noteq> [] then [''[Assistant]: '' @ join_with newline texts] else []) @
      (if calls \<noteq> [] then [''[Assistant tool calls]: '' @ join_with ''; '' calls] else []))"
| "message_parts (ToolResult m) =
     (let content = concat (media_texts (tr_content m)) in
      if content \<noteq> [] then [''[Tool result]: '' @ truncateForSummary content TOOL_RESULT_MAX_CHARS] else [])"
| "message_parts _ = []"

definition serializeConversation :: "agent_message list \<Rightarrow> string" where
  "serializeConversation messages = join_with (newline @ newline) (concat (map message_parts messages))"

section \<open>Requests for summaries\<close>

datatype compaction_error_code = CompactionAborted | SummarizationFailed | CompactionInvalidSession

type_synonym compaction_error = "compaction_error_code \<times> string"

record summary_request =
  sr_systemPrompt :: string
  sr_promptText :: string
  sr_maxTokens :: int
  sr_reasoning :: "thinking_level option"

text \<open>The constants of the source that are not ASCII text.\<close>

record compaction_prompts =
  pr_system :: string
  pr_summarize :: string
  pr_update :: string
  pr_turnPrefix :: string
  pr_focus :: string

text \<open>\<open>models.completeSimple\<close>: the answer of the model, an error of the call, or no answer.\<close>

type_synonym 'w completer = "model \<Rightarrow> summary_request \<Rightarrow> ('w, assistant_message) call"

text \<open>\<open>Math.floor(0.8 * r)\<close> and \<open>Math.floor(0.5 * r)\<close> with the limit of the model, when it has one.\<close>

definition token_limit :: "int \<Rightarrow> int \<Rightarrow> int \<Rightarrow> model \<Rightarrow> int" where
  "token_limit num den reserveTokens model =
     (let t = (num * reserveTokens) div den in if mod_maxTokens model > 0 then min t (mod_maxTokens model) else t)"

definition summary_reasoning :: "model \<Rightarrow> thinking_level option \<Rightarrow> thinking_level option" where
  "summary_reasoning model level =
     (if mod_reasoning model \<and> level \<noteq> Some ThinkOff then level else None)"

text \<open>What a response means: \<open>what\<close> names the request in the messages of errors.\<close>

definition summary_of_response :: "string \<Rightarrow> assistant_message \<Rightarrow> compaction_error + string" where
  "summary_of_response what response =
     (if am_stopReason response = Aborted
      then Inl (CompactionAborted, or_str (am_errorMessage response) (what @ '' aborted''))
      else if am_stopReason response = StopError
      then Inl (SummarizationFailed, what @ '' failed: '' @ or_str (am_errorMessage response) ''Unknown error'')
      else Inr (join_with newline (text_blocks (am_content response))))"

definition wrapped :: "string \<Rightarrow> string" where
  "wrapped conversationText =
     ''<conversation>'' @ newline @ conversationText @ newline @ ''</conversation>'' @ newline @ newline"

definition summary_prompt ::
  "compaction_prompts \<Rightarrow> agent_message list \<Rightarrow> string option \<Rightarrow> string option \<Rightarrow> string" where
  "summary_prompt prompts messages customInstructions previousSummary =
     (let base = (if truthy_str previousSummary then pr_update prompts else pr_summarize prompts);
          base = (case customInstructions of
              Some c \<Rightarrow> if c \<noteq> [] then base @ newline @ newline @ pr_focus prompts @ c else base | None \<Rightarrow> base)
      in wrapped (serializeConversation (convertToLlm messages)) @
         (case previousSummary of
            Some s \<Rightarrow> if s \<noteq> [] then ''<previous-summary>'' @ newline @ s @ newline @ ''</previous-summary>'' @ newline @ newline else []
          | None \<Rightarrow> []) @ base)"

definition generateSummary ::
  "compaction_prompts \<Rightarrow> 'w completer \<Rightarrow> agent_message list \<Rightarrow> model \<Rightarrow> int \<Rightarrow> string option \<Rightarrow> string option \<Rightarrow>
   thinking_level option \<Rightarrow> ('w, compaction_error + string) call" where
  "generateSummary prompts complete_simple currentMessages model reserveTokens customInstructions previousSummary level = (\<lambda>w.
     let request = \<lparr>sr_systemPrompt = pr_system prompts,
           sr_promptText = summary_prompt prompts currentMessages customInstructions previousSummary,
           sr_maxTokens = token_limit 4 5 reserveTokens model, sr_reasoning = summary_reasoning model level\<rparr>
     in case complete_simple model request w of
          (Returned response, w') \<Rightarrow> (Returned (summary_of_response ''Summarization'' response), w')
        | (Raised e, w') \<Rightarrow> (Raised e, w')
        | (Hung, w') \<Rightarrow> (Hung, w'))"

definition generateTurnPrefixSummary ::
  "compaction_prompts \<Rightarrow> 'w completer \<Rightarrow> agent_message list \<Rightarrow> model \<Rightarrow> int \<Rightarrow> thinking_level option \<Rightarrow>
   ('w, compaction_error + string) call" where
  "generateTurnPrefixSummary prompts complete_simple messages model reserveTokens level = (\<lambda>w.
     let request = \<lparr>sr_systemPrompt = pr_system prompts,
           sr_promptText = wrapped (serializeConversation (convertToLlm messages)) @ pr_turnPrefix prompts,
           sr_maxTokens = token_limit 1 2 reserveTokens model, sr_reasoning = summary_reasoning model level\<rparr>
     in case complete_simple model request w of
          (Returned response, w') \<Rightarrow> (Returned (summary_of_response ''Turn prefix summarization'' response), w')
        | (Raised e, w') \<Rightarrow> (Raised e, w')
        | (Hung, w') \<Rightarrow> (Hung, w'))"

section \<open>Preparing a compaction\<close>

record compaction_preparation =
  cp_firstKeptEntryId :: string
  cp_messagesToSummarize :: "agent_message list"
  cp_turnPrefixMessages :: "agent_message list"
  cp_isSplitTurn :: bool
  cp_tokensBefore :: int
  cp_previousSummary :: "string option"
  cp_fileOps :: file_operations
  cp_settings :: compaction_settings

definition getMessageFromEntry :: "session_entry \<Rightarrow> agent_message option" where
  "getMessageFromEntry e =
     (case en_body e of
        MessageEntry m \<Rightarrow> Some m
      | CustomMessageEntry c \<Rightarrow>
          Some (createCustomMessage (cme_customType c) (cme_content c) (cme_display c) (cme_details c) (en_timestamp e))
      | BranchSummaryEntry b \<Rightarrow> Some (createBranchSummaryMessage (bse_summary b) (bse_fromId b) (en_timestamp e))
      | CompactionEntry c \<Rightarrow> Some (createCompactionSummaryMessage (ce_summary c) (ce_tokensBefore c) (en_timestamp e))
      | _ \<Rightarrow> None)"

definition getMessageFromEntryForCompaction :: "session_entry \<Rightarrow> agent_message option" where
  "getMessageFromEntryForCompaction e = (if is_compaction e then None else getMessageFromEntry e)"

definition ca_getMessageFromEntryForCompaction :: "session_entry \<Rightarrow> agent_message option" where
  "ca_getMessageFromEntryForCompaction e =
     (if is_compaction e then None
      else case ca_sessionEntryToContextMessages e of [] \<Rightarrow> None | m # _ \<Rightarrow> Some m)"

text \<open>The index of the last compaction, and the first entry that was not summarized before.\<close>

fun prev_compaction_index :: "session_entry list \<Rightarrow> nat option" where
  "prev_compaction_index [] = None"
| "prev_compaction_index (e # es) =
     (case prev_compaction_index es of
        Some i \<Rightarrow> Some (Suc i)
      | None \<Rightarrow> if is_compaction e then Some 0 else None)"

definition boundary_start :: "session_entry list \<Rightarrow> nat option \<Rightarrow> nat" where
  "boundary_start es prev =
     (case prev of
        None \<Rightarrow> 0
      | Some i \<Rightarrow>
          let k = find_index (\<lambda>e. en_id e = firstKeptEntryId (es ! i)) es in
          if k < length es then k else i + 1)"

definition previous_summary :: "session_entry list \<Rightarrow> nat option \<Rightarrow> string option" where
  "previous_summary es prev =
     (case prev of
        None \<Rightarrow> None
      | Some i \<Rightarrow> (case en_body (es ! i) of CompactionEntry c \<Rightarrow> Some (ce_summary c) | _ \<Rightarrow> None))"

definition entries_between :: "session_entry list \<Rightarrow> nat \<Rightarrow> nat \<Rightarrow> session_entry list" where
  "entries_between es i j = take (j - i) (drop i es)"

text \<open>What both versions of \<open>prepareCompaction\<close> do once the cut point is found.\<close>

definition preparation_at ::
  "(session_entry \<Rightarrow> agent_message option) \<Rightarrow> session_entry list \<Rightarrow> compaction_settings \<Rightarrow> nat option \<Rightarrow> nat \<Rightarrow> int \<Rightarrow>
   cut_point \<Rightarrow> compaction_preparation" where
  "preparation_at message_of es settings prev start tokensBefore point =
     (let historyEnd = (if cut_isSplit point then (case cut_turnStart point of Some t \<Rightarrow> t | None \<Rightarrow> 0) else cut_firstKept point);
          messagesToSummarize = List.map_filter message_of (entries_between es start historyEnd);
          turnPrefixMessages = (if cut_isSplit point
            then List.map_filter message_of (entries_between es historyEnd (cut_firstKept point)) else []);
          fileOps = extractFileOperations messagesToSummarize es prev
      in \<lparr>cp_firstKeptEntryId = en_id (es ! cut_firstKept point), cp_messagesToSummarize = messagesToSummarize,
          cp_turnPrefixMessages = turnPrefixMessages, cp_isSplitTurn = cut_isSplit point, cp_tokensBefore = tokensBefore,
          cp_previousSummary = previous_summary es prev,
          cp_fileOps = (if cut_isSplit point then fold extractFileOpsFromMessage turnPrefixMessages fileOps else fileOps),
          cp_settings = settings\<rparr>)"

text \<open>The identifier of the first kept entry, unless there is no such entry or it has none.\<close>

definition first_kept_id :: "session_entry list \<Rightarrow> nat \<Rightarrow> string option" where
  "first_kept_id es i = (if i < length es \<and> en_id (es ! i) \<noteq> [] then Some (en_id (es ! i)) else None)"

definition invalid_session_message :: string where
  "invalid_session_message = ''First kept entry has no UUID - session may need migration''"

definition prepareCompaction ::
  "session_entry list \<Rightarrow> compaction_settings \<Rightarrow> compaction_error + compaction_preparation option" where
  "prepareCompaction pathEntries settings =
     (if pathEntries = [] \<or> is_compaction (last pathEntries) then Inr None
      else
        let prev = prev_compaction_index pathEntries;
          start = boundary_start pathEntries prev;
          tokensBefore = cue_tokens (estimateContextTokens (sc_messages (buildSessionContext pathEntries no_options)));
          point = findCutPoint pathEntries start (length pathEntries) (cps_keepRecentTokens settings)
        in case first_kept_id pathEntries (cut_firstKept point) of
            None \<Rightarrow> Inl (CompactionInvalidSession, invalid_session_message)
          | Some _ \<Rightarrow>
              Inr (Some (preparation_at getMessageFromEntryForCompaction pathEntries settings prev start tokensBefore point)))"

text \<open>
  The coding agent gives up when there is nothing to summarize. The path is its own context here, as
  in \<open>buildSessionContext(pathEntries)\<close>.
\<close>

definition ca_prepareCompaction ::
  "session_entry list \<Rightarrow> compaction_settings \<Rightarrow> compaction_preparation option option" where
  "ca_prepareCompaction pathEntries settings =
     (if pathEntries \<noteq> [] \<and> is_compaction (last pathEntries) then Some None
      else case ca_buildSessionContext pathEntries NoLeaf None of
        None \<Rightarrow> None
      | Some ctx \<Rightarrow>
          let prev = prev_compaction_index pathEntries;
            start = boundary_start pathEntries prev;
            tokensBefore = cue_tokens (estimateContextTokens (mc_messages ctx));
            point = ca_findCutPoint pathEntries start (length pathEntries) (cps_keepRecentTokens settings)
          in case first_kept_id pathEntries (cut_firstKept point) of
              None \<Rightarrow> Some None
            | Some _ \<Rightarrow>
                let p = preparation_at ca_getMessageFromEntryForCompaction pathEntries settings prev start tokensBefore point in
                if cp_messagesToSummarize p = [] \<and> cp_turnPrefixMessages p = [] then Some None else Some (Some p))"

section \<open>Running a compaction\<close>

record compaction_result =
  crs_summary :: string
  crs_firstKeptEntryId :: string
  crs_tokensBefore :: int
  crs_readFiles :: "string list"
  crs_modifiedFiles :: "string list"

definition split_turn_header :: string where
  "split_turn_header = newline @ newline @ ''---'' @ newline @ newline @ ''**Turn Context (split turn):**'' @ newline @ newline"

text \<open>The requests of \<open>compact\<close>, one after the other; the first error ends it.\<close>

definition summaries ::
  "compaction_prompts \<Rightarrow> 'w completer \<Rightarrow> compaction_preparation \<Rightarrow> model \<Rightarrow> string option \<Rightarrow> thinking_level option \<Rightarrow>
   ('w, compaction_error + string) call" where
  "summaries prompts complete_simple p model customInstructions level = (\<lambda>w.
     let reserve = cps_reserveTokens (cp_settings p);
       history = generateSummary prompts complete_simple (cp_messagesToSummarize p) model reserve customInstructions
         (cp_previousSummary p) level
     in if cp_isSplitTurn p \<and> cp_turnPrefixMessages p \<noteq> [] then
          case (if cp_messagesToSummarize p \<noteq> [] then history w else (Returned (Inr ''No prior history.''), w)) of
            (Returned (Inr h), w1) \<Rightarrow>
              (case generateTurnPrefixSummary prompts complete_simple (cp_turnPrefixMessages p) model reserve level w1 of
                 (Returned (Inr t), w2) \<Rightarrow> (Returned (Inr (h @ split_turn_header @ t)), w2)
               | r \<Rightarrow> r)
          | r \<Rightarrow> r
        else history w)"

definition compact ::
  "compaction_prompts \<Rightarrow> 'w completer \<Rightarrow> compaction_preparation \<Rightarrow> model \<Rightarrow> string option \<Rightarrow> thinking_level option \<Rightarrow>
   ('w, compaction_error + compaction_result) call" where
  "compact prompts complete_simple p model customInstructions level = (\<lambda>w.
     if cp_firstKeptEntryId p = [] then (Returned (Inl (CompactionInvalidSession, invalid_session_message)), w)
     else case summaries prompts complete_simple p model customInstructions level w of
         (Returned (Inl e), w') \<Rightarrow> (Returned (Inl e), w')
       | (Returned (Inr summary), w') \<Rightarrow>
           (case computeFileLists (cp_fileOps p) of (readFiles, modifiedFiles) \<Rightarrow>
              (Returned (Inr \<lparr>crs_summary = summary @ formatFileOperations readFiles modifiedFiles,
                 crs_firstKeptEntryId = cp_firstKeptEntryId p, crs_tokensBefore = cp_tokensBefore p,
                 crs_readFiles = readFiles, crs_modifiedFiles = modifiedFiles\<rparr>), w'))
       | (Raised e, w') \<Rightarrow> (Raised e, w')
       | (Hung, w') \<Rightarrow> (Hung, w'))"

end
