(* ===== verification/Compaction_Facts.thy ===== *)
theory Compaction_Facts
  imports Compaction
begin

text \<open>
  What compaction guarantees: the messages of the context are split into summarized and kept ones
  without loss, the kept part does not start with a tool result, and, as a limit, a trailing run of
  tool results that fills the budget leaves nothing to summarize.
\<close>

section \<open>Ranges of a path\<close>

lemma drop_find_index: "drop (find_index P xs) xs = dropWhile (\<lambda>x. \<not> P x) xs"
  by (induction xs) auto

lemma entries_between_append:
  assumes "i \<le> j" "j \<le> k"
  shows "entries_between es i j @ entries_between es j k = entries_between es i k"
proof -
  have "drop j es = drop (j - i) (drop i es)" "k - i = (j - i) + (k - j)" using assms by simp_all
  then show ?thesis by (simp only: entries_between_def take_add)
qed

lemma entries_between_drop: "i \<le> j \<Longrightarrow> entries_between es i j @ drop j es = drop i es"
  by (metis append_take_drop_id drop_drop entries_between_def le_add_diff_inverse2)

lemma map_filter_append: "List.map_filter f (xs @ ys) = List.map_filter f xs @ List.map_filter f ys"
  by (simp add: List.map_filter_def)

lemma prev_compaction_index_none: "\<forall>e \<in> set es. \<not> is_compaction e \<Longrightarrow> prev_compaction_index es = None"
  by (induction es) auto

lemma prev_compaction_index_last:
  "is_compaction c \<Longrightarrow> \<forall>e \<in> set post. \<not> is_compaction e \<Longrightarrow> prev_compaction_index (pre @ c # post) = Some (length pre)"
  by (induction pre) (auto simp: prev_compaction_index_none)

section \<open>The context and the range of a compaction\<close>

abbreviation plain_entries :: "session_entry list \<Rightarrow> session_entry list" where
  "plain_entries es \<equiv> filter (\<lambda>e. \<not> is_compaction e) es"

text \<open>The first kept entry of the last compaction is not an entry after it.\<close>

definition kept_before_compaction :: "session_entry list \<Rightarrow> bool" where
  "kept_before_compaction es \<longleftrightarrow>
     (\<forall>pre c post. es = pre @ c # post \<and> is_compaction c \<and> (\<forall>e \<in> set post. \<not> is_compaction e)
        \<longrightarrow> firstKeptEntryId c \<notin> ids_of post)"

lemma boundary_context:
  assumes "distinct (map en_id es)" "kept_before_compaction es"
  shows "plain_entries (context_of_path es) = plain_entries (drop (boundary_start es (prev_compaction_index es)) es)"
proof (cases "\<exists>e \<in> set es. is_compaction e")
  case False
  then show ?thesis by (simp add: context_of_path_none prev_compaction_index_none boundary_start_def)
next
  case True
  then obtain pre c post where es: "es = pre @ c # post" "is_compaction c" "\<forall>e \<in> set post. \<not> is_compaction e"
    using split_last_compaction by blast
  let ?k = "firstKeptEntryId c"
  have dist: "\<forall>e \<in> set pre. en_id e \<noteq> en_id c" using assms(1) es(1) by (auto simp: image_iff)
  have post: "?k \<notin> ids_of post" using assms(2) es by (auto simp: kept_before_compaction_def)
  have ctx: "context_of_path es = c # dropWhile (\<lambda>e. en_id e \<noteq> ?k) pre @ post"
    using context_of_path_last [OF es(2,3) dist] es(1) by simp
  have prev: "prev_compaction_index es = Some (length pre)" using prev_compaction_index_last es by simp
  let ?f = "find_index (\<lambda>e. en_id e = ?k) es"
  have d: "drop ?f es = dropWhile (\<lambda>e. en_id e \<noteq> ?k) es" by (rule drop_find_index)
  show ?thesis
  proof (cases "?f < length es")
    case True
    then have b: "boundary_start es (Some (length pre)) = ?f" by (simp add: boundary_start_def Let_def es(1))
    have "dropWhile (\<lambda>e. en_id e \<noteq> ?k) es \<noteq> []" using True unfolding d [symmetric] by simp
    then have "?k \<in> ids_of es" by (force simp: dropWhile_eq_Nil_conv)
    with post es(1) have "?k \<in> ids_of pre \<or> ?k = en_id c" by auto
    then consider (inpre) "?k \<in> ids_of pre" | (self) "?k \<notin> ids_of pre" "?k = en_id c" by blast
    then show ?thesis
    proof cases
      case inpre
      then obtain x where "x \<in> set pre" "en_id x = ?k" by auto
      then have "dropWhile (\<lambda>e. en_id e \<noteq> ?k) es = dropWhile (\<lambda>e. en_id e \<noteq> ?k) pre @ c # post"
        unfolding es(1) by (intro dropWhile_append1 [of x]) auto
      then show ?thesis unfolding prev b d ctx using es(2) by simp
    next
      case self
      then have all: "\<And>e. e \<in> set pre \<Longrightarrow> en_id e \<noteq> ?k" by (metis image_eqI)
      then have none: "dropWhile (\<lambda>e. en_id e \<noteq> ?k) es = c # post" "dropWhile (\<lambda>e. en_id e \<noteq> ?k) pre = []"
        unfolding es(1) using self(2) by (simp_all add: dropWhile_append2 dropWhile_eq_Nil_conv)
      show ?thesis unfolding prev b d ctx none using es(2) by simp
    qed
  next
    case False
    then have b: "boundary_start es (Some (length pre)) = length pre + 1" by (simp add: boundary_start_def Let_def es(1))
    from False have "dropWhile (\<lambda>e. en_id e \<noteq> ?k) es = []" unfolding d [symmetric] by simp
    then have none: "dropWhile (\<lambda>e. en_id e \<noteq> ?k) pre = []" by (auto simp: dropWhile_eq_Nil_conv es(1))
    show ?thesis unfolding prev b ctx none using es by simp
  qed
qed

lemma dropWhile_distinct:
  "distinct (map f xs) \<Longrightarrow> i < length xs \<Longrightarrow> dropWhile (\<lambda>x. f x \<noteq> f (xs ! i)) xs = drop i xs"
proof (induction xs arbitrary: i)
  case (Cons x xs)
  show ?case
  proof (cases i)
    case (Suc j)
    with Cons.prems have "f (xs ! j) \<in> f ` set xs" by simp
    with Cons.prems have "f x \<noteq> f (xs ! j)" by auto
    with Suc Cons show ?thesis by simp
  qed simp
qed simp

lemma compacted_context:
  assumes "distinct (map en_id es)" "i < length es" "is_compaction c" "firstKeptEntryId c = en_id (es ! i)"
    "en_id c \<notin> ids_of es"
  shows "context_of_path (es @ [c]) = c # drop i es"
proof -
  have "\<forall>e \<in> set es. en_id e \<noteq> en_id c" using assms(5) by (auto simp: image_iff)
  then have "context_of_path (es @ [c]) = c # dropWhile (\<lambda>e. en_id e \<noteq> en_id (es ! i)) es"
    using context_of_path_last [of c "[]" es] assms(3,4) by simp
  then show ?thesis using dropWhile_distinct [OF assms(1,2)] by simp
qed

section \<open>Nothing is lost\<close>

text \<open>The messages of the entries that are not compactions, as the preparation collects them.\<close>

definition range_messages :: "session_entry list \<Rightarrow> agent_message list" where
  "range_messages es = concat (map entry_messages (plain_entries es))"

lemma ca_message_of: "(case ca_getMessageFromEntryForCompaction e of None \<Rightarrow> [] | Some m \<Rightarrow> [m]) =
  (if is_compaction e then [] else entry_messages e)"
  by (auto simp: ca_getMessageFromEntryForCompaction_def ca_sessionEntryToContextMessages_def
      entry_messages_def projected_without_options split: entry_body.splits)

lemma ca_range_messages: "List.map_filter ca_getMessageFromEntryForCompaction es = range_messages es"
proof (induction es)
  case Nil
  then show ?case by (simp add: range_messages_def List.map_filter_def)
next
  case (Cons e es)
  have "List.map_filter ca_getMessageFromEntryForCompaction (e # es) =
    (case ca_getMessageFromEntryForCompaction e of None \<Rightarrow> [] | Some m \<Rightarrow> [m]) @ List.map_filter ca_getMessageFromEntryForCompaction es"
    by (simp add: List.map_filter_def split: option.splits)
  with Cons show ?case unfolding ca_message_of by (simp add: range_messages_def)
qed

lemma range_messages_append: "range_messages (xs @ ys) = range_messages xs @ range_messages ys"
  by (simp add: range_messages_def)

text \<open>Summarized and prefix messages are those of the range up to the cut.\<close>

lemma preparation_messages:
  assumes p: "p = preparation_at f es settings prev start tokens point"
    and split: "cut_isSplit point \<Longrightarrow> \<exists>t. cut_turnStart point = Some t \<and> start \<le> t \<and> t \<le> cut_firstKept point"
    and "start \<le> cut_firstKept point"
  shows "cp_messagesToSummarize p @ cp_turnPrefixMessages p = List.map_filter f (entries_between es start (cut_firstKept point))"
    and "cp_firstKeptEntryId p = en_id (es ! cut_firstKept point)"
proof -
  show "cp_messagesToSummarize p @ cp_turnPrefixMessages p = List.map_filter f (entries_between es start (cut_firstKept point))"
  proof (cases "cut_isSplit point")
    case True
    then obtain t where t: "cut_turnStart point = Some t" "start \<le> t" "t \<le> cut_firstKept point" using split by blast
    have "List.map_filter f (entries_between es start t) @ List.map_filter f (entries_between es t (cut_firstKept point))
      = List.map_filter f (entries_between es start (cut_firstKept point))"
      using entries_between_append [OF t(2,3), of es] by (metis map_filter_append)
    with True t(1) show ?thesis by (simp add: p preparation_at_def Let_def)
  qed (simp add: p preparation_at_def Let_def)
  show "cp_firstKeptEntryId p = en_id (es ! cut_firstKept point)" by (simp add: p preparation_at_def Let_def)
qed

lemma boundary_start_le: "es \<noteq> [] \<Longrightarrow> \<not> is_compaction (last es) \<Longrightarrow> boundary_start es (prev_compaction_index es) \<le> length es"
proof (cases "\<exists>e \<in> set es. is_compaction e")
  case True
  then obtain pre c post where es: "es = pre @ c # post" "is_compaction c" "\<forall>e \<in> set post. \<not> is_compaction e"
    using split_last_compaction by blast
  then have "prev_compaction_index es = Some (length pre)" using prev_compaction_index_last by simp
  with es(1) show ?thesis by (simp add: boundary_start_def Let_def)
qed (simp add: prev_compaction_index_none boundary_start_def)

lemma ca_prepare_cut:
  assumes "ca_prepareCompaction es settings = Some (Some p)"
  obtains tokens where "es \<noteq> []" "\<not> is_compaction (last es)"
    "p = preparation_at ca_getMessageFromEntryForCompaction es settings (prev_compaction_index es)
       (boundary_start es (prev_compaction_index es)) tokens
       (ca_findCutPoint es (boundary_start es (prev_compaction_index es)) (length es) (cps_keepRecentTokens settings))"
    "cut_firstKept (ca_findCutPoint es (boundary_start es (prev_compaction_index es)) (length es) (cps_keepRecentTokens settings)) < length es"
    "cp_messagesToSummarize p \<noteq> [] \<or> cp_turnPrefixMessages p \<noteq> []"
proof -
  have ne: "es \<noteq> []" "\<not> is_compaction (last es)"
    using assms by (auto simp: ca_prepareCompaction_def first_kept_id_def Let_def split: if_splits option.splits)
  obtain ctx where ctx: "ca_buildSessionContext es NoLeaf None = Some ctx"
    using assms ne by (auto simp: ca_prepareCompaction_def split: option.splits)
  show thesis
    using assms ne ctx
    by (intro that [of "cue_tokens (estimateContextTokens (mc_messages ctx))"])
      (auto simp: ca_prepareCompaction_def first_kept_id_def Let_def split: if_splits)
qed

lemma ca_compaction_partition:
  assumes "ca_prepareCompaction es settings = Some (Some p)" "distinct (map en_id es)" "kept_before_compaction es"
  shows "\<exists>i. i < length es \<and> cp_firstKeptEntryId p = en_id (es ! i) \<and>
    range_messages (context_of_path es) = cp_messagesToSummarize p @ cp_turnPrefixMessages p @ range_messages (drop i es)"
proof -
  let ?start = "boundary_start es (prev_compaction_index es)"
  let ?point = "ca_findCutPoint es ?start (length es) (cps_keepRecentTokens settings)"
  from assms(1) obtain tokens where es: "es \<noteq> []" "\<not> is_compaction (last es)"
    and p: "p = preparation_at ca_getMessageFromEntryForCompaction es settings (prev_compaction_index es) ?start tokens ?point"
    and i: "cut_firstKept ?point < length es" by (rule ca_prepare_cut)
  have range: "?start \<le> cut_firstKept ?point"
    using ca_cut.cut_range [OF boundary_start_le [OF es]] by (simp add: ca_findCutPoint_def)
  have split: "cut_isSplit ?point \<Longrightarrow> \<exists>t. cut_turnStart ?point = Some t \<and> ?start \<le> t \<and> t \<le> cut_firstKept ?point"
    unfolding ca_findCutPoint_def using ca_cut.split_has_turn ca_cut.turn_range by meson
  have "range_messages (context_of_path es) = range_messages (drop ?start es)"
    using boundary_context [OF assms(2,3)] by (simp add: range_messages_def)
  also have "\<dots> = range_messages (entries_between es ?start (cut_firstKept ?point)) @ range_messages (drop (cut_firstKept ?point) es)"
    using entries_between_drop [OF range, of es] by (simp add: range_messages_append [symmetric])
  finally show ?thesis
    using i preparation_messages [OF p split range] by (auto simp: ca_range_messages)
qed

section \<open>The kept part does not start with a tool result\<close>

lemma ca_valid_cut_messages:
  "ca_valid_cut e \<Longrightarrow> \<exists>m. entry_messages e = [m] \<and> \<not> is_tool_result m"
proof -
  assume v: "ca_valid_cut e"
  then have "length (entry_messages e) = 1"
    by (auto simp: ca_valid_cut_def ca_entry_messages entry_messages_def projected_without_options split: entry_body.splits if_splits)
  then obtain m where m: "entry_messages e = [m]" by (auto simp: length_Suc_conv)
  with v have "isCutPointMessage m" by (simp add: ca_valid_cut_def ca_entry_messages)
  with m show ?thesis by (cases m) auto
qed

lemma concat_map_skip:
  "i \<le> a \<Longrightarrow> a < length es \<Longrightarrow> (\<And>j. i \<le> j \<Longrightarrow> j < a \<Longrightarrow> f (es ! j) = []) \<Longrightarrow>
    concat (map f (drop i es)) = f (es ! a) @ concat (map f (drop (Suc a) es))"
proof (induction "a - i" arbitrary: i)
  case 0
  then have "i = a" by simp
  with 0 show ?case by (simp add: Cons_nth_drop_Suc [symmetric])
next
  case (Suc n)
  then have "i < length es" "f (es ! i) = []" by auto
  then have "concat (map f (drop i es)) = concat (map f (drop (Suc i) es))" by (simp add: Cons_nth_drop_Suc [symmetric])
  with Suc show ?case by simp
qed

lemma ca_cut_clean:
  assumes c: "c \<in> set (ca_findValidCutPoints es start n)" and n: "n \<le> length es"
  shows "\<exists>m ms. concat (map entry_messages (drop (cut_firstKept (ca_findCutPoint es start n keep)) es)) = m # ms \<and> \<not> is_tool_result m"
proof -
  let ?i = "cut_firstKept (ca_findCutPoint es start n keep)"
  obtain c0 cs where cs: "ca_findValidCutPoints es start n = c0 # cs" using c by (cases "ca_findValidCutPoints es start n") auto
  define a where "a = (case budget_index context_weight keep es start n 0 of
       None \<Rightarrow> c0
     | Some i \<Rightarrow> (case find (\<lambda>c. c \<ge> i) (valid_cuts ca_valid_cut es start n) of None \<Rightarrow> c0 | Some c \<Rightarrow> c))"
  have mem: "a \<in> set (valid_cuts ca_valid_cut es start n)"
    using cs by (auto simp: a_def ca_findValidCutPoints_def dest: find_Some_in_set split: option.splits)
  then have a: "start \<le> a" "a < n" "ca_valid_cut (es ! a)" by (auto simp: valid_cuts_mem)
  have i: "?i = widen visible_or_compaction es start a"
    using cs by (simp add: ca_findCutPoint_def find_cut_def ca_findValidCutPoints_def a_def Let_def)
  have "entry_messages (es ! j) = []" if "?i \<le> j" "j < a" for j
    using widen_passes [OF a(1), of visible_or_compaction es j] that i
    by (auto simp: visible_or_compaction_def ca_entry_messages)
  moreover have "?i \<le> a" using widen_bounds [OF a(1)] i by simp
  ultimately have "concat (map entry_messages (drop ?i es)) = entry_messages (es ! a) @ concat (map entry_messages (drop (Suc a) es))"
    using a(2) n by (intro concat_map_skip) auto
  with ca_valid_cut_messages [OF a(3)] show ?thesis by auto
qed

lemma ca_prepare_kept_clean:
  assumes "ca_prepareCompaction es settings = Some (Some p)" "distinct (map en_id es)" "kept_before_compaction es"
  shows "\<exists>i < length es. cp_firstKeptEntryId p = en_id (es ! i) \<and>
    range_messages (context_of_path es) = cp_messagesToSummarize p @ cp_turnPrefixMessages p @ range_messages (drop i es) \<and>
    (\<exists>m ms. concat (map entry_messages (drop i es)) = m # ms \<and> \<not> is_tool_result m)"
proof -
  let ?start = "boundary_start es (prev_compaction_index es)"
  let ?point = "ca_findCutPoint es ?start (length es) (cps_keepRecentTokens settings)"
  from assms(1) obtain tokens where
    p: "p = preparation_at ca_getMessageFromEntryForCompaction es settings (prev_compaction_index es) ?start tokens ?point"
    and ne: "cp_messagesToSummarize p \<noteq> [] \<or> cp_turnPrefixMessages p \<noteq> []" by (rule ca_prepare_cut)
  obtain i where i: "i < length es" "cp_firstKeptEntryId p = en_id (es ! i)"
    "range_messages (context_of_path es) = cp_messagesToSummarize p @ cp_turnPrefixMessages p @ range_messages (drop i es)"
    using ca_compaction_partition [OF assms] by blast
  have "cut_firstKept ?point < length es" using assms(1) by (rule ca_prepare_cut)
  moreover have "en_id (es ! cut_firstKept ?point) = en_id (es ! i)"
    using i(2) by (simp add: p preparation_at_def Let_def)
  ultimately have same: "i = cut_firstKept ?point"
    using assms(2) i(1) nth_eq_iff_index_eq [of "map en_id es"] by simp
  obtain c where "c \<in> set (ca_findValidCutPoints es ?start (length es))"
  proof (cases "ca_findValidCutPoints es ?start (length es)")
    case Nil
    then have "?point = \<lparr>cut_firstKept = ?start, cut_turnStart = None, cut_isSplit = False\<rparr>"
      by (simp add: ca_findCutPoint_def find_cut_def ca_findValidCutPoints_def)
    with ne show thesis by (simp add: p preparation_at_def Let_def entries_between_def List.map_filter_def)
  qed auto
  from ca_cut_clean [OF this, of "cps_keepRecentTokens settings"] i same show ?thesis by auto
qed

section \<open>Trailing tool results\<close>

lemma budget_index_trailing:
  assumes "\<And>j. j < length rs \<Longrightarrow> weight (rs ! j) \<noteq> None \<or> size_at (rs ! j) = (0 :: nat)"
    and "\<And>j t. j < length rs \<Longrightarrow> weight (rs ! j) = Some t \<Longrightarrow> t = size_at (rs ! j)"
    and "0 < keep" "acc < keep" "keep \<le> acc + sum_list (map size_at rs)" "start \<le> length pre"
  shows "\<exists>i. budget_index weight keep (pre @ rs) start (length pre + length rs) acc = Some i \<and> length pre \<le> i"
  using assms
proof (induction rs arbitrary: acc rule: rev_induct)
  case (snoc r rs)
  have nth: "(pre @ rs @ [r]) ! (length pre + length rs) = r" by (simp add: nth_append)
  have low: "budget_index weight keep (pre @ rs @ [r]) start n a = budget_index weight keep (pre @ rs) start n a"
    if "n \<le> length pre + length rs" for n a
    using that
  proof (induction n arbitrary: a)
    case (Suc n)
    then have "(pre @ rs @ [r]) ! n = (pre @ rs) ! n"
      using nth_append [of "pre @ rs" "[r]" n] by simp
    with Suc show ?case by (simp split: option.split)
  qed simp
  have IH: "\<exists>i. budget_index weight keep (pre @ rs) start (length pre + length rs) acc' = Some i \<and> length pre \<le> i"
    if "acc' < keep" "keep \<le> acc' + sum_list (map size_at rs)" for acc'
  proof (rule snoc.IH [OF _ _ snoc.prems(3) that snoc.prems(6)])
    fix j assume j: "j < length rs"
    then have "(rs @ [r]) ! j = rs ! j" "j < length (rs @ [r])" by (simp_all add: nth_append)
    then show "weight (rs ! j) \<noteq> None \<or> size_at (rs ! j) = 0" using snoc.prems(1) [of j] by simp
  next
    fix j t assume j: "j < length rs" "weight (rs ! j) = Some t"
    then have "(rs @ [r]) ! j = rs ! j" "j < length (rs @ [r])" by (simp_all add: nth_append)
    then show "t = size_at (rs ! j)" using snoc.prems(2) [of j t] j by simp
  qed
  have r: "weight r \<noteq> None \<or> size_at r = 0" "\<And>t. weight r = Some t \<Longrightarrow> t = size_at r"
    using snoc.prems(1,2) [of "length rs"] by simp_all
  show ?case
  proof (cases "weight r")
    case None
    with r snoc.prems have "keep \<le> acc + sum_list (map size_at rs)" by simp
    from IH [OF snoc.prems(4) this] None snoc.prems(6) low [of "length pre + length rs"] show ?thesis
      by (simp add: nth)
  next
    case (Some t)
    with r have t: "t = size_at r" by simp
    show ?thesis
    proof (cases "acc + t \<ge> keep")
      case True
      with Some snoc.prems(6) show ?thesis by (simp add: nth)
    next
      case False
      with snoc.prems(5) t have "acc + t < keep" "keep \<le> (acc + t) + sum_list (map size_at rs)" by simp_all
      from IH [OF this] Some False snoc.prems(6) low [of "length pre + length rs"] show ?thesis by (simp add: nth)
    qed
  qed
qed simp

lemma trailing_results_cut:
  assumes "\<forall>e \<in> set rs. result_entry e" "0 < keep" "keep \<le> total_estimate (concat (map entry_messages rs))"
    and "start \<le> length pre" "ca_findValidCutPoints (pre @ rs) start (length (pre @ rs)) = c0 # cs"
  shows "cut_firstKept (ca_findCutPoint (pre @ rs) start (length (pre @ rs)) keep) = widen visible_or_compaction (pre @ rs) start c0"
proof -
  let ?v = "\<lambda>e. total_estimate (entry_messages e)"
  have sum: "total_estimate (concat (map entry_messages rs)) = sum_list (map ?v rs)"
    by (induction rs) (simp_all add: total_estimate_def)
  have w: "context_weight e = (if ?v e = 0 then None else Some (?v e))" for e
    by (simp add: context_weight_def ca_entry_messages Let_def)
  have "\<exists>i. budget_index context_weight keep (pre @ rs) start (length pre + length rs) 0 = Some i \<and> length pre \<le> i"
    using assms(2-4) sum by (intro budget_index_trailing [where size_at = ?v]) (simp_all add: w split: if_splits)
  then obtain i where i: "budget_index context_weight keep (pre @ rs) start (length pre + length rs) 0 = Some i" "length pre \<le> i"
    by blast
  have "\<not> (c \<ge> i)" if "c \<in> set (ca_findValidCutPoints (pre @ rs) start (length (pre @ rs)))" for c
  proof
    assume "i \<le> c"
    with that i(2) have "(pre @ rs) ! c \<in> set rs" "ca_valid_cut ((pre @ rs) ! c)"
      by (auto simp: ca_findValidCutPoints_def valid_cuts_mem nth_append)
    with assms(1) ca_cut.valid_not_result show False by blast
  qed
  then have "find (\<lambda>c. c \<ge> i) (ca_findValidCutPoints (pre @ rs) start (length (pre @ rs))) = None"
    by (simp add: find_None_iff_ball)
  with i(1) assms(5) show ?thesis
    by (simp add: ca_findCutPoint_def find_cut_def ca_findValidCutPoints_def Let_def)
qed

lemma nothing_before_zero:
  assumes prep: "ca_prepareCompaction es settings = Some (Some p)"
    and b: "boundary_start es (prev_compaction_index es) = 0"
    and c: "cut_firstKept (ca_findCutPoint es 0 (length es) (cps_keepRecentTokens settings)) = 0"
    and s: "cut_isSplit (ca_findCutPoint es 0 (length es) (cps_keepRecentTokens settings)) \<longrightarrow>
      cut_turnStart (ca_findCutPoint es 0 (length es) (cps_keepRecentTokens settings)) = Some 0"
  shows False
proof -
  from prep obtain tokens where
    p: "p = preparation_at ca_getMessageFromEntryForCompaction es settings (prev_compaction_index es)
       (boundary_start es (prev_compaction_index es)) tokens
       (ca_findCutPoint es (boundary_start es (prev_compaction_index es)) (length es) (cps_keepRecentTokens settings))"
    and ne: "cp_messagesToSummarize p \<noteq> [] \<or> cp_turnPrefixMessages p \<noteq> []" by (rule ca_prepare_cut)
  have e: "entries_between es 0 0 = []" by (simp add: entries_between_def)
  show False using ne unfolding p b using c s
    by (auto simp: preparation_at_def Let_def e List.map_filter_def split: if_splits)
qed

lemma trailing_results_not_compacted:
  assumes "\<forall>e \<in> set rs. result_entry e" "0 < cps_keepRecentTokens settings"
    and "cps_keepRecentTokens settings \<le> total_estimate (concat (map entry_messages rs))"
    and first: "ca_valid_cut u" and plain: "\<forall>e \<in> set pre. \<not> is_compaction e"
  shows "ca_prepareCompaction (u # pre @ rs) settings \<noteq> Some (Some p)"
proof
  let ?es = "(u # pre) @ rs"
  assume "ca_prepareCompaction (u # pre @ rs) settings = Some (Some p)"
  then have prep: "ca_prepareCompaction ?es settings = Some (Some p)" by simp
  have "\<forall>e \<in> set ?es. \<not> is_compaction e"
    using assms(1) plain ca_cut.valid_not_result [OF first] by (auto simp: result_entry_def is_compaction_def split: entry_body.splits)
  then have b: "boundary_start ?es (prev_compaction_index ?es) = 0"
    by (simp add: prev_compaction_index_none boundary_start_def)
  have "ca_findValidCutPoints ?es 0 (length ?es) = 0 # filter (\<lambda>i. ca_valid_cut (?es ! i)) [1..<length ?es]"
  proof -
    have "[0..<length ?es] = 0 # [1..<length ?es]" by (simp add: upt_conv_Cons del: upt_Suc)
    then show ?thesis unfolding ca_findValidCutPoints_def valid_cuts_def using first by simp
  qed
  from trailing_results_cut [OF assms(1,2,3) _ this]
  have cut: "cut_firstKept (ca_findCutPoint ?es 0 (length ?es) (cps_keepRecentTokens settings)) = 0" by simp
  then have "cut_isSplit (ca_findCutPoint ?es 0 (length ?es) (cps_keepRecentTokens settings)) \<longrightarrow>
    cut_turnStart (ca_findCutPoint ?es 0 (length ?es) (cps_keepRecentTokens settings)) = Some 0"
    using ca_cut.split_has_turn ca_cut.turn_range unfolding ca_findCutPoint_def by (metis le_zero_eq)
  with prep cut b nothing_before_zero [of ?es settings p] show False by blast
qed

end
