(* ===== verification/Compaction_Scenarios.thy ===== *)
theory Compaction_Scenarios
  imports Session_Scenarios Compaction_Facts
begin

text \<open>
  Concrete compactions for the properties of the root theory: the session of \<open>Session_Scenarios\<close> with a
  budget of one token, and a session that ends with a large tool result.
\<close>

definition small_budget :: compaction_settings where
  "small_budget = \<lparr>cps_enabled = True, cps_reserveTokens = 10, cps_keepRecentTokens = 1\<rparr>"

lemma demo_ca_path: "buildSessionPath demo_entries NoLeaf None = Some demo_entries"
  by (simp add: buildSessionPath_def buildEntryIndex_def demo_eval last_opt_def nullish_opt_def walk_up.simps Let_def)

lemma demo_messages:
  "map entry_messages demo_entries = [[said ''one''], [], [said ''two'']]"
  by (simp add: demo_eval entry_messages_def projected_without_options)

lemma demo_plain: "\<forall>e \<in> set demo_entries. \<not> is_compaction e"
  by (simp add: demo_eval is_compaction_def)

lemma demo_distinct: "distinct (map en_id demo_entries)"
  by (simp add: demo_eval)

lemma demo_kept: "kept_before_compaction demo_entries"
  unfolding kept_before_compaction_def using demo_plain by (metis in_set_conv_decomp)

lemmas cut_eval = ca_findCutPoint_def find_cut_def valid_cuts_def ca_valid_cut_def visible_or_compaction_def
  context_weight_def isTurnStartEntry_def ca_sessionEntryToContextMessages_def is_compaction_def
  total_estimate_def quarter_def

text \<open>
  The cut falls on the second user message, which starts a turn; the setting before it is kept too, and
  the cut counts as one inside the first turn.
\<close>

lemma demo_cut:
  "ca_findCutPoint demo_entries 0 (length demo_entries) 1 = \<lparr>cut_firstKept = 1, cut_turnStart = Some 0, cut_isSplit = True\<rparr>"
  by (simp add: cut_eval demo_eval said_def upt_rec turn_start_index.simps)

lemma demo_nth: "en_id (demo_entries ! Suc 0) = ''bbbbbbbb''" "demo_entries \<noteq> []"
  by (simp_all add: demo_eval)

lemma demo_prepare: "\<exists>p. ca_prepareCompaction demo_entries small_budget = Some (Some p) \<and>
  cp_messagesToSummarize p = [] \<and> cp_turnPrefixMessages p = [said ''one''] \<and> cp_firstKeptEntryId p = ''bbbbbbbb''"
proof -
  obtain ctx where ctx: "ca_buildSessionContext demo_entries NoLeaf None = Some ctx"
    using ca_context_harness [OF demo_ca_path demo_distinct] by blast
  have start: "boundary_start demo_entries (prev_compaction_index demo_entries) = 0"
    using demo_plain by (simp add: prev_compaction_index_none boundary_start_def)
  have last: "\<not> is_compaction (last demo_entries)" using demo_plain by (simp add: demo_entries_def)
  have cut: "ca_findCutPoint demo_entries 0 (length demo_entries) (cps_keepRecentTokens small_budget)
    = \<lparr>cut_firstKept = 1, cut_turnStart = Some 0, cut_isSplit = True\<rparr>"
    using demo_cut by (simp add: small_budget_def)
  have fk: "first_kept_id demo_entries (Suc 0) = Some ''bbbbbbbb''" by (simp add: first_kept_id_def demo_eval)
  have msgs: "List.map_filter ca_getMessageFromEntryForCompaction (entries_between demo_entries 0 0) = []"
    "List.map_filter ca_getMessageFromEntryForCompaction (entries_between demo_entries 0 (Suc 0)) = [said ''one'']"
    by (simp_all add: entries_between_def List.map_filter_def demo_eval ca_getMessageFromEntryForCompaction_def
        is_compaction_def ca_sessionEntryToContextMessages_def)
  show ?thesis
    unfolding ca_prepareCompaction_def using last
    by (simp add: ctx start cut fk Let_def preparation_at_def msgs demo_nth)
qed

text \<open>A question that ends with the result of a tool.\<close>

definition demo_question :: session_entry where
  "demo_question = demo_entry ''aaaaaaaa'' None (MessageEntry (said ''one''))"

definition demo_result_entry :: session_entry where
  "demo_result_entry = demo_entry ''bbbbbbbb'' (Some ''aaaaaaaa'') (MessageEntry (ToolResult
     \<lparr>tr_toolCallId = ''c1'', tr_toolName = ''read'', tr_content = [TextContent ''a large result'' None], tr_details = None,
      tr_addedToolNames = None, tr_isError = False, tr_timestamp = 1\<rparr>))"

lemma demo_question_valid: "ca_valid_cut demo_question"
  by (simp add: cut_eval demo_question_def demo_entry_def said_def)

lemma demo_result_large:
  "result_entry demo_result_entry" "1 \<le> total_estimate (entry_messages demo_result_entry)"
  by (simp_all add: result_entry_def demo_result_entry_def demo_entry_def entry_messages_def projected_without_options
      total_estimate_def quarter_def)

end
