(* ===== verification/Session_Manager.thy ===== *)
theory Session_Manager
  imports Manager_Context
begin

text \<open>
  The session manager of the coding agent, the class \<open>SessionManager\<close> of
  \<open>coding-agent/src/core/session-manager.ts\<close>: an append-only tree in memory and its file, which is only
  created with the first answer of the assistant. A file is the list of its lines, each an entry or a
  line that does not parse; the text of a line is the subject of \<open>Session_Codec\<close>. Calls of the file
  system may fail, and identifiers come from streams. Directories, the tree for display and the
  listing of sessions are not modelled.
\<close>

section \<open>State and world\<close>

record manager_header =
  mh_version :: "int option"
  mh_id :: string
  mh_timestamp :: string
  mh_cwd :: string
  mh_parentSession :: "string option"

datatype file_entry = HeaderLine manager_header | EntryLine session_entry

record manager =
  mg_sessionId :: string
  mg_sessionFile :: "string option"
  mg_sessionDir :: string
  mg_cwd :: string
  mg_persist :: bool
  mg_flushed :: bool
  mg_fileEntries :: "file_entry list"
  mg_byId :: "(string, session_entry) omap"
  mg_labelsById :: "(string, string) omap"
  mg_labelTimestampsById :: "(string, string) omap"
  mg_leafId :: "string option"

text \<open>
  The world: files by path (\<open>None\<close> in the list is a line that does not parse), which of the calls of the
  file system fail, and the streams of \<open>randomUUID\<close> and of session identifiers.
\<close>

record manager_world =
  mw_files :: "string \<Rightarrow> file_entry option list option"
  mw_fails :: "nat \<Rightarrow> bool"
  mw_calls :: nat
  mw_uuids :: "nat \<Rightarrow> string"
  mw_uuidCount :: nat
  mw_sessionIds :: "nat \<Rightarrow> string"
  mw_sessionIdCount :: nat

text \<open>An operation returns a value or throws a message; what it did before a throw stays done.\<close>

type_synonym 'a mop = "manager \<times> manager_world \<Rightarrow> (string + 'a) \<times> manager \<times> manager_world"

definition mret :: "'a \<Rightarrow> 'a mop" where
  "mret x = (\<lambda>(m, w). (Inr x, m, w))"

definition mthrow :: "string \<Rightarrow> 'a mop" where
  "mthrow e = (\<lambda>(m, w). (Inl e, m, w))"

definition mbind :: "'a mop \<Rightarrow> ('a \<Rightarrow> 'b mop) \<Rightarrow> 'b mop" where
  "mbind f g = (\<lambda>s. case f s of (Inl e, s') \<Rightarrow> (Inl e, s') | (Inr x, s') \<Rightarrow> g x s')"

definition mget :: "(manager \<Rightarrow> 'a) \<Rightarrow> 'a mop" where
  "mget f = (\<lambda>(m, w). (Inr (f m), m, w))"

definition mmodify :: "(manager \<Rightarrow> manager) \<Rightarrow> unit mop" where
  "mmodify f = (\<lambda>(m, w). (Inr (), f m, w))"

definition mwhen :: "bool \<Rightarrow> unit mop \<Rightarrow> unit mop" where
  "mwhen b f = (if b then f else mret ())"

definition discard :: "'a mop \<Rightarrow> unit mop" where
  "discard f = mbind f (\<lambda>_. mret ())"

named_theorems mop_simps \<open>unfolding the operations of the session manager\<close>

declare mret_def [mop_simps] mthrow_def [mop_simps] mbind_def [mop_simps] mget_def [mop_simps] mmodify_def [mop_simps]
  mwhen_def [mop_simps]

section \<open>Files\<close>

definition disk_error :: string where
  "disk_error = ''I/O error''"

text \<open>One call of the file system: it fails as the world says, or has its effect on the files.\<close>

definition file_call ::
  "((string \<Rightarrow> file_entry option list option) \<Rightarrow> (string \<Rightarrow> file_entry option list option) option) \<Rightarrow> unit mop" where
  "file_call f = (\<lambda>(m, w).
     let w' = w\<lparr>mw_calls := Suc (mw_calls w)\<rparr> in
     if mw_fails w (mw_calls w) then (Inl disk_error, m, w')
     else case f (mw_files w) of
         None \<Rightarrow> (Inl disk_error, m, w')
       | Some fs \<Rightarrow> (Inr (), m, w'\<lparr>mw_files := fs\<rparr>))"

text \<open>\<open>openSync(path, "w")\<close> empties the file, \<open>openSync(path, "wx")\<close> fails when it exists.\<close>

definition open_w :: "string \<Rightarrow> unit mop" where
  "open_w path = file_call (\<lambda>fs. Some (fs(path := Some [])))"

definition open_wx :: "string \<Rightarrow> unit mop" where
  "open_wx path = file_call (\<lambda>fs. if fs path = None then Some (fs(path := Some [])) else None)"

definition append_line :: "string \<Rightarrow> file_entry \<Rightarrow> unit mop" where
  "append_line path e = file_call (\<lambda>fs. Some (fs(path := Some ((case fs path of None \<Rightarrow> [] | Some ls \<Rightarrow> ls) @ [Some e]))))"

fun write_lines :: "string \<Rightarrow> file_entry list \<Rightarrow> unit mop" where
  "write_lines path [] = mret ()"
| "write_lines path (e # es) = mbind (append_line path e) (\<lambda>_. write_lines path es)"

section \<open>Identifiers\<close>

definition take_uuid :: "string mop" where
  "take_uuid = (\<lambda>(m, w). (Inr (mw_uuids w (mw_uuidCount w)), m, w\<lparr>mw_uuidCount := Suc (mw_uuidCount w)\<rparr>))"

definition createSessionId :: "string mop" where
  "createSessionId = (\<lambda>(m, w).
     (Inr (mw_sessionIds w (mw_sessionIdCount w)), m, w\<lparr>mw_sessionIdCount := Suc (mw_sessionIdCount w)\<rparr>))"

fun generate_loop :: "nat \<Rightarrow> (string \<Rightarrow> bool) \<Rightarrow> string mop" where
  "generate_loop 0 has = take_uuid"
| "generate_loop (Suc n) has = mbind take_uuid (\<lambda>u. if \<not> has (take 8 u) then mret (take 8 u) else generate_loop n has)"

definition generateId :: "(string \<Rightarrow> bool) \<Rightarrow> string mop" where
  "generateId has = generate_loop 100 has"

definition alnum :: "char \<Rightarrow> bool" where
  "alnum c = (let n = of_char c :: nat in 48 \<le> n \<and> n \<le> 57 \<or> 65 \<le> n \<and> n \<le> 90 \<or> 97 \<le> n \<and> n \<le> 122)"

text \<open>The pattern of session identifiers: alphanumeric at both ends, dots, dashes and underscores inside.\<close>

definition valid_session_id :: "string \<Rightarrow> bool" where
  "valid_session_id s =
     (s \<noteq> [] \<and> alnum (hd s) \<and> alnum (last s) \<and> list_all (\<lambda>c. alnum c \<or> c \<in> set ''._-'') s)"

definition assertValidSessionId :: "string \<Rightarrow> unit mop" where
  "assertValidSessionId i =
     (if valid_session_id i then mret ()
      else mthrow (''Session id must be non-empty, contain only alphanumeric characters, '-', '_', and '.', '' @
        ''and start and end with an alphanumeric character''))"

section \<open>The index\<close>

definition file_entry_of :: "file_entry \<Rightarrow> session_entry option" where
  "file_entry_of l = (case l of EntryLine e \<Rightarrow> Some e | HeaderLine _ \<Rightarrow> None)"

definition entries_of :: "file_entry list \<Rightarrow> session_entry list" where
  "entries_of ls = List.map_filter file_entry_of ls"

definition header_of :: "file_entry list \<Rightarrow> manager_header option" where
  "header_of ls = (case find (\<lambda>l. file_entry_of l = None) ls of Some (HeaderLine h) \<Rightarrow> Some h | _ \<Rightarrow> None)"

definition is_assistant_entry :: "session_entry \<Rightarrow> bool" where
  "is_assistant_entry e = (case en_body e of MessageEntry m \<Rightarrow> is_assistant m | _ \<Rightarrow> False)"

definition has_assistant :: "file_entry list \<Rightarrow> bool" where
  "has_assistant ls = list_ex is_assistant_entry (entries_of ls)"

definition set_label :: "string \<Rightarrow> string option \<Rightarrow> string \<Rightarrow> manager \<Rightarrow> manager" where
  "set_label target label timestamp m =
     (if truthy_str label
      then m\<lparr>mg_labelsById := om_set (mg_labelsById m) target (nullish label []),
             mg_labelTimestampsById := om_set (mg_labelTimestampsById m) target timestamp\<rparr>
      else m\<lparr>mg_labelsById := om_delete (mg_labelsById m) target,
             mg_labelTimestampsById := om_delete (mg_labelTimestampsById m) target\<rparr>)"

text \<open>What the loop of \<open>_buildIndex\<close> does for one entry.\<close>

definition index_entry :: "session_entry \<Rightarrow> manager \<Rightarrow> manager" where
  "index_entry e m =
     (let m = m\<lparr>mg_byId := om_set (mg_byId m) (en_id e) e, mg_leafId := Some (en_id e)\<rparr> in
      case en_body e of LabelEntry target label \<Rightarrow> set_label target label (en_timestamp e) m | _ \<Rightarrow> m)"

definition clear_index :: "manager \<Rightarrow> manager" where
  "clear_index m = m\<lparr>mg_byId := [], mg_labelsById := [], mg_labelTimestampsById := [], mg_leafId := None\<rparr>"

definition buildIndex :: "manager \<Rightarrow> manager" where
  "buildIndex m = fold index_entry (entries_of (mg_fileEntries m)) (clear_index m)"

section \<open>Persistence\<close>

definition rewriteFile :: "unit mop" where
  "rewriteFile = mbind (mget id) (\<lambda>m.
     case mg_sessionFile m of
       Some f \<Rightarrow> if mg_persist m \<and> f \<noteq> [] then mbind (open_w f) (\<lambda>_. write_lines f (mg_fileEntries m)) else mret ()
     | None \<Rightarrow> mret ())"

definition set_flushed :: "bool \<Rightarrow> unit mop" where
  "set_flushed b = mmodify (\<lambda>m. m\<lparr>mg_flushed := b\<rparr>)"

definition ensureSessionFile :: "string option mop" where
  "ensureSessionFile = mbind (mget id) (\<lambda>m.
     if \<not> mg_persist m \<or> \<not> truthy_str (mg_sessionFile m) then mret None
     else mbind (mwhen (\<not> mg_flushed m) (mbind rewriteFile (\<lambda>_. set_flushed True))) (\<lambda>_. mret (mg_sessionFile m)))"

text \<open>
  \<open>_persist\<close>: nothing is written before the first answer of the assistant, unless the file was written
  already; then the whole file is created, and after that each entry is one more line.
\<close>

definition persist_entry :: "session_entry \<Rightarrow> unit mop" where
  "persist_entry e = mbind (mget id) (\<lambda>m.
     case mg_sessionFile m of
       None \<Rightarrow> mret ()
     | Some f \<Rightarrow>
         if \<not> mg_persist m \<or> f = [] then mret ()
         else if \<not> has_assistant (mg_fileEntries m)
         then if mg_flushed m then append_line f (EntryLine e) else set_flushed False
         else if \<not> mg_flushed m
         then mbind (open_wx f) (\<lambda>_. mbind (write_lines f (mg_fileEntries m)) (\<lambda>_. set_flushed True))
         else append_line f (EntryLine e))"

definition push_manager_entry :: "session_entry \<Rightarrow> manager \<Rightarrow> manager" where
  "push_manager_entry e m = m\<lparr>mg_fileEntries := mg_fileEntries m @ [EntryLine e],
     mg_byId := om_set (mg_byId m) (en_id e) e, mg_leafId := Some (en_id e)\<rparr>"

definition appendEntry :: "session_entry \<Rightarrow> unit mop" where
  "appendEntry e = mbind (mmodify (push_manager_entry e)) (\<lambda>_. persist_entry e)"

section \<open>Appending\<close>

text \<open>An entry with a new identifier under a parent; its identifier is the result.\<close>

definition append_new :: "string \<Rightarrow> (manager \<Rightarrow> string option) \<Rightarrow> (string \<Rightarrow> entry_body) \<Rightarrow> session_entry mop" where
  "append_new now parent body = mbind (mget id) (\<lambda>m. mbind (generateId (om_has (mg_byId m))) (\<lambda>i.
     let e = \<lparr>en_id = i, en_parentId = parent m, en_timestamp = now, en_body = body i\<rparr>
     in mbind (appendEntry e) (\<lambda>_. mret e)))"

definition append_at_leaf :: "string \<Rightarrow> entry_body \<Rightarrow> string mop" where
  "append_at_leaf now body = mbind (append_new now mg_leafId (\<lambda>_. body)) (\<lambda>e. mret (en_id e))"

definition mg_appendMessage :: "string \<Rightarrow> agent_message \<Rightarrow> string mop" where
  "mg_appendMessage now message = append_at_leaf now (MessageEntry message)"

definition mg_appendThinkingLevelChange :: "string \<Rightarrow> string \<Rightarrow> string mop" where
  "mg_appendThinkingLevelChange now level = append_at_leaf now (ThinkingLevelChange level)"

definition mg_appendModelChange :: "string \<Rightarrow> string \<Rightarrow> string \<Rightarrow> string mop" where
  "mg_appendModelChange now provider modelId = append_at_leaf now (ModelChange provider modelId)"

definition mg_appendCompaction :: "string \<Rightarrow> string \<Rightarrow> string \<Rightarrow> int \<Rightarrow> json option \<Rightarrow> bool option \<Rightarrow> string mop" where
  "mg_appendCompaction now summary firstKept tokensBefore details fromHook =
     append_at_leaf now (CompactionEntry \<lparr>ce_summary = summary, ce_firstKeptEntryId = firstKept,
       ce_tokensBefore = tokensBefore, ce_details = details, ce_fromHook = fromHook\<rparr>)"

definition mg_appendCustomEntry :: "string \<Rightarrow> string \<Rightarrow> json option \<Rightarrow> string mop" where
  "mg_appendCustomEntry now customType data = append_at_leaf now (CustomEntry customType data)"

definition mg_appendCustomMessageEntry ::
  "string \<Rightarrow> string \<Rightarrow> user_content \<Rightarrow> bool \<Rightarrow> json option \<Rightarrow> string mop" where
  "mg_appendCustomMessageEntry now customType content display details =
     append_at_leaf now (CustomMessageEntry \<lparr>cme_customType = customType, cme_content = content,
       cme_details = details, cme_display = display\<rparr>)"

text \<open>\<open>name.replace(/[\r\n]+/g, " ").trim()\<close>.\<close>

fun breaks_to_space :: "bool \<Rightarrow> string \<Rightarrow> string" where
  "breaks_to_space prev [] = []"
| "breaks_to_space prev (c # cs) =
     (if of_char c \<in> {10, 13 :: nat} then (if prev then breaks_to_space True cs else CHR '' '' # breaks_to_space True cs)
      else c # breaks_to_space False cs)"

definition mg_appendSessionInfo :: "string \<Rightarrow> string \<Rightarrow> string mop" where
  "mg_appendSessionInfo now name = append_at_leaf now (SessionInfo (Some (trim (breaks_to_space False name))))"

definition not_found :: "string \<Rightarrow> string" where
  "not_found i = ''Entry '' @ i @ '' not found''"

definition appendLabelChange :: "string \<Rightarrow> string \<Rightarrow> string option \<Rightarrow> string mop" where
  "appendLabelChange now targetId label = mbind (mget id) (\<lambda>m.
     if \<not> om_has (mg_byId m) targetId then mthrow (not_found targetId)
     else mbind (append_new now mg_leafId (\<lambda>_. LabelEntry targetId label)) (\<lambda>e.
       mbind (mmodify (set_label targetId label now)) (\<lambda>_. mret (en_id e))))"

section \<open>Reading and branching\<close>

definition getEntries :: "manager \<Rightarrow> session_entry list" where
  "getEntries m = entries_of (mg_fileEntries m)"

definition mg_getSessionName :: "manager \<Rightarrow> string option" where
  "mg_getSessionName m =
     (case find (\<lambda>e. case en_body e of SessionInfo _ \<Rightarrow> True | _ \<Rightarrow> False) (rev (getEntries m)) of
        Some e \<Rightarrow> (case en_body e of
            SessionInfo (Some n) \<Rightarrow> if trim n = [] then None else Some (trim n) | _ \<Rightarrow> None)
      | None \<Rightarrow> None)"

definition getLeafEntry :: "manager \<Rightarrow> session_entry option" where
  "getLeafEntry m = (case mg_leafId m of Some l \<Rightarrow> if l = [] then None else om_get (mg_byId m) l | None \<Rightarrow> None)"

definition getChildren :: "string \<Rightarrow> manager \<Rightarrow> session_entry list" where
  "getChildren parentId m = filter (\<lambda>e. en_parentId e = Some parentId) (om_values (mg_byId m))"

definition mg_getBranch :: "string option \<Rightarrow> manager \<Rightarrow> session_entry list option" where
  "mg_getBranch fromId m =
     (case nullish_opt fromId (mg_leafId m) of
        Some i \<Rightarrow> walk_up (mg_byId m) (if i = [] then None else om_get (mg_byId m) i) []
      | None \<Rightarrow> walk_up (mg_byId m) None [])"

definition leaf_argument :: "manager \<Rightarrow> leaf_arg" where
  "leaf_argument m = (case mg_leafId m of None \<Rightarrow> NullLeaf | Some l \<Rightarrow> AtLeaf l)"

definition mg_buildSessionContext :: "manager \<Rightarrow> manager_context option" where
  "mg_buildSessionContext m = ca_buildSessionContext (getEntries m) (leaf_argument m) (Some (mg_byId m))"

definition branch_at :: "string \<Rightarrow> unit mop" where
  "branch_at branchFromId = mbind (mget id) (\<lambda>m.
     if \<not> om_has (mg_byId m) branchFromId then mthrow (not_found branchFromId)
     else mmodify (\<lambda>m. m\<lparr>mg_leafId := Some branchFromId\<rparr>))"

definition resetLeaf :: "unit mop" where
  "resetLeaf = mmodify (\<lambda>m. m\<lparr>mg_leafId := None\<rparr>)"

definition branchWithSummary :: "string \<Rightarrow> string option \<Rightarrow> string \<Rightarrow> json option \<Rightarrow> bool option \<Rightarrow> string mop" where
  "branchWithSummary now branchFromId summary details fromHook = mbind (mget id) (\<lambda>m.
     case branchFromId of
       Some b \<Rightarrow> if \<not> om_has (mg_byId m) b then mthrow (not_found b)
                 else mbind (mmodify (\<lambda>m. m\<lparr>mg_leafId := Some b\<rparr>)) (\<lambda>_. append_at_leaf now
                   (BranchSummaryEntry \<lparr>bse_fromId = b, bse_summary = summary, bse_details = details, bse_fromHook = fromHook\<rparr>))
     | None \<Rightarrow> mbind resetLeaf (\<lambda>_. append_at_leaf now
                   (BranchSummaryEntry \<lparr>bse_fromId = ''root'', bse_summary = summary, bse_details = details, bse_fromHook = fromHook\<rparr>)))"

section \<open>New sessions\<close>

definition CURRENT_SESSION_VERSION :: int where
  "CURRENT_SESSION_VERSION = 3"

definition SESSION_FILE_NAME :: string where
  "SESSION_FILE_NAME = ''session.jsonl''"

definition getSessionWorkspaceName :: "string \<Rightarrow> string \<Rightarrow> string" where
  "getSessionWorkspaceName timestamp sessionId =
     map (\<lambda>c. if c = CHR '':'' \<or> c = CHR ''.'' then CHR ''-'' else c) timestamp @ ''_'' @ sessionId"

definition getSessionFilePath :: "string \<Rightarrow> string \<Rightarrow> string \<Rightarrow> string" where
  "getSessionFilePath sessionDir timestamp sessionId =
     sessionDir @ ''/'' @ getSessionWorkspaceName timestamp sessionId @ ''/'' @ SESSION_FILE_NAME"

definition newSession :: "string \<Rightarrow> string option \<Rightarrow> string option \<Rightarrow> string option mop" where
  "newSession now optId parentSession =
     mbind (case optId of Some i \<Rightarrow> assertValidSessionId i | None \<Rightarrow> mret ()) (\<lambda>_.
     mbind (case optId of Some i \<Rightarrow> mret i | None \<Rightarrow> createSessionId) (\<lambda>i.
     mbind (mmodify (\<lambda>m. (clear_index m)\<lparr>mg_sessionId := i,
         mg_fileEntries := [HeaderLine \<lparr>mh_version = Some CURRENT_SESSION_VERSION, mh_id = i, mh_timestamp = now,
           mh_cwd = mg_cwd m, mh_parentSession = parentSession\<rparr>], mg_flushed := False,
         mg_sessionFile := (if mg_persist m then Some (getSessionFilePath (mg_sessionDir m) now i) else mg_sessionFile m)\<rparr>))
       (\<lambda>_. mget mg_sessionFile)))"

section \<open>Opening a session file\<close>

text \<open>\<open>loadEntriesFromFile\<close>: the lines that parse, provided that the first of them is a header.\<close>

definition loadEntriesFromFile :: "string \<Rightarrow> manager_world \<Rightarrow> file_entry list" where
  "loadEntriesFromFile path w =
     (case mw_files w path of
        None \<Rightarrow> []
      | Some ls \<Rightarrow> (case List.map_filter id ls of
            HeaderLine h # es \<Rightarrow> HeaderLine h # es
          | _ \<Rightarrow> []))"

text \<open>
  Files of older versions are upgraded, which is a parameter here (\<open>Session_Migration\<close> has it on the text
  of the entries, which lack fields); a file of the current version is left alone.
\<close>

definition header_version :: "file_entry list \<Rightarrow> int" where
  "header_version ls = (case header_of ls of None \<Rightarrow> 1 | Some h \<Rightarrow> nullish (mh_version h) 1)"

definition migrateToCurrentVersion ::
  "(file_entry list \<Rightarrow> file_entry list) \<Rightarrow> file_entry list \<Rightarrow> file_entry list option" where
  "migrateToCurrentVersion upgrade ls = (if header_version ls \<ge> CURRENT_SESSION_VERSION then None else Some (upgrade ls))"

definition setSessionFile ::
  "(file_entry list \<Rightarrow> file_entry list) \<Rightarrow> string \<Rightarrow> string \<Rightarrow> unit mop" where
  "setSessionFile upgrade now path = (\<lambda>(m0, w0).
     let existing = mw_files w0 path; entries = loadEntriesFromFile path w0 in
     mbind (mmodify (\<lambda>m. m\<lparr>mg_sessionFile := Some path\<rparr>)) (\<lambda>_.
     case existing of
       None \<Rightarrow> mbind (newSession now None None) (\<lambda>_. mmodify (\<lambda>m. m\<lparr>mg_sessionFile := Some path\<rparr>))
     | Some ls \<Rightarrow>
         mbind (mmodify (\<lambda>m. m\<lparr>mg_fileEntries := entries\<rparr>)) (\<lambda>_.
         if entries = [] then
           if ls \<noteq> [] then mthrow (''Session file is not a valid agent session: '' @ path)
           else mbind (newSession now None None) (\<lambda>_.
             mbind (mmodify (\<lambda>m. m\<lparr>mg_sessionFile := Some path\<rparr>)) (\<lambda>_.
             mbind rewriteFile (\<lambda>_. set_flushed True)))
         else
           mbind (case header_of entries of Some h \<Rightarrow> mret (mh_id h) | None \<Rightarrow> createSessionId) (\<lambda>i.
           mbind (mmodify (\<lambda>m. m\<lparr>mg_sessionId := i\<rparr>)) (\<lambda>_.
           mbind (case migrateToCurrentVersion upgrade entries of
               None \<Rightarrow> mret ()
             | Some es \<Rightarrow> mbind (mmodify (\<lambda>m. m\<lparr>mg_fileEntries := es\<rparr>)) (\<lambda>_. rewriteFile)) (\<lambda>_.
           mbind (mmodify buildIndex) (\<lambda>_. set_flushed True)))))) (m0, w0))"

section \<open>A new session from a branch\<close>

text \<open>The path without its labels, chained again.\<close>

fun rechain :: "string option \<Rightarrow> session_entry list \<Rightarrow> session_entry list" where
  "rechain parent [] = []"
| "rechain parent (e # es) =
     (case en_body e of
        LabelEntry _ _ \<Rightarrow> rechain parent es
      | _ \<Rightarrow> e\<lparr>en_parentId := parent\<rparr> # rechain (Some (en_id e)) es)"

fun label_entries ::
  "string set \<Rightarrow> string option \<Rightarrow> (string \<times> string \<times> string) list \<Rightarrow> session_entry list mop" where
  "label_entries ids parent [] = mret []"
| "label_entries ids parent ((target, label, timestamp) # ls) =
     mbind (generateId (\<lambda>i. i \<in> ids)) (\<lambda>i.
     mbind (label_entries (insert i ids) (Some i) ls) (\<lambda>es.
     mret (\<lparr>en_id = i, en_parentId = parent, en_timestamp = timestamp, en_body = LabelEntry target (Some label)\<rparr> # es)))"

definition labels_to_write :: "manager \<Rightarrow> string set \<Rightarrow> (string \<times> string \<times> string) list" where
  "labels_to_write m ids =
     map (\<lambda>(t, l). (t, l, nullish (om_get (mg_labelTimestampsById m) t) []))
       (filter (\<lambda>(t, l). t \<in> ids) (mg_labelsById m))"

definition last_id :: "session_entry list \<Rightarrow> string option" where
  "last_id es = (case last_opt es of Some e \<Rightarrow> if en_id e = [] then None else Some (en_id e) | None \<Rightarrow> None)"

definition branch_off :: "string \<Rightarrow> session_entry list \<Rightarrow> string option mop" where
  "branch_off now path = mbind (mget id) (\<lambda>m.
     let pathWithoutLabels = rechain None path; pathEntryIds = en_id ` set pathWithoutLabels in
     mbind createSessionId (\<lambda>newId.
     let newFile = getSessionFilePath (mg_sessionDir m) now newId;
       header = \<lparr>mh_version = Some CURRENT_SESSION_VERSION, mh_id = newId, mh_timestamp = now, mh_cwd = mg_cwd m,
         mh_parentSession = (if mg_persist m then mg_sessionFile m else None)\<rparr> in
     mbind (label_entries pathEntryIds (last_id pathWithoutLabels) (labels_to_write m pathEntryIds)) (\<lambda>labels.
     let lines = HeaderLine header # map EntryLine (pathWithoutLabels @ labels) in
     if mg_persist m then
       mbind (mmodify (\<lambda>m. buildIndex (m\<lparr>mg_fileEntries := lines, mg_sessionId := newId, mg_sessionFile := Some newFile\<rparr>))) (\<lambda>_.
       mbind (if has_assistant lines then mbind rewriteFile (\<lambda>_. set_flushed True) else set_flushed False)
         (\<lambda>_. mret (Some newFile)))
     else
       mbind (mmodify (\<lambda>m. buildIndex (m\<lparr>mg_fileEntries := lines, mg_sessionId := newId\<rparr>))) (\<lambda>_. mret None))))"

text \<open>\<open>None\<close> stands for a walk to the root that does not end.\<close>

definition createBranchedSession ::
  "string \<Rightarrow> string \<Rightarrow> manager \<times> manager_world \<Rightarrow> ((string + string option) \<times> manager \<times> manager_world) option" where
  "createBranchedSession now leafId = (\<lambda>(m, w).
     case mg_getBranch (Some leafId) m of
       None \<Rightarrow> None
     | Some [] \<Rightarrow> Some (Inl (not_found leafId), m, w)
     | Some path \<Rightarrow> Some (branch_off now path (m, w)))"

section \<open>Making managers\<close>

definition blank_manager :: "string \<Rightarrow> string \<Rightarrow> bool \<Rightarrow> manager" where
  "blank_manager cwd sessionDir persist = \<lparr>mg_sessionId = [], mg_sessionFile = None, mg_sessionDir = sessionDir, mg_cwd = cwd,
     mg_persist = persist, mg_flushed = False, mg_fileEntries = [], mg_byId = [], mg_labelsById = [], mg_labelTimestampsById = [],
     mg_leafId = None\<rparr>"

text \<open>The constructor: a new object, then the file it is given or a new session.\<close>

definition make_manager ::
  "(file_entry list \<Rightarrow> file_entry list) \<Rightarrow> string \<Rightarrow> string \<Rightarrow> string \<Rightarrow> string option \<Rightarrow> bool \<Rightarrow> string option \<Rightarrow>
     string option \<Rightarrow> unit mop" where
  "make_manager upgrade now cwd sessionDir sessionFile persist optId parentSession =
     mbind (mmodify (\<lambda>_. blank_manager cwd sessionDir persist)) (\<lambda>_.
     case sessionFile of
       Some f \<Rightarrow> if f \<noteq> [] then setSessionFile upgrade now f else discard (newSession now optId parentSession)
     | None \<Rightarrow> discard (newSession now optId parentSession))"

definition mg_create :: "string \<Rightarrow> string \<Rightarrow> string \<Rightarrow> string option \<Rightarrow> string option \<Rightarrow> unit mop" where
  "mg_create now cwd sessionDir optId parentSession = make_manager id now cwd sessionDir None True optId parentSession"

definition mg_inMemory :: "string \<Rightarrow> string \<Rightarrow> string option \<Rightarrow> string option \<Rightarrow> unit mop" where
  "mg_inMemory now cwd optId parentSession = make_manager id now cwd [] None False optId parentSession"

text \<open>\<open>dirname\<close> and \<open>basename\<close> of an absolute path.\<close>

definition path_dirname :: "string \<Rightarrow> string" where
  "path_dirname p = (let d = rev (drop 1 (dropWhile (\<lambda>c. c \<noteq> CHR ''/'') (rev p))) in if d = [] then ''/'' else d)"

definition path_basename :: "string \<Rightarrow> string" where
  "path_basename p = rev (takeWhile (\<lambda>c. c \<noteq> CHR ''/'') (rev p))"

definition mg_open ::
  "(file_entry list \<Rightarrow> file_entry list) \<Rightarrow> string \<Rightarrow> string \<Rightarrow> string \<Rightarrow> string option \<Rightarrow> string option \<Rightarrow> unit mop" where
  "mg_open upgrade now processCwd path sessionDir cwdOverride = (\<lambda>(m, w).
     let cwd = nullish cwdOverride (case header_of (loadEntriesFromFile path w) of Some h \<Rightarrow> mh_cwd h | None \<Rightarrow> processCwd);
       defaultDir = (if path_basename path = SESSION_FILE_NAME then path_dirname (path_dirname path) else path_dirname path);
       dir = (if truthy_str sessionDir then nullish sessionDir [] else defaultDir) in
     make_manager upgrade now cwd dir (Some path) True None None (m, w))"

text \<open>\<open>writeFileSync\<close> with the flag \<open>wx\<close>: one call that creates the file with its first line.\<close>

definition write_wx :: "string \<Rightarrow> file_entry \<Rightarrow> unit mop" where
  "write_wx path e = file_call (\<lambda>fs. if fs path = None then Some (fs(path := Some [Some e])) else None)"

definition forkFrom ::
  "(file_entry list \<Rightarrow> file_entry list) \<Rightarrow> string \<Rightarrow> string \<Rightarrow> string \<Rightarrow> string \<Rightarrow> string option \<Rightarrow> unit mop" where
  "forkFrom upgrade now sourcePath targetCwd dir optId = (\<lambda>(m, w).
     let source = loadEntriesFromFile sourcePath w in
     if source = [] then (Inl (''Cannot fork: source session file is empty or invalid: '' @ sourcePath), m, w)
     else if header_of source = None then (Inl (''Cannot fork: source session has no header: '' @ sourcePath), m, w)
     else
       mbind (case optId of Some i \<Rightarrow> assertValidSessionId i | None \<Rightarrow> mret ()) (\<lambda>_.
       mbind (case optId of Some i \<Rightarrow> mret i | None \<Rightarrow> createSessionId) (\<lambda>newId.
       let newFile = getSessionFilePath dir now newId;
         newHeader = \<lparr>mh_version = Some CURRENT_SESSION_VERSION, mh_id = newId, mh_timestamp = now, mh_cwd = targetCwd,
           mh_parentSession = Some sourcePath\<rparr> in
       mbind (write_wx newFile (HeaderLine newHeader)) (\<lambda>_.
       mbind (write_lines newFile (map EntryLine (entries_of source))) (\<lambda>_.
       make_manager upgrade now targetCwd dir (Some newFile) True None None)))) (m, w))"

section \<open>Sequences of operations\<close>

text \<open>The operations a client calls on a session, each with the time of the call.\<close>

datatype manager_op =
    OpMessage agent_message
  | OpThinkingLevel string
  | OpModel string string
  | OpCompaction string string int "json option" "bool option"
  | OpCustom string "json option"
  | OpCustomMessage string user_content bool "json option"
  | OpName string
  | OpLabel string "string option"
  | OpBranch string
  | OpReset
  | OpBranchSummary "string option" string "json option" "bool option"
  | OpEnsureFile

fun run_op :: "string \<times> manager_op \<Rightarrow> unit mop" where
  "run_op (now, OpMessage msg) = discard (mg_appendMessage now msg)"
| "run_op (now, OpThinkingLevel l) = discard (mg_appendThinkingLevelChange now l)"
| "run_op (now, OpModel p i) = discard (mg_appendModelChange now p i)"
| "run_op (now, OpCompaction s k t d h) = discard (mg_appendCompaction now s k t d h)"
| "run_op (now, OpCustom t d) = discard (mg_appendCustomEntry now t d)"
| "run_op (now, OpCustomMessage t c b d) = discard (mg_appendCustomMessageEntry now t c b d)"
| "run_op (now, OpName n) = discard (mg_appendSessionInfo now n)"
| "run_op (now, OpLabel t l) = discard (appendLabelChange now t l)"
| "run_op (now, OpBranch i) = branch_at i"
| "run_op (now, OpReset) = resetLeaf"
| "run_op (now, OpBranchSummary i s d h) = discard (branchWithSummary now i s d h)"
| "run_op (now, OpEnsureFile) = discard ensureSessionFile"

text \<open>A client goes on after an operation that throws.\<close>

definition run_ops :: "(string \<times> manager_op) list \<Rightarrow> manager \<times> manager_world \<Rightarrow> manager \<times> manager_world" where
  "run_ops = fold (\<lambda>op s. snd (run_op op s))"

end
