(* ===== verification/Session_Manager_Facts.thy ===== *)
theory Session_Manager_Facts
  imports Session_Manager
begin

text \<open>
  What the session manager guarantees: its caches are those of its entries, and the file of a flushed
  session holds exactly the entries in memory, so that opening it again gives the same session.
\<close>

section \<open>Lines and entries\<close>

lemma entries_of_simps [simp]:
  "entries_of [] = []" "entries_of (HeaderLine h # ls) = entries_of ls" "entries_of (EntryLine e # ls) = e # entries_of ls"
  "entries_of (xs @ ys) = entries_of xs @ entries_of ys" "entries_of (map EntryLine es) = es"
  by (simp_all add: entries_of_def file_entry_of_def List.map_filter_def comp_def)

lemma has_assistant_simps [simp]:
  "has_assistant [] = False" "has_assistant (HeaderLine h # ls) = has_assistant ls"
  "has_assistant (EntryLine e # ls) = (is_assistant_entry e \<or> has_assistant ls)"
  "has_assistant (xs @ ys) = (has_assistant xs \<or> has_assistant ys)"
  by (simp_all add: has_assistant_def)

lemma map_filter_Some [simp]: "List.map_filter id (map Some xs) = xs"
  by (simp add: List.map_filter_def comp_def)

lemma map_filter_id_append [simp]: "List.map_filter id (xs @ ys) = List.map_filter id xs @ List.map_filter id ys"
  "List.map_filter id (Some x # xs) = x # List.map_filter id xs" "List.map_filter id [] = []"
  by (simp_all add: List.map_filter_def)

section \<open>A file system that does not fail\<close>

definition reliable :: "manager_world \<Rightarrow> bool" where
  "reliable w \<longleftrightarrow> (\<forall>n. \<not> mw_fails w n)"

definition with_file :: "string \<Rightarrow> file_entry option list \<Rightarrow> nat \<Rightarrow> manager_world \<Rightarrow> manager_world" where
  "with_file f ls n w = w\<lparr>mw_files := (mw_files w)(f := Some ls), mw_calls := mw_calls w + n\<rparr>"

lemma reliable_with_file [simp]: "reliable (with_file f ls n w) = reliable w"
  by (simp add: reliable_def with_file_def)

lemma with_file_simps [simp]:
  "mw_files (with_file f ls n w) f = Some ls" "f' \<noteq> f \<Longrightarrow> mw_files (with_file f ls n w) f' = mw_files w f'"
  "mw_uuids (with_file f ls n w) = mw_uuids w" "mw_uuidCount (with_file f ls n w) = mw_uuidCount w"
  "mw_sessionIds (with_file f ls n w) = mw_sessionIds w" "mw_sessionIdCount (with_file f ls n w) = mw_sessionIdCount w"
  "with_file f ls' k (with_file f ls n w) = with_file f ls' (n + k) w"
  by (simp_all add: with_file_def add.assoc)

lemma open_w_reliable: "reliable w \<Longrightarrow> open_w f (m, w) = (Inr (), m, with_file f [] 1 w)"
  by (simp add: open_w_def file_call_def reliable_def with_file_def Let_def)

lemma open_wx_reliable: "reliable w \<Longrightarrow> mw_files w f = None \<Longrightarrow> open_wx f (m, w) = (Inr (), m, with_file f [] 1 w)"
  by (simp add: open_wx_def file_call_def reliable_def with_file_def Let_def)

lemma append_line_reliable:
  "reliable w \<Longrightarrow> append_line f e (m, w) =
    (Inr (), m, with_file f ((case mw_files w f of None \<Rightarrow> [] | Some ls \<Rightarrow> ls) @ [Some e]) 1 w)"
  by (simp add: append_line_def file_call_def reliable_def with_file_def Let_def)

lemma write_lines_reliable:
  "reliable w \<Longrightarrow> mw_files w f = Some ls \<Longrightarrow> \<exists>n. write_lines f es (m, w) = (Inr (), m, with_file f (ls @ map Some es) n w)"
proof (induction es arbitrary: w ls)
  case Nil
  then have "with_file f ls 0 w = w" by (simp add: with_file_def fun_upd_idem)
  then show ?case by (auto simp: mret_def intro!: exI [of _ 0])
next
  case (Cons e es)
  let ?w = "with_file f (ls @ [Some e]) 1 w"
  have "append_line f e (m, w) = (Inr (), m, ?w)" using Cons.prems by (simp add: append_line_reliable)
  moreover obtain n where "write_lines f es (m, ?w) = (Inr (), m, with_file f ((ls @ [Some e]) @ map Some es) n ?w)"
    using Cons.IH [of ?w "ls @ [Some e]"] Cons.prems by auto
  ultimately show ?case by (auto simp: mbind_def)
qed

section \<open>Invariants\<close>

definition index_ok :: "manager \<Rightarrow> bool" where
  "index_ok m \<longleftrightarrow> mg_byId m = mg_byId (buildIndex m) \<and> mg_labelsById m = mg_labelsById (buildIndex m) \<and>
     mg_labelTimestampsById m = mg_labelTimestampsById (buildIndex m)"

text \<open>One header line, then entries in the order of their making, each below an earlier one.\<close>

definition manager_inv :: "manager \<Rightarrow> bool" where
  "manager_inv m \<longleftrightarrow> index_ok m \<and> well_ordered {} (getEntries m) \<and>
     (\<forall>l. mg_leafId m = Some l \<longrightarrow> l \<in> ids_of (getEntries m)) \<and>
     (\<exists>h. mg_fileEntries m = HeaderLine h # map EntryLine (getEntries m))"

text \<open>
  The file: once written it has the entries in memory (and perhaps lines that do not parse); before,
  there is no answer of the assistant and no file.
\<close>

definition file_inv :: "manager \<Rightarrow> manager_world \<Rightarrow> bool" where
  "file_inv m w \<longleftrightarrow> (mg_persist m \<longrightarrow> (\<exists>f. mg_sessionFile m = Some f \<and> f \<noteq> [] \<and>
     (if mg_flushed m then \<exists>ls. mw_files w f = Some ls \<and> List.map_filter id ls = mg_fileEntries m
      else \<not> has_assistant (mg_fileEntries m) \<and> mw_files w f = None)))"

lemma file_inv_cong:
  "mg_persist m' = mg_persist m \<Longrightarrow> mg_sessionFile m' = mg_sessionFile m \<Longrightarrow> mg_flushed m' = mg_flushed m \<Longrightarrow>
     mg_fileEntries m' = mg_fileEntries m \<Longrightarrow> file_inv m' w = file_inv m w"
  by (simp add: file_inv_def)

lemma file_inv_written:
  "mg_sessionFile m = Some f \<Longrightarrow> f \<noteq> [] \<Longrightarrow> mg_flushed m \<Longrightarrow> mw_files w f = Some (map Some (mg_fileEntries m)) \<Longrightarrow> file_inv m w"
  by (simp add: file_inv_def)

text \<open>
  Identifiers are the first eight characters of random strings. They may collide; it is assumed that for
  the first \<open>N\<close> of them, one of the next hundred is new.
\<close>

definition drawn :: "manager_world \<Rightarrow> string set" where
  "drawn w = (\<lambda>n. take 8 (mw_uuids w n)) ` {..<mw_uuidCount w}"

definition uuid_supply :: "(nat \<Rightarrow> string) \<Rightarrow> nat \<Rightarrow> bool" where
  "uuid_supply u N \<longleftrightarrow> (\<forall>n. u n \<noteq> []) \<and>
     (\<forall>n < N. \<exists>k < 100. take 8 (u (n + k)) \<notin> (\<lambda>j. take 8 (u j)) ` {..<n})"

definition ids_drawn :: "manager \<Rightarrow> manager_world \<Rightarrow> bool" where
  "ids_drawn m w \<longleftrightarrow> ids_of (getEntries m) \<subseteq> drawn w"

lemma generate_loop_fresh:
  assumes "k < K" "\<not> has (take 8 (mw_uuids w (mw_uuidCount w + k)))"
  shows "\<exists>j \<le> k. generate_loop K has (m, w) = (Inr (take 8 (mw_uuids w (mw_uuidCount w + j))), m,
      w\<lparr>mw_uuidCount := Suc (mw_uuidCount w + j)\<rparr>) \<and> \<not> has (take 8 (mw_uuids w (mw_uuidCount w + j)))"
  using assms
proof (induction K arbitrary: k w)
  case (Suc K)
  show ?case
  proof (cases "has (take 8 (mw_uuids w (mw_uuidCount w)))")
    case True
    let ?w = "w\<lparr>mw_uuidCount := Suc (mw_uuidCount w)\<rparr>"
    from True Suc.prems obtain k' where k: "k = Suc k'" by (cases k) auto
    with Suc.IH [of k' ?w] Suc.prems obtain j where j: "j \<le> k'"
      "generate_loop K has (m, ?w) = (Inr (take 8 (mw_uuids w (Suc (mw_uuidCount w + j)))), m,
        w\<lparr>mw_uuidCount := Suc (Suc (mw_uuidCount w + j))\<rparr>)" "\<not> has (take 8 (mw_uuids w (Suc (mw_uuidCount w + j))))"
      by auto
    with True k show ?thesis
      by (intro exI [of _ "Suc j"]) (simp add: mbind_def take_uuid_def)
  next
    case False
    then show ?thesis by (intro exI [of _ 0]) (simp add: mbind_def take_uuid_def mret_def)
  qed
qed simp

lemma generateId_fresh:
  assumes "uuid_supply (mw_uuids w) N" "mw_uuidCount w < N" "\<And>i. has i \<Longrightarrow> i \<in> drawn w"
  shows "\<exists>i n. generateId has (m, w) = (Inr i, m, w\<lparr>mw_uuidCount := n\<rparr>) \<and> \<not> has i \<and> i \<noteq> [] \<and>
    n \<le> mw_uuidCount w + 100 \<and> i \<in> drawn (w\<lparr>mw_uuidCount := n\<rparr>) \<and> drawn w \<subseteq> drawn (w\<lparr>mw_uuidCount := n\<rparr>)"
proof -
  let ?u = "mw_uuids w" and ?c = "mw_uuidCount w"
  obtain k where k: "k < 100" "take 8 (?u (?c + k)) \<notin> drawn w"
    using assms(1,2) unfolding uuid_supply_def drawn_def by blast
  with assms(3) have "\<not> has (take 8 (?u (?c + k)))" by blast
  from generate_loop_fresh [of k 100 has w m, OF k(1) this] obtain j where j: "j \<le> k"
    "generate_loop 100 has (m, w) = (Inr (take 8 (?u (?c + j))), m, w\<lparr>mw_uuidCount := Suc (?c + j)\<rparr>)"
    "\<not> has (take 8 (?u (?c + j)))" by blast
  moreover have "take 8 (?u (?c + j)) \<noteq> []" using assms(1) by (simp add: uuid_supply_def)
  moreover have "take 8 (?u (?c + j)) \<in> drawn (w\<lparr>mw_uuidCount := Suc (?c + j)\<rparr>)"
    "drawn w \<subseteq> drawn (w\<lparr>mw_uuidCount := Suc (?c + j)\<rparr>)" by (auto simp: drawn_def)
  ultimately show ?thesis using k(1) unfolding generateId_def
    by (intro exI [of _ "take 8 (?u (?c + j))"] exI [of _ "Suc (?c + j)"]) auto
qed

lemma index_entry_fields [simp]:
  "mg_fileEntries (index_entry e m) = mg_fileEntries m" "mg_byId (index_entry e m) = om_set (mg_byId m) (en_id e) e"
  "mg_leafId (index_entry e m) = Some (en_id e)"
  by (simp_all add: index_entry_def set_label_def Let_def split: entry_body.split)

lemma fold_index_fields [simp]:
  "mg_fileEntries (fold index_entry es m) = mg_fileEntries m"
  "mg_byId (fold index_entry es m) = fold (\<lambda>e b. om_set b (en_id e) e) es (mg_byId m)"
  by (induction es arbitrary: m) simp_all

lemma index_entry_other [simp]:
  "mg_sessionFile (index_entry e m) = mg_sessionFile m" "mg_sessionId (index_entry e m) = mg_sessionId m"
  "mg_persist (index_entry e m) = mg_persist m" "mg_flushed (index_entry e m) = mg_flushed m"
  by (simp_all add: index_entry_def set_label_def Let_def split: entry_body.split)

lemma fold_index_other [simp]:
  "mg_sessionFile (fold index_entry es m) = mg_sessionFile m" "mg_sessionId (fold index_entry es m) = mg_sessionId m"
  "mg_persist (fold index_entry es m) = mg_persist m" "mg_flushed (fold index_entry es m) = mg_flushed m"
  by (induction es arbitrary: m) simp_all

lemma fold_index_leaf: "mg_leafId (fold index_entry es m) = (if es = [] then mg_leafId m else Some (en_id (last es)))"
  by (induction es arbitrary: m) auto

text \<open>The label caches depend on the entries only.\<close>

definition same_labels :: "manager \<Rightarrow> manager \<Rightarrow> bool" where
  "same_labels m m' \<longleftrightarrow> mg_labelsById m = mg_labelsById m' \<and> mg_labelTimestampsById m = mg_labelTimestampsById m'"

lemma same_labels_index: "same_labels m m' \<Longrightarrow> same_labels (index_entry e m) (index_entry e m')"
  by (simp add: same_labels_def index_entry_def set_label_def Let_def split: entry_body.split)

lemma same_labels_fold: "same_labels m m' \<Longrightarrow> same_labels (fold index_entry es m) (fold index_entry es m')"
  by (induction es arbitrary: m m') (simp_all add: same_labels_index)

lemma same_labels_clear [simp]: "same_labels (clear_index m) (clear_index m')"
  by (simp add: same_labels_def clear_index_def)

lemma buildIndex_byId: "mg_byId (buildIndex m) = index_entries (getEntries m)"
  by (simp add: buildIndex_def clear_index_def getEntries_def index_entries_def)

lemma index_ok_iff: "index_ok m \<longleftrightarrow> mg_byId m = index_entries (getEntries m) \<and> same_labels m (buildIndex m)"
  by (simp add: index_ok_def buildIndex_byId same_labels_def)

lemma same_labels_trans: "same_labels a b \<Longrightarrow> same_labels b c \<Longrightarrow> same_labels a c"
  by (simp add: same_labels_def)

lemma same_labels_sym: "same_labels a b \<Longrightarrow> same_labels b a"
  by (simp add: same_labels_def)

lemma buildIndex_labels: "mg_fileEntries m' = mg_fileEntries m \<Longrightarrow> same_labels (buildIndex m') (buildIndex m)"
  unfolding buildIndex_def by (simp add: same_labels_fold)

lemma manager_inv_flushed [simp]: "manager_inv (m\<lparr>mg_flushed := b\<rparr>) = manager_inv m"
proof -
  let ?m = "m\<lparr>mg_flushed := b\<rparr>"
  have "same_labels (buildIndex ?m) (buildIndex m)" by (rule buildIndex_labels) simp
  then have "same_labels ?m (buildIndex ?m) = same_labels m (buildIndex m)" by (auto simp: same_labels_def)
  then show ?thesis by (simp add: manager_inv_def index_ok_iff getEntries_def)
qed

text \<open>One more entry, with its label when it is one.\<close>

lemma buildIndex_push:
  assumes "mg_fileEntries m' = mg_fileEntries m @ [EntryLine e]"
  shows "same_labels (buildIndex m') (index_entry e (buildIndex m))"
  unfolding buildIndex_def assms by (simp add: same_labels_fold same_labels_index)

lemma manager_inv_has: "manager_inv m \<Longrightarrow> om_has (mg_byId m) i \<longleftrightarrow> i \<in> ids_of (getEntries m)"
  by (simp add: manager_inv_def index_ok_iff has_index)


section \<open>Every operation keeps the session in order\<close>

definition session_ok :: "nat \<Rightarrow> manager \<times> manager_world \<Rightarrow> bool" where
  "session_ok N s = (case s of (m, w) \<Rightarrow>
     manager_inv m \<and> file_inv m w \<and> ids_drawn m w \<and> uuid_supply (mw_uuids w) N \<and> reliable w)"

text \<open>Entries are only added, and the session stays the same one.\<close>

definition extends :: "manager \<times> manager_world \<Rightarrow> manager \<times> manager_world \<Rightarrow> bool" where
  "extends s s' = (case (s, s') of ((m, w), (m', w')) \<Rightarrow>
     prefix (mg_fileEntries m) (mg_fileEntries m') \<and> mg_sessionFile m' = mg_sessionFile m \<and>
     mg_persist m' = mg_persist m \<and> mg_sessionId m' = mg_sessionId m \<and>
     (mg_flushed m \<longrightarrow> mg_flushed m'))"

text \<open>An operation that keeps the session in order and makes at most \<open>c\<close> identifiers.\<close>

definition keeps :: "nat \<Rightarrow> nat \<Rightarrow> 'a mop \<Rightarrow> bool" where
  "keeps N c f \<longleftrightarrow> (\<forall>s r s'. session_ok N s \<longrightarrow> mw_uuidCount (snd s) + 100 * c \<le> N \<longrightarrow> f s = (r, s') \<longrightarrow>
     session_ok N s' \<and> extends s s' \<and> mw_uuidCount (snd s') \<le> mw_uuidCount (snd s) + 100 * c)"

lemma keepsI:
  "(\<And>m w r s'. session_ok N (m, w) \<Longrightarrow> mw_uuidCount w + 100 * c \<le> N \<Longrightarrow> f (m, w) = (r, s') \<Longrightarrow>
     session_ok N s' \<and> extends (m, w) s' \<and> mw_uuidCount (snd s') \<le> mw_uuidCount w + 100 * c) \<Longrightarrow> keeps N c f"
  by (auto simp: keeps_def)

lemma extends_refl [simp]: "extends s s"
  by (simp add: extends_def split: prod.split)

lemma extends_trans: "extends s s' \<Longrightarrow> extends s' s'' \<Longrightarrow> extends s s''"
  by (auto simp: extends_def split: prod.splits)

lemma keeps_mret [intro]: "keeps N c (mret x)"
  by (auto simp: keeps_def mret_def)

lemma keeps_mthrow [intro]: "keeps N c (mthrow e)"
  by (auto simp: keeps_def mthrow_def)

lemma keeps_mget [intro]: "keeps N c (mget f)"
  by (auto simp: keeps_def mget_def)

lemma keeps_bind:
  assumes f: "keeps N c f" and g: "\<And>x. keeps N d (g x)"
  shows "keeps N (c + d) (mbind f g)"
  unfolding keeps_def mbind_def
proof (intro allI impI)
  fix s r s'
  assume s: "session_ok N s" "mw_uuidCount (snd s) + 100 * (c + d) \<le> N"
    and run: "(case f s of (Inl e, s') \<Rightarrow> (Inl e, s') | (Inr x, s') \<Rightarrow> g x s') = (r, s')"
  obtain r1 s1 where r1: "f s = (r1, s1)" by (cases "f s")
  have "mw_uuidCount (snd s) + 100 * c \<le> N" using s(2) by simp
  with f s r1 have s1: "session_ok N s1" "extends s s1" "mw_uuidCount (snd s1) \<le> mw_uuidCount (snd s) + 100 * c"
    unfolding keeps_def by blast+
  show "session_ok N s' \<and> extends s s' \<and> mw_uuidCount (snd s') \<le> mw_uuidCount (snd s) + 100 * (c + d)"
  proof (cases r1)
    case (Inl e)
    with run r1 s1 show ?thesis by auto
  next
    case (Inr x)
    with run r1 have gx: "g x s1 = (r, s')" by simp
    have "mw_uuidCount (snd s1) + 100 * d \<le> N" using s(2) s1(3) by simp
    with g [of x] s1(1) gx have "session_ok N s'" "extends s1 s'" "mw_uuidCount (snd s') \<le> mw_uuidCount (snd s1) + 100 * d"
      unfolding keeps_def by blast+
    with s1(2,3) show ?thesis using extends_trans by auto
  qed
qed

lemma keeps_bind0: "keeps N 0 f \<Longrightarrow> (\<And>x. keeps N c (g x)) \<Longrightarrow> keeps N c (mbind f g)"
  using keeps_bind [of N 0 f c g] by simp

lemma keeps_discard [intro]: "keeps N c f \<Longrightarrow> keeps N c (discard f)"
  unfolding discard_def using keeps_bind [of N c f 0 "\<lambda>_. mret ()", OF _ keeps_mret] by simp

text \<open>Setting the leaf.\<close>

lemma session_ok_leaf:
  assumes "session_ok N (m, w)" "\<forall>l. leaf = Some l \<longrightarrow> l \<in> ids_of (getEntries m)"
  shows "session_ok N (m\<lparr>mg_leafId := leaf\<rparr>, w)" "extends (m, w) (m\<lparr>mg_leafId := leaf\<rparr>, w)"
  using assms
  by (auto simp: session_ok_def extends_def manager_inv_def index_ok_def file_inv_def ids_drawn_def getEntries_def buildIndex_def
      clear_index_def)

text \<open>Fresh identifiers.\<close>

lemma generate_fresh:
  assumes "session_ok N (m, w)" "mw_uuidCount w < N"
  shows "\<exists>i n. generateId (om_has (mg_byId m)) (m, w) = (Inr i, m, w\<lparr>mw_uuidCount := n\<rparr>) \<and> i \<notin> ids_of (getEntries m) \<and>
    i \<noteq> [] \<and> n \<le> mw_uuidCount w + 100 \<and> i \<in> drawn (w\<lparr>mw_uuidCount := n\<rparr>) \<and> drawn w \<subseteq> drawn (w\<lparr>mw_uuidCount := n\<rparr>)"
proof -
  have ok: "manager_inv m" "ids_drawn m w" "uuid_supply (mw_uuids w) N" using assms(1) by (auto simp: session_ok_def)
  have "i \<in> drawn w" if "om_has (mg_byId m) i" for i
    using that ok(1,2) by (auto simp: ids_drawn_def manager_inv_has)
  from generateId_fresh [of w N "om_has (mg_byId m)" m, OF ok(3) assms(2) this] show ?thesis using ok(1) by (simp add: manager_inv_has)
qed

text \<open>Writing the entry that was just added.\<close>

lemma persist_pushed:
  assumes "file_inv m w" "reliable w"
  shows "\<exists>b w'. persist_entry e (push_manager_entry e m, w) = (Inr (), (push_manager_entry e m)\<lparr>mg_flushed := b\<rparr>, w') \<and>
    file_inv ((push_manager_entry e m)\<lparr>mg_flushed := b\<rparr>) w' \<and> reliable w' \<and> mw_uuids w' = mw_uuids w \<and>
    mw_uuidCount w' = mw_uuidCount w \<and> (mg_flushed m \<longrightarrow> b)"
proof (cases "mg_persist m")
  case False
  have "(push_manager_entry e m)\<lparr>mg_flushed := mg_flushed m\<rparr> = push_manager_entry e m" by (simp add: push_manager_entry_def)
  with False assms show ?thesis
    by (intro exI [of _ "mg_flushed m"] exI [of _ w])
      (auto simp: persist_entry_def push_manager_entry_def mop_simps file_inv_def split: option.split)
next
  case True
  then obtain f where f: "mg_sessionFile m = Some f" "f \<noteq> []" using assms(1) by (auto simp: file_inv_def)
  let ?m = "push_manager_entry e m"
  have fields: "mg_sessionFile ?m = Some f" "mg_persist ?m" "mg_flushed ?m = mg_flushed m"
    "mg_fileEntries ?m = mg_fileEntries m @ [EntryLine e]"
    using f True by (simp_all add: push_manager_entry_def)
  show ?thesis
  proof (cases "mg_flushed m")
    case flushed: True
    then obtain ls where ls: "mw_files w f = Some ls" "List.map_filter id ls = mg_fileEntries m"
      using assms(1) True f by (auto simp: file_inv_def)
    let ?w = "\<lambda>l. with_file f (ls @ [Some l]) 1 w"
    have "persist_entry e (?m, w) = append_line f (EntryLine e) (?m, w)"
      using f flushed fields by (simp add: persist_entry_def mbind_def mget_def)
    also have "\<dots> = (Inr (), ?m, ?w (EntryLine e))" using assms(2) ls by (simp add: append_line_reliable)
    finally have p: "persist_entry e (?m, w) = (Inr (), ?m\<lparr>mg_flushed := True\<rparr>, ?w (EntryLine e))"
      using flushed by (simp add: push_manager_entry_def)
    then show ?thesis
      by (intro exI [of _ True] exI [of _ "?w (EntryLine e)"]) (use ls f True assms fields in \<open>auto simp: file_inv_def\<close>)
  next
    case unflushed: False
    with assms(1) True f have none: "mw_files w f = None" "\<not> has_assistant (mg_fileEntries m)" by (auto simp: file_inv_def)
    show ?thesis
    proof (cases "has_assistant (mg_fileEntries ?m)")
      case has: True
      let ?es = "mg_fileEntries m @ [EntryLine e]" and ?w = "with_file f [] 1 w"
      obtain n where n: "write_lines f ?es (?m, ?w) = (Inr (), ?m, with_file f (map Some ?es) n ?w)"
        using write_lines_reliable [of ?w f "[]" ?es ?m] assms(2) by auto
      have "persist_entry e (?m, w) = (Inr (), ?m\<lparr>mg_flushed := True\<rparr>, with_file f (map Some ?es) n ?w)"
        using f unflushed fields has n open_wx_reliable [OF assms(2) none(1), of ?m]
        by (simp add: persist_entry_def mbind_def mget_def set_flushed_def mmodify_def)
      then show ?thesis
        by (intro exI [of _ True] exI [of _ "with_file f (map Some ?es) n ?w"])
          (use f True assms fields in \<open>auto simp: file_inv_def simp del: map_append\<close>)
    next
      case no: False
      have "persist_entry e (?m, w) = (Inr (), ?m\<lparr>mg_flushed := False\<rparr>, w)"
        using f unflushed fields no by (simp add: persist_entry_def mbind_def mget_def set_flushed_def mmodify_def)
      then show ?thesis
        by (intro exI [of _ False] exI [of _ w]) (use f True assms fields none no unflushed in \<open>auto simp: file_inv_def\<close>)
    qed
  qed
qed

text \<open>Adding an entry with its label, if it is one.\<close>

definition add_entry :: "session_entry \<Rightarrow> manager \<Rightarrow> manager" where
  "add_entry e m = index_entry e (m\<lparr>mg_fileEntries := mg_fileEntries m @ [EntryLine e]\<rparr>)"

lemma add_entry_push:
  "(\<forall>t l. en_body e \<noteq> LabelEntry t l) \<Longrightarrow> add_entry e m = push_manager_entry e m"
  "en_body e = LabelEntry t l \<Longrightarrow> add_entry e m = set_label t l (en_timestamp e) (push_manager_entry e m)"
  by (auto simp: add_entry_def index_entry_def push_manager_entry_def set_label_def Let_def split: entry_body.split)

lemma add_entry_fields [simp]:
  "mg_fileEntries (add_entry e m) = mg_fileEntries m @ [EntryLine e]" "mg_leafId (add_entry e m) = Some (en_id e)"
  "mg_byId (add_entry e m) = om_set (mg_byId m) (en_id e) e" "getEntries (add_entry e m) = getEntries m @ [e]"
  "mg_sessionFile (add_entry e m) = mg_sessionFile m" "mg_persist (add_entry e m) = mg_persist m"
  "mg_sessionId (add_entry e m) = mg_sessionId m" "mg_flushed (add_entry e m) = mg_flushed m"
  by (simp_all add: add_entry_def getEntries_def index_entry_def set_label_def Let_def split: entry_body.split)

lemma push_manager_entry_fields [simp]:
  "mg_fileEntries (push_manager_entry e m) = mg_fileEntries m @ [EntryLine e]" "mg_leafId (push_manager_entry e m) = Some (en_id e)"
  "mg_byId (push_manager_entry e m) = om_set (mg_byId m) (en_id e) e"
  "mg_sessionFile (push_manager_entry e m) = mg_sessionFile m" "mg_persist (push_manager_entry e m) = mg_persist m"
  "mg_sessionId (push_manager_entry e m) = mg_sessionId m" "mg_flushed (push_manager_entry e m) = mg_flushed m"
  by (simp_all add: push_manager_entry_def)

lemma manager_inv_add:
  assumes "manager_inv m" "en_id e \<noteq> []" "en_id e \<notin> ids_of (getEntries m)" "parent_in (ids_of (getEntries m)) e"
  shows "manager_inv (add_entry e m)"
proof -
  have inv: "mg_byId m = index_entries (getEntries m)" "same_labels m (buildIndex m)" "well_ordered {} (getEntries m)"
    using assms(1) by (simp_all add: manager_inv_def index_ok_iff)
  have "same_labels (add_entry e m) (index_entry e m)"
    unfolding add_entry_def by (rule same_labels_index) (simp add: same_labels_def)
  moreover have "same_labels (index_entry e m) (index_entry e (buildIndex m))" using inv(2) by (rule same_labels_index)
  moreover have "same_labels (index_entry e (buildIndex m)) (buildIndex (add_entry e m))"
    by (rule same_labels_sym, rule buildIndex_push) simp
  ultimately have "same_labels (add_entry e m) (buildIndex (add_entry e m))" using same_labels_trans by blast
  moreover have "mg_byId (add_entry e m) = index_entries (getEntries (add_entry e m))"
    using inv(1) by (simp add: index_entries_def)
  ultimately have "index_ok (add_entry e m)" by (simp add: index_ok_iff)
  moreover obtain h where "mg_fileEntries m = HeaderLine h # map EntryLine (getEntries m)"
    using assms(1) by (auto simp: manager_inv_def)
  ultimately show ?thesis using inv(3) assms(2-4) by (simp add: manager_inv_def well_ordered_append)
qed

lemma ids_drawn_add:
  "ids_drawn m w \<Longrightarrow> en_id e \<in> drawn w' \<Longrightarrow> drawn w \<subseteq> drawn w' \<Longrightarrow> ids_drawn (add_entry e m) w'"
  by (auto simp: ids_drawn_def)

text \<open>Appending a new entry, before its label is recorded.\<close>

lemma append_new_ok:
  assumes "session_ok N (m, w)" "mw_uuidCount w < N" "\<forall>p. parent m = Some p \<longrightarrow> p \<in> ids_of (getEntries m)"
  shows "\<exists>e b w'. append_new now parent body (m, w) = (Inr e, (push_manager_entry e m)\<lparr>mg_flushed := b\<rparr>, w') \<and>
    en_body e = body (en_id e) \<and> en_timestamp e = now \<and> mw_uuidCount w' \<le> mw_uuidCount w + 100 \<and>
    session_ok N ((add_entry e m)\<lparr>mg_flushed := b\<rparr>, w') \<and> extends (m, w) ((add_entry e m)\<lparr>mg_flushed := b\<rparr>, w')"
proof -
  obtain i n where gen: "generateId (om_has (mg_byId m)) (m, w) = (Inr i, m, w\<lparr>mw_uuidCount := n\<rparr>)" "i \<notin> ids_of (getEntries m)"
    "i \<noteq> []" "n \<le> mw_uuidCount w + 100" "i \<in> drawn (w\<lparr>mw_uuidCount := n\<rparr>)" "drawn w \<subseteq> drawn (w\<lparr>mw_uuidCount := n\<rparr>)"
    using generate_fresh [OF assms(1,2)] by blast
  let ?w = "w\<lparr>mw_uuidCount := n\<rparr>" and ?e = "\<lparr>en_id = i, en_parentId = parent m, en_timestamp = now, en_body = body i\<rparr>"
  have ok: "manager_inv m" "file_inv m w" "ids_drawn m w" "uuid_supply (mw_uuids w) N" "reliable w"
    using assms(1) by (auto simp: session_ok_def)
  have "file_inv m ?w = file_inv m w" by (simp add: file_inv_def)
  with ok(2,5) have "file_inv m ?w" "reliable ?w" by (simp_all add: reliable_def)
  then obtain b w' where p: "persist_entry ?e (push_manager_entry ?e m, ?w) =
      (Inr (), (push_manager_entry ?e m)\<lparr>mg_flushed := b\<rparr>, w')"
    "file_inv ((push_manager_entry ?e m)\<lparr>mg_flushed := b\<rparr>) w'" "reliable w'" "mw_uuids w' = mw_uuids ?w"
    "mw_uuidCount w' = mw_uuidCount ?w" "mg_flushed m \<longrightarrow> b"
    using persist_pushed by blast
  have run: "append_new now parent body (m, w) = (Inr ?e, (push_manager_entry ?e m)\<lparr>mg_flushed := b\<rparr>, w')"
    using gen(1) p(1)
    by (simp add: append_new_def mbind_def mget_def appendEntry_def mmodify_def mret_def Let_def)
  have "parent_in (ids_of (getEntries m)) ?e" using assms(3) by (auto simp: parent_in_def split: option.split)
  with ok(1) gen(2,3) have inv: "manager_inv (add_entry ?e m)" by (intro manager_inv_add) simp_all
  have "drawn w' = drawn ?w" using p(4,5) by (simp add: drawn_def)
  then have "ids_drawn (add_entry ?e m) w'" using ids_drawn_add [OF ok(3), of ?e w'] gen(5,6) by simp
  then have "ids_drawn ((add_entry ?e m)\<lparr>mg_flushed := b\<rparr>) w'" by (simp add: ids_drawn_def getEntries_def)
  moreover have "file_inv ((add_entry ?e m)\<lparr>mg_flushed := b\<rparr>) w'" using p(2) by (subst file_inv_cong) auto
  ultimately have "session_ok N ((add_entry ?e m)\<lparr>mg_flushed := b\<rparr>, w')"
    using inv p(3,4) ok(4) by (simp add: session_ok_def)
  moreover have "extends (m, w) ((add_entry ?e m)\<lparr>mg_flushed := b\<rparr>, w')" using p(6) by (simp add: extends_def)
  moreover have "mw_uuidCount w' \<le> mw_uuidCount w + 100" using p(5) gen(4) by simp
  ultimately show ?thesis using run by (intro exI [of _ ?e] exI [of _ b] exI [of _ w']) simp
qed

lemma leaf_in: "session_ok N (m, w) \<Longrightarrow> mg_leafId m = Some l \<Longrightarrow> l \<in> ids_of (getEntries m)"
  by (simp add: session_ok_def manager_inv_def)

lemma keeps_append_at_leaf [intro]:
  assumes "\<forall>t l. body \<noteq> LabelEntry t l"
  shows "keeps N 1 (append_at_leaf now body)"
proof (rule keepsI)
  fix m w r s' assume ok: "session_ok N (m, w)" "mw_uuidCount w + 100 * 1 \<le> N" and run: "append_at_leaf now body (m, w) = (r, s')"
  obtain e b w' where a: "append_new now mg_leafId (\<lambda>_. body) (m, w) = (Inr e, (push_manager_entry e m)\<lparr>mg_flushed := b\<rparr>, w')"
    "en_body e = body" "mw_uuidCount w' \<le> mw_uuidCount w + 100"
    "session_ok N ((add_entry e m)\<lparr>mg_flushed := b\<rparr>, w')" "extends (m, w) ((add_entry e m)\<lparr>mg_flushed := b\<rparr>, w')"
    using append_new_ok [of N m w mg_leafId now "\<lambda>_. body"] ok leaf_in by auto
  have "add_entry e m = push_manager_entry e m" using a(2) assms by (simp add: add_entry_push)
  with a run show "session_ok N s' \<and> extends (m, w) s' \<and> mw_uuidCount (snd s') \<le> mw_uuidCount w + 100 * 1"
    by (auto simp: append_at_leaf_def mbind_def mret_def)
qed

lemma keeps_appendLabelChange [intro]: "keeps N 1 (appendLabelChange now target label)"
proof (rule keepsI)
  fix m w r s' assume ok: "session_ok N (m, w)" "mw_uuidCount w + 100 * 1 \<le> N"
    and run: "appendLabelChange now target label (m, w) = (r, s')"
  let ?body = "LabelEntry target label"
  obtain e b w' where a: "append_new now mg_leafId (\<lambda>_. ?body) (m, w) = (Inr e, (push_manager_entry e m)\<lparr>mg_flushed := b\<rparr>, w')"
    "en_body e = ?body" "en_timestamp e = now" "mw_uuidCount w' \<le> mw_uuidCount w + 100"
    "session_ok N ((add_entry e m)\<lparr>mg_flushed := b\<rparr>, w')" "extends (m, w) ((add_entry e m)\<lparr>mg_flushed := b\<rparr>, w')"
    using append_new_ok [of N m w mg_leafId now "\<lambda>_. ?body"] ok leaf_in by auto
  have "(add_entry e m)\<lparr>mg_flushed := b\<rparr> = set_label target label now ((push_manager_entry e m)\<lparr>mg_flushed := b\<rparr>)"
    using a(2,3) by (simp add: add_entry_push set_label_def)
  with a run ok show "session_ok N s' \<and> extends (m, w) s' \<and> mw_uuidCount (snd s') \<le> mw_uuidCount w + 100 * 1"
    by (auto simp: appendLabelChange_def mbind_def mret_def mget_def mthrow_def mmodify_def split: if_splits)
qed

lemma keeps_branch_at [intro]: "keeps N c (branch_at i)"
proof (rule keepsI)
  fix m w r s' assume ok: "session_ok N (m, w)" and run: "branch_at i (m, w) = (r, s')"
  have "om_has (mg_byId m) i \<longleftrightarrow> i \<in> ids_of (getEntries m)" using ok by (simp add: session_ok_def manager_inv_has)
  with ok run show "session_ok N s' \<and> extends (m, w) s' \<and> mw_uuidCount (snd s') \<le> mw_uuidCount w + 100 * c"
    using session_ok_leaf [of N m w "Some i"]
    by (auto simp: branch_at_def mbind_def mget_def mthrow_def mmodify_def split: if_splits)
qed

lemma keeps_resetLeaf [intro]: "keeps N c resetLeaf"
  by (rule keepsI) (use session_ok_leaf [of _ _ _ None] in \<open>auto simp: resetLeaf_def mmodify_def\<close>)

lemma branchWithSummary_eq:
  "branchWithSummary now b summary details fromHook =
     mbind (case b of None \<Rightarrow> resetLeaf | Some i \<Rightarrow> branch_at i) (\<lambda>_. append_at_leaf now
       (BranchSummaryEntry \<lparr>bse_fromId = (case b of None \<Rightarrow> ''root'' | Some i \<Rightarrow> i), bse_summary = summary,
          bse_details = details, bse_fromHook = fromHook\<rparr>))"
  by (rule ext) (auto simp: branchWithSummary_def branch_at_def mbind_def mget_def mthrow_def mmodify_def resetLeaf_def split: option.split)

lemma keeps_branchWithSummary [intro]: "keeps N 1 (branchWithSummary now b summary details fromHook)"
  unfolding branchWithSummary_eq by (intro keeps_bind0 keeps_append_at_leaf) (auto split: option.split)

text \<open>Writing the file before there is an answer.\<close>

lemma keeps_ensureSessionFile [intro]: "keeps N c ensureSessionFile"
proof (rule keepsI)
  fix m w r s' assume ok: "session_ok N (m, w)" and run: "ensureSessionFile (m, w) = (r, s')"
  show "session_ok N s' \<and> extends (m, w) s' \<and> mw_uuidCount (snd s') \<le> mw_uuidCount w + 100 * c"
  proof (cases "mg_persist m \<and> \<not> mg_flushed m")
    case True
    with ok obtain f where f: "mg_sessionFile m = Some f" "f \<noteq> []" by (auto simp: session_ok_def file_inv_def)
    have rel: "reliable w" using ok by (simp add: session_ok_def)
    let ?w = "with_file f [] 1 w"
    obtain n where n: "write_lines f (mg_fileEntries m) (m, ?w) = (Inr (), m, with_file f (map Some (mg_fileEntries m)) n ?w)"
      using write_lines_reliable [of ?w f "[]" "mg_fileEntries m" m] rel by auto
    have "rewriteFile (m, w) = (Inr (), m, with_file f (map Some (mg_fileEntries m)) n ?w)"
      using True f n open_w_reliable [OF rel, of f m] by (simp add: rewriteFile_def mbind_def mget_def)
    with run True f have s': "s' = (m\<lparr>mg_flushed := True\<rparr>, with_file f (map Some (mg_fileEntries m)) n ?w)"
      by (auto simp: ensureSessionFile_def mbind_def mget_def mwhen_def set_flushed_def mmodify_def mret_def truthy_str_def)
    from ok f show ?thesis
      by (auto simp: s' session_ok_def extends_def file_inv_def ids_drawn_def getEntries_def drawn_def)
  next
    case False
    with run have "s' = (m, w)"
      by (auto simp: ensureSessionFile_def mbind_def mget_def mwhen_def mret_def split: if_splits)
    with ok show ?thesis by simp
  qed
qed

lemma keeps_run_op: "keeps N 1 (run_op op)"
  by (cases op; cases "snd op")
    (auto simp: mg_appendMessage_def mg_appendThinkingLevelChange_def mg_appendModelChange_def mg_appendCompaction_def
       mg_appendCustomEntry_def mg_appendCustomMessageEntry_def mg_appendSessionInfo_def intro!: keeps_discard
       keeps_append_at_leaf [unfolded One_nat_def] keeps_appendLabelChange [unfolded One_nat_def] keeps_branch_at keeps_resetLeaf
       keeps_branchWithSummary [unfolded One_nat_def] keeps_ensureSessionFile)

lemma run_ops_ok:
  "session_ok N s \<Longrightarrow> mw_uuidCount (snd s) + 100 * length ops \<le> N \<Longrightarrow>
     session_ok N (run_ops ops s) \<and> extends s (run_ops ops s) \<and>
     mw_uuidCount (snd (run_ops ops s)) \<le> mw_uuidCount (snd s) + 100 * length ops"
proof (induction ops arbitrary: s)
  case (Cons op ops)
  obtain r s1 where run: "run_op op s = (r, s1)" by (cases "run_op op s")
  have "session_ok N s1" "extends s s1" "mw_uuidCount (snd s1) \<le> mw_uuidCount (snd s) + 100 * 1"
    using keeps_run_op [of N op] Cons.prems run unfolding keeps_def by fastforce+
  with Cons.IH [of s1] Cons.prems(2) run show ?case using extends_trans by (auto simp: run_ops_def)
qed (simp add: run_ops_def)

section \<open>New sessions and reopening\<close>

lemma newSession_ok:
  assumes "newSession now optId parent (m, w) = (Inr r, m', w')" "reliable w" "uuid_supply (mw_uuids w) N"
    and "mg_persist m \<longrightarrow> mw_files w (getSessionFilePath (mg_sessionDir m) now (mg_sessionId m')) = None"
  shows "session_ok N (m', w')"
  using assms
  by (auto simp: newSession_def mop_simps assertValidSessionId_def createSessionId_def session_ok_def manager_inv_def index_ok_def
      buildIndex_def clear_index_def getEntries_def file_inv_def ids_drawn_def reliable_def getSessionFilePath_def
      split: option.splits if_splits)

lemma header_of_inv: "manager_inv m \<Longrightarrow> \<exists>h. header_of (mg_fileEntries m) = Some h \<and> hd (mg_fileEntries m) = HeaderLine h"
  by (auto simp: manager_inv_def header_of_def file_entry_of_def)

lemma load_of_inv:
  assumes "session_ok N (m, w)" "mg_persist m" "mg_flushed m" "mg_sessionFile m = Some f"
  shows "loadEntriesFromFile f w = mg_fileEntries m" "\<exists>ls. mw_files w f = Some ls"
proof -
  from assms obtain ls where ls: "mw_files w f = Some ls" "List.map_filter id ls = mg_fileEntries m"
    by (auto simp: session_ok_def file_inv_def)
  moreover obtain h where "mg_fileEntries m = HeaderLine h # map EntryLine (getEntries m)"
    using assms(1) by (auto simp: session_ok_def manager_inv_def)
  ultimately show "loadEntriesFromFile f w = mg_fileEntries m" "\<exists>ls. mw_files w f = Some ls"
    by (simp_all add: loadEntriesFromFile_def)
qed

lemma newSession_header:
  assumes "newSession now optId parent (m, w) = (Inr r, m', w')"
  shows "\<exists>h. mg_fileEntries m' = [HeaderLine h] \<and> mh_id h = mg_sessionId m' \<and> mh_version h = Some CURRENT_SESSION_VERSION"
    "mg_persist m' = mg_persist m" "mg_persist m \<Longrightarrow> mg_sessionFile m' = r"
    "mg_persist m \<Longrightarrow> r = Some (getSessionFilePath (mg_sessionDir m) now (mg_sessionId m'))" "mw_files w' = mw_files w"
    "mw_uuidCount w' = mw_uuidCount w"
  using assms
  by (auto simp: newSession_def mop_simps assertValidSessionId_def createSessionId_def clear_index_def split: option.splits if_splits)

text \<open>A session from its creation through any sequence of operations.\<close>

lemma session_run:
  assumes "newSession now optId parent (m0, w0) = (Inr r, m1, w1)" "reliable w0" "uuid_supply (mw_uuids w0) N"
    and "\<forall>f. r = Some f \<longrightarrow> mw_files w0 f = None" "mw_uuidCount w0 + 100 * length ops \<le> N" "run_ops ops (m1, w1) = (m, w)"
  shows "session_ok N (m, w)" "extends (m1, w1) (m, w)"
    and "mg_persist m0 \<Longrightarrow> mg_sessionFile m = r"
    and "\<exists>h. header_of (mg_fileEntries m) = Some h \<and> mh_id h = mg_sessionId m \<and> mh_version h = Some CURRENT_SESSION_VERSION"
proof -
  have "session_ok N (m1, w1)"
    using newSession_ok [OF assms(1-3)] newSession_header [OF assms(1)] assms(4) by blast
  then have run: "session_ok N (m, w) \<and> extends (m1, w1) (m, w)" using run_ops_ok [of N "(m1, w1)" ops] newSession_header(6) [OF assms(1)] assms(5,6) by simp
  then show "session_ok N (m, w)" "extends (m1, w1) (m, w)" by blast+
  show "mg_persist m0 \<Longrightarrow> mg_sessionFile m = r"
    using run newSession_header(3) [OF assms(1)] by (simp add: extends_def)
  obtain h where h: "mg_fileEntries m1 = [HeaderLine h]" "mh_id h = mg_sessionId m1" "mh_version h = Some CURRENT_SESSION_VERSION"
    using newSession_header(1) [OF assms(1)] by blast
  then obtain ls where "mg_fileEntries m = HeaderLine h # ls" "mg_sessionId m = mg_sessionId m1"
    using run by (auto simp: extends_def prefix_def)
  with h show "\<exists>h. header_of (mg_fileEntries m) = Some h \<and> mh_id h = mg_sessionId m \<and> mh_version h = Some CURRENT_SESSION_VERSION"
    by (simp add: header_of_def file_entry_of_def)
qed

lemma run_ops_extends:
  assumes "newSession now optId parent (m0, w0) = (Inr r, m1, w1)" "reliable w0" "uuid_supply (mw_uuids w0) N"
    and "\<forall>f. r = Some f \<longrightarrow> mw_files w0 f = None" "mw_uuidCount w0 + 100 * length (ops @ later) \<le> N"
    and "run_ops ops (m1, w1) = (m, w)" "run_ops later (m, w) = (m', w')"
  shows "extends (m, w) (m', w')"
proof -
  have "session_ok N (m1, w1)"
    using newSession_ok [OF assms(1-3)] newSession_header [OF assms(1)] assms(4) by blast
  moreover have "mw_uuidCount (snd (m1, w1)) + 100 * length ops \<le> N"
    using newSession_header(6) [OF assms(1)] assms(5) by simp
  ultimately have "session_ok N (m, w) \<and> mw_uuidCount w \<le> mw_uuidCount w1 + 100 * length ops"
    using run_ops_ok [of N "(m1, w1)" ops] assms(6) by simp
  then show ?thesis
    using run_ops_ok [of N "(m, w)" later] newSession_header(6) [OF assms(1)] assms(5,7) by simp
qed

lemma setSessionFile_existing:
  assumes "mw_files w f = Some ls" "loadEntriesFromFile f w = es" "es \<noteq> []" "header_of es = Some h"
    "migrateToCurrentVersion upgrade es = None"
  shows "setSessionFile upgrade now f (m, w) =
    (Inr (), (buildIndex (m\<lparr>mg_sessionFile := Some f, mg_fileEntries := es, mg_sessionId := mh_id h\<rparr>))\<lparr>mg_flushed := True\<rparr>, w)"
  using assms by (simp add: setSessionFile_def mop_simps set_flushed_def Let_def)

text \<open>Opening the file of a session that has been written.\<close>

lemma setSessionFile_reopens:
  assumes ok: "session_ok N (m, w)" "mg_persist m" "mg_flushed m" "mg_sessionFile m = Some f"
    and h: "header_of (mg_fileEntries m) = Some h" "mh_id h = mg_sessionId m" "mh_version h = Some CURRENT_SESSION_VERSION"
  shows "\<exists>m'. setSessionFile upgrade now f (other, w) = (Inr (), m', w) \<and> mg_sessionFile m' = Some f \<and> mg_flushed m' \<and>
    mg_fileEntries m' = mg_fileEntries m \<and> mg_byId m' = mg_byId m \<and> same_labels m' m \<and> mg_sessionId m' = mg_sessionId m \<and>
    mg_leafId m' = map_option en_id (last_opt (getEntries m))"
proof -
  let ?o = "other\<lparr>mg_sessionFile := Some f, mg_fileEntries := mg_fileEntries m, mg_sessionId := mg_sessionId m\<rparr>"
  let ?m = "(buildIndex ?o)\<lparr>mg_flushed := True\<rparr>"
  obtain ls where ls: "mw_files w f = Some ls" using load_of_inv [OF ok] by blast
  have inv: "manager_inv m" using ok(1) by (simp add: session_ok_def)
  then have ne: "mg_fileEntries m \<noteq> []" and idx: "mg_byId m = index_entries (getEntries m)" "same_labels m (buildIndex m)"
    by (auto simp: manager_inv_def index_ok_iff)
  have "migrateToCurrentVersion upgrade (mg_fileEntries m) = None"
    using h by (simp add: migrateToCurrentVersion_def header_version_def nullish_def)
  then have run: "setSessionFile upgrade now f (other, w) = (Inr (), ?m, w)"
    using setSessionFile_existing [OF ls load_of_inv(1) [OF ok] ne h(1)] h(2) by simp
  have "mg_sessionFile ?m = Some f" "mg_sessionId ?m = mg_sessionId m"
    by (simp_all add: buildIndex_def clear_index_def fold_index_other)
  moreover have "mg_byId ?m = mg_byId m" by (simp add: idx buildIndex_byId getEntries_def)
  moreover have "same_labels ?m m"
  proof -
    have "same_labels (buildIndex ?o) (buildIndex m)" by (rule buildIndex_labels) simp
    with idx(2) show ?thesis by (simp add: same_labels_def)
  qed
  moreover have "mg_leafId ?m = map_option en_id (last_opt (getEntries m))"
    by (simp add: buildIndex_def fold_index_leaf clear_index_def getEntries_def last_opt_def)
  ultimately show ?thesis using run by (intro exI [of _ ?m]) (simp add: buildIndex_def clear_index_def)
qed

section \<open>A file that was created and not written\<close>

text \<open>
  The file exists, the session counts as not written: from now on \<open>openSync(file, "wx")\<close> fails, whatever
  the file system does.
\<close>

definition blocked :: "string \<Rightarrow> manager \<times> manager_world \<Rightarrow> bool" where
  "blocked f s = (case s of (m, w) \<Rightarrow> mg_persist m \<and> mg_sessionFile m = Some f \<and> f \<noteq> [] \<and> \<not> mg_flushed m \<and>
     has_assistant (mg_fileEntries m) \<and> mw_files w f = Some [])"

lemma persist_blocked:
  assumes "blocked f (m, w)"
  shows "\<exists>w'. persist_entry e (push_manager_entry e m, w) = (Inl disk_error, push_manager_entry e m, w') \<and>
    blocked f (push_manager_entry e m, w')"
proof -
  have b: "mg_persist m" "mg_sessionFile m = Some f" "f \<noteq> []" "\<not> mg_flushed m" "has_assistant (mg_fileEntries m)" "mw_files w f = Some []"
    using assms by (auto simp: blocked_def)
  let ?w = "w\<lparr>mw_calls := Suc (mw_calls w)\<rparr>"
  have "open_wx f (m', w) = (Inl disk_error, m', ?w)" for m'
    using b(6) by (simp add: open_wx_def file_call_def Let_def)
  with b show ?thesis
    by (intro exI [of _ ?w]) (simp add: persist_entry_def mbind_def mget_def blocked_def)
qed

lemma generateId_result: "\<exists>i n. generateId P (m, w) = (Inr i, m, w\<lparr>mw_uuidCount := n\<rparr>)"
proof -
  have "\<exists>i n. generate_loop k P (m, w) = (Inr i, m, w\<lparr>mw_uuidCount := n\<rparr>)" for k
  proof (induction k arbitrary: w)
    case 0
    show ?case by (auto simp: take_uuid_def)
  next
    case (Suc k)
    obtain i n where "generate_loop k P (m, w\<lparr>mw_uuidCount := Suc (mw_uuidCount w)\<rparr>) = (Inr i, m, w\<lparr>mw_uuidCount := n\<rparr>)"
      using Suc [of "w\<lparr>mw_uuidCount := Suc (mw_uuidCount w)\<rparr>"] by auto
    then show ?case by (auto simp: mbind_def take_uuid_def mret_def)
  qed
  then show ?thesis by (simp add: generateId_def)
qed

lemma append_new_blocked:
  assumes "blocked f s"
  shows "\<exists>s'. append_new now parent body s = (Inl disk_error, s') \<and> blocked f s'"
proof -
  obtain m w where s: "s = (m, w)" by (cases s)
  obtain i n where g: "generateId (om_has (mg_byId m)) (m, w) = (Inr i, m, w\<lparr>mw_uuidCount := n\<rparr>)" using generateId_result by blast
  let ?e = "\<lparr>en_id = i, en_parentId = parent m, en_timestamp = now, en_body = body i\<rparr>"
  have "blocked f (m, w\<lparr>mw_uuidCount := n\<rparr>)" using assms by (simp add: blocked_def s)
  with persist_blocked [of f m "w\<lparr>mw_uuidCount := n\<rparr>" ?e] g show ?thesis
    by (auto simp: append_new_def s mbind_def mget_def appendEntry_def mmodify_def Let_def)
qed

lemma append_at_leaf_blocked: "blocked f s \<Longrightarrow> \<exists>s'. append_at_leaf now body s = (Inl disk_error, s') \<and> blocked f s'"
  using append_new_blocked [of f s now mg_leafId "\<lambda>_. body"] by (auto simp: append_at_leaf_def mbind_def)

definition stays :: "string \<Rightarrow> 'a mop \<Rightarrow> bool" where
  "stays f g \<longleftrightarrow> (\<forall>s. blocked f s \<longrightarrow> blocked f (snd (g s)))"

lemma stays_bind: "stays f g \<Longrightarrow> (\<And>x. stays f (h x)) \<Longrightarrow> stays f (mbind g h)"
  unfolding stays_def mbind_def by (auto split: prod.split sum.split) (metis snd_conv)+

lemma stays_basic:
  "stays f (mret x)" "stays f (mthrow e)" "stays f (mget h)" "stays f (mmodify (\<lambda>m. m\<lparr>mg_leafId := l\<rparr>))"
  "stays f (mmodify (set_label t lab now))"
  by (auto simp: stays_def blocked_def mop_simps set_label_def)

lemma stays_append: "stays f (append_new now parent body)" "stays f (append_at_leaf now b)"
  unfolding stays_def using append_new_blocked [of f] append_at_leaf_blocked [of f] by (metis snd_conv)+

lemma stays_run_op: "op \<noteq> OpEnsureFile \<Longrightarrow> stays f (run_op (now, op))"
  by (cases op) (auto simp: discard_def mg_appendMessage_def mg_appendThinkingLevelChange_def mg_appendModelChange_def
     mg_appendCompaction_def mg_appendCustomEntry_def mg_appendCustomMessageEntry_def mg_appendSessionInfo_def
     appendLabelChange_def branchWithSummary_eq branch_at_def resetLeaf_def intro!: stays_bind stays_basic stays_append
     split: option.split)

lemma run_ops_blocked:
  "blocked f s \<Longrightarrow> \<forall>op \<in> set ops. snd op \<noteq> OpEnsureFile \<Longrightarrow> blocked f (run_ops ops s)"
proof (induction ops arbitrary: s)
  case (Cons op ops)
  then have "blocked f (snd (run_op op s))" using stays_run_op [of "snd op" f "fst op"] unfolding stays_def by (metis list.set_intros(1) prod.collapse)
  with Cons show ?case by (simp add: run_ops_def)
qed (simp add: run_ops_def)

text \<open>How it comes to this: the first answer arrives and its file can be created and not written.\<close>

lemma first_answer_blocked:
  assumes "mg_persist m" "mg_sessionFile m = Some f" "f \<noteq> []" "\<not> mg_flushed m" "mw_files w f = None"
    "\<not> mw_fails w (mw_calls w)" "mw_fails w (Suc (mw_calls w))" "mg_fileEntries m \<noteq> []"
  shows "\<exists>s'. mg_appendMessage now (Assistant am) (m, w) = (Inl disk_error, s') \<and> blocked f s'"
proof -
  obtain i n where g: "generateId (om_has (mg_byId m)) (m, w) = (Inr i, m, w\<lparr>mw_uuidCount := n\<rparr>)" using generateId_result by blast
  let ?e = "\<lparr>en_id = i, en_parentId = mg_leafId m, en_timestamp = now, en_body = MessageEntry (Assistant am)\<rparr>"
  obtain l ls where ls: "mg_fileEntries m = l # ls" using assms(8) by (cases "mg_fileEntries m") auto
  have "has_assistant (mg_fileEntries m @ [EntryLine ?e])" by (simp add: is_assistant_entry_def)
  with g assms ls show ?thesis
    by (simp add: mg_appendMessage_def append_at_leaf_def append_new_def mbind_def mget_def appendEntry_def mmodify_def Let_def
        persist_entry_def open_wx_def append_line_def file_call_def blocked_def push_manager_entry_def)
qed

end
