(* ===== verification/Session_Branching.thy ===== *)
theory Session_Branching
  imports Session_Manager_Facts
begin

text \<open>
  A new session from a branch of another one (\<open>createBranchedSession\<close> of \<open>session-manager.ts\<close>): it has
  the entries of the branch without their labels, chained again, and then its labels. It has the
  context of the branch, unless a compaction keeps messages from a label on.
\<close>

section \<open>Chains of entries\<close>

definition is_label :: "session_entry \<Rightarrow> bool" where
  "is_label e \<longleftrightarrow> (case en_body e of LabelEntry _ _ \<Rightarrow> True | _ \<Rightarrow> False)"

fun chained :: "string option \<Rightarrow> session_entry list \<Rightarrow> bool" where
  "chained parent [] = True"
| "chained parent (e # es) = (en_parentId e = parent \<and> chained (Some (en_id e)) es)"

lemma chained_append:
  "chained parent (xs @ ys) \<longleftrightarrow> chained parent xs \<and> chained (if xs = [] then parent else Some (en_id (last xs))) ys"
  by (induction parent xs rule: chained.induct) auto

lemma chained_linked: "chained parent es \<Longrightarrow> linked es"
  by (induction es arbitrary: parent rule: linked.induct) auto

lemma chained_is_path: "chained None es \<Longrightarrow> es \<noteq> [] \<Longrightarrow> is_path es"
  by (cases es) (auto simp: is_path_def is_root_def intro: chained_linked)

text \<open>A chain whose identifiers are new and not empty is in order.\<close>

lemma chained_well_ordered:
  "chained parent es \<Longrightarrow> \<forall>p. parent = Some p \<longrightarrow> p \<in> ids \<Longrightarrow> distinct (map en_id es) \<Longrightarrow> ids_of es \<inter> ids = {} \<Longrightarrow>
     [] \<notin> ids_of es \<Longrightarrow> well_ordered ids es"
proof (induction es arbitrary: parent ids)
  case (Cons e es)
  have "well_ordered (insert (en_id e) ids) es"
    using Cons.prems by (intro Cons.IH [of "Some (en_id e)"]) auto
  with Cons.prems show ?case by (auto simp: parent_in_def split: option.split)
qed simp

text \<open>The walk from the last entry of a path gives the path.\<close>

lemma walk_up_path:
  assumes "is_path es" "\<forall>e \<in> set es. om_get index (en_id e) = Some e \<and> en_id e \<noteq> []"
  shows "walk_up index (Some (last es)) acc = Some (es @ acc)"
  using assms
proof (induction es arbitrary: acc rule: rev_induct)
  case (snoc x xs)
  show ?case
  proof (cases xs rule: rev_cases)
    case Nil
    with snoc.prems show ?thesis
      by (auto simp: walk_up.simps [of _ "Some x"] walk_up.simps [of _ None] is_path_def is_root_def split: option.split)
  next
    case (snoc ys y)
    with snoc.prems have x: "en_parentId x = Some (en_id y)" "om_get index (en_id y) = Some y" "en_id y \<noteq> []"
      and path: "is_path xs"
      by (auto simp: is_path_def linked_snoc hd_append split: if_splits)
    have "walk_up index (Some (last xs)) (x # acc) = Some (xs @ x # acc)"
      using snoc.IH [OF path] snoc.prems by simp
    with x snoc show ?thesis by (simp add: walk_up.simps [of _ "Some x"])
  qed
qed (simp add: is_path_def)

lemma well_ordered_nonempty: "well_ordered ids es \<Longrightarrow> [] \<notin> ids_of es"
  by (induction ids es rule: well_ordered.induct) auto

lemma walk_up_well_ordered:
  assumes "well_ordered {} es" "e \<in> set es"
  shows "\<exists>path. walk_up (index_entries es) (Some e) [] = Some path \<and> is_path path \<and> last path = e \<and>
    set path \<subseteq> set es \<and> well_ordered {} path"
proof -
  obtain path where p: "is_path path" "last path = e" "set path \<subseteq> set es" "well_ordered {} path"
    using path_exists [OF assms] by blast
  have "om_get (index_entries es) (en_id x) = Some x \<and> en_id x \<noteq> []" if "x \<in> set path" for x
    using that p(3) well_ordered_distinct [OF assms(1)] well_ordered_nonempty [OF assms(1)]
    by (force intro: get_index_distinct)
  with walk_up_path [OF p(1), of _ "[]"] p show ?thesis by auto
qed

section \<open>The context does not depend on parents and labels\<close>

definition unlinked :: "session_entry \<Rightarrow> session_entry" where
  "unlinked e = e\<lparr>en_parentId := None\<rparr>"

lemma unlinked_simps [simp]:
  "en_id (unlinked e) = en_id e" "en_body (unlinked e) = en_body e" "en_timestamp (unlinked e) = en_timestamp e"
  "is_compaction (unlinked e) = is_compaction e" "firstKeptEntryId (unlinked e) = firstKeptEntryId e"
  "is_label (unlinked e) = is_label e"
  "ca_sessionEntryToContextMessages (unlinked e) = ca_sessionEntryToContextMessages e" "settings_step (unlinked e) = settings_step e"
  by (simp_all add: unlinked_def is_compaction_def firstKeptEntryId_def is_label_def ca_sessionEntryToContextMessages_def
      settings_step_def fun_eq_iff split: entry_body.split)

definition path_messages :: "session_entry list \<Rightarrow> agent_message list" where
  "path_messages es = concat (map ca_sessionEntryToContextMessages (context_of_path es))"

lemma label_messages: "is_label e \<Longrightarrow> ca_sessionEntryToContextMessages e = []"
  by (auto simp: is_label_def ca_sessionEntryToContextMessages_def split: entry_body.splits)

lemma label_settings: "is_label e \<Longrightarrow> settings_step e st = st"
  by (auto simp: is_label_def settings_step_def split: entry_body.splits)

lemma label_no_compaction: "is_label e \<Longrightarrow> \<not> is_compaction e"
  by (auto simp: is_label_def is_compaction_def split: entry_body.splits)

lemma messages_without_labels:
  "concat (map ca_sessionEntryToContextMessages (filter (\<lambda>e. \<not> is_label e) es)) = concat (map ca_sessionEntryToContextMessages es)"
  by (induction es) (auto simp: label_messages)

lemma settings_without_labels: "getSessionContextSettings (filter (\<lambda>e. \<not> is_label e) es) = getSessionContextSettings es"
proof -
  have "fold settings_step (filter (\<lambda>e. \<not> is_label e) es) st = fold settings_step es st" for st
    by (induction es arbitrary: st) (auto simp: label_settings)
  then show ?thesis by (simp add: getSessionContextSettings_def)
qed

text \<open>The two cases of the context of a path, for any list without repeated identifiers.\<close>

lemma path_messages_plain: "\<forall>e \<in> set es. \<not> is_compaction e \<Longrightarrow> path_messages es = concat (map ca_sessionEntryToContextMessages es)"
  by (simp add: path_messages_def context_of_path_none)

lemma path_messages_compacted:
  "is_compaction c \<Longrightarrow> \<forall>e \<in> set post. \<not> is_compaction e \<Longrightarrow> en_id c \<notin> ids_of pre \<Longrightarrow>
     path_messages (pre @ c # post) = ca_sessionEntryToContextMessages c @
       concat (map ca_sessionEntryToContextMessages (dropWhile (\<lambda>e. en_id e \<noteq> firstKeptEntryId c) pre)) @
       concat (map ca_sessionEntryToContextMessages post)"
  by (subst path_messages_def, subst context_of_path_last) (auto simp: image_iff)

lemma path_messages_unlinked:
  assumes "map unlinked es = map unlinked es'" "distinct (map en_id es)"
  shows "path_messages es = path_messages es'"
proof -
  have messages: "concat (map ca_sessionEntryToContextMessages xs) = concat (map ca_sessionEntryToContextMessages (map unlinked xs))" for xs
    by (simp add: comp_def)
  have len: "path_messages (map unlinked xs) = path_messages xs" if "distinct (map en_id xs)" for xs
  proof (cases "\<exists>e \<in> set xs. is_compaction e")
    case True
    then obtain pre c post where xs: "xs = pre @ c # post" "is_compaction c" "\<forall>e \<in> set post. \<not> is_compaction e"
      using split_last_compaction by blast
    moreover have "en_id c \<notin> ids_of pre" using that xs(1) by auto
    moreover have "en_id (unlinked c) \<notin> ids_of (map unlinked pre)" using that xs(1) by (auto simp: image_iff)
    ultimately show ?thesis
      using path_messages_compacted [of "unlinked c" "map unlinked post" "map unlinked pre"]
      by (simp add: path_messages_compacted dropWhile_map comp_def)
  qed (simp add: path_messages_plain comp_def)
  have "map en_id es' = map en_id es"
    using arg_cong [OF assms(1), of "map en_id"] by (simp add: comp_def)
  then show ?thesis using len [of es] len [of es'] assms by simp
qed

lemma settings_unlinked: "map unlinked es = map unlinked es' \<Longrightarrow> getSessionContextSettings es = getSessionContextSettings es'"
proof -
  have "fold settings_step (map unlinked xs) st = fold settings_step xs st" for xs st
    by (induction xs arbitrary: st) simp_all
  then show "map unlinked es = map unlinked es' \<Longrightarrow> getSessionContextSettings es = getSessionContextSettings es'"
    by (metis getSessionContextSettings_def)
qed

text \<open>Labels at the end and labels inside add nothing, unless a compaction keeps entries from a label on.\<close>

definition keeps_from_label :: "session_entry list \<Rightarrow> bool" where
  "keeps_from_label path = list_ex (\<lambda>c. is_compaction c \<and> list_ex (\<lambda>e. is_label e \<and> en_id e = firstKeptEntryId c) path) path"

lemma dropWhile_without_labels:
  "\<forall>e \<in> set es. is_label e \<longrightarrow> en_id e \<noteq> k \<Longrightarrow>
     dropWhile (\<lambda>e. en_id e \<noteq> k) (filter (\<lambda>e. \<not> is_label e) es) = filter (\<lambda>e. \<not> is_label e) (dropWhile (\<lambda>e. en_id e \<noteq> k) es)"
  by (induction es) auto

lemma path_messages_without_labels:
  assumes "distinct (map en_id es)" "\<not> keeps_from_label es" "list_all is_label ls"
  shows "path_messages (filter (\<lambda>e. \<not> is_label e) es @ ls) = path_messages es"
proof -
  have ls: "concat (map ca_sessionEntryToContextMessages ls) = []" "\<forall>e \<in> set ls. \<not> is_compaction e"
    using assms(3) by (auto simp: list_all_iff label_messages label_no_compaction)
  show ?thesis
  proof (cases "\<exists>e \<in> set es. is_compaction e")
    case True
    then obtain pre c post where es: "es = pre @ c # post" "is_compaction c" "\<forall>e \<in> set post. \<not> is_compaction e"
      using split_last_compaction by blast
    have c: "en_id c \<notin> ids_of pre" "\<not> is_label c" using assms(1) es label_no_compaction by auto
    have "\<forall>e \<in> set pre. is_label e \<longrightarrow> en_id e \<noteq> firstKeptEntryId c"
      using assms(2) es(1,2) by (auto simp: keeps_from_label_def list_ex_iff)
    note drop = dropWhile_without_labels [OF this]
    have "path_messages (filter (\<lambda>e. \<not> is_label e) pre @ c # (filter (\<lambda>e. \<not> is_label e) post @ ls)) = path_messages es"
      using es c ls by (subst path_messages_compacted) (auto simp: path_messages_compacted drop messages_without_labels)
    then show ?thesis using es c by simp
  next
    case False
    then have "\<forall>e \<in> set (filter (\<lambda>e. \<not> is_label e) es @ ls). \<not> is_compaction e" using ls by auto
    then show ?thesis using False ls by (simp add: path_messages_plain messages_without_labels)
  qed
qed

section \<open>The path chained again and its labels\<close>

lemma rechain_chained: "chained parent (rechain parent es)"
  by (induction parent es rule: rechain.induct) (auto split: entry_body.splits)

lemma rechain_unlinked: "map unlinked (rechain parent es) = map unlinked (filter (\<lambda>e. \<not> is_label e) es)"
  by (induction parent es rule: rechain.induct) (auto simp: is_label_def unlinked_def split: entry_body.splits)

lemma rechain_ids: "map en_id (rechain parent es) = map en_id (filter (\<lambda>e. \<not> is_label e) es)"
  using arg_cong [OF rechain_unlinked, of "map en_id"] by (simp add: comp_def)

text \<open>The labels: new identifiers, a chain below the last entry.\<close>

lemma label_entries_ok:
  assumes "uuid_supply (mw_uuids w) N" "ids \<subseteq> drawn w" "mw_uuidCount w + 100 * length ls \<le> N"
  shows "\<exists>es n. label_entries ids parent ls (m, w) = (Inr es, m, w\<lparr>mw_uuidCount := n\<rparr>) \<and>
    chained parent es \<and> list_all is_label es \<and> distinct (map en_id es) \<and> ids_of es \<inter> ids = {} \<and> [] \<notin> ids_of es \<and>
    ids_of es \<subseteq> drawn (w\<lparr>mw_uuidCount := n\<rparr>) \<and> drawn w \<subseteq> drawn (w\<lparr>mw_uuidCount := n\<rparr>)"
  using assms
proof (induction ls arbitrary: ids parent w)
  case Nil
  show ?case by (intro exI [of _ "[]"] exI [of _ "mw_uuidCount w"]) (simp add: mret_def)
next
  case (Cons l ls)
  obtain target label timestamp where l: "l = (target, label, timestamp)" by (cases l)
  obtain i n where gen: "generateId (\<lambda>i. i \<in> ids) (m, w) = (Inr i, m, w\<lparr>mw_uuidCount := n\<rparr>)" "i \<notin> ids" "i \<noteq> []"
    "n \<le> mw_uuidCount w + 100" "i \<in> drawn (w\<lparr>mw_uuidCount := n\<rparr>)" "drawn w \<subseteq> drawn (w\<lparr>mw_uuidCount := n\<rparr>)"
    using generateId_fresh [OF Cons.prems(1), of "\<lambda>i. i \<in> ids" m] Cons.prems(2,3) by auto
  let ?w = "w\<lparr>mw_uuidCount := n\<rparr>"
  let ?e = "\<lparr>en_id = i, en_parentId = parent, en_timestamp = timestamp, en_body = LabelEntry target (Some label)\<rparr>"
  have ok: "uuid_supply (mw_uuids ?w) N" "insert i ids \<subseteq> drawn ?w" "mw_uuidCount ?w + 100 * length ls \<le> N"
    using Cons.prems gen(4-6) by auto
  obtain es n' where es: "label_entries (insert i ids) (Some i) ls (m, ?w) = (Inr es, m, ?w\<lparr>mw_uuidCount := n'\<rparr>)"
    "chained (Some i) es" "list_all is_label es" "distinct (map en_id es)" "ids_of es \<inter> insert i ids = {}" "[] \<notin> ids_of es"
    "ids_of es \<subseteq> drawn (?w\<lparr>mw_uuidCount := n'\<rparr>)" "drawn ?w \<subseteq> drawn (?w\<lparr>mw_uuidCount := n'\<rparr>)"
    using Cons.IH [OF ok, of "Some i"] by blast
  have label: "is_label ?e" by (simp add: is_label_def)
  have "label_entries ids parent (l # ls) (m, w) = (Inr (?e # es), m, w\<lparr>mw_uuidCount := n'\<rparr>)"
    using gen(1) es(1) by (simp add: l mbind_def mret_def)
  then show ?case
    using es gen by (intro exI [of _ "?e # es"] exI [of _ n']) (auto simp: label image_iff)
qed

section \<open>The new session\<close>

text \<open>A session that is rebuilt from a header and a chain of entries.\<close>

lemma rebuilt_inv:
  assumes "mg_fileEntries m = HeaderLine h # map EntryLine es" "well_ordered {} es"
  shows "manager_inv (buildIndex m)" "getEntries (buildIndex m) = es"
    "mg_leafId (buildIndex m) = map_option en_id (last_opt es)" "mg_byId (buildIndex m) = index_entries es"
proof -
  have entries: "mg_fileEntries (buildIndex m) = mg_fileEntries m" by (simp add: buildIndex_def clear_index_def)
  then show get: "getEntries (buildIndex m) = es" by (simp add: getEntries_def assms(1))
  show leaf: "mg_leafId (buildIndex m) = map_option en_id (last_opt es)"
    by (simp add: buildIndex_def fold_index_leaf clear_index_def last_opt_def assms(1))
  show byId: "mg_byId (buildIndex m) = index_entries es"
    by (simp add: buildIndex_byId getEntries_def assms(1))
  have "same_labels (buildIndex (buildIndex m)) (buildIndex m)" by (rule buildIndex_labels [OF entries])
  then show "manager_inv (buildIndex m)"
    using assms get leaf byId entries
    by (auto simp: manager_inv_def index_ok_iff last_opt_def same_labels_sym split: if_splits)
qed

text \<open>Its context is that of its only path.\<close>

lemma context_of_chain:
  assumes "well_ordered {} es" "chained None es" "getEntries m = es" "mg_leafId m = map_option en_id (last_opt es)"
    "mg_byId m = index_entries es"
  shows "mg_buildSessionContext m = Some \<lparr>mc_messages = path_messages es, mc_thinkingLevel = fst (getSessionContextSettings es),
    mc_model = snd (getSessionContextSettings es)\<rparr>"
proof -
  have "buildSessionPath es (leaf_argument m) (Some (mg_byId m)) = Some es"
  proof (cases "es = []")
    case True
    then show ?thesis by (simp add: leaf_argument_def assms(4) buildSessionPath_def)
  next
    case False
    have get: "\<forall>x \<in> set es. om_get (index_entries es) (en_id x) = Some x \<and> en_id x \<noteq> []"
      using well_ordered_distinct [OF assms(1)] well_ordered_nonempty [OF assms(1)]
      by (force intro: get_index_distinct)
    with walk_up_path [OF chained_is_path [OF assms(2) False], of "index_entries es" "[]"] False show ?thesis
      by (simp add: leaf_argument_def assms(4,5) buildSessionPath_def buildEntryIndex_def last_opt_def nullish_opt_def)
  qed
  then show ?thesis
    using assms(3)
    by (simp add: mg_buildSessionContext_def ca_buildSessionContext_def ca_buildContextEntries_def path_messages_def split: prod.split)
qed

definition new_branch_file :: "string \<Rightarrow> manager \<times> manager_world \<Rightarrow> string" where
  "new_branch_file now s = (case s of (m, w) \<Rightarrow> getSessionFilePath (mg_sessionDir m) now (mw_sessionIds w (mw_sessionIdCount w)))"

lemma branch_off_ok:
  assumes "session_ok N (m, w)" "well_ordered {} path" "ids_of path \<subseteq> ids_of (getEntries m)"
    "mw_uuidCount w + 100 * length (mg_labelsById m) \<le> N"
    "mg_persist m \<longrightarrow> mw_files w (new_branch_file now (m, w)) = None"
  shows "\<exists>r m' w' ls. branch_off now path (m, w) = (Inr r, m', w') \<and> session_ok N (m', w') \<and> list_all is_label ls \<and>
    getEntries m' = rechain None path @ ls \<and>
    mg_buildSessionContext m' = Some \<lparr>mc_messages = path_messages (rechain None path @ ls),
      mc_thinkingLevel = fst (getSessionContextSettings (rechain None path @ ls)),
      mc_model = snd (getSessionContextSettings (rechain None path @ ls))\<rparr>"
proof -
  let ?kept = "rechain None path" and ?w = "w\<lparr>mw_sessionIdCount := Suc (mw_sessionIdCount w)\<rparr>"
  let ?ids = "en_id ` set ?kept" and ?id = "mw_sessionIds w (mw_sessionIdCount w)" and ?f = "new_branch_file now (m, w)"
  have ok: "uuid_supply (mw_uuids w) N" "reliable w" "ids_of (getEntries m) \<subseteq> drawn w"
    using assms(1) by (auto simp: session_ok_def ids_drawn_def)
  have kept_ids: "?ids = en_id ` set (filter (\<lambda>e. \<not> is_label e) path)"
    using arg_cong [OF rechain_ids, of set] by simp
  have sub: "?ids \<subseteq> drawn w" using assms(3) ok(3) kept_ids by auto
  have dist: "distinct (map en_id ?kept)" "[] \<notin> ?ids"
    using well_ordered_distinct [OF assms(2)] well_ordered_nonempty [OF assms(2)] kept_ids
    by (auto simp: rechain_ids intro: distinct_map_filter)
  have sub': "?ids \<subseteq> drawn ?w" using sub by (simp add: drawn_def)
  have "length (labels_to_write m ?ids) \<le> length (mg_labelsById m)" by (simp add: labels_to_write_def)
  then have room: "mw_uuidCount ?w + 100 * length (labels_to_write m ?ids) \<le> N" using assms(4) by simp
  obtain ls n where ls: "label_entries ?ids (last_id ?kept) (labels_to_write m ?ids) (m, ?w) = (Inr ls, m, ?w\<lparr>mw_uuidCount := n\<rparr>)"
    "chained (last_id ?kept) ls" "list_all is_label ls" "distinct (map en_id ls)" "ids_of ls \<inter> ?ids = {}" "[] \<notin> ids_of ls"
    "ids_of ls \<subseteq> drawn (?w\<lparr>mw_uuidCount := n\<rparr>)" "drawn ?w \<subseteq> drawn (?w\<lparr>mw_uuidCount := n\<rparr>)"
    using label_entries_ok [OF _ sub' room, of "last_id ?kept" m] ok(1) by auto
  let ?w1 = "?w\<lparr>mw_uuidCount := n\<rparr>"
  let ?es = "?kept @ ls"
  have chain: "chained None ?es"
  proof -
    have "last_id ?kept = (if ?kept = [] then None else Some (en_id (last ?kept)))"
    proof (cases "?kept = []")
      case False
      then have "en_id (last ?kept) \<noteq> []" using dist(2) last_in_set [of ?kept] by (metis image_eqI)
      then show ?thesis using False by (simp add: last_id_def last_opt_def)
    qed (simp add: last_id_def)
    with ls(2) show ?thesis by (simp add: chained_append rechain_chained split: if_splits)
  qed
  have wo: "well_ordered {} ?es"
    by (rule chained_well_ordered [OF chain]) (use dist ls in auto)
  have drawn: "ids_of ?es \<subseteq> drawn ?w1" using sub' ls(7,8) by auto
  let ?h = "\<lparr>mh_version = Some CURRENT_SESSION_VERSION, mh_id = ?id, mh_timestamp = now, mh_cwd = mg_cwd m,
      mh_parentSession = (if mg_persist m then mg_sessionFile m else None)\<rparr>"
  let ?lines = "HeaderLine ?h # map EntryLine ?es"
  have lines: "rechain None path = ?kept" by simp
  have run: "branch_off now path (m, w) = (if mg_persist m then
       mbind (mmodify (\<lambda>m. buildIndex (m\<lparr>mg_fileEntries := ?lines, mg_sessionId := ?id, mg_sessionFile := Some ?f\<rparr>))) (\<lambda>_.
       mbind (if has_assistant ?lines then mbind rewriteFile (\<lambda>_. set_flushed True) else set_flushed False)
         (\<lambda>_. mret (Some ?f)))
     else mbind (mmodify (\<lambda>m. buildIndex (m\<lparr>mg_fileEntries := ?lines, mg_sessionId := ?id\<rparr>))) (\<lambda>_. mret None)) (m, ?w1)"
    using ls(1) by (simp add: branch_off_def Let_def mbind_def mget_def createSessionId_def new_branch_file_def)
  have done_: "session_ok N (m', w') \<Longrightarrow> mg_fileEntries m' = ?lines \<Longrightarrow> mg_byId m' = index_entries ?es \<Longrightarrow>
      mg_leafId m' = map_option en_id (last_opt ?es) \<Longrightarrow> branch_off now path (m, w) = (Inr r, m', w') \<Longrightarrow> ?thesis" for m' w' r
    using context_of_chain [OF wo chain, of m'] ls(3)
    by (intro exI [of _ r] exI [of _ m'] exI [of _ w'] exI [of _ ls]) (simp add: getEntries_def)
  have rel: "reliable ?w1" "uuid_supply (mw_uuids ?w1) N" "mw_files ?w1 = mw_files w" using ok by (simp_all add: reliable_def)
  show ?thesis
  proof (cases "mg_persist m")
    case True
    let ?base = "m\<lparr>mg_fileEntries := ?lines, mg_sessionId := ?id, mg_sessionFile := Some ?f\<rparr>"
    let ?m = "buildIndex ?base"
    note inv = rebuilt_inv [of ?base, OF _ wo]
    have f: "?f \<noteq> []" by (simp add: new_branch_file_def getSessionFilePath_def)
    have m: "mg_fileEntries ?m = ?lines" "mg_sessionFile ?m = Some ?f" "mg_persist ?m = True"
      using True by (simp_all add: buildIndex_def clear_index_def)
    show ?thesis
    proof (cases "has_assistant ?lines")
      case has: True
      let ?w2 = "with_file ?f [] 1 ?w1"
      obtain n where n: "write_lines ?f ?lines (?m, ?w2) = (Inr (), ?m, with_file ?f (map Some ?lines) n ?w2)"
        using write_lines_reliable [of ?w2 ?f "[]" ?lines ?m] rel(1) by auto
      let ?w3 = "with_file ?f (map Some ?lines) n ?w2"
      have rw: "rewriteFile (?m, ?w1) = (Inr (), ?m, ?w3)"
        using m f n open_w_reliable [OF rel(1), of ?f ?m] by (simp add: rewriteFile_def mbind_def mget_def)
      have r: "branch_off now path (m, w) = (Inr (Some ?f), ?m\<lparr>mg_flushed := True\<rparr>, ?w3)"
        using True has rw by (simp add: run mbind_def mmodify_def set_flushed_def mret_def)
      have "file_inv (?m\<lparr>mg_flushed := True\<rparr>) ?w3"
        by (rule file_inv_written [of _ ?f]) (use m f in simp_all)
      then have "session_ok N (?m\<lparr>mg_flushed := True\<rparr>, ?w3)"
        using inv m rel drawn by (simp add: session_ok_def ids_drawn_def getEntries_def drawn_def)
      then show ?thesis using done_ [OF _ _ _ _ r] inv m by simp
    next
      case no: False
      have r: "branch_off now path (m, w) = (Inr (Some ?f), ?m\<lparr>mg_flushed := False\<rparr>, ?w1)"
        using True no by (simp add: run mbind_def mmodify_def set_flushed_def mret_def)
      have "session_ok N (?m\<lparr>mg_flushed := False\<rparr>, ?w1)"
        using inv m f rel drawn assms(5) True no by (auto simp: session_ok_def file_inv_def ids_drawn_def getEntries_def simp del: map_append)
      then show ?thesis using done_ [OF _ _ _ _ r] inv m by simp
    qed
  next
    case False
    let ?base = "m\<lparr>mg_fileEntries := ?lines, mg_sessionId := ?id\<rparr>"
    let ?m = "buildIndex ?base"
    note inv = rebuilt_inv [of ?base, OF _ wo]
    have m: "mg_fileEntries ?m = ?lines" "mg_persist ?m = False"
      using False by (simp_all add: buildIndex_def clear_index_def)
    have r: "branch_off now path (m, w) = (Inr None, ?m, ?w1)"
      using False by (simp add: run mbind_def mmodify_def mret_def)
    have "session_ok N (?m, ?w1)"
      using inv m rel drawn by (auto simp: session_ok_def file_inv_def ids_drawn_def)
    then show ?thesis using done_ [OF _ _ _ _ r] inv m by simp
  qed
qed

section \<open>What the branch keeps\<close>

text \<open>The walk to the root that a branch is taken from.\<close>

lemma getBranch_ok:
  assumes "session_ok N (m, w)" "leafId \<in> ids_of (getEntries m)"
  shows "\<exists>path. mg_getBranch (Some leafId) m = Some path \<and> path \<noteq> [] \<and> well_ordered {} path \<and>
    set path \<subseteq> set (getEntries m) \<and> ids_of path \<subseteq> ids_of (getEntries m) \<and> buildSessionPath (getEntries m) (AtLeaf leafId) (Some (mg_byId m)) = Some path"
proof -
  obtain e where e: "e \<in> set (getEntries m)" "en_id e = leafId" using assms(2) by auto
  have inv: "well_ordered {} (getEntries m)" "mg_byId m = index_entries (getEntries m)"
    using assms(1) by (auto simp: session_ok_def manager_inv_def index_ok_iff)
  have e': "leafId \<noteq> []" "om_get (mg_byId m) leafId = Some e"
    using e inv well_ordered_nonempty well_ordered_distinct get_index_distinct by (metis image_eqI, metis)
  from walk_up_well_ordered [OF inv(1) e(1)] obtain path where "walk_up (mg_byId m) (Some e) [] = Some path" "path \<noteq> []"
    "well_ordered {} path" "set path \<subseteq> set (getEntries m)"
    unfolding inv(2) by (auto simp: is_path_def)
  then show ?thesis
    using e' by (intro exI [of _ path]) (auto simp: mg_getBranch_def buildSessionPath_def buildEntryIndex_def nullish_opt_def)
qed

lemma createBranchedSession_ok:
  assumes "session_ok N (m, w)" "leafId \<in> ids_of (getEntries m)"
    "mw_uuidCount w + 100 * length (mg_labelsById m) \<le> N" "mg_persist m \<longrightarrow> mw_files w (new_branch_file now (m, w)) = None"
  shows "\<exists>path r m' w' ls. mg_getBranch (Some leafId) m = Some path \<and>
    createBranchedSession now leafId (m, w) = Some (Inr r, m', w') \<and> session_ok N (m', w') \<and>
    getEntries m' = rechain None path @ ls \<and> list_all is_label ls \<and>
    (\<not> keeps_from_label path \<longrightarrow>
       mg_buildSessionContext m' = ca_buildSessionContext (getEntries m) (AtLeaf leafId) (Some (mg_byId m)))"
proof -
  obtain path where path: "mg_getBranch (Some leafId) m = Some path" "path \<noteq> []" "well_ordered {} path"
    "ids_of path \<subseteq> ids_of (getEntries m)" "buildSessionPath (getEntries m) (AtLeaf leafId) (Some (mg_byId m)) = Some path"
    using getBranch_ok [OF assms(1,2)] by blast
  obtain r m' w' ls where b: "branch_off now path (m, w) = (Inr r, m', w')" "session_ok N (m', w')" "list_all is_label ls"
    "getEntries m' = rechain None path @ ls"
    "mg_buildSessionContext m' = Some \<lparr>mc_messages = path_messages (rechain None path @ ls),
      mc_thinkingLevel = fst (getSessionContextSettings (rechain None path @ ls)),
      mc_model = snd (getSessionContextSettings (rechain None path @ ls))\<rparr>"
    using branch_off_ok [OF assms(1) path(3,4) assms(3,4)] by blast
  let ?f = "filter (\<lambda>e. \<not> is_label e) path"
  have unl: "map unlinked (rechain None path @ ls) = map unlinked (?f @ ls)" by (simp add: rechain_unlinked)
  have "distinct (map en_id (getEntries m'))"
    using b(2) well_ordered_distinct by (auto simp: session_ok_def manager_inv_def)
  then have msgs: "path_messages (rechain None path @ ls) = path_messages (?f @ ls)"
    using path_messages_unlinked [OF unl] b(4) by simp
  have settings: "getSessionContextSettings (rechain None path @ ls) = getSessionContextSettings path"
    using settings_unlinked [OF unl] settings_without_labels [of "?f @ ls"] settings_without_labels [of path] b(3)
    by (simp add: filter_empty_conv list_all_iff)
  have "\<not> keeps_from_label path \<Longrightarrow> path_messages (?f @ ls) = path_messages path"
    using path_messages_without_labels [of path ls] well_ordered_distinct [OF path(3)] b(3) by blast
  then have "\<not> keeps_from_label path \<Longrightarrow> path_messages (rechain None path @ ls) = path_messages path"
    using msgs by simp
  then have "\<not> keeps_from_label path \<Longrightarrow>
      mg_buildSessionContext m' = ca_buildSessionContext (getEntries m) (AtLeaf leafId) (Some (mg_byId m))"
    by (simp add: b(5) settings ca_buildSessionContext_def ca_buildContextEntries_def path(5) path_messages_def split: prod.split)
  moreover have "createBranchedSession now leafId (m, w) = Some (Inr r, m', w')"
    using path(1,2) b(1) by (cases path) (simp_all add: createBranchedSession_def)
  ultimately show ?thesis using path(1) b by blast
qed

text \<open>Otherwise the branch loses what the compaction kept.\<close>

lemma branch_loses_kept:
  assumes "distinct (map en_id (pre @ c # post))" "is_compaction c" "\<forall>e \<in> set post. \<not> is_compaction e"
    "l \<in> set pre" "is_label l" "en_id l = firstKeptEntryId c" "list_all is_label ls"
  shows "path_messages (filter (\<lambda>e. \<not> is_label e) (pre @ c # post) @ ls) =
    ca_sessionEntryToContextMessages c @ concat (map ca_sessionEntryToContextMessages post)"
proof -
  have "inj_on en_id (set pre)" using assms(1) by (simp add: distinct_map)
  then have "e = l" if "e \<in> set pre" "en_id e = firstKeptEntryId c" for e
    using that assms(4,6) by (auto simp: inj_on_def)
  then have drop: "dropWhile (\<lambda>e. en_id e \<noteq> firstKeptEntryId c) (filter (\<lambda>e. \<not> is_label e) pre) = []"
    using assms(5) by (auto simp: dropWhile_eq_Nil_conv)
  have c: "\<not> is_label c" "en_id c \<notin> ids_of (filter (\<lambda>e. \<not> is_label e) pre)"
    using assms(1,2) label_no_compaction by auto
  have ls: "concat (map ca_sessionEntryToContextMessages ls) = []" "\<forall>e \<in> set (filter (\<lambda>e. \<not> is_label e) post @ ls). \<not> is_compaction e"
    using assms(3,7) by (auto simp: list_all_iff label_messages label_no_compaction)
  have "path_messages (filter (\<lambda>e. \<not> is_label e) pre @ c # (filter (\<lambda>e. \<not> is_label e) post @ ls)) =
      ca_sessionEntryToContextMessages c @ concat (map ca_sessionEntryToContextMessages post)"
    unfolding path_messages_compacted [OF assms(2) ls(2) c(2)] drop
    by (simp add: messages_without_labels ls(1) del: concat_eq_Nil_conv)
  then show ?thesis using c(1) by simp
qed

section \<open>Forks\<close>

text \<open>
  A fork has the entries of its source as they are in its file. When the source is of an older version,
  opening the source upgrades them; the fork, whose header is of the current version, keeps the old ones.
\<close>

lemma fork_not_upgraded:
  assumes "loadEntriesFromFile source w = HeaderLine h # map EntryLine es" "reliable w" "upgrade = (\<lambda>_. upgraded)"
    "mw_files w (getSessionFilePath dir now (mw_sessionIds w (mw_sessionIdCount w))) = None"
  shows "\<exists>m' w' h'. forkFrom upgrade now source cwd dir None (m, w) = (Inr (), m', w') \<and>
    mg_fileEntries m' = HeaderLine h' # map EntryLine es \<and> mh_version h' = Some CURRENT_SESSION_VERSION"
proof -
  let ?i = "mw_sessionIds w (mw_sessionIdCount w)" and ?w = "w\<lparr>mw_sessionIdCount := Suc (mw_sessionIdCount w)\<rparr>"
  let ?f = "getSessionFilePath dir now ?i"
  let ?h = "\<lparr>mh_version = Some CURRENT_SESSION_VERSION, mh_id = ?i, mh_timestamp = now, mh_cwd = cwd, mh_parentSession = Some source\<rparr>"
  let ?lines = "HeaderLine ?h # map EntryLine es"
  have f: "?f \<noteq> []" by (simp add: getSessionFilePath_def)
  have wx: "write_wx ?f (HeaderLine ?h) (m, ?w) = (Inr (), m, with_file ?f [Some (HeaderLine ?h)] 1 ?w)"
    using assms(2,4) by (simp add: write_wx_def file_call_def reliable_def with_file_def Let_def)
  let ?w1 = "with_file ?f [Some (HeaderLine ?h)] 1 ?w"
  have rel: "reliable ?w1" using assms(2) by (simp add: reliable_def with_file_def)
  obtain n where n: "write_lines ?f (map EntryLine es) (m, ?w1) = (Inr (), m, with_file ?f ([Some (HeaderLine ?h)] @ map Some (map EntryLine es)) n ?w1)"
    using write_lines_reliable [of ?w1 ?f "[Some (HeaderLine ?h)]" "map EntryLine es" m] rel by auto
  let ?w2 = "with_file ?f (map Some ?lines) n ?w1"
  have files: "mw_files ?w2 ?f = Some (map Some ?lines)" by simp
  have load: "loadEntriesFromFile ?f ?w2 = ?lines"
    unfolding loadEntriesFromFile_def files option.case map_filter_Some by simp
  have header: "header_of ?lines = Some ?h" by (simp add: header_of_def file_entry_of_def)
  have none: "migrateToCurrentVersion upgrade ?lines = None"
    unfolding migrateToCurrentVersion_def header_version_def header by simp
  have "forkFrom upgrade now source cwd dir None (m, w) = make_manager upgrade now cwd dir (Some ?f) True None None (m, ?w2)"
    using assms(1) n wx
    by (simp add: forkFrom_def header_of_def file_entry_of_def mbind_def mret_def createSessionId_def Let_def)
  also have "\<dots> = setSessionFile upgrade now ?f (blank_manager cwd dir True, ?w2)"
    using f by (simp add: make_manager_def mbind_def mmodify_def)
  also have "\<dots> = (Inr (), (buildIndex ((blank_manager cwd dir True)\<lparr>mg_sessionFile := Some ?f, mg_fileEntries := ?lines, mg_sessionId := ?i\<rparr>))
      \<lparr>mg_flushed := True\<rparr>, ?w2)"
    using setSessionFile_existing [OF files load _ header none, of now "blank_manager cwd dir True"] by (simp del: with_file_simps(7))
  finally show ?thesis by (auto simp: buildIndex_def clear_index_def)
qed

end
