(* ===== verification/Session_Manager_Scenarios.thy ===== *)
theory Session_Manager_Scenarios
  imports Scenarios Session_Branching
begin

text \<open>
  Concrete sessions of the session manager for the properties of the root theory: a question, its label
  and an answer; and a disk that is full when the file of the session is written.
\<close>

definition demo_uuids :: "nat \<Rightarrow> string" where
  "demo_uuids n = [char_of (n div 256), char_of (n mod 256)]"

definition demo_disk :: "(nat \<Rightarrow> bool) \<Rightarrow> manager_world" where
  "demo_disk fails = \<lparr>mw_files = (\<lambda>_. None), mw_fails = fails, mw_calls = 0, mw_uuids = demo_uuids, mw_uuidCount = 0,
     mw_sessionIds = (\<lambda>n. CHR ''s'' # replicate n CHR ''1''), mw_sessionIdCount = 0\<rparr>"

definition demo_manager :: manager where
  "demo_manager = \<lparr>mg_sessionId = [], mg_sessionFile = None, mg_sessionDir = ''d'', mg_cwd = ''w'', mg_persist = True,
     mg_flushed = False, mg_fileEntries = [], mg_byId = [], mg_labelsById = [], mg_labelTimestampsById = [], mg_leafId = None\<rparr>"

lemma demo_uuids_inj:
  assumes "i < 65536" "j < 65536" "demo_uuids i = demo_uuids j"
  shows "i = j"
proof -
  have "(char_of (i div 256) :: char) = char_of (j div 256)" "(char_of (i mod 256) :: char) = char_of (j mod 256)"
    using assms(3) by (simp_all add: demo_uuids_def)
  then have "i div 256 mod 256 = j div 256 mod 256" "i mod 256 mod 256 = j mod 256 mod 256" by (metis of_char_of)+
  moreover have "i div 256 < 256" "j div 256 < 256" using assms(1,2) by auto
  ultimately have "i div 256 = j div 256" "i mod 256 = j mod 256" by simp_all
  then show ?thesis by (metis div_mult_mod_eq)
qed

lemma demo_supply: "uuid_supply demo_uuids 1000"
proof -
  have "\<exists>k < 100. take 8 (demo_uuids (n + k)) \<notin> (\<lambda>j. take 8 (demo_uuids j)) ` {..<n}" if "n < 1000" for n
  proof (intro exI [of _ 0] conjI notI)
    assume "take 8 (demo_uuids (n + 0)) \<in> (\<lambda>j. take 8 (demo_uuids j)) ` {..<n}"
    then obtain j where "j < n" "demo_uuids n = demo_uuids j" by (auto simp: demo_uuids_def)
    with that show False using demo_uuids_inj [of n j] by simp
  qed simp
  then show ?thesis by (simp add: uuid_supply_def demo_uuids_def)
qed

lemma demo_reliable: "reliable (demo_disk (\<lambda>_. False))"
  by (simp add: reliable_def demo_disk_def)

definition demo_top_line :: manager_header where
  "demo_top_line = \<lparr>mh_version = Some 3, mh_id = ''s'', mh_timestamp = ''t'', mh_cwd = ''w'', mh_parentSession = None\<rparr>"

definition demo_session_file :: string where
  "demo_session_file = ''d/t_s/session.jsonl''"

definition demo_new_manager :: manager where
  "demo_new_manager = demo_manager\<lparr>mg_sessionId := ''s'', mg_sessionFile := Some demo_session_file, mg_fileEntries := [HeaderLine demo_top_line]\<rparr>"

definition demo_new_disk :: "(nat \<Rightarrow> bool) \<Rightarrow> manager_world" where
  "demo_new_disk fails = (demo_disk fails)\<lparr>mw_sessionIdCount := 1\<rparr>"

lemma demo_newSession:
  "newSession ''t'' None None (demo_manager, demo_disk fails) = (Inr (Some demo_session_file), demo_new_manager, demo_new_disk fails)"
  by (simp add: newSession_def mop_simps createSessionId_def clear_index_def getSessionFilePath_def getSessionWorkspaceName_def
      SESSION_FILE_NAME_def CURRENT_SESSION_VERSION_def demo_disk_def demo_new_disk_def demo_manager_def demo_new_manager_def
      demo_top_line_def demo_session_file_def)

text \<open>A question, a label on it, an answer.\<close>

definition demo_ops :: "(string \<times> manager_op) list" where
  "demo_ops = [(''1'', OpMessage demo_user), (''2'', OpLabel (demo_uuids 0) (Some ''start'')), (''3'', OpMessage (Assistant demo_answer))]"

definition demo_session_entries :: "session_entry list" where
  "demo_session_entries =
     [\<lparr>en_id = demo_uuids 0, en_parentId = None, en_timestamp = ''1'', en_body = MessageEntry demo_user\<rparr>,
      \<lparr>en_id = demo_uuids 1, en_parentId = Some (demo_uuids 0), en_timestamp = ''2'', en_body = LabelEntry (demo_uuids 0) (Some ''start'')\<rparr>,
      \<lparr>en_id = demo_uuids 2, en_parentId = Some (demo_uuids 1), en_timestamp = ''3'', en_body = MessageEntry (Assistant demo_answer)\<rparr>]"

lemma generateId_first:
  "\<not> has (take 8 (mw_uuids w (mw_uuidCount w))) \<Longrightarrow>
     generateId has (m, w) = (Inr (take 8 (mw_uuids w (mw_uuidCount w))), m, w\<lparr>mw_uuidCount := Suc (mw_uuidCount w)\<rparr>)"
  using generate_loop_fresh [of 0 100 has w m] by (auto simp: generateId_def)

lemma demo_uuids_neq [simp]: "demo_uuids i = demo_uuids j \<longleftrightarrow> i = j" if "i < 65536" "j < 65536"
  using that demo_uuids_inj by blast

lemma take_demo_uuids [simp]: "take 8 (demo_uuids n) = demo_uuids n"
  by (simp add: demo_uuids_def)

definition demo_done_manager :: manager where
  "demo_done_manager = demo_new_manager\<lparr>mg_flushed := True, mg_fileEntries := HeaderLine demo_top_line # map EntryLine demo_session_entries,
     mg_byId := map (\<lambda>e. (en_id e, e)) demo_session_entries, mg_labelsById := [(demo_uuids 0, ''start'')],
     mg_labelTimestampsById := [(demo_uuids 0, ''2'')], mg_leafId := Some (demo_uuids 2)\<rparr>"

lemmas append_eval = discard_def mg_appendMessage_def append_at_leaf_def append_new_def appendEntry_def
  push_manager_entry_def persist_entry_def appendLabelChange_def set_label_def om_has_def om_get_def truthy_str_def nullish_def
  is_assistant_entry_def mop_simps Let_def

lemma demo_session_run: "\<exists>w. run_ops demo_ops (demo_new_manager, demo_new_disk (\<lambda>_. False)) = (demo_done_manager, w)"
  by (simp add: run_ops_def demo_ops_def append_eval generateId_first demo_new_manager_def demo_new_disk_def demo_disk_def
      demo_manager_def demo_done_manager_def demo_session_entries_def demo_user_def set_flushed_def open_wx_def append_line_def
      file_call_def demo_session_file_def)

lemma demo_done: "mg_flushed demo_done_manager" "mg_sessionFile demo_done_manager = Some demo_session_file"
  "getEntries demo_done_manager = demo_session_entries" "mg_persist demo_done_manager"
  by (simp_all add: demo_done_manager_def demo_new_manager_def demo_manager_def getEntries_def)

lemma demo_disk_files: "mw_files (demo_disk fails) f = None" "mw_uuids (demo_disk fails) = demo_uuids" "mw_uuidCount (demo_disk fails) = 0"
  by (simp_all add: demo_disk_def)

text \<open>The session after these operations, with what a branch needs.\<close>

lemma demo_session_ok:
  "\<exists>w. run_ops demo_ops (demo_new_manager, demo_new_disk (\<lambda>_. False)) = (demo_done_manager, w) \<and>
     session_ok 1000 (demo_done_manager, w) \<and> mw_uuidCount w + 100 * length (mg_labelsById demo_done_manager) \<le> 1000 \<and>
     mw_files w (new_branch_file ''9'' (demo_done_manager, w)) = None"
proof -
  obtain w where w: "run_ops demo_ops (demo_new_manager, demo_new_disk (\<lambda>_. False)) = (demo_done_manager, w)"
    "mw_uuidCount w = 3" "mw_files w (new_branch_file ''9'' (demo_done_manager, w)) = None"
  proof -
    have "\<exists>w. run_ops demo_ops (demo_new_manager, demo_new_disk (\<lambda>_. False)) = (demo_done_manager, w) \<and> mw_uuidCount w = 3 \<and>
        mw_files w (new_branch_file ''9'' (demo_done_manager, w)) = None"
      by (simp add: run_ops_def demo_ops_def append_eval generateId_first demo_new_manager_def demo_new_disk_def demo_disk_def
          demo_manager_def demo_done_manager_def demo_session_entries_def demo_user_def set_flushed_def open_wx_def append_line_def
          file_call_def demo_session_file_def new_branch_file_def getSessionFilePath_def getSessionWorkspaceName_def)
    then show ?thesis using that by blast
  qed
  have "session_ok 1000 (demo_done_manager, w)"
    using session_run(1) [OF demo_newSession demo_reliable _ _ _ w(1), of 1000] demo_supply
    by (simp add: demo_disk_files demo_ops_def)
  then show ?thesis using w by (simp add: demo_done_manager_def)
qed

text \<open>A disk on which the second call fails.\<close>

definition full_disk :: "nat \<Rightarrow> bool" where
  "full_disk n = (n = 1)"

end
