(* ===== verification/Session_Migration.thy ===== *)
theory Session_Migration
  imports Session_Jsonl Session_Manager_Facts
begin

text \<open>
  The text of the session files of the coding agent (\<open>coding-agent/src/core/session-manager.ts\<close>): reading
  lines in chunks, the header at the start of a file, the upgrade of old entries, and the summary of
  a file that lists of sessions show. An entry here is a JSON object that may lack any field; lines
  that hold other values than objects are left out of the upgrade. Text is that after decoding.
\<close>

type_synonym raw_entry = "(string \<times> json) list"

section \<open>Lines\<close>

fun json_truthy :: "json \<Rightarrow> bool" where
  "json_truthy JNull = False"
| "json_truthy (JBool b) = b"
| "json_truthy (JNum n) = (n \<noteq> 0)"
| "json_truthy (JStr s) = (s \<noteq> [])"
| "json_truthy _ = True"

definition parseSessionEntryLine :: "string \<Rightarrow> json" where
  "parseSessionEntryLine line = (if trim line = [] then JNull else nullish (json_parse line) JNull)"

definition line_entries :: "string list \<Rightarrow> json list" where
  "line_entries ls = filter json_truthy (map parseSessionEntryLine ls)"

text \<open>\<open>parseSessionEntries\<close> of a whole text.\<close>

definition parseSessionEntries :: "string \<Rightarrow> json list" where
  "parseSessionEntries content = List.map_filter json_parse (filter (\<lambda>l. trim l \<noteq> []) (split_lines (trim content)))"

text \<open>The inner loop of \<open>loadEntriesFromFile\<close>: the entries of the complete lines and the rest.\<close>

function complete_lines :: "string \<Rightarrow> json list \<Rightarrow> json list \<times> string" where
  "complete_lines pending entries =
     (case newline_index pending of
        None \<Rightarrow> (entries, pending)
      | Some i \<Rightarrow>
          let entry = parseSessionEntryLine (take i pending) in
          complete_lines (drop (Suc i) pending) (if json_truthy entry then entries @ [entry] else entries))"
  by pat_completeness auto
termination
  by (relation "measure (\<lambda>(p, _). length p)") (auto dest: newline_index_le)

declare complete_lines.simps [simp del]

fun read_chunks :: "string list \<Rightarrow> string \<Rightarrow> json list \<Rightarrow> json list" where
  "read_chunks [] pending entries =
     (let entry = parseSessionEntryLine pending in if json_truthy entry then entries @ [entry] else entries)"
| "read_chunks (chunk # chunks) pending entries =
     (case complete_lines (pending @ chunk) entries of (entries, pending) \<Rightarrow> read_chunks chunks pending entries)"

definition header_value :: "json \<Rightarrow> bool" where
  "header_value v \<longleftrightarrow> field_of ''type'' v = Some (JStr ''session'') \<and> is_string (field_of ''id'' v)"

text \<open>The chunks of a file, as the decoder gives them, to its entries.\<close>

definition load_chunks :: "string list \<Rightarrow> json list" where
  "load_chunks chunks =
     (case read_chunks chunks [] [] of
        [] \<Rightarrow> []
      | header # entries \<Rightarrow> if header_value header then header # entries else [])"

section \<open>The header of a file\<close>

definition HEADER_BUFFER :: nat where
  "HEADER_BUFFER = 512"

text \<open>\<open>readSessionHeader\<close>: the first line of the first 512 bytes.\<close>

definition readSessionHeader :: "string \<Rightarrow> raw_entry option" where
  "readSessionHeader content =
     (let firstLine = hd (split_lines (take HEADER_BUFFER content)) in
      if firstLine = [] then None
      else case json_parse firstLine of
          Some (JObj fs) \<Rightarrow> if header_value (JObj fs) then Some fs else None
        | _ \<Rightarrow> None)"

definition getSessionHeaderCwd :: "raw_entry \<Rightarrow> string option" where
  "getSessionHeaderCwd header = (case map_of header ''cwd'' of Some (JStr s) \<Rightarrow> Some s | _ \<Rightarrow> None)"

definition sessionCwdMatches :: "(string \<Rightarrow> string) \<Rightarrow> string option \<Rightarrow> string \<Rightarrow> bool" where
  "sessionCwdMatches resolvePath cwd resolvedCwd =
     (case cwd of None \<Rightarrow> False | Some c \<Rightarrow> c \<noteq> [] \<and> resolvePath c = resolvedCwd)"

text \<open>A file of the directory: path, text, time of modification. Errors of the file system give no session.\<close>

definition findMostRecentSession ::
  "(string \<Rightarrow> string) \<Rightarrow> (string \<times> string \<times> int) list \<Rightarrow> string option \<Rightarrow> string option" where
  "findMostRecentSession resolvePath files cwd =
     (let resolvedCwd = (if truthy_str cwd then map_option resolvePath cwd else None);
        found = filter (\<lambda>(path, content, mtime). case readSessionHeader content of
            None \<Rightarrow> False
          | Some h \<Rightarrow> \<not> truthy_str resolvedCwd \<or> sessionCwdMatches resolvePath (getSessionHeaderCwd h) (nullish resolvedCwd [])) files
      in case sort_key (\<lambda>(path, content, mtime). - mtime) found of
          [] \<Rightarrow> None
        | (path, _, _) # _ \<Rightarrow> if path = [] then None else Some path)"

section \<open>Upgrading old entries\<close>

definition raw_header :: "raw_entry \<Rightarrow> bool" where
  "raw_header e \<longleftrightarrow> map_of e ''type'' = Some (JStr ''session'')"

text \<open>The kept entry of a compaction was a position in the file; an unknown one leaves no identifier.\<close>

definition convert_kept :: "raw_entry list \<Rightarrow> raw_entry \<Rightarrow> raw_entry" where
  "convert_kept entries e =
     (if map_of e ''type'' = Some (JStr ''compaction'') then
        case map_of e ''firstKeptEntryIndex'' of
          Some (JNum k) \<Rightarrow>
            let e' = (if 0 \<le> k \<and> nat k < length entries \<and> \<not> raw_header (entries ! nat k)
                      then (case map_of (entries ! nat k) ''id'' of
                          Some i \<Rightarrow> om_set e ''firstKeptEntryId'' i
                        | None \<Rightarrow> om_delete e ''firstKeptEntryId'')
                      else e)
            in om_delete e' ''firstKeptEntryIndex''
        | _ \<Rightarrow> e
      else e)"

text \<open>The set of identifiers of \<open>migrateV1ToV2\<close> stays empty: nothing is ever added to it.\<close>

fun migrate_entries :: "nat list \<Rightarrow> json \<Rightarrow> raw_entry list \<Rightarrow> raw_entry list mop" where
  "migrate_entries [] prevId entries = mret entries"
| "migrate_entries (n # ns) prevId entries =
     (let e = entries ! n in
      if raw_header e then migrate_entries ns prevId (entries[n := om_set e ''version'' (JNum 2)])
      else mbind (generateId (\<lambda>_. False)) (\<lambda>i.
        let e1 = om_set (om_set e ''id'' (JStr i)) ''parentId'' prevId
        in migrate_entries ns (JStr i) (entries[n := convert_kept (entries[n := e1]) e1])))"

definition migrateV1ToV2 :: "raw_entry list \<Rightarrow> raw_entry list mop" where
  "migrateV1ToV2 entries = migrate_entries [0..<length entries] JNull entries"

definition rename_hook_role :: "raw_entry \<Rightarrow> raw_entry" where
  "rename_hook_role e =
     (if map_of e ''type'' = Some (JStr ''message'') then
        case map_of e ''message'' of
          Some (JObj msg) \<Rightarrow>
            if map_of msg ''role'' = Some (JStr ''hookMessage'')
            then om_set e ''message'' (JObj (om_set msg ''role'' (JStr ''custom''))) else e
        | _ \<Rightarrow> e
      else e)"

definition migrateV2ToV3 :: "raw_entry list \<Rightarrow> raw_entry list" where
  "migrateV2ToV3 entries = map (\<lambda>e. if raw_header e then om_set e ''version'' (JNum 3) else rename_hook_role e) entries"

text \<open>The version of a file; a version that is not a number compares as false with everything.\<close>

definition raw_version :: "raw_entry list \<Rightarrow> int option" where
  "raw_version entries =
     (case find raw_header entries of
        None \<Rightarrow> Some 1
      | Some h \<Rightarrow> (case map_of h ''version'' of None \<Rightarrow> Some 1 | Some JNull \<Rightarrow> Some 1 | Some (JNum n) \<Rightarrow> Some n | _ \<Rightarrow> None))"

text \<open>\<open>None\<close> when nothing had to be done, the new entries otherwise.\<close>

definition migrate_raw :: "raw_entry list \<Rightarrow> raw_entry list option mop" where
  "migrate_raw entries =
     (case raw_version entries of
        None \<Rightarrow> mret (Some entries)
      | Some v \<Rightarrow>
          if v \<ge> CURRENT_SESSION_VERSION then mret None
          else mbind (if v < 2 then migrateV1ToV2 entries else mret entries) (\<lambda>es.
            mret (Some (if v < 3 then migrateV2ToV3 es else es))))"

section \<open>Chunks do not matter\<close>

lemma line_entries_simps [simp]:
  "line_entries [] = []" "line_entries (l # ls) = (if json_truthy (parseSessionEntryLine l) then [parseSessionEntryLine l] else []) @ line_entries ls"
  "line_entries (xs @ ys) = line_entries xs @ line_entries ys"
  by (simp_all add: line_entries_def)

lemma complete_lines_split:
  "complete_lines s es = (es @ line_entries (butlast (split_lines s)), last (split_lines s))"
proof (induction s es rule: complete_lines.induct)
  case (1 s es)
  show ?case
  proof (cases "newline_index s")
    case None
    then show ?thesis using newline_index_None [of s] by (simp add: complete_lines.simps [of s])
  next
    case (Some i)
    then show ?thesis
      using "1.IH" [OF Some refl] newline_index_Some [OF Some]
      by (simp add: complete_lines.simps [of s] Let_def)
  qed
qed

text \<open>The loader is a reader of lines.\<close>

definition add_line :: "string \<Rightarrow> json list \<Rightarrow> json list" where
  "add_line line entries =
     (let entry = parseSessionEntryLine line in if json_truthy entry then entries @ [entry] else entries)"

definition feed_entries :: "string \<Rightarrow> string \<times> json list \<Rightarrow> string \<times> json list" where
  "feed_entries chunk st = (case st of (pending, entries) \<Rightarrow>
     (case complete_lines (pending @ chunk) entries of (entries, pending) \<Rightarrow> (pending, entries)))"

lemma fold_add_line: "fold add_line ls es = es @ line_entries ls"
  by (induction ls arbitrary: es) (simp_all add: add_line_def Let_def)

interpretation session_reader: line_reader feed_entries add_line
  by unfold_locales (simp add: feed_entries_def complete_lines_split fold_add_line)

lemma read_chunks_fold:
  "read_chunks chunks pending es = (case fold feed_entries chunks (pending, es) of (pending, es) \<Rightarrow> add_line pending es)"
  by (induction chunks arbitrary: pending es)
    (simp_all add: add_line_def feed_entries_def Let_def split: prod.split)

text \<open>Reading in chunks gives what reading the whole text gives.\<close>

lemma read_chunks_whole: "read_chunks chunks [] [] = line_entries (split_lines (concat chunks))"
proof -
  let ?ls = "split_lines (concat chunks)"
  have "fold feed_entries chunks ([], []) = (last ?ls, line_entries (butlast ?ls))"
    using session_reader.feed_all [of "[]" chunks "[]"] by (simp add: fold_add_line)
  then have "read_chunks chunks [] [] = add_line (last ?ls) (line_entries (butlast ?ls))"
    by (simp only: read_chunks_fold prod.case)
  also have "\<dots> = line_entries (butlast ?ls) @ line_entries [last ?ls]"
    using fold_add_line [of "[last ?ls]" "line_entries (butlast ?ls)"] by simp
  also have "\<dots> = line_entries (butlast ?ls @ [last ?ls])" by (simp only: line_entries_simps(3))
  finally show ?thesis by (simp only: append_butlast_last_id [OF split_lines_ne])
qed

lemma load_chunks_whole: "load_chunks chunks = load_chunks [concat chunks]"
  by (simp add: load_chunks_def read_chunks_whole)

text \<open>Lines written one below the other are read back, empty ones aside.\<close>

lemma load_written_lines:
  assumes "\<forall>l \<in> set ls. \<not> list_ex is_newline l"
  shows "read_chunks [concat (map (\<lambda>l. l @ newline) ls)] [] [] = line_entries ls"
proof -
  have "line_entries (split_lines (concat (map (\<lambda>l. l @ newline) ls))) = line_entries ls"
    using assms by (induction ls) (simp_all add: split_lines_line parseSessionEntryLine_def trim_def trim_start_def)
  then show ?thesis using read_chunks_whole [of "[concat (map (\<lambda>l. l @ newline) ls)]"] by simp
qed

section \<open>What an upgrade does\<close>

lemma map_of_om_set [simp]: "map_of (om_set m k v) k' = (if k' = k then Some v else map_of m k')"
  using om_get_set [of m k v k'] by (simp add: om_get_def)

lemma map_of_om_delete [simp]: "map_of (om_delete m k) k' = (if k' = k then None else map_of m k')"
  using om_get_delete [of m k k'] by (simp add: om_get_def)

lemma convert_kept_fields:
  "map_of (convert_kept es e) ''id'' = map_of e ''id''" "map_of (convert_kept es e) ''parentId'' = map_of e ''parentId''"
  "raw_header (convert_kept es e) = raw_header e"
  by (auto simp: convert_kept_def raw_header_def Let_def split: option.split json.split)

text \<open>The identifiers and parents of the entries that are not headers.\<close>

definition raw_links :: "raw_entry list \<Rightarrow> (json option \<times> json option) list" where
  "raw_links es = map (\<lambda>e. (map_of e ''id'', map_of e ''parentId'')) (filter (\<lambda>e. \<not> raw_header e) es)"

fun chain_links :: "json \<Rightarrow> string list \<Rightarrow> (json option \<times> json option) list" where
  "chain_links prev [] = []"
| "chain_links prev (i # is) = (Some (JStr i), Some prev) # chain_links (JStr i) is"

definition draws :: "manager_world \<Rightarrow> nat \<Rightarrow> string list" where
  "draws w k = map (\<lambda>j. take 8 (mw_uuids w (mw_uuidCount w + j))) [0..<k]"

lemma draws_Suc:
  "draws w (Suc k) = take 8 (mw_uuids w (mw_uuidCount w)) # draws (w\<lparr>mw_uuidCount := Suc (mw_uuidCount w)\<rparr>) k"
  by (simp add: draws_def upt_conv_Cons map_Suc_upt [symmetric] del: upt_Suc)

lemma generate_unchecked:
  "generateId (\<lambda>_. False) (m, w) = (Inr (take 8 (mw_uuids w (mw_uuidCount w))), m, w\<lparr>mw_uuidCount := Suc (mw_uuidCount w)\<rparr>)"
  using generate_loop_fresh [of 0 100 "\<lambda>_. False" w m] by (simp add: generateId_def)

lemma migrate_entries_links:
  "n \<le> length es \<Longrightarrow> \<exists>es' w'. migrate_entries [n..<length es] prev es (m, w) = (Inr es', m, w') \<and> length es' = length es \<and>
     take n es' = take n es \<and> map raw_header es' = map raw_header es \<and>
     raw_links (drop n es') = chain_links prev (draws w (length (filter (\<lambda>e. \<not> raw_header e) (drop n es))))"
proof (induction "length es - n" arbitrary: n es prev w)
  case 0
  then show ?case by (simp add: mret_def raw_links_def draws_def)
next
  case (Suc k)
  then have n: "n < length es" and k: "k = length es - Suc n" by simp_all
  then have upt: "[n..<length es] = n # [Suc n..<length es]" by (simp add: upt_conv_Cons)
  have drop: "drop n xs = xs ! n # drop (Suc n) xs" if "length xs = length es" for xs :: "raw_entry list"
    using that n by (simp add: Cons_nth_drop_Suc)
  have take: "take (Suc n) xs = take n xs @ [xs ! n]" if "length xs = length es" for xs :: "raw_entry list"
    using that n by (simp add: take_Suc_conv_app_nth)
  show ?case
  proof (cases "raw_header (es ! n)")
    case True
    let ?es = "es[n := om_set (es ! n) ''version'' (JNum 2)]"
    have h: "raw_header (om_set (es ! n) ''version'' (JNum 2))" using True by (simp add: raw_header_def)
    have same: "map raw_header ?es = map raw_header es" using True h by (simp add: map_update list_update_same_conv n)
    obtain es' w' where r: "migrate_entries [Suc n..<length es] prev ?es (m, w) = (Inr es', m, w')" "length es' = length es"
      "take (Suc n) es' = take (Suc n) ?es" "map raw_header es' = map raw_header ?es"
      "raw_links (drop (Suc n) es') = chain_links prev (draws w (length (filter (\<lambda>e. \<not> raw_header e) (drop (Suc n) es))))"
      using Suc.hyps(1) [of ?es "Suc n" prev w] k n by auto
    have "take n es' = take n es" "es' ! n = om_set (es ! n) ''version'' (JNum 2)"
      using r(3) take [OF r(2)] take [of ?es] n by (simp_all add: append_eq_append_conv)
    with r same h True show ?thesis
      by (intro exI [of _ es'] exI [of _ w']) (simp add: upt drop raw_links_def del: upt_Suc)
  next
    case False
    let ?i = "take 8 (mw_uuids w (mw_uuidCount w))" and ?w = "w\<lparr>mw_uuidCount := Suc (mw_uuidCount w)\<rparr>"
    let ?e1 = "om_set (om_set (es ! n) ''id'' (JStr ?i)) ''parentId'' prev"
    let ?e = "convert_kept (es[n := ?e1]) ?e1" and ?es = "es[n := convert_kept (es[n := ?e1]) ?e1]"
    have e: "\<not> raw_header ?e" "map_of ?e ''id'' = Some (JStr ?i)" "map_of ?e ''parentId'' = Some prev"
      using False by (simp_all add: convert_kept_fields) (simp add: raw_header_def)
    have same: "map raw_header ?es = map raw_header es" using False e(1) by (simp add: map_update list_update_same_conv n)
    obtain es' w' where r: "migrate_entries [Suc n..<length es] (JStr ?i) ?es (m, ?w) = (Inr es', m, w')" "length es' = length es"
      "take (Suc n) es' = take (Suc n) ?es" "map raw_header es' = map raw_header ?es"
      "raw_links (drop (Suc n) es') = chain_links (JStr ?i) (draws ?w (length (filter (\<lambda>e. \<not> raw_header e) (drop (Suc n) es))))"
      using Suc.hyps(1) [of ?es "Suc n" "JStr ?i" ?w] k n by auto
    have "take n es' = take n es" "es' ! n = ?e"
      using r(3) take [OF r(2)] take [of ?es] n by (simp_all add: append_eq_append_conv)
    with r same e False show ?thesis
      by (intro exI [of _ es'] exI [of _ w'])
        (simp add: upt drop raw_links_def draws_Suc generate_unchecked mbind_def Let_def del: upt_Suc)
  qed
qed

lemma migrateV1ToV2_links:
  "\<exists>es w'. migrateV1ToV2 entries (m, w) = (Inr es, m, w') \<and> length es = length entries \<and> map raw_header es = map raw_header entries \<and>
     raw_links es = chain_links JNull (draws w (length (filter (\<lambda>e. \<not> raw_header e) entries)))"
  using migrate_entries_links [of 0 entries JNull m w] by (auto simp: migrateV1ToV2_def)

text \<open>
  So the identifiers of upgraded entries are the next random ones whether or not they are new: when two
  draws begin alike, two entries get the same identifier.
\<close>

lemma chain_links_ids: "map fst (chain_links prev is) = map (\<lambda>i. Some (JStr i)) is"
  by (induction prev "is" rule: chain_links.induct) simp_all

lemma upgraded_identifiers_collide:
  assumes "i < j" "j < length (filter (\<lambda>e. \<not> raw_header e) entries)"
    "take 8 (mw_uuids w (mw_uuidCount w + i)) = take 8 (mw_uuids w (mw_uuidCount w + j))"
  shows "\<exists>es w'. migrateV1ToV2 entries (m, w) = (Inr es, m, w') \<and>
    map fst (raw_links es) ! i = map fst (raw_links es) ! j \<and> \<not> distinct (map fst (raw_links es))"
proof -
  let ?k = "length (filter (\<lambda>e. \<not> raw_header e) entries)"
  obtain es w' where es: "migrateV1ToV2 entries (m, w) = (Inr es, m, w')" "raw_links es = chain_links JNull (draws w ?k)"
    using migrateV1ToV2_links by blast
  have ids: "map fst (raw_links es) = map (\<lambda>i. Some (JStr i)) (draws w ?k)" by (simp add: es(2) chain_links_ids)
  have same: "map fst (raw_links es) ! i = map fst (raw_links es) ! j" using assms by (simp add: ids draws_def)
  have len: "length (map fst (raw_links es)) = ?k" by (simp add: ids draws_def)
  have "\<not> distinct (map fst (raw_links es))"
  proof
    assume "distinct (map fst (raw_links es))"
    from nth_eq_iff_index_eq [OF this, of i j] len same assms(1,2) show False by auto
  qed
  with es(1) same show ?thesis by blast
qed

text \<open>An upgraded file is of the current version, so that it is upgraded once.\<close>

lemma raw_header_rename: "raw_header (rename_hook_role e) = raw_header e"
  by (auto simp: rename_hook_role_def raw_header_def split: option.split json.split)

lemma upgraded_once:
  assumes "raw_version entries = Some v" "v < CURRENT_SESSION_VERSION" "list_ex raw_header entries"
    "migrate_raw entries (m, w) = (Inr (Some es), m', w')"
  shows "migrate_raw es (m2, w2) = (Inr None, m2, w2)"
proof -
  obtain es0 where es0: "es = migrateV2ToV3 es0" "map raw_header es0 = map raw_header entries"
  proof (cases "v < 2")
    case True
    obtain es1 w1 where "migrateV1ToV2 entries (m, w) = (Inr es1, m, w1)" "map raw_header es1 = map raw_header entries"
      using migrateV1ToV2_links by blast
    with assms(1,2,4) True that [of es1] show ?thesis by (simp add: migrate_raw_def CURRENT_SESSION_VERSION_def mop_simps)
  next
    case False
    with assms(1,2,4) that [of entries] show ?thesis by (simp add: migrate_raw_def CURRENT_SESSION_VERSION_def mop_simps)
  qed
  have "list_ex raw_header es0" using assms(3) es0(2) by (metis (no_types, lifting) list_ex_iff imageE image_eqI list.set_map)
  then obtain h where h: "find raw_header es0 = Some h"
    by (cases "find raw_header es0") (auto simp: find_None_iff list_ex_iff)
  have "find raw_header (migrateV2ToV3 xs) = map_option (\<lambda>h. om_set h ''version'' (JNum 3)) (find raw_header xs)" for xs
    by (induction xs) (auto simp: migrateV2ToV3_def raw_header_rename, auto simp: raw_header_def)
  with h have "raw_version es = Some 3" by (simp add: es0(1) raw_version_def)
  then show ?thesis by (simp add: migrate_raw_def CURRENT_SESSION_VERSION_def mret_def)
qed

section \<open>A header that is too long\<close>

text \<open>
  The text of a header whose working directory is long: the buffer of \<open>readSessionHeader\<close> ends inside the
  directory, so that the line does not parse and the file counts as no session.
\<close>

definition plain_char :: "char \<Rightarrow> bool" where
  "plain_char c \<longleftrightarrow> c \<noteq> dquote \<and> c \<noteq> bslash \<and> 32 \<le> code_of c"

lemma parse_chars_unterminated: "list_all plain_char s \<Longrightarrow> parse_chars s = None"
  by (induction s) (auto simp: plain_char_def add_char_def)

lemma plain_no_newline: "list_all plain_char s \<Longrightarrow> \<not> list_ex is_newline s"
  by (induction s) (auto simp: plain_char_def is_newline_def)

lemma plain_stringify: "list_all plain_char s \<Longrightarrow> concat (map escape_char s) = s"
  by (induction s) (auto simp: plain_char_def escape_char_def)

definition members_before :: "(string \<times> json) list \<Rightarrow> string \<Rightarrow> string" where
  "members_before fs k = concat (map (\<lambda>(k, v). quote_string k @ '':'' @ stringify v @ '','') fs) @ quote_string k @ '':'' @ [dquote]"

lemma commas_members:
  assumes "list_all plain_char s"
  shows "\<exists>rest. commas (map (\<lambda>(k, v). quote_string k @ '':'' @ stringify v) (fs @ (k, JStr s) # extra)) =
    members_before fs k @ s @ dquote # rest"
proof (induction fs)
  case Nil
  then show ?case
    by (simp add: commas_Cons members_before_def quote_string_def [of s] plain_stringify [OF assms])
next
  case (Cons f fs)
  then show ?case by (cases f) (auto simp: commas_Cons members_before_def)
qed

lemma parse_members_cut:
  assumes "\<forall>(k, v) \<in> set fs. parses v" "list_all plain_char s" "length (members_before fs k) \<le> n"
  shows "parse_members n acc (members_before fs k @ s) = None"
  using assms(1,3)
proof (induction fs arbitrary: n acc)
  case Nil
  have quoted: "parse_value m (dquote # s) = None" for m
    using letters_plain(12,13) by (cases m) (auto simp: skip_ws_nonspace parse_chars_unterminated [OF assms(2)])
  show ?case
    by (cases n) (simp_all add: members_before_def quote_string_def skip_ws_nonspace parse_chars_quoted quoted)
next
  case (Cons f fs)
  obtain j v where f: "f = (j, v)" by (cases f)
  from Cons.prems(2) obtain m where n: "n = Suc (Suc m)" "length (stringify v) \<le> m"
    by (cases n; cases "n - 1") (auto simp: members_before_def quote_string_def f)
  have pv: "parse_value (Suc m) (stringify v @ rs) = Some (v, rs)" if "ends rs" for rs
    using Cons.prems(1) n(2) that f by (auto simp: parses_def)
  have le: "length (members_before fs k) \<le> Suc m" using Cons.prems(2) n by (simp add: members_before_def f)
  have rest: "parse_members (Suc m) (om_set acc j v) (members_before fs k @ s) = None"
    using Cons.IH [OF _ le] Cons.prems(1) by auto
  have eq: "members_before (f # fs) k @ s = quote_string j @ CHR '':'' # stringify v @ CHR '','' # members_before fs k @ s"
    by (simp add: members_before_def f)
  show ?case
    unfolding eq n(1)
    using pv [of "CHR '','' # members_before fs k @ s"] rest
    by (simp add: skip_ws_nonspace quote_string_def parse_chars_quoted del: parse_members.simps(2))
       (simp add: skip_ws_nonspace parse_chars_quoted)
qed

lemma long_header_unread:
  assumes "\<forall>(k, v) \<in> set fs. json_wf v" "list_all plain_char cwd" "length (members_before fs k) < HEADER_BUFFER"
    and "HEADER_BUFFER \<le> length (members_before fs k) + length cwd"
  shows "readSessionHeader (stringify (JObj (fs @ (k, JStr cwd) # extra)) @ entries) = None"
proof -
  let ?start = "CHR ''{'' # members_before fs k"
  obtain rest where eq: "stringify (JObj (fs @ (k, JStr cwd) # extra)) = ?start @ cwd @ dquote # rest"
    using commas_members [OF assms(2), of fs k extra] by auto
  let ?n = "HEADER_BUFFER - length ?start"
  have cut: "take HEADER_BUFFER (?start @ cwd @ dquote # rest @ entries) = ?start @ take ?n cwd"
    using assms(3,4) by (simp add: take_Cons')
  have plain: "list_all plain_char (take ?n cwd)" using assms(2) by (metis append_take_drop_id list_all_append)
  have "\<not> list_ex is_newline (?start @ cwd @ dquote # rest)"
    using stringify_one_line [of "JObj (fs @ (k, JStr cwd) # extra)"] by (simp only: eq) simp
  then have "\<not> list_ex is_newline (?start @ take ?n cwd)"
    using plain_no_newline [OF plain] by simp
  then have line: "hd (split_lines (?start @ take ?n cwd)) = ?start @ take ?n cwd"
    by (metis list.sel(1) newline_index_ex newline_index_None)
  have st: "starts_value (members_before fs k @ x)" for x
    using starts_value_quote by (cases fs) (auto simp: members_before_def)
  have "parse_value (Suc n) (?start @ take ?n cwd) = None" if "length (members_before fs k) \<le> n" for n
    using parse_members_cut [OF _ plain that, of "[]"] assms(1) parses_all starts_not_close(2) [OF st] skip_ws_starts [OF st]
    by (auto simp: skip_ws_nonspace split_beta)
  then have "json_parse (?start @ take ?n cwd) = None" by (simp add: json_parse_def del: parse_value.simps)
  then show ?thesis
    unfolding readSessionHeader_def eq append_assoc append_Cons [symmetric] Let_def
    using cut line by (simp only: append_assoc append_Cons) simp
qed

end
