(* ===== verification/Session_Listing.thy ===== *)
theory Session_Listing
  imports Session_Migration
begin

text \<open>
  Lists of sessions (\<open>coding-agent/src/core/session-manager.ts\<close>): what a list shows of a file
  (\<open>buildSessionInfo\<close>), on the entries that its lines hold, and the loading of many files with at most ten
  at a time. Dates are read by a function of the caller, which gives \<open>None\<close> for what is not a date.
\<close>

section \<open>What a list shows of a file\<close>

definition str_field :: "string \<Rightarrow> json \<Rightarrow> string option" where
  "str_field k v = (case field_of k v of Some (JStr s) \<Rightarrow> Some s | _ \<Rightarrow> None)"

definition isMessageWithContent :: "json \<Rightarrow> bool" where
  "isMessageWithContent msg \<longleftrightarrow> is_string (field_of ''role'' msg) \<and> field_of ''content'' msg \<noteq> None"

text \<open>Content that is neither text nor a list makes the reading of the file fail (\<open>None\<close>).\<close>

definition extractTextContent :: "json \<Rightarrow> string option" where
  "extractTextContent msg =
     (case field_of ''content'' msg of
        Some (JStr s) \<Rightarrow> Some s
      | Some (JArr blocks) \<Rightarrow>
          Some (join_with '' '' (map (\<lambda>b. nullish (str_field ''text'' b) [])
            (filter (\<lambda>b. field_of ''type'' b = Some (JStr ''text'')) blocks)))
      | _ \<Rightarrow> None)"

definition chat_role :: "json \<Rightarrow> bool" where
  "chat_role msg \<longleftrightarrow> str_field ''role'' msg = Some ''user'' \<or> str_field ''role'' msg = Some ''assistant''"

definition getMessageActivityTime :: "(string \<Rightarrow> int option) \<Rightarrow> json \<Rightarrow> json \<Rightarrow> int option" where
  "getMessageActivityTime date entry msg =
     (if \<not> isMessageWithContent msg \<or> \<not> chat_role msg then None
      else case field_of ''timestamp'' msg of
          Some (JNum t) \<Rightarrow> Some t
        | _ \<Rightarrow> Option.bind (str_field ''timestamp'' entry) date)"

record info_state =
  is_name :: "string option"
  is_count :: nat
  is_first :: string
  is_texts :: "string list"
  is_activity :: "int option"

text \<open>One entry after the header.\<close>

definition info_step :: "(string \<Rightarrow> int option) \<Rightarrow> json \<Rightarrow> info_state \<Rightarrow> info_state option" where
  "info_step date entry st =
     (if field_of ''type'' entry = Some (JStr ''session_info'') then
        case field_of ''name'' entry of
          None \<Rightarrow> Some (st\<lparr>is_name := None\<rparr>)
        | Some JNull \<Rightarrow> Some (st\<lparr>is_name := None\<rparr>)
        | Some (JStr n) \<Rightarrow> Some (st\<lparr>is_name := (if trim n = [] then None else Some (trim n))\<rparr>)
        | Some _ \<Rightarrow> None
      else if field_of ''type'' entry \<noteq> Some (JStr ''message'') then Some st
      else case field_of ''message'' entry of
          None \<Rightarrow> None
        | Some JNull \<Rightarrow> None
        | Some msg \<Rightarrow>
            let st = st\<lparr>is_count := Suc (is_count st)\<rparr>;
              st = (case getMessageActivityTime date entry msg of
                  Some t \<Rightarrow> st\<lparr>is_activity := Some (max (nullish (is_activity st) 0) t)\<rparr> | None \<Rightarrow> st)
            in if \<not> isMessageWithContent msg \<or> \<not> chat_role msg then Some st
               else case extractTextContent msg of
                   None \<Rightarrow> None
                 | Some s \<Rightarrow>
                     if s = [] then Some st
                     else Some (st\<lparr>is_texts := is_texts st @ [s],
                       is_first := (if is_first st = [] \<and> str_field ''role'' msg = Some ''user'' then s else is_first st)\<rparr>))"

fun info_steps :: "(string \<Rightarrow> int option) \<Rightarrow> json list \<Rightarrow> info_state \<Rightarrow> info_state option" where
  "info_steps date [] st = Some st"
| "info_steps date (e # es) st = Option.bind (info_step date e st) (info_steps date es)"

record session_info =
  si_path :: string
  si_id :: "json option"
  si_cwd :: string
  si_name :: "string option"
  si_parentSessionPath :: "json option"
  si_modified :: int
  si_messageCount :: nat
  si_firstMessage :: string
  si_allMessagesText :: string

definition initial_info :: info_state where
  "initial_info = \<lparr>is_name = None, is_count = 0, is_first = [], is_texts = [], is_activity = None\<rparr>"

text \<open>The file as the entries of its lines; \<open>mtime\<close> is its time of modification.\<close>

definition buildSessionInfo :: "(string \<Rightarrow> int option) \<Rightarrow> string \<Rightarrow> int \<Rightarrow> json list \<Rightarrow> session_info option" where
  "buildSessionInfo date path mtime entries =
     (case filter json_truthy entries of
        [] \<Rightarrow> None
      | header # es \<Rightarrow>
          if field_of ''type'' header \<noteq> Some (JStr ''session'') then None
          else map_option (\<lambda>st.
            let modified = (case is_activity st of
                Some t \<Rightarrow> if t > 0 then t else nullish (Option.bind (str_field ''timestamp'' header) date) mtime
              | None \<Rightarrow> nullish (Option.bind (str_field ''timestamp'' header) date) mtime)
            in \<lparr>si_path = path, si_id = field_of ''id'' header, si_cwd = nullish (str_field ''cwd'' header) [],
                si_name = is_name st, si_parentSessionPath = field_of ''parentSession'' header, si_modified = modified,
                si_messageCount = is_count st,
                si_firstMessage = (if is_first st = [] then ''(no messages)'' else is_first st),
                si_allMessagesText = join_with '' '' (is_texts st)\<rparr>)
            (info_steps date es initial_info))"

text \<open>The count is that of the messages, whatever they hold.\<close>

lemma info_step_count:
  "info_step date e st = Some st' \<Longrightarrow>
     is_count st' = is_count st + (if field_of ''type'' e = Some (JStr ''message'') then 1 else 0)"
  by (auto simp: info_step_def Let_def split: if_splits option.splits json.splits)

lemma info_steps_count:
  "info_steps date es st = Some st' \<Longrightarrow>
     is_count st' = is_count st + length (filter (\<lambda>e. field_of ''type'' e = Some (JStr ''message'')) es)"
  by (induction es arbitrary: st) (auto dest: info_step_count split: Option.bind_splits)

lemma buildSessionInfo_count:
  assumes "buildSessionInfo date path mtime (h # es) = Some info" "list_all json_truthy (h # es)"
  shows "si_messageCount info = length (filter (\<lambda>e. field_of ''type'' e = Some (JStr ''message'')) es)"
proof -
  have "filter json_truthy (h # es) = h # es" using assms(2) by (simp add: list_all_iff)
  with assms(1) show ?thesis
    by (auto simp: buildSessionInfo_def Let_def initial_info_def dest!: info_steps_count split: if_splits)
qed

text \<open>The name is that of the last entry that sets it.\<close>

lemma info_step_name:
  "info_step date e st = Some st' \<Longrightarrow> field_of ''type'' e \<noteq> Some (JStr ''session_info'') \<Longrightarrow> is_name st' = is_name st"
  by (auto simp: info_step_def Let_def split: if_splits option.splits json.splits)

lemma info_steps_append:
  "info_steps date (xs @ ys) st = Option.bind (info_steps date xs st) (info_steps date ys)"
  by (induction xs arbitrary: st) (auto split: Option.bind_split)

lemma info_steps_name:
  "info_steps date es st = Some st' \<Longrightarrow> \<forall>e \<in> set es. field_of ''type'' e \<noteq> Some (JStr ''session_info'') \<Longrightarrow>
     is_name st' = is_name st"
  by (induction es arbitrary: st) (auto dest: info_step_name split: Option.bind_splits)

lemma last_name_wins:
  assumes "info_steps date (xs @ e # ys) st = Some st'" "field_of ''type'' e = Some (JStr ''session_info'')"
    "field_of ''name'' e = Some (JStr n)" "\<forall>e \<in> set ys. field_of ''type'' e \<noteq> Some (JStr ''session_info'')"
  shows "is_name st' = (if trim n = [] then None else Some (trim n))"
  using assms(1) info_steps_name [OF _ assms(4), of date]
  by (auto simp: info_steps_append info_step_def assms(2,3) split: Option.bind_splits)

section \<open>Loading many files\<close>

definition MAX_CONCURRENT_SESSION_INFO_LOADS :: nat where
  "MAX_CONCURRENT_SESSION_INFO_LOADS = 10"

text \<open>
  The state of \<open>buildSessionInfosWithConcurrency\<close>: the next file, the files being read, what has been found.
  A reading that throws gives \<open>null\<close>, and a file without a name is not read.
\<close>

record load_state =
  ld_next :: nat
  ld_inFlight :: "nat set"
  ld_results :: "session_info option list"
  ld_loaded :: nat

definition load_start :: "string list \<Rightarrow> load_state" where
  "load_start files = \<lparr>ld_next = 0, ld_inFlight = {}, ld_results = replicate (length files) None, ld_loaded = 0\<rparr>"

inductive load_step :: "(string \<Rightarrow> session_info option) \<Rightarrow> string list \<Rightarrow> load_state \<Rightarrow> load_state \<Rightarrow> bool"
  for load :: "string \<Rightarrow> session_info option" and files :: "string list" where
  start: "ld_next s < length files \<Longrightarrow> card (ld_inFlight s) < MAX_CONCURRENT_SESSION_INFO_LOADS \<Longrightarrow>
     load_step load files s (s\<lparr>ld_next := Suc (ld_next s),
       ld_inFlight := (if files ! ld_next s = [] then ld_inFlight s else insert (ld_next s) (ld_inFlight s))\<rparr>)"
| finish: "i \<in> ld_inFlight s \<Longrightarrow>
     load_step load files s (s\<lparr>ld_results := (ld_results s)[i := load (files ! i)],
       ld_inFlight := ld_inFlight s - {i}, ld_loaded := Suc (ld_loaded s)\<rparr>)"

text \<open>The outer loop ends when every file was started and none is being read.\<close>

definition load_over :: "string list \<Rightarrow> load_state \<Rightarrow> bool" where
  "load_over files s \<longleftrightarrow> ld_next s \<ge> length files \<and> ld_inFlight s = {}"

definition load_result :: "(string \<Rightarrow> session_info option) \<Rightarrow> string \<Rightarrow> session_info option" where
  "load_result load f = (if f = [] then None else load f)"

definition load_inv :: "(string \<Rightarrow> session_info option) \<Rightarrow> string list \<Rightarrow> load_state \<Rightarrow> bool" where
  "load_inv load files s \<longleftrightarrow> ld_next s \<le> length files \<and> ld_inFlight s \<subseteq> {..<ld_next s} \<and>
     card (ld_inFlight s) \<le> MAX_CONCURRENT_SESSION_INFO_LOADS \<and> length (ld_results s) = length files \<and>
     (\<forall>i < ld_next s. i \<notin> ld_inFlight s \<longrightarrow> ld_results s ! i = load_result load (files ! i)) \<and>
     (\<forall>i \<in> ld_inFlight s. files ! i \<noteq> []) \<and>
     (\<forall>i < length files. ld_next s \<le> i \<longrightarrow> ld_results s ! i = None)"

lemma load_inv_start: "load_inv load files (load_start files)"
  by (simp add: load_inv_def load_start_def)

lemma load_inv_step: "load_step load files s s' \<Longrightarrow> load_inv load files s \<Longrightarrow> load_inv load files s'"
proof (induction rule: load_step.induct)
  case (start s)
  have fin: "finite (ld_inFlight s)" using start by (auto simp: load_inv_def intro: finite_subset)
  show ?case
    using start fin by (auto simp: load_inv_def load_result_def card_insert_if less_Suc_eq)
next
  case (finish i s)
  have fin: "finite (ld_inFlight s)" using finish by (auto simp: load_inv_def intro: finite_subset)
  have "card (ld_inFlight s - {i}) \<le> card (ld_inFlight s)" using fin by (simp add: card_Diff_singleton_if)
  with finish show ?case by (auto simp: load_inv_def load_result_def nth_list_update)
qed

lemma load_inv_reachable: "(load_step load files)\<^sup>*\<^sup>* (load_start files) s \<Longrightarrow> load_inv load files s"
  by (induction rule: rtranclp_induct) (auto intro: load_inv_start load_inv_step)

text \<open>Never more than ten files at once; the result is that of reading the files one after the other.\<close>

lemma loads_bounded: "(load_step load files)\<^sup>*\<^sup>* (load_start files) s \<Longrightarrow> card (ld_inFlight s) \<le> 10"
  using load_inv_reachable by (fastforce simp: load_inv_def MAX_CONCURRENT_SESSION_INFO_LOADS_def)

lemma loads_all:
  assumes "(load_step load files)\<^sup>*\<^sup>* (load_start files) s" "load_over files s"
  shows "ld_results s = map (load_result load) files"
  using load_inv_reachable [OF assms(1)] assms(2)
  by (intro nth_equalityI) (auto simp: load_inv_def load_over_def)

text \<open>The loop is not stuck before it is over, and every step brings the end nearer.\<close>

lemma load_progress:
  assumes "(load_step load files)\<^sup>*\<^sup>* (load_start files) s" "\<not> load_over files s"
  shows "\<exists>s'. load_step load files s s'"
proof (cases "ld_inFlight s = {}")
  case True
  then have "ld_next s < length files" using assms(2) by (simp add: load_over_def)
  then show ?thesis using True load_step.start [of s files] by (auto simp: MAX_CONCURRENT_SESSION_INFO_LOADS_def)
next
  case False
  then show ?thesis using load_step.finish by blast
qed

definition load_measure :: "string list \<Rightarrow> load_state \<Rightarrow> nat" where
  "load_measure files s = 2 * (length files - ld_next s) + card (ld_inFlight s)"

lemma load_decreases:
  assumes "load_step load files s s'" "load_inv load files s"
  shows "load_measure files s' < load_measure files s"
proof -
  have fin: "finite (ld_inFlight s)" using assms(2) by (auto simp: load_inv_def intro: finite_subset)
  from assms(1) show ?thesis
  proof cases
    case start
    with fin show ?thesis by (auto simp: load_measure_def card_insert_if)
  next
    case (finish i)
    then have "card (ld_inFlight s - {i}) < card (ld_inFlight s)" using fin by (intro card_Diff1_less)
    with finish show ?thesis by (simp add: load_measure_def)
  qed
qed

end
