(* ===== verification/Rpc_Process.thy ===== *)
theory Rpc_Process
  imports Lines
begin

text \<open>
  The process of an instance as the orchestrator sees it (\<open>orchestrator/src/rpc-process.ts\<close>): requests with
  identifiers, answers and events on its output, its exit. What waits for an answer is a value of type
  \<open>'k\<close>, a listener of the exit one of type \<open>'l\<close>, and what waits for the exit one of type \<open>'w\<close>.
\<close>

section \<open>State\<close>

record ('k, 'l, 'w) rpc_process =
  rp_exited :: bool
  rp_nextRequestId :: nat
  rp_pendingRequests :: "(string, 'k) omap"
  rp_exitListeners :: "'l list"
  rp_uiRequestHandler :: bool
  rp_disposers :: "'w list"

definition new_process :: "('k, 'l, 'w) rpc_process" where
  "new_process = \<lparr>rp_exited = False, rp_nextRequestId = 0, rp_pendingRequests = [], rp_exitListeners = [],
     rp_uiRequestHandler = False, rp_disposers = []\<rparr>"

text \<open>What a line of output makes happen.\<close>

datatype 'k rpc_action =
    Resolve 'k json
  | UiRequest json
  | SessionEvent json

section \<open>Operations\<close>

definition NOT_RUNNING :: string where
  "NOT_RUNNING = ''RPC process is not running''"

text \<open>
  \<open>send\<close> throws when the process is gone; otherwise the request, which is written to the process, waits for
  its answer under its identifier.
\<close>

definition rpc_send ::
  "string option \<Rightarrow> string \<Rightarrow> 'k \<Rightarrow> ('k, 'l, 'w) rpc_process \<Rightarrow> string + ('k, 'l, 'w) rpc_process \<times> string" where
  "rpc_send given uuid k p =
     (if rp_exited p then Inl NOT_RUNNING
      else case given of
          Some i \<Rightarrow> Inr (p\<lparr>rp_pendingRequests := om_set (rp_pendingRequests p) i k\<rparr>, i)
        | None \<Rightarrow>
            let n = Suc (rp_nextRequestId p); i = ''orchestrator_'' @ show_nat n @ ''_'' @ uuid
            in Inr (p\<lparr>rp_nextRequestId := n, rp_pendingRequests := om_set (rp_pendingRequests p) i k\<rparr>, i))"

text \<open>The callback of the write: an error takes the request back and rejects it.\<close>

definition rpc_write_failed ::
  "string \<Rightarrow> ('k, 'l, 'w) rpc_process \<Rightarrow> ('k, 'l, 'w) rpc_process \<times> 'k option" where
  "rpc_write_failed i p = (p\<lparr>rp_pendingRequests := om_delete (rp_pendingRequests p) i\<rparr>, om_get (rp_pendingRequests p) i)"

text \<open>\<open>handleLine\<close> on the parsed line; reading a property of \<open>null\<close> throws (\<open>None\<close>).\<close>

definition handle_value ::
  "json \<Rightarrow> ('k, 'l, 'w) rpc_process \<Rightarrow> (('k, 'l, 'w) rpc_process \<times> 'k rpc_action list) option" where
  "handle_value v p =
     (if v = JNull then None
      else if field_of ''type'' v = Some (JStr ''response'') then
        case field_of ''id'' v of
          Some (JStr i) \<Rightarrow>
            if i = [] then Some (p, [])
            else (case om_get (rp_pendingRequests p) i of
                None \<Rightarrow> Some (p, [])
              | Some k \<Rightarrow> Some (p\<lparr>rp_pendingRequests := om_delete (rp_pendingRequests p) i\<rparr>, [Resolve k v]))
        | _ \<Rightarrow> Some (p, [])
      else if field_of ''type'' v = Some (JStr ''extension_ui_request'') then
        Some (p, if rp_uiRequestHandler p then [UiRequest v] else [])
      else Some (p, [SessionEvent v]))"

definition handleLine ::
  "string \<Rightarrow> ('k, 'l, 'w) rpc_process \<Rightarrow> (('k, 'l, 'w) rpc_process \<times> 'k rpc_action list) option" where
  "handleLine line p = Option.bind (json_parse line) (\<lambda>v. handle_value v p)"

text \<open>
  The loop over the buffer on a chunk of output. A line that throws ends the orchestrator, since nothing
  catches it (\<open>uncaughtException\<close> in \<open>serve.ts\<close>): from then on the state is \<open>None\<close>.
\<close>

type_synonym ('k, 'l, 'w) reading = "(('k, 'l, 'w) rpc_process \<times> 'k rpc_action list) option"

definition read_line :: "string \<Rightarrow> ('k, 'l, 'w) reading \<Rightarrow> ('k, 'l, 'w) reading" where
  "read_line raw r =
     (let line = trim raw in
      if line = [] then r
      else Option.bind r (\<lambda>(p, acts). map_option (\<lambda>(p, more). (p, acts @ more)) (handleLine line p)))"

function stdout_loop :: "string \<Rightarrow> ('k, 'l, 'w) reading \<Rightarrow> string \<times> ('k, 'l, 'w) reading" where
  "stdout_loop buffer r =
     (case newline_index buffer of
        None \<Rightarrow> (buffer, r)
      | Some i \<Rightarrow> stdout_loop (drop (Suc i) buffer) (read_line (take i buffer) r))"
  by pat_completeness auto
termination
  by (relation "measure (\<lambda>(b, _). length b)") (auto dest: newline_index_le)

declare stdout_loop.simps [simp del]

definition on_stdout :: "string \<Rightarrow> string \<times> ('k, 'l, 'w) reading \<Rightarrow> string \<times> ('k, 'l, 'w) reading" where
  "on_stdout chunk st = (case st of (buffer, r) \<Rightarrow> stdout_loop (buffer @ chunk) r)"

text \<open>
  The exit (or an error of the process): everything pending is rejected, the listeners are told, and those
  who dispose of the process go on.
\<close>

definition rpc_exit :: "('k, 'l, 'w) rpc_process \<Rightarrow> ('k, 'l, 'w) rpc_process \<times> 'k list \<times> 'l list \<times> 'w list" where
  "rpc_exit p = (p\<lparr>rp_exited := True, rp_pendingRequests := [], rp_disposers := []\<rparr>,
     om_values (rp_pendingRequests p), rp_exitListeners p, rp_disposers p)"

text \<open>\<open>dispose\<close>: the rejected requests, and whether it is done at once or waits for the exit.\<close>

definition rpc_dispose :: "'w \<Rightarrow> ('k, 'l, 'w) rpc_process \<Rightarrow> ('k, 'l, 'w) rpc_process \<times> 'k list \<times> bool" where
  "rpc_dispose waiter p =
     (let q = p\<lparr>rp_uiRequestHandler := False, rp_pendingRequests := []\<rparr> in
      if rp_exited p then (q, om_values (rp_pendingRequests p), True)
      else (q\<lparr>rp_disposers := rp_disposers q @ [waiter]\<rparr>, om_values (rp_pendingRequests p), False))"

section \<open>Reading output in chunks\<close>

lemma stdout_loop_lines:
  "stdout_loop b r = (last (split_lines b), fold read_line (butlast (split_lines b)) r)"
proof (induction b r rule: stdout_loop.induct)
  case (1 b r)
  show ?case
  proof (cases "newline_index b")
    case None
    then show ?thesis using newline_index_None [of b] by (simp add: stdout_loop.simps [of b])
  next
    case (Some i)
    then show ?thesis using "1.IH" [OF Some] newline_index_Some [OF Some] by (simp add: stdout_loop.simps [of b])
  qed
qed

interpretation stdout: line_reader on_stdout read_line
  by unfold_locales (simp add: on_stdout_def stdout_loop_lines)

lemma output_chunks:
  "concat chunks = concat chunks' \<Longrightarrow> fold on_stdout chunks ([], r) = fold on_stdout chunks' ([], r)"
  by (rule stdout.chunks_do_not_matter)

text \<open>One line that is not JSON, in a complete line anywhere, ends the orchestrator.\<close>

lemma fold_read_None: "fold read_line ls None = None"
  by (induction ls) (auto simp: read_line_def Let_def)

lemma bad_line_ends_all:
  assumes "trim l \<noteq> []" "json_parse (trim l) = None" "\<not> list_ex is_newline l" "\<not> list_ex is_newline before"
  shows "snd (on_stdout (before @ newline @ l @ newline @ rest) ([], r)) = None"
proof -
  have "split_lines (before @ newline @ l @ newline @ rest) = before # l # split_lines rest"
    using assms(3,4) by (simp add: split_lines_line)
  moreover have "read_line l x = None" for x :: "('a, 'b, 'c) reading"
    using assms(1,2) by (cases x) (auto simp: read_line_def handleLine_def Let_def)
  ultimately show ?thesis by (simp add: on_stdout_def stdout_loop_lines fold_read_None)
qed

section \<open>Requests and answers\<close>

definition rpc_ok :: "('k, 'l, 'w) rpc_process \<Rightarrow> bool" where
  "rpc_ok p \<longleftrightarrow> om_wf (rp_pendingRequests p) \<and> (rp_exited p \<longrightarrow> rp_pendingRequests p = [] \<and> rp_disposers p = [])"

lemma rpc_ok_new [simp]: "rpc_ok new_process"
  by (simp add: rpc_ok_def new_process_def)

lemma rpc_ok_send: "rpc_ok p \<Longrightarrow> rpc_send g u k p = Inr (p', i) \<Longrightarrow> rpc_ok p' \<and> om_get (rp_pendingRequests p') i = Some k"
  by (auto simp: rpc_ok_def rpc_send_def Let_def split: if_splits option.splits)

lemma rpc_ok_write_failed: "rpc_ok p \<Longrightarrow> rpc_ok (fst (rpc_write_failed i p))"
  by (auto simp: rpc_ok_def rpc_write_failed_def om_delete_def intro: om_wf_delete [unfolded om_delete_def])

lemma rpc_ok_handle: "rpc_ok p \<Longrightarrow> handle_value v p = Some (p', acts) \<Longrightarrow> rpc_ok p'"
  by (auto simp: rpc_ok_def handle_value_def om_delete_def intro: om_wf_delete [unfolded om_delete_def]
      split: if_splits option.splits json.splits)

lemma rpc_ok_exit: "rpc_ok (fst (rpc_exit p))"
  by (simp add: rpc_ok_def rpc_exit_def)

lemma rpc_ok_dispose: "rpc_ok p \<Longrightarrow> rpc_ok (fst (rpc_dispose w p))"
  by (simp add: rpc_ok_def rpc_dispose_def Let_def)

text \<open>An answer settles the request with its identifier, once: a second answer does nothing.\<close>

lemma answer_settles_once:
  assumes "rpc_ok p" "om_get (rp_pendingRequests p) i = Some k" "i \<noteq> []" "field_of ''type'' v = Some (JStr ''response'')"
    "field_of ''id'' v = Some (JStr i)"
  shows "\<exists>p'. handle_value v p = Some (p', [Resolve k v]) \<and> om_get (rp_pendingRequests p') i = None \<and>
    handle_value v p' = Some (p', []) \<and> (\<forall>j. j \<noteq> i \<longrightarrow> om_get (rp_pendingRequests p') j = om_get (rp_pendingRequests p) j)"
  using assms by (auto simp: handle_value_def field_of_def split: json.splits)

text \<open>After the exit nothing is pending, and further requests throw.\<close>

lemma exit_settles_all:
  "rpc_exit p = (p', ks, ls, ws) \<Longrightarrow> rp_pendingRequests p' = [] \<and> rpc_send g u k p' = Inl NOT_RUNNING \<and>
     ks = om_values (rp_pendingRequests p)"
  by (auto simp: rpc_exit_def rpc_send_def)

end
