(* ===== verification/Instance_Supervisor.thy ===== *)
theory Instance_Supervisor
  imports Rpc_Process
begin

text \<open>
  The instances of the orchestrator: their file (\<open>orchestrator/src/storage.ts\<close>) and the supervisor
  (\<open>supervisor.ts\<close>) as steps of the event loop. A step handles one event from outside (a request, output or
  exit of a process, a signal) or resumes one function whose promise is settled; promises are resumed
  before the next event. A live object is named by the identifier of its instance, since identifiers are
  random and an instance has one object in each run of the orchestrator.
\<close>

section \<open>The file of instances\<close>

datatype instance_status = InstStarting | InstOnline | InstStopping | InstStopped | InstError

record instance_record =
  ir_id :: string
  ir_status :: instance_status
  ir_cwd :: string
  ir_createdAt :: string
  ir_lastSeenAt :: "string option"
  ir_label :: "string option"
  ir_sessionId :: "string option"
  ir_sessionFile :: "string option"

definition getInstance :: "string \<Rightarrow> instance_record list \<Rightarrow> instance_record option" where
  "getInstance i rs = find (\<lambda>r. ir_id r = i) rs"

fun upsertInstance :: "instance_record \<Rightarrow> instance_record list \<Rightarrow> instance_record list" where
  "upsertInstance r [] = [r]"
| "upsertInstance r (x # xs) = (if ir_id x = ir_id r then r # xs else x # upsertInstance r xs)"

definition removeInstance :: "string \<Rightarrow> instance_record list \<Rightarrow> instance_record list" where
  "removeInstance i rs = filter (\<lambda>r. ir_id r \<noteq> i) rs"

text \<open>What the supervisor relies on: a store with keys.\<close>

locale keyed_store =
  fixes key :: "'r \<Rightarrow> 'k" and get :: "'k \<Rightarrow> 's \<Rightarrow> 'r option" and put :: "'r \<Rightarrow> 's \<Rightarrow> 's" and del :: "'k \<Rightarrow> 's \<Rightarrow> 's"
    and ok :: "'s \<Rightarrow> bool"
  assumes ok_put: "ok s \<Longrightarrow> ok (put r s)" and ok_del: "ok s \<Longrightarrow> ok (del i s)"
    and get_put: "get i (put r s) = (if i = key r then Some r else get i s)"
    and get_del: "ok s \<Longrightarrow> get i (del j s) = (if i = j then None else get i s)"
begin

text \<open>The store has what a view says of some keys.\<close>

definition agrees :: "'s \<Rightarrow> ('k \<Rightarrow> 'r option) \<Rightarrow> 'k set \<Rightarrow> bool" where
  "agrees s view ks \<longleftrightarrow> (\<forall>k \<in> ks. \<exists>r. view k = Some r \<and> get k s = Some r)"

lemma agrees_put: "agrees s view ks \<Longrightarrow> view' = view(key r \<mapsto> r) \<Longrightarrow> ks' \<subseteq> insert (key r) ks \<Longrightarrow> agrees (put r s) view' ks'"
  by (auto simp: agrees_def get_put)

lemma agrees_del: "ok s \<Longrightarrow> agrees s view ks \<Longrightarrow> ks' \<subseteq> ks - {i} \<Longrightarrow> agrees (del i s) view ks'"
  by (auto simp: agrees_def get_del)

lemma agrees_view: "agrees s view ks \<Longrightarrow> ks' \<subseteq> ks \<Longrightarrow> (\<And>k. k \<in> ks' \<Longrightarrow> view' k = view k) \<Longrightarrow> agrees s view' ks'"
  by (auto simp: agrees_def)

end

lemma upsert_ids: "ir_id ` set (upsertInstance r rs) = insert (ir_id r) (ir_id ` set rs)"
  by (induction r rs rule: upsertInstance.induct) auto

interpretation instances: keyed_store ir_id getInstance upsertInstance removeInstance "\<lambda>rs. distinct (map ir_id rs)"
proof unfold_locales
  fix s :: "instance_record list" and r i j
  show "distinct (map ir_id s) \<Longrightarrow> distinct (map ir_id (upsertInstance r s))"
  proof (induction s)
    case (Cons x xs)
    then show ?case using upsert_ids [of r xs] by (auto simp flip: set_map)
  qed simp
  show "distinct (map ir_id s) \<Longrightarrow> distinct (map ir_id (removeInstance i s))"
    by (simp add: removeInstance_def distinct_map_filter)
  show "getInstance i (upsertInstance r s) = (if i = ir_id r then Some r else getInstance i s)"
    by (induction r s rule: upsertInstance.induct) (auto simp: getInstance_def)
  show "getInstance i (removeInstance j s) = (if i = j then None else getInstance i s)"
    by (induction s) (auto simp: getInstance_def removeInstance_def)
qed

section \<open>State\<close>

record live_instance =
  li_record :: instance_record
  li_process :: "nat option"
  li_sessionId :: "string option"
  li_subscribers :: "nat list"
  li_onUiRequest :: "nat option"

text \<open>What is sent to a client.\<close>

datatype reply =
    InstanceReply instance_record
  | UnknownInstance
  | RpcReply json
  | Thrown string
  | EventReply json
  | UiReply json

text \<open>
  Where a function waits: for an answer of its process, or for the exit of the process it disposes of. A
  client is a number; the loops of recovery and shutdown are in the state.
\<close>

datatype waiting =
    SpawnSync nat string
  | RecoverSwitch string
  | RecoverSync string
  | RpcAnswer nat string bool
  | RpcSync nat string json

datatype disposing =
    StopWait "nat option" string
  | SpawnFailWait nat string string
  | RecoverFailWait string
  | ShutdownWait string

datatype settled =
    Settled waiting "string + json"
  | Disposed disposing

type_synonym instance_process = "(waiting, string, disposing) rpc_process"

record supervisor =
  sv_store :: "instance_record list"
  sv_live :: "string list"
  sv_objects :: "string \<Rightarrow> live_instance option"
  sv_processes :: "nat \<Rightarrow> instance_process"
  sv_processCount :: nat
  sv_canSpawn :: "nat \<Rightarrow> bool"
  sv_uuids :: "nat \<Rightarrow> string"
  sv_uuidCount :: nat
  sv_settled :: "settled list"
  sv_recovering :: "instance_record list"
  sv_closing :: "(bool \<times> string list) option"
  sv_replies :: "(nat \<times> reply) list"

section \<open>Records and bindings\<close>

definition send_reply :: "nat \<Rightarrow> reply \<Rightarrow> supervisor \<Rightarrow> supervisor" where
  "send_reply c r sv = sv\<lparr>sv_replies := sv_replies sv @ [(c, r)]\<rparr>"

definition with_object :: "string \<Rightarrow> (live_instance \<Rightarrow> live_instance) \<Rightarrow> supervisor \<Rightarrow> supervisor" where
  "with_object i f sv = (case sv_objects sv i of None \<Rightarrow> sv | Some o1 \<Rightarrow> sv\<lparr>sv_objects := (sv_objects sv)(i \<mapsto> f o1)\<rparr>)"

text \<open>A change of the record of a live object that is also written to the file.\<close>

definition change_record :: "string \<Rightarrow> (instance_record \<Rightarrow> instance_record) \<Rightarrow> supervisor \<Rightarrow> supervisor" where
  "change_record i f sv =
     (case sv_objects sv i of
        None \<Rightarrow> sv
      | Some o1 \<Rightarrow>
          let r = f (li_record o1) in
          sv\<lparr>sv_objects := (sv_objects sv)(i \<mapsto> o1\<lparr>li_record := r\<rparr>), sv_store := upsertInstance r (sv_store sv)\<rparr>)"

definition setStatus :: "string \<Rightarrow> string \<Rightarrow> instance_status \<Rightarrow> supervisor \<Rightarrow> supervisor" where
  "setStatus now i st = change_record i (\<lambda>r. r\<lparr>ir_status := st, ir_lastSeenAt := Some now\<rparr>)"

text \<open>\<open>updateRecord\<close> with the session of the instance, or with nothing.\<close>

definition updateRecord :: "string \<Rightarrow> string \<Rightarrow> (string option \<times> string option) option \<Rightarrow> supervisor \<Rightarrow> supervisor" where
  "updateRecord now i updates sv =
     (case updates of
        None \<Rightarrow> change_record i (\<lambda>r. r\<lparr>ir_lastSeenAt := Some now\<rparr>) sv
      | Some (sid, file) \<Rightarrow>
          change_record i (\<lambda>r. r\<lparr>ir_sessionId := sid, ir_sessionFile := file, ir_lastSeenAt := Some now\<rparr>)
            (if sid \<noteq> None then with_object i (\<lambda>o1. o1\<lparr>li_sessionId := sid\<rparr>) sv else sv))"

definition with_process :: "nat \<Rightarrow> (instance_process \<Rightarrow> instance_process) \<Rightarrow> supervisor \<Rightarrow> supervisor" where
  "with_process p f sv = sv\<lparr>sv_processes := (sv_processes sv)(p := f (sv_processes sv p))\<rparr>"

definition process_of :: "string \<Rightarrow> supervisor \<Rightarrow> nat option" where
  "process_of i sv = Option.bind (sv_objects sv i) li_process"

definition clearBindings :: "string \<Rightarrow> supervisor \<Rightarrow> supervisor" where
  "clearBindings i sv =
     with_object i (\<lambda>o1. o1\<lparr>li_onUiRequest := None\<rparr>)
       (case process_of i sv of
          None \<Rightarrow> sv
        | Some p \<Rightarrow> with_process p (\<lambda>q. q\<lparr>rp_exitListeners := filter (\<lambda>j. j \<noteq> i) (rp_exitListeners q),
            rp_uiRequestHandler := False\<rparr>) sv)"

definition bindRpcProcess :: "string \<Rightarrow> nat \<Rightarrow> supervisor \<Rightarrow> supervisor" where
  "bindRpcProcess i p sv =
     with_process p (\<lambda>q. q\<lparr>rp_exitListeners := rp_exitListeners q @ [i], rp_uiRequestHandler := True\<rparr>)
       (with_object i (\<lambda>o1. o1\<lparr>li_process := Some p\<rparr>) (clearBindings i sv))"

definition delete_live :: "string \<Rightarrow> supervisor \<Rightarrow> supervisor" where
  "delete_live i sv = sv\<lparr>sv_live := filter (\<lambda>j. j \<noteq> i) (sv_live sv)\<rparr>"

definition instance_status_of :: "string \<Rightarrow> supervisor \<Rightarrow> instance_status option" where
  "instance_status_of i sv = map_option (\<lambda>o1. ir_status (li_record o1)) (sv_objects sv i)"

definition handleUnexpectedRpcExit :: "string \<Rightarrow> string \<Rightarrow> supervisor \<Rightarrow> supervisor" where
  "handleUnexpectedRpcExit now i sv =
     (if i \<notin> set (sv_live sv) then sv
      else if instance_status_of i sv = Some InstStopping \<or> instance_status_of i sv = Some InstStopped then sv
      else delete_live i (with_object i (\<lambda>o1. o1\<lparr>li_process := None\<rparr>) (clearBindings i (setStatus now i InstError sv))))"

section \<open>Asking and disposing\<close>

definition ask :: "nat \<Rightarrow> string option \<Rightarrow> waiting \<Rightarrow> supervisor \<Rightarrow> string + supervisor" where
  "ask p given k sv =
     (case rpc_send given (sv_uuids sv (sv_uuidCount sv)) k (sv_processes sv p) of
        Inl e \<Rightarrow> Inl e
      | Inr (q, _) \<Rightarrow> Inr ((with_process p (\<lambda>_. q) sv)\<lparr>sv_uuidCount := Suc (sv_uuidCount sv)\<rparr>))"

text \<open>\<open>syncInstanceRecord\<close> up to its first pause: whether it is done already.\<close>

definition begin_sync :: "string \<Rightarrow> string \<Rightarrow> waiting \<Rightarrow> supervisor \<Rightarrow> string + bool \<times> supervisor" where
  "begin_sync now i k sv =
     (case process_of i sv of
        None \<Rightarrow> Inr (True, updateRecord now i None sv)
      | Some p \<Rightarrow> (case ask p None k sv of Inl e \<Rightarrow> Inl e | Inr sv \<Rightarrow> Inr (False, sv)))"

definition opt_str :: "json option \<Rightarrow> string option" where
  "opt_str v = (case v of Some (JStr s) \<Rightarrow> Some s | _ \<Rightarrow> None)"

definition isGetStateSuccess :: "json \<Rightarrow> bool" where
  "isGetStateSuccess v \<longleftrightarrow> field_of ''success'' v = Some (JBool True) \<and> field_of ''command'' v = Some (JStr ''get_state'') \<and>
     field_of ''data'' v \<noteq> None"

definition sync_answer :: "string \<Rightarrow> string \<Rightarrow> json \<Rightarrow> supervisor \<Rightarrow> supervisor" where
  "sync_answer now i v sv =
     (if isGetStateSuccess v then
        let d = nullish (field_of ''data'' v) JNull
        in updateRecord now i (Some (opt_str (field_of ''sessionId'' d), opt_str (field_of ''sessionFile'' d))) sv
      else updateRecord now i None sv)"

definition DISPOSED :: string where
  "DISPOSED = ''RPC process disposed''"

text \<open>\<open>cleanupAcquiredResources\<close>: whether it is done at once, or the disposer waits for the exit.\<close>

definition cleanup :: "string \<Rightarrow> disposing \<Rightarrow> supervisor \<Rightarrow> supervisor \<times> bool" where
  "cleanup i d sv =
     (let sv1 = with_object i (\<lambda>o1. o1\<lparr>li_sessionId := None\<rparr>) (clearBindings i sv) in
      case process_of i sv of
        None \<Rightarrow> (sv1, True)
      | Some p \<Rightarrow>
          (case rpc_dispose d (sv_processes sv1 p) of (q, rejected, finished) \<Rightarrow>
             let sv2 = with_process p (\<lambda>_. q) (with_object i (\<lambda>o1. o1\<lparr>li_process := None\<rparr>) sv1)
             in (sv2\<lparr>sv_settled := sv_settled sv2 @ map (\<lambda>k. Settled k (Inl DISPOSED)) rejected\<rparr>, finished)))"

section \<open>Spawning\<close>

definition fail_spawn_done :: "string \<Rightarrow> nat \<Rightarrow> string \<Rightarrow> string \<Rightarrow> supervisor \<Rightarrow> supervisor" where
  "fail_spawn_done now c i e sv = send_reply c (Thrown e) (delete_live i (setStatus now i InstStopped sv))"

definition failSpawn :: "string \<Rightarrow> nat \<Rightarrow> string \<Rightarrow> string \<Rightarrow> supervisor \<Rightarrow> supervisor" where
  "failSpawn now c i e sv =
     (case cleanup i (SpawnFailWait c i e) (setStatus now i InstError sv) of
        (sv, finished) \<Rightarrow> if finished then fail_spawn_done now c i e sv else sv)"

definition reply_record :: "nat \<Rightarrow> string \<Rightarrow> supervisor \<Rightarrow> supervisor" where
  "reply_record c i sv =
     (case sv_objects sv i of None \<Rightarrow> sv | Some o1 \<Rightarrow> send_reply c (InstanceReply (li_record o1)) sv)"

definition spawn_online :: "string \<Rightarrow> nat \<Rightarrow> string \<Rightarrow> supervisor \<Rightarrow> supervisor" where
  "spawn_online now c i sv = reply_record c i (setStatus now i InstOnline sv)"

definition add_live :: "string \<Rightarrow> supervisor \<Rightarrow> supervisor" where
  "add_live i sv = sv\<lparr>sv_live := (if i \<in> set (sv_live sv) then sv_live sv else sv_live sv @ [i])\<rparr>"

definition make_live :: "instance_record \<Rightarrow> supervisor \<Rightarrow> supervisor" where
  "make_live r sv = add_live (ir_id r) (sv\<lparr>sv_objects := (sv_objects sv)(ir_id r \<mapsto>
     \<lparr>li_record = r, li_process = None, li_sessionId = None, li_subscribers = [], li_onUiRequest = None\<rparr>)\<rparr>)"

text \<open>\<open>createRpcProcessInstance\<close> and the binding; the world says which creations throw.\<close>

definition start_process :: "string \<Rightarrow> supervisor \<Rightarrow> supervisor option" where
  "start_process i sv =
     (let p = sv_processCount sv; sv1 = sv\<lparr>sv_processCount := Suc p\<rparr> in
      if sv_canSpawn sv p then Some (bindRpcProcess i p (with_process p (\<lambda>_. new_process) sv1)) else None)"

definition count_creation :: "supervisor \<Rightarrow> supervisor" where
  "count_creation sv = sv\<lparr>sv_processCount := Suc (sv_processCount sv)\<rparr>"

definition NO_STDIO :: string where
  "NO_STDIO = ''Failed to create RPC process stdio''"

definition spawnInstance :: "string \<Rightarrow> nat \<Rightarrow> string \<Rightarrow> string option \<Rightarrow> string \<Rightarrow> supervisor \<Rightarrow> supervisor" where
  "spawnInstance now c cwd label i sv =
     (let r = \<lparr>ir_id = i, ir_status = InstStarting, ir_cwd = cwd, ir_createdAt = now, ir_lastSeenAt = Some now,
          ir_label = label, ir_sessionId = None, ir_sessionFile = None\<rparr>;
        sv1 = make_live r sv; sv2 = sv1\<lparr>sv_store := upsertInstance r (sv_store sv1)\<rparr> in
      case start_process i sv2 of
        None \<Rightarrow> failSpawn now c i NO_STDIO (count_creation sv2)
      | Some sv3 \<Rightarrow>
          (case begin_sync now i (SpawnSync c i) sv3 of
             Inl e \<Rightarrow> failSpawn now c i e sv3
           | Inr (finished, sv4) \<Rightarrow> if finished then spawn_online now c i sv4 else sv4))"

section \<open>Stopping\<close>

definition stop_done :: "string \<Rightarrow> nat option \<Rightarrow> string \<Rightarrow> supervisor \<Rightarrow> supervisor" where
  "stop_done now c i sv =
     (case sv_objects sv i of
        None \<Rightarrow> sv
      | Some o1 \<Rightarrow>
          let r = (li_record o1)\<lparr>ir_status := InstStopped, ir_lastSeenAt := Some now\<rparr>;
            sv1 = (delete_live i sv)\<lparr>sv_objects := (sv_objects sv)(i \<mapsto> o1\<lparr>li_record := r\<rparr>),
              sv_store := removeInstance i (sv_store sv)\<rparr>
          in case c of None \<Rightarrow> sv1 | Some c \<Rightarrow> send_reply c (InstanceReply r) sv1)"

definition begin_stop :: "string \<Rightarrow> nat option \<Rightarrow> string \<Rightarrow> supervisor \<Rightarrow> supervisor \<times> bool" where
  "begin_stop now c i sv = cleanup i (StopWait c i) (setStatus now i InstStopping sv)"

definition stopInstance :: "string \<Rightarrow> nat \<Rightarrow> string \<Rightarrow> supervisor \<Rightarrow> supervisor" where
  "stopInstance now c i sv =
     (if i \<notin> set (sv_live sv) then send_reply c UnknownInstance sv
      else case begin_stop now (Some c) i sv of
          (sv, finished) \<Rightarrow> if finished then stop_done now (Some c) i sv else sv)"

section \<open>Requests to instances\<close>

text \<open>The commands after which the record is refreshed.\<close>

definition SESSION_METADATA_COMMANDS :: "string list" where
  "SESSION_METADATA_COMMANDS = [''new_session'', ''switch_session'', ''fork'', ''clone'', ''set_session_name'', ''prompt'']"

definition shouldRefreshSessionMetadata :: "json \<Rightarrow> bool" where
  "shouldRefreshSessionMetadata command =
     (case field_of ''type'' command of Some (JStr t) \<Rightarrow> t \<in> set SESSION_METADATA_COMMANDS | _ \<Rightarrow> False)"

definition ask_for :: "nat \<Rightarrow> string \<Rightarrow> nat \<Rightarrow> json \<Rightarrow> supervisor \<Rightarrow> supervisor" where
  "ask_for c i p command sv =
     (case ask p (opt_str (field_of ''id'' command)) (RpcAnswer c i (shouldRefreshSessionMetadata command)) sv of
        Inl e \<Rightarrow> send_reply c (Thrown e) sv
      | Inr sv \<Rightarrow> sv)"

definition handleRpc :: "nat \<Rightarrow> string \<Rightarrow> json \<Rightarrow> supervisor \<Rightarrow> supervisor" where
  "handleRpc c i command sv =
     (case (if i \<in> set (sv_live sv) then process_of i sv else None) of
        None \<Rightarrow> send_reply c UnknownInstance sv
      | Some p \<Rightarrow> ask_for c i p command sv)"

text \<open>A stream: its client is a subscriber and answers questions; its requests go to the process it began with.\<close>

definition openRpcStream :: "nat \<Rightarrow> string \<Rightarrow> supervisor \<Rightarrow> nat option \<times> supervisor" where
  "openRpcStream c i sv =
     (case (if i \<in> set (sv_live sv) then process_of i sv else None) of
        None \<Rightarrow> (None, sv)
      | Some p \<Rightarrow> (Some p, with_object i (\<lambda>o1. o1\<lparr>li_subscribers := List.insert c (li_subscribers o1), li_onUiRequest := Some c\<rparr>) sv))"

definition closeRpcStream :: "nat \<Rightarrow> string \<Rightarrow> supervisor \<Rightarrow> supervisor" where
  "closeRpcStream c i sv = with_object i (\<lambda>o1. o1\<lparr>li_subscribers := filter (\<lambda>d. d \<noteq> c) (li_subscribers o1),
     li_onUiRequest := (if li_onUiRequest o1 = Some c then None else li_onUiRequest o1)\<rparr>) sv"

definition deliver :: "(waiting rpc_action) \<Rightarrow> string list \<Rightarrow> supervisor \<Rightarrow> supervisor" where
  "deliver a bound sv =
     (case a of
        Resolve k v \<Rightarrow> sv\<lparr>sv_settled := sv_settled sv @ [Settled k (Inr v)]\<rparr>
      | SessionEvent v \<Rightarrow> fold (\<lambda>i sv. case sv_objects sv i of None \<Rightarrow> sv
          | Some o1 \<Rightarrow> fold (\<lambda>c. send_reply c (EventReply v)) (li_subscribers o1) sv) bound sv
      | UiRequest v \<Rightarrow> fold (\<lambda>i sv. case sv_objects sv i of None \<Rightarrow> sv
          | Some o1 \<Rightarrow> (case li_onUiRequest o1 of None \<Rightarrow> sv | Some c \<Rightarrow> send_reply c (UiReply v) sv)) bound sv)"

section \<open>Recovery\<close>

definition recover_failed :: "string \<Rightarrow> string \<Rightarrow> supervisor \<Rightarrow> supervisor \<times> bool" where
  "recover_failed now i sv =
     (case cleanup i (RecoverFailWait i) (setStatus now i InstError sv) of
        (sv, finished) \<Rightarrow> (if finished then delete_live i sv else sv, finished))"

definition switch_request :: "string \<Rightarrow> json" where
  "switch_request file = JObj [(''type'', JStr ''switch_session''), (''sessionPath'', JStr file)]"

text \<open>
  The first part of the body of the loop: the state after it, and \<open>None\<close> when the instance came online
  or failed without a pause, so that the loop goes on at once.
\<close>

definition recover_one :: "string \<Rightarrow> instance_record \<Rightarrow> supervisor \<Rightarrow> supervisor \<times> bool" where
  "recover_one now r sv =
     (let i = ir_id r; sv1 = make_live r sv in
      case start_process i sv1 of
        None \<Rightarrow> recover_failed now i (count_creation sv1)
      | Some sv2 \<Rightarrow>
          if truthy_str (ir_sessionFile r) then
            (case process_of i sv2 of
               None \<Rightarrow> recover_failed now i sv2
             | Some p \<Rightarrow> (case ask p None (RecoverSwitch i) sv2 of
                 Inl e \<Rightarrow> recover_failed now i sv2 | Inr sv3 \<Rightarrow> (sv3, False)))
          else
            (case begin_sync now i (RecoverSync i) sv2 of
               Inl e \<Rightarrow> recover_failed now i sv2
             | Inr (finished, sv3) \<Rightarrow> if finished then (setStatus now i InstOnline sv3, True) else (sv3, False)))"

fun recover_loop :: "string \<Rightarrow> instance_record list \<Rightarrow> supervisor \<Rightarrow> supervisor" where
  "recover_loop now [] sv = sv\<lparr>sv_recovering := []\<rparr>"
| "recover_loop now (r # rs) sv =
     (if ir_status r \<noteq> InstOnline \<and> ir_status r \<noteq> InstStarting then recover_loop now rs sv
      else case recover_one now r sv of
          (sv, finished) \<Rightarrow> if finished then recover_loop now rs sv else sv\<lparr>sv_recovering := rs\<rparr>)"

definition recover_on :: "string \<Rightarrow> supervisor \<Rightarrow> supervisor" where
  "recover_on now sv = recover_loop now (sv_recovering sv) sv"

definition recover_catch :: "string \<Rightarrow> string \<Rightarrow> supervisor \<Rightarrow> supervisor" where
  "recover_catch now i sv =
     (case recover_failed now i sv of (sv, finished) \<Rightarrow> if finished then recover_on now sv else sv)"

section \<open>Shutdown\<close>

definition shutdown_one :: "string \<Rightarrow> string \<Rightarrow> supervisor \<Rightarrow> supervisor" where
  "shutdown_one now i sv = delete_live i (setStatus now i InstStarting sv)"

fun shutdown_loop :: "string \<Rightarrow> bool \<Rightarrow> string list \<Rightarrow> supervisor \<Rightarrow> supervisor" where
  "shutdown_loop now preserve [] sv = sv\<lparr>sv_closing := None\<rparr>"
| "shutdown_loop now preserve (i # is) sv =
     (if \<not> preserve then
        (if i \<notin> set (sv_live sv) then shutdown_loop now preserve is sv
         else case begin_stop now None i sv of
             (sv, finished) \<Rightarrow> if finished then shutdown_loop now preserve is (stop_done now None i sv)
               else sv\<lparr>sv_closing := Some (preserve, is)\<rparr>)
      else case cleanup i (ShutdownWait i) sv of
          (sv, finished) \<Rightarrow> if finished then shutdown_loop now preserve is (shutdown_one now i sv)
            else sv\<lparr>sv_closing := Some (preserve, is)\<rparr>)"

definition shutdown_on :: "string \<Rightarrow> supervisor \<Rightarrow> supervisor" where
  "shutdown_on now sv = (case sv_closing sv of None \<Rightarrow> sv | Some (preserve, is) \<Rightarrow> shutdown_loop now preserve is sv)"

definition begin_shutdown :: "string \<Rightarrow> bool \<Rightarrow> supervisor \<Rightarrow> supervisor" where
  "begin_shutdown now preserve sv =
     (if sv_closing sv \<noteq> None then sv else shutdown_loop now preserve (sv_live sv) sv)"

section \<open>Settled promises\<close>

definition response_ok :: "json \<Rightarrow> bool" where
  "response_ok v \<longleftrightarrow> field_of ''success'' v = Some (JBool True)"

definition recover_online :: "string \<Rightarrow> string \<Rightarrow> supervisor \<Rightarrow> supervisor" where
  "recover_online now i sv = recover_on now (setStatus now i InstOnline sv)"

fun resume :: "string \<Rightarrow> waiting \<Rightarrow> string + json \<Rightarrow> supervisor \<Rightarrow> supervisor" where
  "resume now (SpawnSync c i) (Inl e) sv = failSpawn now c i e sv"
| "resume now (SpawnSync c i) (Inr v) sv = spawn_online now c i (sync_answer now i v sv)"
| "resume now (RecoverSwitch i) (Inl e) sv = recover_catch now i sv"
| "resume now (RecoverSwitch i) (Inr v) sv =
     (if \<not> response_ok v then recover_catch now i sv
      else case begin_sync now i (RecoverSync i) sv of
          Inl e \<Rightarrow> recover_catch now i sv
        | Inr (finished, sv) \<Rightarrow> if finished then recover_online now i sv else sv)"
| "resume now (RecoverSync i) (Inl e) sv = recover_catch now i sv"
| "resume now (RecoverSync i) (Inr v) sv = recover_online now i (sync_answer now i v sv)"
| "resume now (RpcAnswer c i refresh) (Inl e) sv = send_reply c (Thrown e) sv"
| "resume now (RpcAnswer c i refresh) (Inr v) sv =
     (if \<not> refresh then send_reply c (RpcReply v) sv
      else case begin_sync now i (RpcSync c i v) sv of
          Inl e \<Rightarrow> send_reply c (Thrown e) sv
        | Inr (finished, sv) \<Rightarrow> if finished then send_reply c (RpcReply v) sv else sv)"
| "resume now (RpcSync c i v) (Inl e) sv = send_reply c (Thrown e) sv"
| "resume now (RpcSync c i v) (Inr st) sv = send_reply c (RpcReply v) (sync_answer now i st sv)"

fun disposed :: "string \<Rightarrow> disposing \<Rightarrow> supervisor \<Rightarrow> supervisor" where
  "disposed now (StopWait c i) sv = (let sv = stop_done now c i sv in if c = None then shutdown_on now sv else sv)"
| "disposed now (SpawnFailWait c i e) sv = fail_spawn_done now c i e sv"
| "disposed now (RecoverFailWait i) sv = recover_on now (delete_live i sv)"
| "disposed now (ShutdownWait i) sv = shutdown_on now (shutdown_one now i sv)"

fun run_settled :: "string \<Rightarrow> settled \<Rightarrow> supervisor \<Rightarrow> supervisor" where
  "run_settled now (Settled k v) sv = resume now k v sv"
| "run_settled now (Disposed d) sv = disposed now d sv"

section \<open>Steps\<close>

definition EXITED :: string where
  "EXITED = ''RPC process exited''"

definition process_exit :: "string \<Rightarrow> nat \<Rightarrow> supervisor \<Rightarrow> supervisor" where
  "process_exit now p sv =
     (case rpc_exit (sv_processes sv p) of (q, rejected, listeners, disposers) \<Rightarrow>
        let sv1 = with_process p (\<lambda>_. q) sv;
          sv2 = sv1\<lparr>sv_settled := sv_settled sv1 @ map (\<lambda>k. Settled k (Inl EXITED)) rejected\<rparr>;
          sv3 = fold (handleUnexpectedRpcExit now) listeners sv2
        in sv3\<lparr>sv_settled := sv_settled sv3 @ map Disposed disposers\<rparr>)"

text \<open>A value that cannot be read ends the orchestrator, which shuts down.\<close>

definition process_output :: "string \<Rightarrow> nat \<Rightarrow> json \<Rightarrow> supervisor \<Rightarrow> supervisor" where
  "process_output now p v sv =
     (case handle_value v (sv_processes sv p) of
        None \<Rightarrow> begin_shutdown now True sv
      | Some (q, acts) \<Rightarrow>
          fold (\<lambda>a. deliver a (rp_exitListeners q)) acts (with_process p (\<lambda>_. q) sv))"

definition write_failed :: "nat \<Rightarrow> string \<Rightarrow> string \<Rightarrow> supervisor \<Rightarrow> supervisor" where
  "write_failed p i e sv =
     (case rpc_write_failed i (sv_processes sv p) of (q, k) \<Rightarrow>
        let sv1 = with_process p (\<lambda>_. q) sv in
        case k of None \<Rightarrow> sv1 | Some k \<Rightarrow> sv1\<lparr>sv_settled := sv_settled sv1 @ [Settled k (Inl e)]\<rparr>)"

text \<open>A new orchestrator on the file of the old one; the processes of the old one are not heard any more.\<close>

definition dead_process :: instance_process where
  "dead_process = (new_process :: instance_process)\<lparr>rp_exited := True\<rparr>"

definition sv_recoverAfterRestart :: "string \<Rightarrow> supervisor \<Rightarrow> supervisor" where
  "sv_recoverAfterRestart now sv =
     recover_loop now (sv_store sv) (sv\<lparr>sv_live := [], sv_objects := (\<lambda>_. None), sv_processes := (\<lambda>_. dead_process),
       sv_settled := [], sv_recovering := [], sv_closing := None, sv_replies := []\<rparr>)"

datatype sv_event =
    AskSpawn nat string "string option" string
  | AskStop nat string
  | AskRpc nat string json
  | AskStream nat string
  | StreamAsk nat string nat json
  | StreamClosed nat string
  | ProcessOutput nat json
  | ProcessWriteFailed nat string string
  | ProcessExit nat
  | AskShutdown bool
  | NewOrchestrator
  | NextSettled

fun sv_handle :: "string \<Rightarrow> sv_event \<Rightarrow> supervisor \<Rightarrow> supervisor" where
  "sv_handle now (AskSpawn c cwd label i) sv = spawnInstance now c cwd label i sv"
| "sv_handle now (AskStop c i) sv = stopInstance now c i sv"
| "sv_handle now (AskRpc c i command) sv = handleRpc c i command sv"
| "sv_handle now (AskStream c i) sv = snd (openRpcStream c i sv)"
| "sv_handle now (StreamAsk c i p command) sv = ask_for c i p command sv"
| "sv_handle now (StreamClosed c i) sv = closeRpcStream c i sv"
| "sv_handle now (ProcessOutput p v) sv = process_output now p v sv"
| "sv_handle now (ProcessWriteFailed p i e) sv = write_failed p i e sv"
| "sv_handle now (ProcessExit p) sv = process_exit now p sv"
| "sv_handle now (AskShutdown preserve) sv = begin_shutdown now preserve sv"
| "sv_handle now NewOrchestrator sv = sv_recoverAfterRestart now sv"
| "sv_handle now NextSettled sv =
     (case sv_settled sv of [] \<Rightarrow> sv | s # ss \<Rightarrow> run_settled now s (sv\<lparr>sv_settled := ss\<rparr>))"

text \<open>
  Promises that are settled come before the next event, except that the orchestrator may die at any time.
  The identifier of a new instance is random, so that no instance had it before.
\<close>

definition fresh_instance :: "sv_event \<Rightarrow> supervisor \<Rightarrow> bool" where
  "fresh_instance ev sv =
     (case ev of AskSpawn c cwd label i \<Rightarrow> sv_objects sv i = None \<and> getInstance i (sv_store sv) = None | _ \<Rightarrow> True)"

definition sv_step :: "string \<Rightarrow> sv_event \<Rightarrow> supervisor \<Rightarrow> supervisor option" where
  "sv_step now ev sv =
     (if sv_settled sv \<noteq> [] \<and> ev \<noteq> NextSettled \<and> ev \<noteq> NewOrchestrator \<or> \<not> fresh_instance ev sv then None else Some (sv_handle now ev sv))"

fun sv_run :: "(string \<times> sv_event) list \<Rightarrow> supervisor \<Rightarrow> supervisor option" where
  "sv_run [] sv = Some sv"
| "sv_run ((now, ev) # evs) sv = Option.bind (sv_step now ev sv) (sv_run evs)"

definition listInstances :: "supervisor \<Rightarrow> instance_record list" where
  "listInstances sv = sv_store sv"

definition sv_getInstance :: "string \<Rightarrow> supervisor \<Rightarrow> instance_record option" where
  "sv_getInstance i sv =
     (if i \<in> set (sv_live sv) then map_option li_record (sv_objects sv i) else getInstance i (sv_store sv))"

text \<open>Operations without a caller in the repository.\<close>

definition updateInstance :: "instance_record \<Rightarrow> supervisor \<Rightarrow> supervisor" where
  "updateInstance r sv =
     (let sv1 = (if ir_id r \<in> set (sv_live sv)
          then with_object (ir_id r) (\<lambda>o1. o1\<lparr>li_record := r, li_sessionId := ir_sessionId r\<rparr>) sv else sv)
      in sv1\<lparr>sv_store := upsertInstance r (sv_store sv1)\<rparr>)"

definition getLiveInstance :: "string \<Rightarrow> supervisor \<Rightarrow> instance_record option" where
  "getLiveInstance i sv = (if i \<in> set (sv_live sv) then map_option li_record (sv_objects sv i) else None)"

definition listLiveInstances :: "supervisor \<Rightarrow> instance_record list" where
  "listLiveInstances sv = List.map_filter (\<lambda>i. getLiveInstance i sv) (sv_live sv)"

section \<open>The file has the records of the live instances\<close>

definition record_of :: "supervisor \<Rightarrow> string \<Rightarrow> instance_record option" where
  "record_of sv = (\<lambda>i. map_option li_record (sv_objects sv i))"

definition sv_inv :: "supervisor \<Rightarrow> bool" where
  "sv_inv sv \<longleftrightarrow> distinct (map ir_id (sv_store sv)) \<and> distinct (sv_live sv) \<and>
     instances.agrees (sv_store sv) (record_of sv) (set (sv_live sv)) \<and>
     (\<forall>i r. record_of sv i = Some r \<longrightarrow> ir_id r = i)"

lemma sv_inv_same:
  "sv_store sv' = sv_store sv \<Longrightarrow> sv_live sv' = sv_live sv \<Longrightarrow> record_of sv' = record_of sv \<Longrightarrow> sv_inv sv' = sv_inv sv"
  by (simp add: sv_inv_def)

text \<open>What changes neither the file nor a record.\<close>

definition keeps_file :: "(supervisor \<Rightarrow> supervisor) \<Rightarrow> bool" where
  "keeps_file f \<longleftrightarrow> (\<forall>sv. sv_store (f sv) = sv_store sv \<and> sv_live (f sv) = sv_live sv \<and> record_of (f sv) = record_of sv)"

lemma quiet_inv: "keeps_file f \<Longrightarrow> sv_inv (f sv) = sv_inv sv"
  by (rule sv_inv_same) (simp_all add: keeps_file_def)

lemma quietD: "keeps_file f \<Longrightarrow> sv_store (f sv) = sv_store sv" "keeps_file f \<Longrightarrow> sv_live (f sv) = sv_live sv" "keeps_file f \<Longrightarrow> record_of (f sv) = record_of sv"
  by (simp_all add: keeps_file_def)

lemma quiet_comp: "keeps_file f \<Longrightarrow> keeps_file g \<Longrightarrow> keeps_file (\<lambda>sv. f (g sv))"
  by (simp add: keeps_file_def)

lemma quiet_fold:
  assumes "\<And>x. keeps_file (f x)"
  shows "keeps_file (fold f xs)"
proof (induction xs)
  case Nil
  show ?case by (simp add: keeps_file_def)
next
  case (Cons x xs)
  then show ?case using assms [of x] by (simp add: keeps_file_def)
qed

lemma quiet_with_object: "(\<And>o1. li_record (h o1) = li_record o1) \<Longrightarrow> keeps_file (with_object i h)"
  unfolding keeps_file_def
proof
  fix sv assume h: "\<And>o1. li_record (h o1) = li_record o1"
  show "sv_store (with_object i h sv) = sv_store sv \<and> sv_live (with_object i h sv) = sv_live sv \<and>
      record_of (with_object i h sv) = record_of sv"
    by (cases "sv_objects sv i") (simp_all add: with_object_def record_of_def fun_eq_iff h)
qed

lemma record_of_updates [simp]:
  "record_of (sv\<lparr>sv_settled := ss\<rparr>) = record_of sv" "record_of (sv\<lparr>sv_live := l\<rparr>) = record_of sv"
  "record_of (sv\<lparr>sv_store := st\<rparr>) = record_of sv" "record_of (sv\<lparr>sv_uuidCount := n\<rparr>) = record_of sv"
  "record_of (sv\<lparr>sv_processes := ps\<rparr>) = record_of sv" "record_of (sv\<lparr>sv_processCount := n\<rparr>) = record_of sv"
  by (simp_all add: record_of_def)

lemma quiet_id: "keeps_file (\<lambda>sv. sv)"
  by (simp add: keeps_file_def)

lemma quiet_basic:
  "keeps_file (send_reply c r)" "keeps_file (with_process p g)" "keeps_file count_creation"
  "keeps_file (\<lambda>sv. sv\<lparr>sv_settled := ss sv\<rparr>)" "keeps_file (\<lambda>sv. sv\<lparr>sv_closing := cl\<rparr>)"
  "keeps_file (\<lambda>sv. sv\<lparr>sv_recovering := rs\<rparr>)"
  by (simp_all add: keeps_file_def send_reply_def with_process_def count_creation_def record_of_def)

lemma sv_inv_id: "sv_inv sv \<Longrightarrow> sv_objects sv i = Some o1 \<Longrightarrow> ir_id (li_record o1) = i"
  unfolding sv_inv_def record_of_def by (metis option.map(2))

lemma sv_invI:
  "distinct (map ir_id (sv_store sv)) \<Longrightarrow> distinct (sv_live sv) \<Longrightarrow>
     instances.agrees (sv_store sv) (record_of sv) (set (sv_live sv)) \<Longrightarrow>
     (\<And>i o1. sv_objects sv i = Some o1 \<Longrightarrow> ir_id (li_record o1) = i) \<Longrightarrow> sv_inv sv"
  unfolding sv_inv_def record_of_def by auto

lemma sv_invD:
  "sv_inv sv \<Longrightarrow> distinct (map ir_id (sv_store sv))" "sv_inv sv \<Longrightarrow> distinct (sv_live sv)"
  "sv_inv sv \<Longrightarrow> instances.agrees (sv_store sv) (record_of sv) (set (sv_live sv))"
  by (simp_all add: sv_inv_def)

lemma change_record_inv:
  assumes "sv_inv sv" "\<And>r. ir_id (f r) = ir_id r"
  shows "sv_inv (change_record i f sv)"
proof (cases "sv_objects sv i")
  case None
  with assms show ?thesis by (simp add: change_record_def)
next
  case (Some o1)
  let ?r = "f (li_record o1)"
  have i: "ir_id ?r = i" using assms(2) sv_inv_id [OF assms(1) Some] by simp
  let ?sv = "sv\<lparr>sv_objects := (sv_objects sv)(i \<mapsto> o1\<lparr>li_record := ?r\<rparr>), sv_store := upsertInstance ?r (sv_store sv)\<rparr>"
  have "record_of ?sv = (record_of sv)(ir_id ?r \<mapsto> ?r)" by (simp add: record_of_def fun_eq_iff i)
  then have "instances.agrees (sv_store ?sv) (record_of ?sv) (set (sv_live sv))"
    using instances.agrees_put [OF sv_invD(3) [OF assms(1)] _ subset_insertI, of "record_of ?sv" ?r] by simp
  moreover have "ir_id (li_record o2) = j" if "sv_objects ?sv j = Some o2" for j o2
    using that sv_inv_id [OF assms(1)] i by (auto split: if_splits)
  ultimately have "sv_inv ?sv"
    using sv_invD(1,2) [OF assms(1)] instances.ok_put [of "sv_store sv" ?r] by (intro sv_invI) simp_all
  then show ?thesis by (simp add: change_record_def Some Let_def)
qed

lemma updateInstance_inv:
  assumes inv: "sv_inv sv"
  shows "sv_inv (updateInstance r sv)"
proof -
  let ?i = "ir_id r" and ?sv = "updateInstance r sv"
  have view: "record_of ?sv = (if ?i \<in> set (sv_live sv) then (record_of sv)(?i \<mapsto> r) else record_of sv)"
    using sv_invD(3) [OF inv]
    by (fastforce simp: updateInstance_def Let_def with_object_def record_of_def instances.agrees_def split: option.split)
  have fields: "sv_store ?sv = upsertInstance r (sv_store sv)" "sv_live ?sv = sv_live sv"
    by (auto simp: updateInstance_def Let_def with_object_def split: option.split)
  have "instances.agrees (sv_store ?sv) (record_of ?sv) (set (sv_live ?sv))"
    using sv_invD(3) [OF inv] by (auto simp: view fields instances.agrees_def instances.get_put)
  moreover have "ir_id (li_record o1) = j" if "sv_objects ?sv j = Some o1" for j o1
    using that sv_inv_id [OF inv] by (auto simp: updateInstance_def Let_def with_object_def split: option.splits if_splits)
  ultimately show ?thesis
    using sv_invD(1,2) [OF inv] instances.ok_put [of "sv_store sv" r] by (intro sv_invI) (simp_all add: fields)
qed

lemma setStatus_inv: "sv_inv sv \<Longrightarrow> sv_inv (setStatus now i st sv)"
  unfolding setStatus_def by (rule change_record_inv) simp_all

lemma updateRecord_inv: "sv_inv sv \<Longrightarrow> sv_inv (updateRecord now i u sv)"
proof -
  assume inv: "sv_inv sv"
  have s: "keeps_file (with_object i (\<lambda>o1. o1\<lparr>li_sessionId := sid\<rparr>))" for sid by (rule quiet_with_object) simp
  have "sv_inv (with_object i (\<lambda>o1. o1\<lparr>li_sessionId := sid\<rparr>) sv)" for sid using quiet_inv [OF s] inv by simp
  with inv show ?thesis
    by (auto simp: updateRecord_def intro!: change_record_inv split: option.split)
qed

lemma delete_live_inv: "sv_inv sv \<Longrightarrow> sv_inv (delete_live i sv)"
proof -
  assume inv: "sv_inv sv"
  have "instances.agrees (sv_store sv) (record_of sv) (set (filter (\<lambda>j. j \<noteq> i) (sv_live sv)))"
    by (rule instances.agrees_view [OF sv_invD(3) [OF inv]]) auto
  then show ?thesis
    using sv_invD(1,2) [OF inv] sv_inv_id [OF inv] by (intro sv_invI) (simp_all add: delete_live_def)
qed

lemma quiet_clearBindings: "keeps_file (clearBindings i)"
proof -
  have s: "keeps_file (with_object i (\<lambda>o1. o1\<lparr>li_onUiRequest := None\<rparr>))" by (rule quiet_with_object) simp
  show ?thesis
    unfolding keeps_file_def clearBindings_def by (simp add: quietD [OF s] quietD [OF quiet_basic(2)] split: option.split)
qed

lemma quiet_bind: "keeps_file (bindRpcProcess i p)"
proof -
  have s: "keeps_file (with_object i (\<lambda>o1. o1\<lparr>li_process := Some p\<rparr>))" by (rule quiet_with_object) simp
  show ?thesis
    unfolding keeps_file_def bindRpcProcess_def by (simp add: quietD [OF s] quietD [OF quiet_basic(2)] quietD [OF quiet_clearBindings])
qed

lemma handleUnexpectedRpcExit_inv: "sv_inv sv \<Longrightarrow> sv_inv (handleUnexpectedRpcExit now i sv)"
proof -
  assume inv: "sv_inv sv"
  have s: "keeps_file (with_object i (\<lambda>o1. o1\<lparr>li_process := None\<rparr>))" by (rule quiet_with_object) simp
  have "sv_inv (clearBindings i (setStatus now i InstError sv))"
    using quiet_inv [OF quiet_clearBindings] setStatus_inv [OF inv] by simp
  then have "sv_inv (with_object i (\<lambda>o1. o1\<lparr>li_process := None\<rparr>) (clearBindings i (setStatus now i InstError sv)))"
    using quiet_inv [OF s] by simp
  with inv show ?thesis by (simp add: handleUnexpectedRpcExit_def delete_live_inv)
qed

lemma ask_inv: "ask p g k sv = Inr sv' \<Longrightarrow> sv_inv sv \<Longrightarrow> sv_inv sv'"
  using sv_inv_same [of sv' sv]
  by (auto simp: ask_def with_process_def split: sum.splits prod.splits)

lemma begin_sync_inv: "begin_sync now i k sv = Inr (b, sv') \<Longrightarrow> sv_inv sv \<Longrightarrow> sv_inv sv'"
  by (auto simp: begin_sync_def updateRecord_inv dest: ask_inv split: option.splits sum.splits)

lemma sync_answer_inv: "sv_inv sv \<Longrightarrow> sv_inv (sync_answer now i v sv)"
  by (simp add: sync_answer_def updateRecord_inv Let_def)

lemma cleanup_quiet: "keeps_file (\<lambda>sv. fst (cleanup i d sv))"
proof -
  have s: "keeps_file (with_object i (\<lambda>o1. o1\<lparr>li_sessionId := None\<rparr>))" "keeps_file (with_object i (\<lambda>o1. o1\<lparr>li_process := None\<rparr>))"
    by (rule quiet_with_object; simp)+
  show ?thesis
    unfolding keeps_file_def
    by (auto simp: cleanup_def Let_def quietD [OF s(1)] quietD [OF s(2)] quietD [OF quiet_clearBindings] quietD [OF quiet_basic(2)]
        quietD [OF quiet_basic(4)] split: option.split prod.split)
qed

lemma cleanup_inv: "cleanup i d sv = (sv', b) \<Longrightarrow> sv_inv sv \<Longrightarrow> sv_inv sv'"
  using quiet_inv [OF cleanup_quiet, of i d sv] by simp

section \<open>Every step keeps the file in step\<close>

text \<open>Functions on existing objects: they keep the agreement and touch no other instance of the file.\<close>

definition fine :: "supervisor \<Rightarrow> supervisor \<Rightarrow> bool" where
  "fine sv sv' \<longleftrightarrow> (sv_inv sv \<longrightarrow> sv_inv sv' \<and> dom (sv_objects sv') = dom (sv_objects sv) \<and>
     (\<forall>i. sv_objects sv i = None \<longrightarrow> getInstance i (sv_store sv') = getInstance i (sv_store sv)) \<and>
     sv_recovering sv' = sv_recovering sv)"

lemma fine_refl [simp]: "fine sv sv"
  by (simp add: fine_def)

lemma fine_trans: "fine sv sv' \<Longrightarrow> fine sv' sv'' \<Longrightarrow> fine sv sv''"
  unfolding fine_def by (metis domIff)

lemma fine_quiet: "keeps_file f \<Longrightarrow> dom (sv_objects (f sv)) = dom (sv_objects sv) \<Longrightarrow> sv_recovering (f sv) = sv_recovering sv \<Longrightarrow> fine sv (f sv)"
  using quiet_inv [of f sv] by (simp add: fine_def quietD)

lemma dom_with_object [simp]: "dom (sv_objects (with_object i h sv)) = dom (sv_objects sv)"
  by (cases "sv_objects sv i") (auto simp: with_object_def)

lemma recovering_with [simp]:
  "sv_recovering (with_object i h sv) = sv_recovering sv" "sv_recovering (with_process p g sv) = sv_recovering sv"
  "sv_objects (with_process p g sv) = sv_objects sv"
  by (simp_all add: with_object_def with_process_def split: option.split)

lemma clearBindings_fields [simp]:
  "dom (sv_objects (clearBindings i sv)) = dom (sv_objects sv)" "sv_recovering (clearBindings i sv) = sv_recovering sv"
  by (simp_all add: clearBindings_def split: option.split)

lemma fine_clearBindings: "fine sv (clearBindings i sv)"
  by (rule fine_quiet [OF quiet_clearBindings]) simp_all

lemma fine_bind: "fine sv (bindRpcProcess i p sv)"
  by (rule fine_quiet [OF quiet_bind]) (simp_all add: bindRpcProcess_def)

lemma fine_with_object: "(\<And>o1. li_record (h o1) = li_record o1) \<Longrightarrow> fine sv (with_object i h sv)"
  by (rule fine_quiet [OF quiet_with_object]) simp_all

lemma fine_with_process: "fine sv (with_process p g sv)"
  by (rule fine_quiet [OF quiet_basic(2)]) simp_all

lemma fine_send_reply: "fine sv (send_reply c r sv)"
  by (rule fine_quiet [OF quiet_basic(1)]) (simp_all add: send_reply_def)

lemma fine_settled: "fine sv (sv\<lparr>sv_settled := ss\<rparr>)"
  using fine_quiet [OF quiet_basic(4) [of "\<lambda>_. ss"], of sv] by simp

lemma fine_closing: "fine sv (sv\<lparr>sv_closing := cl\<rparr>)"
  using fine_quiet [OF quiet_basic(5) [of cl], of sv] by simp

lemma fine_count: "fine sv (count_creation sv)"
  using fine_quiet [OF quiet_basic(3), of sv] by (simp add: count_creation_def)

lemma fine_change_record:
  assumes f: "\<And>r. ir_id (f r) = ir_id r"
  shows "fine sv (change_record i f sv)"
  unfolding fine_def
proof (intro impI conjI)
  assume inv: "sv_inv sv"
  show "sv_inv (change_record i f sv)" by (rule change_record_inv [OF inv f])
  show "dom (sv_objects (change_record i f sv)) = dom (sv_objects sv)" "sv_recovering (change_record i f sv) = sv_recovering sv"
    by (auto simp: change_record_def Let_def split: option.split)
  show "\<forall>j. sv_objects sv j = None \<longrightarrow> getInstance j (sv_store (change_record i f sv)) = getInstance j (sv_store sv)"
    using sv_inv_id [OF inv] f by (auto simp: change_record_def Let_def instances.get_put split: option.split)
qed

lemma fine_setStatus: "fine sv (setStatus now i st sv)"
  unfolding setStatus_def by (rule fine_change_record) simp

lemma fine_updateRecord: "fine sv (updateRecord now i u sv)"
proof (cases u)
  case None
  then show ?thesis by (simp add: updateRecord_def fine_change_record)
next
  case (Some su)
  obtain sid path where su: "su = (sid, path)" by (cases su)
  let ?sv = "if sid \<noteq> None then with_object i (\<lambda>o1. o1\<lparr>li_sessionId := sid\<rparr>) sv else sv"
  have "fine sv ?sv" by (simp add: fine_with_object)
  moreover have "fine ?sv (updateRecord now i u sv)" by (simp add: updateRecord_def Some su fine_change_record)
  ultimately show ?thesis by (rule fine_trans)
qed

lemma fine_delete_live: "fine sv (delete_live i sv)"
  using delete_live_inv [of sv i] by (simp add: fine_def) (simp add: delete_live_def)

lemma fine_sync_answer: "fine sv (sync_answer now i v sv)"
  by (simp add: sync_answer_def Let_def fine_updateRecord)

lemma fine_handleUnexpected: "fine sv (handleUnexpectedRpcExit now i sv)"
  unfolding handleUnexpectedRpcExit_def
  by (auto intro!: fine_trans [OF fine_setStatus fine_trans [OF fine_clearBindings fine_trans [OF fine_with_object fine_delete_live]]])

lemma fine_ask: "ask p g k sv = Inr sv' \<Longrightarrow> fine sv sv'"
  using ask_inv [of p g k sv sv'] by (auto simp: fine_def ask_def with_process_def split: sum.splits prod.splits)

lemma fine_begin_sync: "begin_sync now i k sv = Inr (b, sv') \<Longrightarrow> fine sv sv'"
  by (auto simp: begin_sync_def fine_updateRecord dest: fine_ask split: option.splits sum.splits)

lemma fine_cleanup: "cleanup i d sv = (sv', b) \<Longrightarrow> fine sv sv'"
  using fine_quiet [OF cleanup_quiet, of i d sv]
  by (auto simp: cleanup_def Let_def split: option.splits prod.splits)

lemma fine_stop_done: "fine sv (stop_done now c i sv)"
proof (cases "sv_objects sv i")
  case None
  then show ?thesis by (simp add: stop_done_def)
next
  case (Some o1)
  let ?r = "(li_record o1)\<lparr>ir_status := InstStopped, ir_lastSeenAt := Some now\<rparr>"
  let ?sv = "(delete_live i sv)\<lparr>sv_objects := (sv_objects sv)(i \<mapsto> o1\<lparr>li_record := ?r\<rparr>), sv_store := removeInstance i (sv_store sv)\<rparr>"
  have "fine sv ?sv"
    unfolding fine_def
  proof (intro impI conjI)
    assume inv: "sv_inv sv"
    have live: "set (sv_live ?sv) = set (sv_live sv) - {i}" by (auto simp: delete_live_def)
    have "instances.agrees (sv_store ?sv) (record_of sv) (set (sv_live ?sv))"
      using instances.agrees_del [OF sv_invD(1,3) [OF inv], of "set (sv_live ?sv)" i] live by simp
    then have "instances.agrees (sv_store ?sv) (record_of ?sv) (set (sv_live ?sv))"
      by (rule instances.agrees_view) (use live in \<open>auto simp: record_of_def delete_live_def\<close>)
    then show "sv_inv ?sv"
      using sv_invD(1,2) [OF inv] sv_inv_id [OF inv] Some instances.ok_del [of "sv_store sv" i]
      by (intro sv_invI) (auto simp: delete_live_def split: if_splits)
    show "dom (sv_objects ?sv) = dom (sv_objects sv)" using Some by auto
    show "\<forall>j. sv_objects sv j = None \<longrightarrow> getInstance j (sv_store ?sv) = getInstance j (sv_store sv)"
      using Some instances.get_del [OF sv_invD(1) [OF inv]] by auto
    show "sv_recovering ?sv = sv_recovering sv" by (simp add: delete_live_def)
  qed
  then show ?thesis
    by (auto simp: stop_done_def Some Let_def intro: fine_trans [OF _ fine_send_reply] split: option.split)
qed

lemma fine_fail_spawn_done: "fine sv (fail_spawn_done now c i e sv)"
  unfolding fail_spawn_done_def by (intro fine_trans [OF fine_setStatus fine_trans [OF fine_delete_live fine_send_reply]])

lemma fine_failSpawn: "fine sv (failSpawn now c i e sv)"
  by (auto simp: failSpawn_def intro: fine_trans [OF fine_setStatus] fine_trans [OF fine_trans [OF fine_setStatus] fine_fail_spawn_done]
      dest!: fine_cleanup split: prod.split)

lemma fine_reply_record: "fine sv (reply_record c i sv)"
  by (auto simp: reply_record_def fine_send_reply split: option.split)

lemma fine_spawn_online: "fine sv (spawn_online now c i sv)"
  unfolding spawn_online_def by (rule fine_trans [OF fine_setStatus fine_reply_record])

lemma fine_begin_stop: "begin_stop now c i sv = (sv', b) \<Longrightarrow> fine sv sv'"
  unfolding begin_stop_def by (erule fine_trans [OF fine_setStatus fine_cleanup])

lemma fine_stopInstance: "fine sv (stopInstance now c i sv)"
  by (auto simp: stopInstance_def fine_send_reply intro: fine_trans [OF _ fine_stop_done] dest: fine_begin_stop split: prod.split)

lemma fine_ask_for: "fine sv (ask_for c i p command sv)"
  by (auto simp: ask_for_def fine_send_reply dest: fine_ask split: sum.split)

lemma fine_handleRpc: "fine sv (handleRpc c i command sv)"
  by (auto simp: handleRpc_def fine_send_reply fine_ask_for split: option.split)

lemma fine_streams: "fine sv (snd (openRpcStream c i sv))" "fine sv (closeRpcStream c i sv)"
  by (auto simp: openRpcStream_def closeRpcStream_def intro!: fine_with_object split: option.split)

lemma fine_fold: "(\<And>x sv. fine sv (f x sv)) \<Longrightarrow> fine sv (fold f xs sv)"
  by (induction xs arbitrary: sv) (auto intro: fine_trans)

lemma fine_deliver: "fine sv (deliver a bound sv)"
  by (cases a) (auto simp: deliver_def fine_settled fine_send_reply intro!: fine_fold split: option.split)

lemma fine_shutdown_one: "fine sv (shutdown_one now i sv)"
  unfolding shutdown_one_def by (rule fine_trans [OF fine_setStatus fine_delete_live])

lemma fine_shutdown_loop: "fine sv (shutdown_loop now preserve is sv)"
proof (induction "is" arbitrary: sv)
  case (Cons i "is")
  obtain sv1 b1 where stop: "begin_stop now None i sv = (sv1, b1)" by (cases "begin_stop now None i sv")
  obtain sv2 b2 where clean: "cleanup i (ShutdownWait i) sv = (sv2, b2)" by (cases "cleanup i (ShutdownWait i) sv")
  have 1: "fine sv sv1" by (rule fine_begin_stop [OF stop])
  have 2: "fine sv sv2" by (rule fine_cleanup [OF clean])
  have "fine sv (shutdown_loop now preserve is (stop_done now None i sv1))"
    by (rule fine_trans [OF 1 fine_trans [OF fine_stop_done Cons]])
  moreover have "fine sv (shutdown_loop now preserve is (shutdown_one now i sv2))"
    by (rule fine_trans [OF 2 fine_trans [OF fine_shutdown_one Cons]])
  moreover have "fine sv (sv1\<lparr>sv_closing := Some (preserve, is)\<rparr>)" "fine sv (sv2\<lparr>sv_closing := Some (preserve, is)\<rparr>)"
    by (rule fine_trans [OF 1 fine_closing], rule fine_trans [OF 2 fine_closing])
  ultimately show ?case using Cons [of sv] by (cases preserve) (simp_all add: stop clean)
qed (simp add: fine_closing)

lemma fine_shutdown_on: "fine sv (shutdown_on now sv)"
  by (auto simp: shutdown_on_def fine_shutdown_loop split: option.split)

lemma fine_begin_shutdown: "fine sv (begin_shutdown now preserve sv)"
  by (simp add: begin_shutdown_def fine_shutdown_loop)

lemma fine_recover_failed: "recover_failed now i sv = (sv', b) \<Longrightarrow> fine sv sv'"
  by (auto simp: recover_failed_def intro: fine_trans [OF fine_trans [OF fine_setStatus fine_cleanup] fine_delete_live]
      fine_trans [OF fine_setStatus fine_cleanup] split: prod.splits if_splits)

lemma fine_process_exit: "fine sv (process_exit now p sv)"
proof -
  obtain q ks ls ws where e: "rpc_exit (sv_processes sv p) = (q, ks, ls, ws)" by (metis prod_cases4)
  let ?sv1 = "with_process p (\<lambda>_. q) sv"
  let ?sv2 = "?sv1\<lparr>sv_settled := sv_settled ?sv1 @ map (\<lambda>k. Settled k (Inl EXITED)) ks\<rparr>"
  let ?sv3 = "fold (handleUnexpectedRpcExit now) ls ?sv2"
  have "fine sv ?sv2" by (rule fine_trans [OF fine_with_process fine_settled])
  moreover have "fine ?sv2 ?sv3" by (rule fine_fold [OF fine_handleUnexpected])
  ultimately have "fine sv (?sv3\<lparr>sv_settled := sv_settled ?sv3 @ map Disposed ws\<rparr>)"
    using fine_settled fine_trans by blast
  then show ?thesis by (simp add: process_exit_def e Let_def)
qed

lemma fine_process_output: "fine sv (process_output now p v sv)"
  by (auto simp: process_output_def fine_begin_shutdown intro!: fine_trans [OF fine_with_process fine_fold [OF fine_deliver]]
      split: option.split prod.split)

lemma fine_write_failed: "fine sv (write_failed p i e sv)"
  by (auto simp: write_failed_def Let_def fine_with_process intro!: fine_trans [OF fine_with_process fine_settled]
      split: option.split prod.split)

text \<open>A new object: its record is in the file, and no record that waits for its recovery is its own.\<close>

definition sv_ok :: "supervisor \<Rightarrow> bool" where
  "sv_ok sv \<longleftrightarrow> sv_inv sv \<and> distinct (map ir_id (sv_recovering sv)) \<and>
     (\<forall>r \<in> set (sv_recovering sv). sv_objects sv (ir_id r) = None \<and> getInstance (ir_id r) (sv_store sv) = Some r)"

lemma sv_ok_fine: "fine sv sv' \<Longrightarrow> sv_ok sv \<Longrightarrow> sv_ok sv'"
  unfolding fine_def sv_ok_def by (metis domIff)

lemma sv_ok_inv: "sv_ok sv \<Longrightarrow> sv_inv sv"
  by (simp add: sv_ok_def)

definition waiting_for :: "instance_record list \<Rightarrow> supervisor \<Rightarrow> bool" where
  "waiting_for rs sv \<longleftrightarrow> distinct (map ir_id rs) \<and>
     (\<forall>r \<in> set rs. sv_objects sv (ir_id r) = None \<and> getInstance (ir_id r) (sv_store sv) = Some r)"

lemma sv_ok_waiting: "sv_ok sv \<longleftrightarrow> sv_inv sv \<and> waiting_for (sv_recovering sv) sv"
  by (simp add: sv_ok_def waiting_for_def)

lemma waiting_fine: "fine sv sv' \<Longrightarrow> sv_inv sv \<Longrightarrow> waiting_for rs sv \<Longrightarrow> waiting_for rs sv'"
  unfolding fine_def waiting_for_def by (metis domIff)

lemma fine_inv: "fine sv sv' \<Longrightarrow> sv_inv sv \<Longrightarrow> sv_inv sv'"
  by (simp add: fine_def)

lemma make_live_fields [simp]:
  "sv_store (make_live r sv) = sv_store sv" "set (sv_live (make_live r sv)) = insert (ir_id r) (set (sv_live sv))"
  "record_of (make_live r sv) = (record_of sv)(ir_id r \<mapsto> r)" "sv_recovering (make_live r sv) = sv_recovering sv"
  "distinct (sv_live (make_live r sv)) = distinct (sv_live sv)"
  "(sv_objects (make_live r sv) j = None) = (j \<noteq> ir_id r \<and> sv_objects sv j = None)"
  by (auto simp: make_live_def add_live_def record_of_def fun_eq_iff)

lemma make_live_inv:
  assumes "sv_inv sv" "getInstance (ir_id r) (sv_store sv) = Some r"
  shows "sv_inv (make_live r sv)"
proof -
  have "instances.agrees (sv_store sv) ((record_of sv)(ir_id r \<mapsto> r)) (insert (ir_id r) (set (sv_live sv)))"
    using sv_invD(3) [OF assms(1)] assms(2) by (auto simp: instances.agrees_def)
  moreover have "ir_id (li_record o1) = j" if "sv_objects (make_live r sv) j = Some o1" for j o1
    using that sv_inv_id [OF assms(1)] by (auto simp: make_live_def add_live_def split: if_splits)
  ultimately show ?thesis using sv_invD(1,2) [OF assms(1)] by (intro sv_invI) simp_all
qed

lemma make_live_waiting:
  "waiting_for (r # rs) sv \<Longrightarrow> sv_inv sv \<Longrightarrow> sv_inv (make_live r sv) \<and> waiting_for rs (make_live r sv)"
proof
  assume w: "waiting_for (r # rs) sv" and inv: "sv_inv sv"
  from w have "getInstance (ir_id r) (sv_store sv) = Some r" by (simp add: waiting_for_def)
  then show "sv_inv (make_live r sv)" by (rule make_live_inv [OF inv])
  show "waiting_for rs (make_live r sv)"
    unfolding waiting_for_def make_live_fields using w by (fastforce simp: waiting_for_def)
qed

lemma fine_start_process: "start_process i sv = Some sv' \<Longrightarrow> fine sv sv'"
proof -
  let ?sv1 = "sv\<lparr>sv_processCount := Suc (sv_processCount sv)\<rparr>"
  assume "start_process i sv = Some sv'"
  then have sv': "sv' = bindRpcProcess i (sv_processCount sv) (with_process (sv_processCount sv) (\<lambda>_. new_process) ?sv1)"
    by (simp add: start_process_def Let_def split: if_splits)
  have "fine sv ?sv1" using fine_count [of sv] by (simp add: count_creation_def)
  then show ?thesis unfolding sv' by (rule fine_trans [OF _ fine_trans [OF fine_with_process fine_bind]])
qed

lemma fine_synced: "begin_sync now i k sv = Inr (b, sv') \<Longrightarrow> fine sv (setStatus now i st sv')"
  by (rule fine_trans [OF fine_begin_sync fine_setStatus])

text \<open>After its first statement the body of the loop of recovery is such a function.\<close>

lemma fine_recover_one: "recover_one now r sv = (sv', b) \<Longrightarrow> fine (make_live r sv) sv'"
proof -
  assume r: "recover_one now r sv = (sv', b)"
  let ?sv1 = "make_live r sv"
  show ?thesis
  proof (cases "start_process (ir_id r) ?sv1")
    case None
    then have "recover_failed now (ir_id r) (count_creation ?sv1) = (sv', b)" using r by (simp add: recover_one_def)
    then show ?thesis by (rule fine_trans [OF fine_count fine_recover_failed])
  next
    case (Some sv2)
    have "fine sv2 sv'"
    proof (cases "truthy_str (ir_sessionFile r)")
      case True
      then show ?thesis using r Some by (auto simp: recover_one_def Let_def dest: fine_recover_failed fine_ask split: option.splits sum.splits)
    next
      case False
      then show ?thesis
        using r Some by (auto simp: recover_one_def Let_def dest: fine_recover_failed fine_begin_sync fine_synced split: sum.splits if_splits)
    qed
    then show ?thesis by (rule fine_trans [OF fine_start_process [OF Some]])
  qed
qed

lemma recover_loop_ok: "sv_inv sv \<Longrightarrow> waiting_for rs sv \<Longrightarrow> sv_ok (recover_loop now rs sv)"
proof (induction rs arbitrary: sv)
  case Nil
  have "sv_inv (sv\<lparr>sv_recovering := []\<rparr>)" using quiet_inv [OF quiet_basic(6) [of "[]"], of sv] Nil(1) by simp
  then show ?case by (simp add: sv_ok_def)
next
  case (Cons r rs)
  obtain sv' b where one: "recover_one now r sv = (sv', b)" by (cases "recover_one now r sv")
  note fine = fine_recover_one [OF one]
  have live: "sv_inv (make_live r sv)" "waiting_for rs (make_live r sv)" using make_live_waiting [OF Cons.prems(2,1)] by simp_all
  have ok: "sv_inv sv'" "waiting_for rs sv'" using fine_inv [OF fine live(1)] waiting_fine [OF fine live] by simp_all
  have "sv_inv (sv'\<lparr>sv_recovering := rs\<rparr>)" using quiet_inv [OF quiet_basic(6) [of rs], of sv'] ok(1) by simp
  then have "sv_ok (sv'\<lparr>sv_recovering := rs\<rparr>)" using ok(2) by (simp add: sv_ok_waiting waiting_for_def)
  moreover have "waiting_for rs sv" using Cons.prems(2) by (simp add: waiting_for_def)
  ultimately show ?case using Cons.IH [OF ok] Cons.IH [OF Cons.prems(1)] one by auto
qed

lemma recover_on_ok: "sv_ok sv \<Longrightarrow> sv_ok (recover_on now sv)"
  unfolding recover_on_def using sv_ok_waiting [of sv] by (blast intro: recover_loop_ok)

lemma recover_catch_ok: "sv_ok sv \<Longrightarrow> sv_ok (recover_catch now i sv)"
  using sv_ok_fine [OF fine_recover_failed, of now i sv]
  by (cases "recover_failed now i sv") (simp add: recover_catch_def recover_on_ok)

lemma recover_online_ok: "sv_ok sv \<Longrightarrow> sv_ok (recover_online now i sv)"
  unfolding recover_online_def by (intro recover_on_ok sv_ok_fine [OF fine_setStatus])

lemma sync_ok: "begin_sync now i k sv = Inr (b, sv') \<Longrightarrow> sv_ok sv \<Longrightarrow> sv_ok sv'"
  by (rule sv_ok_fine [OF fine_begin_sync])

lemma resume_ok: "sv_ok sv \<Longrightarrow> sv_ok (resume now k v sv)"
  by (induction now k v sv rule: resume.induct)
    (auto simp: recover_catch_ok recover_online_ok sync_ok sv_ok_fine [OF fine_failSpawn] sv_ok_fine [OF fine_spawn_online]
      sv_ok_fine [OF fine_sync_answer] sv_ok_fine [OF fine_send_reply] dest: sync_ok split: sum.split prod.split)

lemma disposed_ok: "sv_ok sv \<Longrightarrow> sv_ok (disposed now d sv)"
  by (cases d) (auto simp: Let_def recover_on_ok sv_ok_fine [OF fine_stop_done] sv_ok_fine [OF fine_shutdown_on]
      sv_ok_fine [OF fine_fail_spawn_done] sv_ok_fine [OF fine_delete_live] sv_ok_fine [OF fine_shutdown_one])

lemma run_settled_ok: "sv_ok sv \<Longrightarrow> sv_ok (run_settled now s sv)"
  by (cases s) (simp_all add: resume_ok disposed_ok)

lemma new_instance_ok:
  assumes ok: "sv_ok sv" and fresh: "getInstance (ir_id r) (sv_store sv) = None"
  shows "sv_ok ((make_live r sv)\<lparr>sv_store := upsertInstance r (sv_store sv)\<rparr>)" (is "sv_ok ?sv")
proof -
  note inv = sv_ok_inv [OF ok]
  have "instances.agrees (sv_store ?sv) (record_of ?sv) (set (sv_live ?sv))"
    using instances.agrees_put [OF sv_invD(3) [OF inv], of "record_of ?sv" r "set (sv_live ?sv)"] by simp
  moreover have "ir_id (li_record o1) = j" if "sv_objects ?sv j = Some o1" for j o1
    using that sv_inv_id [OF inv] by (auto simp: make_live_def add_live_def split: if_splits)
  ultimately have "sv_inv ?sv"
    using sv_invD(1,2) [OF inv] instances.ok_put [of "sv_store sv" r] by (intro sv_invI) simp_all
  moreover have "waiting_for (sv_recovering sv) ?sv"
    using ok fresh by (auto simp: sv_ok_waiting waiting_for_def instances.get_put)
  ultimately show ?thesis by (simp add: sv_ok_waiting)
qed

lemma spawn_ok:
  assumes ok: "sv_ok sv" and fresh: "getInstance i (sv_store sv) = None"
  shows "sv_ok (spawnInstance now c cwd label i sv)"
proof -
  define r where "r = \<lparr>ir_id = i, ir_status = InstStarting, ir_cwd = cwd, ir_createdAt = now, ir_lastSeenAt = Some now,
    ir_label = label, ir_sessionId = None, ir_sessionFile = None\<rparr>"
  define sv2 where "sv2 = (make_live r sv)\<lparr>sv_store := upsertInstance r (sv_store sv)\<rparr>"
  have ok2: "sv_ok sv2" unfolding sv2_def using fresh by (intro new_instance_ok ok) (simp add: r_def)
  have start: "sv_ok sv3" if "start_process i sv2 = Some sv3" for sv3 by (rule sv_ok_fine [OF fine_start_process [OF that] ok2])
  have "spawnInstance now c cwd label i sv =
      (case start_process i sv2 of
         None \<Rightarrow> failSpawn now c i NO_STDIO (count_creation sv2)
       | Some sv3 \<Rightarrow> (case begin_sync now i (SpawnSync c i) sv3 of
           Inl e \<Rightarrow> failSpawn now c i e sv3
         | Inr (finished, sv4) \<Rightarrow> if finished then spawn_online now c i sv4 else sv4))"
    unfolding spawnInstance_def Let_def r_def [symmetric] sv2_def make_live_fields by (rule refl)
  then show ?thesis
    using start sv_ok_fine [OF fine_count ok2]
    by (auto simp: sv_ok_fine [OF fine_failSpawn] sv_ok_fine [OF fine_spawn_online] sync_ok split: option.split sum.split)
qed

lemma stored_found: "distinct (map ir_id rs) \<Longrightarrow> r \<in> set rs \<Longrightarrow> getInstance (ir_id r) rs = Some r"
  by (induction rs) (auto simp: getInstance_def)

lemma restart_ok: "distinct (map ir_id (sv_store sv)) \<Longrightarrow> sv_ok (sv_recoverAfterRestart now sv)"
  unfolding sv_recoverAfterRestart_def
  by (intro recover_loop_ok sv_invI) (auto simp: waiting_for_def stored_found instances.agrees_def)

lemma sv_handle_ok: "sv_ok sv \<Longrightarrow> fresh_instance ev sv \<Longrightarrow> sv_ok (sv_handle now ev sv)"
proof (cases ev)
  case NewOrchestrator
  assume "sv_ok sv"
  then show ?thesis using sv_invD(1) [OF sv_ok_inv] by (simp add: NewOrchestrator restart_ok)
qed (auto simp: fresh_instance_def spawn_ok run_settled_ok sv_ok_fine [OF fine_stopInstance] sv_ok_fine [OF fine_handleRpc]
    sv_ok_fine [OF fine_streams(1)] sv_ok_fine [OF fine_streams(2)] sv_ok_fine [OF fine_ask_for] sv_ok_fine [OF fine_process_output]
    sv_ok_fine [OF fine_write_failed] sv_ok_fine [OF fine_process_exit] sv_ok_fine [OF fine_begin_shutdown] sv_ok_fine [OF fine_settled]
    split: list.split)

lemma sv_step_ok: "sv_step now ev sv = Some sv' \<Longrightarrow> sv_ok sv \<Longrightarrow> sv_ok sv'"
  by (auto simp: sv_step_def simp del: sv_handle.simps intro: sv_handle_ok split: if_splits)

lemma sv_run_ok: "sv_run evs sv = Some sv' \<Longrightarrow> sv_ok sv \<Longrightarrow> sv_ok sv'"
  by (induction evs sv rule: sv_run.induct) (auto simp: bind_eq_Some_conv dest: sv_step_ok)

text \<open>The orchestrator as it starts on a file.\<close>

definition sv_boot :: "instance_record list \<Rightarrow> (nat \<Rightarrow> bool) \<Rightarrow> (nat \<Rightarrow> string) \<Rightarrow> supervisor" where
  "sv_boot rs can us = \<lparr>sv_store = rs, sv_live = [], sv_objects = (\<lambda>_. None), sv_processes = (\<lambda>_. dead_process),
     sv_processCount = 0, sv_canSpawn = can, sv_uuids = us, sv_uuidCount = 0, sv_settled = [], sv_recovering = [],
     sv_closing = None, sv_replies = []\<rparr>"

lemma sv_boot_ok: "distinct (map ir_id rs) \<Longrightarrow> sv_ok (sv_boot rs can us)"
  unfolding sv_ok_def by (auto simp: sv_boot_def instances.agrees_def intro!: sv_invI)

text \<open>What is answered for an instance is what the file has for it.\<close>

lemma sv_ok_get: "sv_ok sv \<Longrightarrow> sv_getInstance i sv = getInstance i (listInstances sv)"
  using sv_invD(3) [OF sv_ok_inv] by (fastforce simp: sv_getInstance_def listInstances_def instances.agrees_def record_of_def)

end
