(* ===== verification/Supervisor_Scenarios.thy ===== *)
theory Supervisor_Scenarios
  imports Instance_Supervisor
begin

text \<open>
  Runs of the supervisor on concrete events, and what a shutdown does to a stop that is under way.
\<close>

section \<open>A shutdown during a stop\<close>

text \<open>The stop has taken the process away and waits for its exit; the shutdown finds nothing to dispose of.\<close>

lemma cleanup_without_process:
  "process_of i sv = None \<Longrightarrow> sv_objects sv i = Some o1 \<Longrightarrow>
     cleanup i d sv = (sv\<lparr>sv_objects := (sv_objects sv)(i \<mapsto> o1\<lparr>li_onUiRequest := None, li_sessionId := None\<rparr>)\<rparr>, True)"
  by (simp add: cleanup_def clearBindings_def with_object_def)

lemma shutdown_of_stopping:
  assumes "sv_objects sv i = Some o1" "li_process o1 = None" "sv_live sv = [i]" "sv_closing sv = None"
  shows "sv_store (begin_shutdown now True sv) =
    upsertInstance ((li_record o1)\<lparr>ir_status := InstStarting, ir_lastSeenAt := Some now\<rparr>) (sv_store sv)"
  using assms cleanup_without_process [of i sv o1]
  by (simp add: begin_shutdown_def process_of_def shutdown_one_def setStatus_def change_record_def delete_live_def Let_def)

lemma stop_done_removes:
  "sv_inv sv \<Longrightarrow> sv_objects sv i = Some o1 \<Longrightarrow> getInstance i (sv_store (stop_done now c i sv)) = None"
  using instances.get_del [OF sv_invD(1)]
  by (auto simp: stop_done_def Let_def send_reply_def split: option.split)

section \<open>A run\<close>

definition demo_boot :: supervisor where
  "demo_boot = sv_boot [] (\<lambda>_. True) (\<lambda>n. ''u'' @ show_nat n)"

definition state_answer :: "nat \<Rightarrow> string \<Rightarrow> json" where
  "state_answer n i = JObj [(''type'', JStr ''response''), (''id'', JStr (''orchestrator_'' @ show_nat n @ ''_'' @ i)),
     (''command'', JStr ''get_state''), (''success'', JBool True),
     (''data'', JObj [(''sessionId'', JStr ''s1''), (''sessionFile'', JStr ''f1'')])]"

definition demo_spawn :: "(string \<times> sv_event) list" where
  "demo_spawn = [(''t1'', AskSpawn 1 ''dir'' None ''a''), (''t2'', ProcessOutput 0 (state_answer 1 ''u0'')), (''t3'', NextSettled)]"

definition demo_online :: instance_record where
  "demo_online = \<lparr>ir_id = ''a'', ir_status = InstOnline, ir_cwd = ''dir'', ir_createdAt = ''t1'', ir_lastSeenAt = Some ''t3'',
     ir_label = None, ir_sessionId = Some ''s1'', ir_sessionFile = Some ''f1''\<rparr>"

lemma demo_spawned:
  "map_option (\<lambda>sv. (sv_store sv, sv_live sv, sv_replies sv)) (sv_run demo_spawn demo_boot) =
     Some ([demo_online], [''a''], [(1, InstanceReply demo_online)])"
  by code_simp

definition demo_stop :: "(string \<times> sv_event) list" where
  "demo_stop = demo_spawn @ [(''t4'', AskStop 2 ''a'')]"

definition demo_stopping :: supervisor where
  "demo_stopping = (case sv_run demo_stop demo_boot of None \<Rightarrow> demo_boot | Some sv \<Rightarrow> sv)"

lemma demo_stop_run: "sv_run demo_stop demo_boot = Some demo_stopping"
proof -
  have "sv_run demo_stop demo_boot \<noteq> None" by code_simp
  then show ?thesis by (auto simp: demo_stopping_def)
qed

lemma demo_stopping_state:
  "sv_live demo_stopping = [''a'']" "sv_closing demo_stopping = None"
  "instance_status_of ''a'' demo_stopping = Some InstStopping" "process_of ''a'' demo_stopping = None"
  by code_simp+

text \<open>The process exits: the instance is gone and the client is told. A shutdown and a restart come first: it runs again.\<close>

lemma demo_stopped:
  "map_option (\<lambda>sv. (sv_store sv, sv_live sv, sv_replies sv))
     (sv_run [(''t5'', ProcessExit 0), (''t6'', NextSettled)] demo_stopping) =
   Some ([], [], [(1, InstanceReply demo_online),
     (2, InstanceReply (demo_online\<lparr>ir_status := InstStopped, ir_lastSeenAt := Some ''t6''\<rparr>))])"
  by code_simp

definition demo_restart :: "(string \<times> sv_event) list" where
  "demo_restart = [(''t5'', AskShutdown True), (''t6'', NewOrchestrator),
     (''t7'', ProcessOutput 1 (JObj [(''type'', JStr ''response''), (''id'', JStr ''orchestrator_1_u1''), (''success'', JBool True)])),
     (''t8'', NextSettled), (''t9'', ProcessOutput 1 (state_answer 2 ''u2'')), (''t10'', NextSettled)]"

lemma demo_restarted:
  "map_option (\<lambda>sv. (sv_store sv, sv_live sv, sv_replies sv)) (sv_run demo_restart demo_stopping) =
     Some ([demo_online\<lparr>ir_lastSeenAt := Some ''t10''\<rparr>], [''a''], [])"
  by code_simp

end
