(* ===== verification/Ipc_Server.thy ===== *)
theory Ipc_Server
  imports Instance_Supervisor Task_Supervisor
begin

text \<open>
  The socket of the orchestrator: its requests and answers (\<open>orchestrator/src/handler.ts\<close>, \<open>ipc/protocol.ts\<close>)
  and the two phases of a connection (\<open>ipc/server.ts\<close>). A request is numbered; what the supervisors
  answer later comes back under that number. Reading the fields of a request, a cast in the source, is
  the parameter \<open>decode\<close>. The model and provider of a request to spawn are not used by the source; the
  limit of a request to wait is a timer, an event of \<open>Task_Supervisor\<close>.
\<close>

section \<open>Requests and answers\<close>

datatype ipc_request =
    ReqSpawn string "string option"
  | ReqList
  | ReqStop string
  | ReqStatus string
  | ReqRpc string json
  | ReqRpcStream string
  | ReqSpawnTask spawn_options
  | ReqListTasks
  | ReqTaskStatus string
  | ReqCancelTask string
  | ReqRetryTask string
  | ReqWaitTask string
  | ReqOther

record instance_summary =
  ism_id :: string
  ism_status :: instance_status
  ism_cwd :: string
  ism_label :: "string option"
  ism_sessionId :: "string option"
  ism_sessionFile :: "string option"

datatype ipc_response =
    SpawnResult instance_summary
  | ListResult "instance_summary list"
  | StopResult string
  | StatusResult instance_summary
  | RpcResult json
  | RpcReady instance_summary
  | TaskResult task_record
  | TaskListResult "task_record list"
  | ErrorResult string
  | UndefinedResult

definition toInstanceSummary :: "instance_record \<Rightarrow> instance_summary" where
  "toInstanceSummary r = \<lparr>ism_id = ir_id r, ism_status = ir_status r, ism_cwd = ir_cwd r, ism_label = ir_label r,
     ism_sessionId = ir_sessionId r, ism_sessionFile = ir_sessionFile r\<rparr>"

definition unknownInstanceError :: "string \<Rightarrow> ipc_response" where
  "unknownInstanceError i = ErrorResult (''Unknown instance: '' @ i)"

record orchestrator =
  or_instances :: supervisor
  or_tasks :: task_supervisor

definition summary_or_unknown :: "(instance_summary \<Rightarrow> ipc_response) \<Rightarrow> string \<Rightarrow> orchestrator \<Rightarrow> ipc_response" where
  "summary_or_unknown answer i s =
     (case sv_getInstance i (or_instances s) of None \<Rightarrow> unknownInstanceError i | Some r \<Rightarrow> answer (toInstanceSummary r))"

definition task_answer :: "string \<Rightarrow> task_record option \<Rightarrow> ipc_response" where
  "task_answer e t = (case t of None \<Rightarrow> ErrorResult e | Some t \<Rightarrow> TaskResult t)"

text \<open>
  \<open>handleIpcRequest\<close>, with the answer when it is there at once. What it throws is the error answer of the
  connection. A request of another type falls through the switch.
\<close>

fun handleIpcRequest ::
  "string \<Rightarrow> string \<Rightarrow> nat \<Rightarrow> ipc_request \<Rightarrow> orchestrator \<Rightarrow> ipc_response option \<times> orchestrator" where
  "handleIpcRequest now uuid c (ReqSpawn cwd label) s = (None, s\<lparr>or_instances := spawnInstance now c cwd label uuid (or_instances s)\<rparr>)"
| "handleIpcRequest now uuid c ReqList s = (Some (ListResult (map toInstanceSummary (listInstances (or_instances s)))), s)"
| "handleIpcRequest now uuid c (ReqStatus i) s = (Some (summary_or_unknown StatusResult i s), s)"
| "handleIpcRequest now uuid c (ReqStop i) s = (None, s\<lparr>or_instances := stopInstance now c i (or_instances s)\<rparr>)"
| "handleIpcRequest now uuid c (ReqRpc i command) s = (None, s\<lparr>or_instances := handleRpc c i command (or_instances s)\<rparr>)"
| "handleIpcRequest now uuid c (ReqRpcStream i) s = (Some (summary_or_unknown RpcReady i s), s)"
| "handleIpcRequest now uuid c (ReqSpawnTask opts) s =
     (case spawnTask uuid now opts (or_tasks s) of
        (Inl e, ts) \<Rightarrow> (Some (ErrorResult e), s\<lparr>or_tasks := ts\<rparr>)
      | (Inr t, ts) \<Rightarrow> (Some (TaskResult t), s\<lparr>or_tasks := ts\<rparr>))"
| "handleIpcRequest now uuid c ReqListTasks s = (Some (TaskListResult (om_values (su_tasks (or_tasks s)))), s)"
| "handleIpcRequest now uuid c (ReqTaskStatus i) s =
     (Some (task_answer (''Unknown task: '' @ i) (task_of (or_tasks s) i)), s)"
| "handleIpcRequest now uuid c (ReqCancelTask i) s =
     (case cancelTask now i (or_tasks s) of (t, ts) \<Rightarrow>
        (Some (task_answer (''Unknown task: '' @ i) t), s\<lparr>or_tasks := ts\<rparr>))"
| "handleIpcRequest now uuid c (ReqRetryTask i) s =
     (case retryTask now i (or_tasks s) of (t, ts) \<Rightarrow>
        (Some (task_answer (''Task cannot be retried: '' @ i) t), s\<lparr>or_tasks := ts\<rparr>))"
| "handleIpcRequest now uuid c (ReqWaitTask i) s =
     (case waitForTask c i (or_tasks s) of (e, ts) \<Rightarrow> (map_option ErrorResult e, s\<lparr>or_tasks := ts\<rparr>))"
| "handleIpcRequest now uuid c ReqOther s = (Some UndefinedResult, s)"

text \<open>The answer to a request whose promise is settled later.\<close>

fun answer_of_reply :: "ipc_request \<Rightarrow> reply \<Rightarrow> ipc_response" where
  "answer_of_reply req (Thrown e) = ErrorResult e"
| "answer_of_reply (ReqSpawn cwd label) (InstanceReply r) = SpawnResult (toInstanceSummary r)"
| "answer_of_reply (ReqStop i) (InstanceReply r) = StopResult i"
| "answer_of_reply (ReqStop i) UnknownInstance = unknownInstanceError i"
| "answer_of_reply (ReqRpc i command) (RpcReply v) = RpcResult v"
| "answer_of_reply (ReqRpc i command) UnknownInstance = unknownInstanceError i"
| "answer_of_reply _ _ = UndefinedResult"

section \<open>A connection\<close>

text \<open>
  Before a stream each chunk gives at most one request: the text after the first line feed stays in the
  buffer until the next chunk.
\<close>

definition first_line :: "string \<Rightarrow> string \<Rightarrow> string \<times> string option" where
  "first_line chunk buffer =
     (let b = buffer @ chunk in
      case newline_index b of
        None \<Rightarrow> (b, None)
      | Some i \<Rightarrow> (let line = trim (take i b) in (drop (Suc i) b, if line = [] then None else Some line)))"

text \<open>A stream puts every complete line into its queue of requests.\<close>

definition enqueue_line :: "string \<Rightarrow> string list \<Rightarrow> string list" where
  "enqueue_line raw queue = (let line = trim raw in if line = [] then queue else queue @ [line])"

function stream_loop :: "string \<Rightarrow> string list \<Rightarrow> string \<times> string list" where
  "stream_loop buffer queue =
     (case newline_index buffer of
        None \<Rightarrow> (buffer, queue)
      | Some i \<Rightarrow> stream_loop (drop (Suc i) buffer) (enqueue_line (take i buffer) queue))"
  by pat_completeness auto
termination
  by (relation "measure (\<lambda>(b, _). length b)") (auto dest: newline_index_le)

declare stream_loop.simps [simp del]

definition on_stream_data :: "string \<Rightarrow> string \<times> string list \<Rightarrow> string \<times> string list" where
  "on_stream_data chunk st = (case st of (buffer, queue) \<Rightarrow> stream_loop (buffer @ chunk) queue)"

datatype phase =
    Requests
  | Streaming string nat

record connection =
  cn_phase :: phase
  cn_buffer :: string
  cn_queue :: "string list"
  cn_sent :: "ipc_response list"
  cn_ended :: bool

definition end_with :: "ipc_response \<Rightarrow> connection \<Rightarrow> connection" where
  "end_with r cn = cn\<lparr>cn_sent := cn_sent cn @ [r], cn_ended := True\<rparr>"

definition BAD_JSON :: string where
  "BAD_JSON = ''Unexpected token in JSON''"

definition open_stream :: "nat \<Rightarrow> string \<Rightarrow> ipc_response \<Rightarrow> connection \<Rightarrow> orchestrator \<Rightarrow> connection \<times> orchestrator" where
  "open_stream c i response cn s =
     (case response of
        RpcReady _ \<Rightarrow>
          (case openRpcStream c i (or_instances s) of
             (None, sv) \<Rightarrow> (end_with (unknownInstanceError i) cn, s)
           | (Some p, sv) \<Rightarrow>
               (cn\<lparr>cn_phase := Streaming i p, cn_sent := cn_sent cn @ [response]\<rparr>, s\<lparr>or_instances := sv\<rparr>))
      | _ \<Rightarrow> (end_with response cn, s))"

text \<open>One chunk of data: the handler of the first phase, then that of the stream.\<close>

definition on_data ::
  "(json \<Rightarrow> ipc_request) \<Rightarrow> string \<Rightarrow> string \<Rightarrow> nat \<Rightarrow> string \<Rightarrow> connection \<times> orchestrator \<Rightarrow> connection \<times> orchestrator" where
  "on_data decode now uuid c chunk st = (case st of (cn, s) \<Rightarrow>
     (case cn_phase cn of
        Streaming i p \<Rightarrow>
          (case on_stream_data chunk (cn_buffer cn, cn_queue cn) of
             (b, queue) \<Rightarrow> (cn\<lparr>cn_buffer := b, cn_queue := queue\<rparr>, s))
      | Requests \<Rightarrow>
          (case first_line chunk (cn_buffer cn) of
             (b, None) \<Rightarrow> (cn\<lparr>cn_buffer := b\<rparr>, s)
           | (b, Some line) \<Rightarrow>
               (let cn1 = cn\<lparr>cn_buffer := b\<rparr> in
                case json_parse line of
                  None \<Rightarrow> (end_with (ErrorResult BAD_JSON) cn1, s)
                | Some JNull \<Rightarrow> (end_with (ErrorResult ''Cannot read properties of null'') cn1, s)
                | Some v \<Rightarrow>
                    (case (decode v, handleIpcRequest now uuid c (decode v) s) of
                       (ReqRpcStream i, (Some r, s)) \<Rightarrow> open_stream c i r cn1 s
                     | (_, (Some r, s)) \<Rightarrow> (end_with r cn1, s)
                     | (_, (None, s)) \<Rightarrow> (cn1, s))))))"

text \<open>The next request of a stream, when the previous one is answered.\<close>

definition stream_next :: "nat \<Rightarrow> connection \<times> orchestrator \<Rightarrow> connection \<times> orchestrator" where
  "stream_next c st = (case st of (cn, s) \<Rightarrow>
     (case (cn_phase cn, cn_queue cn) of
        (Streaming i p, line # lines) \<Rightarrow>
          (let cn1 = cn\<lparr>cn_queue := lines\<rparr> in
           case json_parse line of
             None \<Rightarrow> (cn1\<lparr>cn_sent := cn_sent cn1 @ [ErrorResult BAD_JSON]\<rparr>, s)
           | Some JNull \<Rightarrow> (cn1\<lparr>cn_sent := cn_sent cn1 @ [ErrorResult ''Cannot read properties of null'']\<rparr>, s)
           | Some v \<Rightarrow>
               if field_of ''type'' v = Some (JStr ''extension_ui_response'') then (cn1, s)
               else (cn1, s\<lparr>or_instances := ask_for c i p v (or_instances s)\<rparr>))
      | _ \<Rightarrow> (cn, s)))"

section \<open>What the requests see\<close>

lemma find_summary: "find (\<lambda>x. ism_id x = i) (map toInstanceSummary rs) = map_option toInstanceSummary (getInstance i rs)"
  by (induction rs) (auto simp: getInstance_def toInstanceSummary_def)

text \<open>The status of an instance is the one in the list, and an instance that is not listed is unknown.\<close>

lemma status_as_listed:
  assumes "sv_ok (or_instances s)" "handleIpcRequest now uuid c ReqList s = (Some (ListResult l), s1)"
  shows "handleIpcRequest now' uuid' c' (ReqStatus i) s =
    (Some (case find (\<lambda>x. ism_id x = i) l of None \<Rightarrow> unknownInstanceError i | Some x \<Rightarrow> StatusResult x), s)"
  using assms(2) sv_ok_get [OF assms(1), of i]
  by (auto simp: summary_or_unknown_def find_summary split: option.split)

lemma request_keeps_instances:
  "sv_ok (or_instances s) \<Longrightarrow> getInstance uuid (sv_store (or_instances s)) = None \<Longrightarrow>
     handleIpcRequest now uuid c req s = (r, s') \<Longrightarrow> sv_ok (or_instances s')"
  by (cases req) (auto simp: spawn_ok sv_ok_fine [OF fine_stopInstance] sv_ok_fine [OF fine_handleRpc] split: prod.splits sum.splits)

section \<open>Reading a stream in chunks\<close>

lemma stream_loop_lines:
  "stream_loop b q = (last (split_lines b), fold enqueue_line (butlast (split_lines b)) q)"
proof (induction b q rule: stream_loop.induct)
  case (1 b q)
  show ?case
  proof (cases "newline_index b")
    case None
    then show ?thesis using newline_index_None [of b] by (simp add: stream_loop.simps [of b])
  next
    case (Some i)
    then show ?thesis using "1.IH" [OF Some] newline_index_Some [OF Some] by (simp add: stream_loop.simps [of b])
  qed
qed

interpretation stream_socket: line_reader on_stream_data enqueue_line
  by unfold_locales (simp add: on_stream_data_def stream_loop_lines)

lemma stream_chunks:
  "concat chunks = concat chunks' \<Longrightarrow> fold on_stream_data chunks ([], q) = fold on_stream_data chunks' ([], q)"
  by (rule stream_socket.chunks_do_not_matter)

text \<open>
  Before the stream this fails: a command that arrives in one chunk with the request for the stream stays
  in the buffer until more data comes.
\<close>

lemma pipelined_command_stalls:
  assumes "\<not> list_ex is_newline req" "trim req \<noteq> []" "json_parse (trim req) = Some v" "v \<noteq> JNull" "decode v = ReqRpcStream i"
    and "sv_getInstance i (or_instances s) = Some r" "openRpcStream c i (or_instances s) = (Some p, sv)"
    and "cn_phase cn = Requests" "cn_buffer cn = []"
  shows "\<exists>cn' s'. on_data decode now uuid c (req @ newline @ command @ newline) (cn, s) = (cn', s') \<and>
    cn_phase cn' = Streaming i p \<and> cn_buffer cn' = command @ newline \<and> cn_queue cn' = cn_queue cn"
proof -
  have "newline_index (req @ newline @ command @ newline) = Some (length req)"
    using assms(1) by (induction req) (auto simp: newline_def is_newline_def)
  then have "first_line (req @ newline @ command @ newline) [] = (command @ newline, Some (trim req))"
    using assms(2) by (simp add: first_line_def Let_def newline_def)
  then show ?thesis
    using assms(3-9) by (auto simp: on_data_def open_stream_def summary_or_unknown_def Let_def split: json.split)
qed

end
