(* ===== verification/Edit_Diff.thy ===== *)
theory Edit_Diff
  imports Truncation
begin

text \<open>
  The edit tool (\<open>coding-agent/src/core/tools/edit-diff.ts\<close> and the body of \<open>edit.ts\<close>) on texts of code units:
  line endings, exact and normalized matching, replacements, and the writing of a file. The normal form
  NFKC, a table of Unicode, is the parameter \<open>nfkc\<close>.
\<close>

section \<open>Searching and splitting\<close>

text \<open>\<open>content.indexOf(pat)\<close>.\<close>

fun index_of :: "utf16 \<Rightarrow> utf16 \<Rightarrow> nat option" where
  "index_of pat [] = (if pat = [] then Some 0 else None)"
| "index_of pat (c # cs) = (if prefix pat (c # cs) then Some 0 else map_option Suc (index_of pat cs))"

lemma index_of_Some: "index_of pat s = Some i \<Longrightarrow> take (length pat) (drop i s) = pat \<and> i + length pat \<le> length s"
proof (induction pat s arbitrary: i rule: index_of.induct)
  case (2 pat c cs)
  then show ?case using prefix_length_le [of pat "c # cs"] by (auto simp: take_is_prefix prefix_def split: if_splits)
qed (auto split: if_splits)

lemma index_of_least: "index_of pat s = Some i \<Longrightarrow> j < i \<Longrightarrow> \<not> prefix pat (drop j s)"
proof (induction pat s arbitrary: i j rule: index_of.induct)
  case (2 pat c cs)
  then show ?case by (cases j) (auto split: if_splits)
qed (auto split: if_splits)

lemma index_of_None: "index_of pat s = None \<Longrightarrow> \<not> prefix pat (drop j s)"
proof (induction pat s arbitrary: j rule: index_of.induct)
  case (2 pat c cs)
  then show ?case by (cases j) (auto split: if_splits)
qed (auto split: if_splits)

text \<open>\<open>content.split(pat).length - 1\<close>; a string splits at an empty pattern into its code units.\<close>

function split_count :: "utf16 \<Rightarrow> utf16 \<Rightarrow> nat" where
  "split_count pat s =
     (if pat = [] then 0
      else case index_of pat s of None \<Rightarrow> 0 | Some i \<Rightarrow> Suc (split_count pat (drop (i + length pat) s)))"
  by pat_completeness auto
termination
  by (relation "measure (\<lambda>(pat, s). length s)") (auto dest!: index_of_Some simp: neq_Nil_conv)

declare split_count.simps [simp del]

definition split_pieces :: "utf16 \<Rightarrow> utf16 \<Rightarrow> int" where
  "split_pieces pat s = (if pat = [] then int (length s) else int (split_count pat s) + 1)"

section \<open>Line endings\<close>

definition carriage_return :: "16 word" where
  "carriage_return = 13"

text \<open>Whether lines end with CR LF.\<close>

definition detectLineEnding :: "utf16 \<Rightarrow> bool" where
  "detectLineEnding content =
     (case index_of [line_feed] content of
        None \<Rightarrow> False
      | Some lf \<Rightarrow> (case index_of [carriage_return, line_feed] content of None \<Rightarrow> False | Some crlf \<Rightarrow> crlf < lf))"

fun replace_crlf :: "utf16 \<Rightarrow> utf16" where
  "replace_crlf [] = []"
| "replace_crlf [c] = [c]"
| "replace_crlf (c # d # cs) =
     (if c = carriage_return \<and> d = line_feed then line_feed # replace_crlf cs else c # replace_crlf (d # cs))"

definition normalizeToLF :: "utf16 \<Rightarrow> utf16" where
  "normalizeToLF s = map (\<lambda>c. if c = carriage_return then line_feed else c) (replace_crlf s)"

definition restoreLineEndings :: "bool \<Rightarrow> utf16 \<Rightarrow> utf16" where
  "restoreLineEndings crlf s =
     (if crlf then concat (map (\<lambda>c. if c = line_feed then [carriage_return, line_feed] else [c]) s) else s)"

definition byte_order_mark :: "16 word" where
  "byte_order_mark = 0xFEFF"

definition stripBom :: "utf16 \<Rightarrow> utf16 \<times> utf16" where
  "stripBom content = (case content of c # cs \<Rightarrow> if c = byte_order_mark then ([c], cs) else ([], content) | [] \<Rightarrow> ([], []))"

section \<open>Normal form for matching\<close>

text \<open>White space of \<open>trimEnd\<close>.\<close>

definition js_space :: "16 word \<Rightarrow> bool" where
  "js_space c \<longleftrightarrow> (9 \<le> unat c \<and> unat c \<le> 13) \<or> unat c \<in> {0x20, 0xA0, 0x1680, 0x2028, 0x2029, 0x202F, 0x205F, 0x3000, 0xFEFF} \<or>
     (0x2000 \<le> unat c \<and> unat c \<le> 0x200A)"

definition trimEnd :: "utf16 \<Rightarrow> utf16" where
  "trimEnd s = rev (dropWhile js_space (rev s))"

definition plain_quote :: "16 word \<Rightarrow> 16 word" where
  "plain_quote c = (if unat c \<in> {0x2018, 0x2019, 0x201A, 0x201B} then 0x27
     else if unat c \<in> {0x201C, 0x201D, 0x201E, 0x201F} then 0x22 else c)"

definition plain_dash :: "16 word \<Rightarrow> 16 word" where
  "plain_dash c = (if unat c \<in> {0x2010, 0x2011, 0x2012, 0x2013, 0x2014, 0x2015, 0x2212} then 0x2D else c)"

definition plain_space :: "16 word \<Rightarrow> 16 word" where
  "plain_space c = (if unat c \<in> {0xA0, 0x202F, 0x205F, 0x3000} \<or> (0x2002 \<le> unat c \<and> unat c \<le> 0x200A) then 0x20 else c)"

definition normalizeForFuzzyMatch :: "(utf16 \<Rightarrow> utf16) \<Rightarrow> utf16 \<Rightarrow> utf16" where
  "normalizeForFuzzyMatch nfkc text0 =
     map (plain_space \<circ> plain_dash \<circ> plain_quote) (join_lines (map trimEnd (split_at_lf (nfkc text0))))"

section \<open>Lines and replacements\<close>

text \<open>The lines with their line feeds, and where they start and end.\<close>

fun splitLinesWithEndings :: "utf16 \<Rightarrow> utf16 list" where
  "splitLinesWithEndings [] = []"
| "splitLinesWithEndings (c # cs) =
     (if c = line_feed then [c] # splitLinesWithEndings cs
      else case splitLinesWithEndings cs of [] \<Rightarrow> [[c]] | l # ls \<Rightarrow> (c # l) # ls)"

fun line_spans :: "nat \<Rightarrow> utf16 list \<Rightarrow> (nat \<times> nat) list" where
  "line_spans offset [] = []"
| "line_spans offset (l # ls) = (offset, offset + length l) # line_spans (offset + length l) ls"

definition getLineSpans :: "utf16 \<Rightarrow> (nat \<times> nat) list" where
  "getLineSpans content = line_spans 0 (splitLinesWithEndings content)"

record matched_edit =
  me_editIndex :: nat
  me_matchIndex :: nat
  me_matchLength :: nat
  me_newText :: utf16

datatype edit_error =
    EmptyOldText nat nat
  | EditNotFound nat nat
  | DuplicateText nat nat int
  | OverlappingEdits nat nat
  | NoChange nat
  | OutsideBase
  | DifferentLineCount

text \<open>The first line that has the start; the loop from there to the line that has the end.\<close>

fun start_line :: "nat \<Rightarrow> nat \<Rightarrow> (nat \<times> nat) list \<Rightarrow> nat option" where
  "start_line i pos [] = None"
| "start_line i pos ((s, e) # ls) = (if s \<le> pos \<and> pos < e then Some i else start_line (Suc i) pos ls)"

fun end_line :: "nat \<Rightarrow> nat \<Rightarrow> (nat \<times> nat) list \<Rightarrow> nat option" where
  "end_line i pos [] = None"
| "end_line i pos ((s, e) # ls) = (if e < pos then end_line (Suc i) pos ls else Some i)"

definition getReplacementLineRange :: "(nat \<times> nat) list \<Rightarrow> matched_edit \<Rightarrow> edit_error + nat \<times> nat" where
  "getReplacementLineRange lines r =
     (case start_line 0 (me_matchIndex r) lines of
        None \<Rightarrow> Inl OutsideBase
      | Some a \<Rightarrow>
          (case end_line a (me_matchIndex r + me_matchLength r) (drop a lines) of
             None \<Rightarrow> Inl OutsideBase
           | Some b \<Rightarrow> Inr (a, Suc b)))"

definition replace_one :: "nat \<Rightarrow> matched_edit \<Rightarrow> utf16 \<Rightarrow> utf16" where
  "replace_one offset r s =
     (let i = me_matchIndex r - offset in take i s @ me_newText r @ drop (i + me_matchLength r) s)"

text \<open>From the last replacement to the first.\<close>

definition applyReplacements :: "utf16 \<Rightarrow> matched_edit list \<Rightarrow> nat \<Rightarrow> utf16" where
  "applyReplacements content rs offset = foldr (replace_one offset) rs content"

record line_group =
  gr_startLine :: nat
  gr_endLine :: nat
  gr_replacements :: "matched_edit list"

definition add_to_groups :: "nat \<times> nat \<Rightarrow> matched_edit \<Rightarrow> line_group list \<Rightarrow> line_group list" where
  "add_to_groups lns r gs =
     (case lns of (a, b) \<Rightarrow>
        if gs \<noteq> [] \<and> a < gr_endLine (last gs)
        then butlast gs @ [(last gs)\<lparr>gr_endLine := max (gr_endLine (last gs)) b, gr_replacements := gr_replacements (last gs) @ [r]\<rparr>]
        else gs @ [\<lparr>gr_startLine = a, gr_endLine = b, gr_replacements = [r]\<rparr>])"

fun group_replacements :: "(nat \<times> nat) list \<Rightarrow> matched_edit list \<Rightarrow> line_group list \<Rightarrow> edit_error + line_group list" where
  "group_replacements lines [] gs = Inr gs"
| "group_replacements lines (r # rs) gs =
     (case getReplacementLineRange lines r of
        Inl e \<Rightarrow> Inl e
      | Inr lns \<Rightarrow> group_replacements lines rs (add_to_groups lns r gs))"

definition sub_list :: "nat \<Rightarrow> nat \<Rightarrow> 'a list \<Rightarrow> 'a list" where
  "sub_list a b xs = take (b - a) (drop a xs)"

fun write_groups :: "utf16 list \<Rightarrow> utf16 \<Rightarrow> (nat \<times> nat) list \<Rightarrow> nat \<Rightarrow> line_group list \<Rightarrow> utf16" where
  "write_groups originalLines base lines k [] = concat (drop k originalLines)"
| "write_groups originalLines base lines k (g # gs) =
     concat (sub_list k (gr_startLine g) originalLines) @
     (let a = fst (lines ! gr_startLine g); b = snd (lines ! (gr_endLine g - 1))
      in applyReplacements (sub_list a b base) (gr_replacements g) a) @
     write_groups originalLines base lines (gr_endLine g) gs"

definition applyReplacementsPreservingUnchangedLines ::
  "utf16 \<Rightarrow> utf16 \<Rightarrow> matched_edit list \<Rightarrow> edit_error + utf16" where
  "applyReplacementsPreservingUnchangedLines original base rs =
     (let originalLines = splitLinesWithEndings original; lines = getLineSpans base in
      if length originalLines \<noteq> length lines then Inl DifferentLineCount
      else case group_replacements lines (sort_key me_matchIndex rs) [] of
          Inl e \<Rightarrow> Inl e
        | Inr gs \<Rightarrow> Inr (write_groups originalLines base lines 0 gs))"

section \<open>Finding the old texts\<close>

record edit =
  ed_oldText :: utf16
  ed_newText :: utf16

record fuzzy_match =
  fm_found :: bool
  fm_index :: nat
  fm_matchLength :: nat
  fm_usedFuzzyMatch :: bool
  fm_contentForReplacement :: utf16

definition fuzzyFindText :: "(utf16 \<Rightarrow> utf16) \<Rightarrow> utf16 \<Rightarrow> utf16 \<Rightarrow> fuzzy_match" where
  "fuzzyFindText nfkc content oldText =
     (case index_of oldText content of
        Some i \<Rightarrow> \<lparr>fm_found = True, fm_index = i, fm_matchLength = length oldText, fm_usedFuzzyMatch = False,
          fm_contentForReplacement = content\<rparr>
      | None \<Rightarrow>
          (let fuzzyContent = normalizeForFuzzyMatch nfkc content; fuzzyOldText = normalizeForFuzzyMatch nfkc oldText in
           case index_of fuzzyOldText fuzzyContent of
             None \<Rightarrow> \<lparr>fm_found = False, fm_index = 0, fm_matchLength = 0, fm_usedFuzzyMatch = False,
               fm_contentForReplacement = content\<rparr>
           | Some i \<Rightarrow> \<lparr>fm_found = True, fm_index = i, fm_matchLength = length fuzzyOldText, fm_usedFuzzyMatch = True,
               fm_contentForReplacement = fuzzyContent\<rparr>))"

definition countOccurrences :: "(utf16 \<Rightarrow> utf16) \<Rightarrow> utf16 \<Rightarrow> utf16 \<Rightarrow> int" where
  "countOccurrences nfkc content oldText =
     split_pieces (normalizeForFuzzyMatch nfkc oldText) (normalizeForFuzzyMatch nfkc content) - 1"

definition normalize_edit :: "edit \<Rightarrow> edit" where
  "normalize_edit e = \<lparr>ed_oldText = normalizeToLF (ed_oldText e), ed_newText = normalizeToLF (ed_newText e)\<rparr>"

fun match_edits :: "(utf16 \<Rightarrow> utf16) \<Rightarrow> utf16 \<Rightarrow> nat \<Rightarrow> nat \<Rightarrow> edit list \<Rightarrow> edit_error + matched_edit list" where
  "match_edits nfkc base nEdits i [] = Inr []"
| "match_edits nfkc base nEdits i (e # es) =
     (let r = fuzzyFindText nfkc base (ed_oldText e); n = countOccurrences nfkc base (ed_oldText e) in
      if \<not> fm_found r then Inl (EditNotFound i nEdits)
      else if n > 1 then Inl (DuplicateText i nEdits n)
      else case match_edits nfkc base nEdits (Suc i) es of
          Inl er \<Rightarrow> Inl er
        | Inr ms \<Rightarrow> Inr (\<lparr>me_editIndex = i, me_matchIndex = fm_index r, me_matchLength = fm_matchLength r,
            me_newText = ed_newText e\<rparr> # ms))"

fun first_overlap :: "matched_edit list \<Rightarrow> edit_error option" where
  "first_overlap (p # c # rs) =
     (if me_matchIndex p + me_matchLength p > me_matchIndex c then Some (OverlappingEdits (me_editIndex p) (me_editIndex c))
      else first_overlap (c # rs))"
| "first_overlap _ = None"

fun first_empty :: "nat \<Rightarrow> edit list \<Rightarrow> nat option" where
  "first_empty i [] = None"
| "first_empty i (e # es) = (if ed_oldText e = [] then Some i else first_empty (Suc i) es)"

text \<open>The new content; the base content is always the given one.\<close>

definition applyEditsToNormalizedContent :: "(utf16 \<Rightarrow> utf16) \<Rightarrow> utf16 \<Rightarrow> edit list \<Rightarrow> edit_error + utf16" where
  "applyEditsToNormalizedContent nfkc content edits =
     (let es = map normalize_edit edits; nEdits = length es in
      case first_empty 0 es of
        Some i \<Rightarrow> Inl (EmptyOldText i nEdits)
      | None \<Rightarrow>
          (let fuzzy = list_ex (\<lambda>e. fm_usedFuzzyMatch (fuzzyFindText nfkc content (ed_oldText e))) es;
               base = (if fuzzy then normalizeForFuzzyMatch nfkc content else content) in
           case match_edits nfkc base nEdits 0 es of
             Inl er \<Rightarrow> Inl er
           | Inr ms0 \<Rightarrow>
               (let ms = sort_key me_matchIndex ms0 in
                case first_overlap ms of
                  Some er \<Rightarrow> Inl er
                | None \<Rightarrow>
                    (case (if fuzzy then applyReplacementsPreservingUnchangedLines content base ms
                           else Inr (applyReplacements base ms 0)) of
                       Inl er \<Rightarrow> Inl er
                     | Inr newContent \<Rightarrow> if content = newContent then Inl (NoChange nEdits) else Inr newContent))))"

section \<open>Messages of the errors\<close>

definition getEmptyOldTextError :: "string \<Rightarrow> nat \<Rightarrow> nat \<Rightarrow> string" where
  "getEmptyOldTextError path i nEdits =
     (if nEdits = 1 then ''oldText must not be empty in '' @ path @ ''.''
      else ''edits['' @ show_nat i @ ''].oldText must not be empty in '' @ path @ ''.'')"

definition getNotFoundError :: "string \<Rightarrow> nat \<Rightarrow> nat \<Rightarrow> string" where
  "getNotFoundError path i nEdits =
     (if nEdits = 1 then ''Could not find the exact text in '' @ path @ ''. The old text must match exactly including all whitespace and newlines.''
      else ''Could not find edits['' @ show_nat i @ ''] in '' @ path @ ''. The oldText must match exactly including all whitespace and newlines.'')"

definition getDuplicateError :: "string \<Rightarrow> nat \<Rightarrow> nat \<Rightarrow> int \<Rightarrow> string" where
  "getDuplicateError path i nEdits n =
     (if nEdits = 1 then ''Found '' @ show_int n @ '' occurrences of the text in '' @ path @
        ''. The text must be unique. Please provide more context to make it unique.''
      else ''Found '' @ show_int n @ '' occurrences of edits['' @ show_nat i @ ''] in '' @ path @
        ''. Each oldText must be unique. Please provide more context to make it unique.'')"

definition getNoChangeError :: "string \<Rightarrow> nat \<Rightarrow> string" where
  "getNoChangeError path nEdits =
     (if nEdits = 1 then ''No changes made to '' @ path @ ''. The replacement produced identical content. This might indicate an issue with special characters or the text not existing as expected.''
      else ''No changes made to '' @ path @ ''. The replacements produced identical content.'')"

fun edit_error_message :: "string \<Rightarrow> edit_error \<Rightarrow> string" where
  "edit_error_message path (EmptyOldText i nEdits) = getEmptyOldTextError path i nEdits"
| "edit_error_message path (EditNotFound i nEdits) = getNotFoundError path i nEdits"
| "edit_error_message path (DuplicateText i nEdits n) = getDuplicateError path i nEdits n"
| "edit_error_message path (OverlappingEdits i j) = ''edits['' @ show_nat i @ ''] and edits['' @ show_nat j @ ''] overlap in '' @ path @
     ''. Merge them into one edit or target disjoint regions.''"
| "edit_error_message path (NoChange nEdits) = getNoChangeError path nEdits"
| "edit_error_message path OutsideBase = ''Replacement range is outside the base content.''"
| "edit_error_message path DifferentLineCount =
     ''Cannot preserve unchanged lines because the base content has a different line count.''"

section \<open>Editing a file\<close>

text \<open>The text that the tool writes for the text it has read.\<close>

definition edited_text :: "(utf16 \<Rightarrow> utf16) \<Rightarrow> edit list \<Rightarrow> utf16 \<Rightarrow> edit_error + utf16" where
  "edited_text nfkc edits raw =
     (case stripBom raw of (bom, content) \<Rightarrow>
        (case applyEditsToNormalizedContent nfkc (normalizeToLF content) edits of
           Inl e \<Rightarrow> Inl e
         | Inr newContent \<Rightarrow> Inr (bom @ restoreLineEndings (detectLineEnding content) newContent)))"

end
