(* ===== verification/Edit_Facts.thy ===== *)
theory Edit_Facts
  imports Edit_Diff
begin

text \<open>
  What edits do to a text: replacements from the last to the first are one simultaneous replacement, the
  version that keeps untouched lines agrees with it, and line endings survive where they are uniform.
\<close>

section \<open>Gaps and fillings\<close>

fun weave :: "'a list list \<Rightarrow> 'a list list \<Rightarrow> 'a list" where
  "weave (g # gs) (x # xs) = g @ x @ weave gs xs"
| "weave (g # gs) [] = g"
| "weave [] xs = concat xs"

lemma weave_map: "f [] = [] \<Longrightarrow> (\<And>a b. f (a @ b) = f a @ f b) \<Longrightarrow> f (weave gs xs) = weave (map f gs) (map f xs)"
proof (induction gs xs rule: weave.induct)
  case (3 xs)
  have "f (concat ys) = concat (map f ys)" for ys using 3 by (induction ys) auto
  then show ?case by simp
qed simp_all

section \<open>Replacements in order\<close>

abbreviation edit_end :: "matched_edit \<Rightarrow> nat" where
  "edit_end r \<equiv> me_matchIndex r + me_matchLength r"

fun in_order :: "nat \<Rightarrow> nat \<Rightarrow> matched_edit list \<Rightarrow> bool" where
  "in_order p n [] \<longleftrightarrow> p \<le> n"
| "in_order p n (r # rs) \<longleftrightarrow> p \<le> me_matchIndex r \<and> in_order (edit_end r) n rs"

lemma in_order_le: "in_order p n rs \<Longrightarrow> p \<le> n"
  by (induction rs arbitrary: p) force+

lemma in_order_less: "in_order p n rs \<Longrightarrow> q \<le> p \<Longrightarrow> in_order q n rs"
  by (cases rs) auto

lemma in_order_more: "in_order p n rs \<Longrightarrow> n \<le> m \<Longrightarrow> in_order p m rs"
  by (induction rs arbitrary: p) auto

lemma in_order_append: "in_order p m rs \<Longrightarrow> in_order m n rs' \<Longrightarrow> in_order p n (rs @ rs')"
  by (induction rs arbitrary: p) (auto intro: in_order_less)

lemma in_order_snoc: "in_order p n (rs @ [r]) \<longleftrightarrow> in_order p (me_matchIndex r) rs \<and> edit_end r \<le> n"
  by (induction rs arbitrary: p) auto

abbreviation before :: "matched_edit \<Rightarrow> matched_edit \<Rightarrow> bool" where
  "before r r' \<equiv> edit_end r \<le> me_matchIndex r'"

lemma in_order_bound: "in_order p n rs \<Longrightarrow> rs \<noteq> [] \<Longrightarrow> \<forall>r \<in> set rs. edit_end r \<le> m \<Longrightarrow> in_order p m rs"
proof (induction rs arbitrary: p)
  case (Cons r rs)
  then show ?case by (cases rs) auto
qed simp

lemma in_order_before: "sorted_wrt before rs \<Longrightarrow> \<forall>r \<in> set rs. p \<le> me_matchIndex r \<and> edit_end r \<le> n \<Longrightarrow> p \<le> n \<Longrightarrow> in_order p n rs"
  by (induction rs arbitrary: p) auto

fun splice :: "nat \<Rightarrow> 'a list \<Rightarrow> ('a list \<times> nat \<times> nat) list \<Rightarrow> 'a list" where
  "splice p s [] = drop p s"
| "splice p s ((t, i, j) # rs) = sub_list p i s @ t @ splice j s rs"

abbreviation ranges :: "matched_edit list \<Rightarrow> (utf16 \<times> nat \<times> nat) list" where
  "ranges rs \<equiv> map (\<lambda>r. (me_newText r, me_matchIndex r, edit_end r)) rs"

lemma sub_list_self [simp]: "sub_list p p s = []"
  by (simp add: sub_list_def)

lemma length_sub_list: "j \<le> length s \<Longrightarrow> length (sub_list i j s) = j - i"
  by (simp add: sub_list_def)

lemma sub_list_drop: "i \<le> j \<Longrightarrow> sub_list i j s @ drop j s = drop i s"
  using append_take_drop_id [of "j - i" "drop i s"] by (simp add: sub_list_def)

lemma sub_list_append: "i \<le> j \<Longrightarrow> j \<le> k \<Longrightarrow> sub_list i j s @ sub_list j k s = sub_list i k s"
proof -
  assume "i \<le> j" "j \<le> k"
  then have k: "k - i = (j - i) + (k - j)" and j: "j - i + i = j" by simp_all
  show ?thesis unfolding sub_list_def k take_add drop_drop j ..
qed

lemma splice_shift: "p \<le> q \<Longrightarrow> in_order q n rs \<Longrightarrow> sub_list p q s @ splice q s (ranges rs) = splice p s (ranges rs)"
proof (cases rs)
  case Nil
  assume "p \<le> q"
  with Nil show ?thesis by (simp add: sub_list_drop)
next
  case (Cons r rs')
  assume "p \<le> q" "in_order q n rs"
  with Cons have "sub_list p q s @ sub_list q (me_matchIndex r) s = sub_list p (me_matchIndex r) s" by (simp add: sub_list_append)
  with Cons show ?thesis by simp
qed

text \<open>Applied from the last to the first, replacements in order are one simultaneous replacement.\<close>

lemma applyReplacements_splice:
  "in_order p (length s) rs \<Longrightarrow> a \<le> p \<Longrightarrow> applyReplacements (drop a s) rs a = sub_list a p s @ splice p s (ranges rs)"
proof (induction rs arbitrary: p)
  case Nil
  then show ?case by (simp add: applyReplacements_def sub_list_drop)
next
  case (Cons r rs)
  let ?i = "me_matchIndex r" and ?e = "edit_end r"
  have o: "in_order ?e (length s) rs" "p \<le> ?i" "a \<le> ?e" using Cons.prems by auto
  have e: "?e \<le> length s" using in_order_le [OF o(1)] .
  have "applyReplacements (drop a s) (r # rs) a = replace_one a r (sub_list a ?e s @ splice ?e s (ranges rs))"
    using Cons.IH [OF o(1,3)] by (simp add: applyReplacements_def)
  also have "\<dots> = take (?i - a) (sub_list a ?e s) @ me_newText r @ splice ?e s (ranges rs)"
    using e o Cons.prems(2) by (simp add: replace_one_def Let_def length_sub_list)
  also have "take (?i - a) (sub_list a ?e s) = sub_list a ?i s"
    using o Cons.prems(2) by (simp add: sub_list_def min_def)
  also have "\<dots> = sub_list a p s @ sub_list p ?i s" using o Cons.prems(2) by (simp add: sub_list_append)
  finally show ?case by simp
qed

fun gaps :: "nat \<Rightarrow> utf16 \<Rightarrow> matched_edit list \<Rightarrow> utf16 list" where
  "gaps p s [] = [drop p s]"
| "gaps p s (r # rs) = sub_list p (me_matchIndex r) s # gaps (edit_end r) s rs"

lemma length_gaps [simp]: "length (gaps p s rs) = Suc (length rs)"
  by (induction rs arbitrary: p) auto

lemma splice_weave: "splice p s (ranges rs) = weave (gaps p s rs) (map me_newText rs)"
  by (induction rs arbitrary: p) auto

abbreviation old_text :: "utf16 \<Rightarrow> matched_edit \<Rightarrow> utf16" where
  "old_text s r \<equiv> sub_list (me_matchIndex r) (edit_end r) s"

lemma drop_weave: "in_order p (length s) rs \<Longrightarrow> drop p s = weave (gaps p s rs) (map (old_text s) rs)"
proof (induction rs arbitrary: p)
  case (Cons r rs)
  then have "drop (edit_end r) s = weave (gaps (edit_end r) s rs) (map (old_text s) rs)" by simp
  moreover have "sub_list p (me_matchIndex r) s @ drop (me_matchIndex r) s = drop p s" using Cons.prems by (simp add: sub_list_drop)
  moreover have "old_text s r @ drop (edit_end r) s = drop (me_matchIndex r) s" by (simp add: sub_list_drop)
  ultimately show ?case by simp
qed simp

section \<open>Exact edits\<close>

lemma found_exact:
  "\<not> fm_usedFuzzyMatch (fuzzyFindText nfkc c old) \<Longrightarrow> fm_found (fuzzyFindText nfkc c old) \<Longrightarrow>
     \<exists>i. index_of old c = Some i \<and> fm_index (fuzzyFindText nfkc c old) = i \<and> fm_matchLength (fuzzyFindText nfkc c old) = length old"
  by (auto simp: fuzzyFindText_def Let_def split: option.splits)

definition found_edit :: "utf16 \<Rightarrow> matched_edit \<Rightarrow> edit" where
  "found_edit c r = \<lparr>ed_oldText = old_text c r, ed_newText = me_newText r\<rparr>"

lemma match_edits_exact:
  assumes "match_edits nfkc c n i es = Inr ms" "\<forall>e \<in> set es. \<not> fm_usedFuzzyMatch (fuzzyFindText nfkc c (ed_oldText e))"
  shows "map (found_edit c) ms = es \<and> (\<forall>r \<in> set ms. edit_end r \<le> length c)"
  using assms
proof (induction nfkc c n i es arbitrary: ms rule: match_edits.induct)
  case (2 nfkc c n i e es)
  let ?f = "fuzzyFindText nfkc c (ed_oldText e)"
  from "2.prems"(1) obtain ms' where ms': "match_edits nfkc c n (Suc i) es = Inr ms'" "fm_found ?f"
    "ms = \<lparr>me_editIndex = i, me_matchIndex = fm_index ?f, me_matchLength = fm_matchLength ?f, me_newText = ed_newText e\<rparr> # ms'"
    "\<not> countOccurrences nfkc c (ed_oldText e) > 1"
    by (auto simp: Let_def split: if_splits sum.splits)
  from found_exact [OF _ ms'(2)] "2.prems"(2) obtain k where k: "index_of (ed_oldText e) c = Some k" "fm_index ?f = k"
    "fm_matchLength ?f = length (ed_oldText e)" by auto
  have "map (found_edit c) ms' = es \<and> (\<forall>r \<in> set ms'. edit_end r \<le> length c)"
    using "2.IH" [OF refl refl _ _ ms'(1)] ms'(2,4) "2.prems"(2) by simp
  moreover have "found_edit c (hd ms) = e" "edit_end (hd ms) \<le> length c"
    using index_of_Some [OF k(1)] by (simp_all add: ms'(3) k(2,3) sub_list_def found_edit_def)
  ultimately show ?case by (simp add: ms'(3))
qed simp

lemma no_overlap_in_order:
  "first_overlap ms = None \<Longrightarrow> \<forall>r \<in> set ms. edit_end r \<le> n \<Longrightarrow> ms = [] \<or> p \<le> me_matchIndex (hd ms) \<Longrightarrow> p \<le> n \<Longrightarrow> in_order p n ms"
proof (induction ms arbitrary: p rule: first_overlap.induct)
  case (1 r c rs)
  then have "in_order (edit_end r) n (c # rs)" by (intro "1.IH") (auto split: if_splits)
  with 1 show ?case by simp
qed auto

lemma exact_edits_weave:
  assumes "applyEditsToNormalizedContent nfkc c edits = Inr c'"
    and "\<forall>e \<in> set edits. \<not> fm_usedFuzzyMatch (fuzzyFindText nfkc c (normalizeToLF (ed_oldText e)))"
  shows "\<exists>gs es. mset es = mset (map normalize_edit edits) \<and> length gs = Suc (length es) \<and>
    c = weave gs (map ed_oldText es) \<and> c' = weave gs (map ed_newText es) \<and> c' \<noteq> c"
proof -
  let ?es = "map normalize_edit edits"
  have exact: "\<forall>e \<in> set ?es. \<not> fm_usedFuzzyMatch (fuzzyFindText nfkc c (ed_oldText e))"
    using assms(2) by (auto simp: normalize_edit_def)
  then have nf: "\<not> list_ex (\<lambda>e. fm_usedFuzzyMatch (fuzzyFindText nfkc c (ed_oldText e))) ?es" by (auto simp: list_ex_iff)
  from assms(1) obtain ms where ms: "match_edits nfkc c (length ?es) 0 ?es = Inr ms" "first_overlap (sort_key me_matchIndex ms) = None"
    "c' = applyReplacements c (sort_key me_matchIndex ms) 0" "c' \<noteq> c"
    unfolding applyEditsToNormalizedContent_def Let_def using nf by (auto split: option.splits sum.splits if_splits)
  let ?s = "sort_key me_matchIndex ms"
  note m = match_edits_exact [OF ms(1) exact]
  have o: "in_order 0 (length c) ?s" using m by (intro no_overlap_in_order [OF ms(2)]) auto
  have "mset (map (found_edit c) ?s) = mset ?es" using m by (metis mset_map mset_sort)
  moreover have "c = weave (gaps 0 c ?s) (map ed_oldText (map (found_edit c) ?s))"
    using drop_weave [OF o] by (simp add: found_edit_def o_def)
  moreover have "c' = weave (gaps 0 c ?s) (map ed_newText (map (found_edit c) ?s))"
    using applyReplacements_splice [OF o order_refl] by (simp add: ms(3) splice_weave found_edit_def o_def)
  ultimately show ?thesis using ms(4) by (intro exI [of _ "gaps 0 c ?s"] exI [of _ "map (found_edit c) ?s"]) simp
qed

section \<open>Keeping untouched lines\<close>

definition line_offset :: "utf16 list \<Rightarrow> nat \<Rightarrow> nat" where
  "line_offset ls k = length (concat (take k ls))"

lemma line_offset_simps [simp]: "line_offset ls 0 = 0" "line_offset (l # ls) (Suc k) = length l + line_offset ls k"
  "line_offset [] k = 0"
  by (simp_all add: line_offset_def)

lemma line_offset_mono: "j \<le> k \<Longrightarrow> line_offset ls j \<le> line_offset ls k"
proof (induction ls arbitrary: j k)
  case (Cons l ls)
  then show ?case by (cases j; cases k) auto
qed simp

lemma concat_take: "concat (take k ls) = take (line_offset ls k) (concat ls)"
  by (induction ls arbitrary: k) (auto simp: take_Cons split: nat.split)

lemma concat_drop: "concat (drop k ls) = drop (line_offset ls k) (concat ls)"
  by (induction ls arbitrary: k) (auto simp: drop_Cons split: nat.split)

lemma line_offset_drop: "line_offset ls k + line_offset (drop k ls) j = line_offset ls (k + j)"
proof (induction ls arbitrary: k)
  case (Cons l ls)
  then show ?case by (cases k) auto
qed simp

lemma concat_sub_list: "j \<le> k \<Longrightarrow> concat (sub_list j k ls) = sub_list (line_offset ls j) (line_offset ls k) (concat ls)"
proof -
  assume "j \<le> k"
  then have "line_offset (drop j ls) (k - j) = line_offset ls k - line_offset ls j" using line_offset_drop [of ls j "k - j"] by simp
  then show ?thesis by (simp add: sub_list_def concat_take concat_drop)
qed

lemma concat_lines [simp]: "concat (splitLinesWithEndings c) = c"
  by (induction c) (auto split: list.split)

lemma lines_not_empty: "l \<in> set (splitLinesWithEndings c) \<Longrightarrow> l \<noteq> []"
  by (induction c arbitrary: l) (auto split: list.splits if_splits)

lemma length_spans [simp]: "length (line_spans p ls) = length ls"
  by (induction ls arbitrary: p) auto

lemma nth_spans: "k < length ls \<Longrightarrow> line_spans p ls ! k = (p + line_offset ls k, p + line_offset ls (Suc k))"
proof (induction ls arbitrary: p k)
  case (Cons l ls)
  then show ?case by (cases k) auto
qed simp

text \<open>The first line of a range has its start, and the range ends with the first line that has its end.\<close>

lemma start_line_ok:
  "start_line i pos (line_spans p ls) = Some a \<Longrightarrow>
     i \<le> a \<and> a - i < length ls \<and> p + line_offset ls (a - i) \<le> pos \<and> pos < p + line_offset ls (Suc (a - i))"
proof (induction ls arbitrary: i p)
  case (Cons l ls)
  show ?case
  proof (cases "p \<le> pos \<and> pos < p + length l")
    case False
    with Cons.prems have "start_line (Suc i) pos (line_spans (p + length l) ls) = Some a" by (auto split: if_splits)
    from Cons.IH [OF this] have "Suc i \<le> a" "a - Suc i < length ls" "p + length l + line_offset ls (a - Suc i) \<le> pos"
      "pos < p + length l + line_offset ls (Suc (a - Suc i))" by simp_all
    moreover from \<open>Suc i \<le> a\<close> obtain k where "a = Suc i + k" using le_Suc_ex by blast
    ultimately show ?thesis by (simp add: algebra_simps Suc_diff_le)
  qed (use Cons.prems in auto)
qed simp

lemma end_line_ok:
  "end_line i pos (line_spans p ls) = Some b \<Longrightarrow> i \<le> b \<and> b - i < length ls \<and> pos \<le> p + line_offset ls (Suc (b - i))"
proof (induction ls arbitrary: i p)
  case (Cons l ls)
  show ?case
  proof (cases "p + length l < pos")
    case True
    with Cons.prems have "end_line (Suc i) pos (line_spans (p + length l) ls) = Some b" by simp
    from Cons.IH [OF this] have "Suc i \<le> b" "b - Suc i < length ls" "pos \<le> p + length l + line_offset ls (Suc (b - Suc i))" by simp_all
    moreover from \<open>Suc i \<le> b\<close> obtain k where "b = Suc i + k" using le_Suc_ex by blast
    ultimately show ?thesis by (simp add: algebra_simps)
  qed (use Cons.prems in auto)
qed simp

lemma start_line_found: "p \<le> pos \<Longrightarrow> pos < p + length (concat ls) \<Longrightarrow> start_line i pos (line_spans p ls) \<noteq> None"
  by (induction ls arbitrary: i p) auto

lemma end_line_found: "ls \<noteq> [] \<Longrightarrow> pos \<le> p + length (concat ls) \<Longrightarrow> end_line i pos (line_spans p ls) \<noteq> None"
proof (induction ls arbitrary: i p)
  case (Cons l ls)
  then show ?case by (cases ls) auto
qed simp

lemma drop_spans: "k \<le> length ls \<Longrightarrow> drop k (line_spans p ls) = line_spans (p + line_offset ls k) (drop k ls)"
proof (induction ls arbitrary: p k)
  case (Cons l ls)
  then show ?case by (cases k) (auto simp: add.assoc)
qed simp

lemma line_range_ok:
  assumes "getReplacementLineRange (line_spans 0 ls) r = Inr (a, b)"
  shows "a < b \<and> b \<le> length ls \<and> line_offset ls a \<le> me_matchIndex r \<and> edit_end r \<le> line_offset ls b"
proof -
  from assms obtain e where s: "start_line 0 (me_matchIndex r) (line_spans 0 ls) = Some a"
    and e: "end_line a (edit_end r) (drop a (line_spans 0 ls)) = Some e" "b = Suc e"
    by (auto simp: getReplacementLineRange_def split: option.splits)
  from start_line_ok [OF s] have a: "a < length ls" "line_offset ls a \<le> me_matchIndex r" by simp_all
  from e(1) have "end_line a (edit_end r) (line_spans (line_offset ls a) (drop a ls)) = Some e"
    using a(1) by (simp add: drop_spans)
  from end_line_ok [OF this] have "a \<le> e" "e - a < length ls - a" "edit_end r \<le> line_offset ls a + line_offset (drop a ls) (Suc (e - a))"
    by simp_all
  with a e(2) show ?thesis by (simp add: line_offset_drop)
qed

lemma line_range_found:
  assumes "me_matchIndex r < length (concat ls)" "edit_end r \<le> length (concat ls)"
  shows "\<exists>a b. getReplacementLineRange (line_spans 0 ls) r = Inr (a, b)"
proof -
  obtain a where s: "start_line 0 (me_matchIndex r) (line_spans 0 ls) = Some a"
    using start_line_found [of 0 "me_matchIndex r" ls] assms(1) by auto
  from start_line_ok [OF s] have a: "a < length ls" by simp
  have "line_offset ls a + length (concat (drop a ls)) = length (concat ls)"
    using concat_drop [of a ls] line_offset_mono [of a "length ls" ls] a by (simp add: line_offset_def)
  then have "end_line a (edit_end r) (line_spans (line_offset ls a) (drop a ls)) \<noteq> None"
    using a assms(2) by (intro end_line_found) auto
  then show ?thesis using s a by (auto simp: getReplacementLineRange_def drop_spans)
qed

text \<open>Groups in order: lines that do not overlap, with their replacements inside them.\<close>

fun grouped :: "utf16 list \<Rightarrow> nat \<Rightarrow> line_group list \<Rightarrow> bool" where
  "grouped ls k [] \<longleftrightarrow> k \<le> length ls"
| "grouped ls k (g # gs) \<longleftrightarrow> k \<le> gr_startLine g \<and> gr_startLine g < gr_endLine g \<and> gr_replacements g \<noteq> [] \<and>
     in_order (line_offset ls (gr_startLine g)) (line_offset ls (gr_endLine g)) (gr_replacements g) \<and> grouped ls (gr_endLine g) gs"

definition last_line :: "nat \<Rightarrow> line_group list \<Rightarrow> nat" where
  "last_line k gs = (if gs = [] then k else gr_endLine (last gs))"

definition group_ok :: "utf16 list \<Rightarrow> line_group \<Rightarrow> bool" where
  "group_ok ls g \<longleftrightarrow> gr_startLine g < gr_endLine g \<and> gr_endLine g \<le> length ls \<and> gr_replacements g \<noteq> [] \<and>
     in_order (line_offset ls (gr_startLine g)) (line_offset ls (gr_endLine g)) (gr_replacements g)"

lemma grouped_snoc:
  "grouped ls k (gs @ [g]) \<longleftrightarrow> grouped ls k gs \<and> last_line k gs \<le> gr_startLine g \<and> group_ok ls g"
proof (induction gs arbitrary: k)
  case Nil
  then show ?case by (auto simp: last_line_def group_ok_def)
next
  case (Cons h gs)
  then show ?case by (auto simp: last_line_def group_ok_def)
qed

lemma grouped_le: "grouped ls k gs \<Longrightarrow> k \<le> length ls"
  by (induction gs arbitrary: k) force+

lemma grouped_in_order: "grouped ls k gs \<Longrightarrow> in_order (line_offset ls k) (length (concat ls)) (concat (map gr_replacements gs))"
proof (induction gs arbitrary: k)
  case Nil
  then show ?case using line_offset_mono [of k "length ls" ls] by (simp add: line_offset_def)
next
  case (Cons g gs)
  then have "in_order (line_offset ls (gr_startLine g)) (length (concat ls)) (concat (map gr_replacements (g # gs)))"
    by (auto intro: in_order_append)
  then show ?case using Cons.prems line_offset_mono by (auto intro: in_order_less)
qed

abbreviation group_reps :: "line_group list \<Rightarrow> matched_edit list" where
  "group_reps gs \<equiv> concat (map gr_replacements gs)"

lemma add_to_groups_ok:
  assumes "grouped ls 0 gs" "a < b" "b \<le> length ls" "line_offset ls a \<le> me_matchIndex r" "edit_end r \<le> line_offset ls b"
    and "me_matchIndex r \<le> edit_end r" "\<forall>q \<in> set (group_reps gs). before q r"
  shows "grouped ls 0 (add_to_groups (a, b) r gs) \<and> group_reps (add_to_groups (a, b) r gs) = group_reps gs @ [r]"
proof (cases "gs \<noteq> [] \<and> a < gr_endLine (last gs)")
  case True
  then obtain hs g where gs: "gs = hs @ [g]" by (metis append_butlast_last_id)
  let ?g = "g\<lparr>gr_endLine := max (gr_endLine g) b, gr_replacements := gr_replacements g @ [r]\<rparr>"
  have g: "grouped ls 0 hs" "last_line 0 hs \<le> gr_startLine g" "group_ok ls g" using assms(1) by (simp_all add: gs grouped_snoc)
  have "in_order (line_offset ls (gr_startLine g)) (me_matchIndex r) (gr_replacements g)"
  proof (rule in_order_bound)
    show "in_order (line_offset ls (gr_startLine g)) (line_offset ls (gr_endLine g)) (gr_replacements g)" "gr_replacements g \<noteq> []"
      using g(3) by (simp_all add: group_ok_def)
    show "\<forall>q \<in> set (gr_replacements g). before q r" using assms(7) by (simp add: gs)
  qed
  moreover have "edit_end r \<le> line_offset ls (max (gr_endLine g) b)"
    using assms(5) line_offset_mono [of b "max (gr_endLine g) b" ls] by simp
  ultimately have "group_ok ls ?g" using g(3) assms(3) by (auto simp: group_ok_def in_order_snoc)
  then show ?thesis using g True by (simp add: add_to_groups_def gs grouped_snoc)
next
  case False
  have "group_ok ls \<lparr>gr_startLine = a, gr_endLine = b, gr_replacements = [r]\<rparr>" using assms by (simp add: group_ok_def)
  moreover have "add_to_groups (a, b) r gs = gs @ [\<lparr>gr_startLine = a, gr_endLine = b, gr_replacements = [r]\<rparr>]"
    using False by (auto simp: add_to_groups_def)
  ultimately show ?thesis using assms(1) False by (simp add: grouped_snoc) (auto simp: last_line_def)
qed

lemma group_replacements_ok:
  assumes "grouped ls 0 gs" "sorted_wrt before rs" "\<forall>q \<in> set (group_reps gs). \<forall>r \<in> set rs. before q r"
    and "group_replacements (line_spans 0 ls) rs gs = Inr gs'"
  shows "grouped ls 0 gs' \<and> group_reps gs' = group_reps gs @ rs"
  using assms
proof (induction rs arbitrary: gs)
  case (Cons r rs)
  from Cons.prems(4) obtain a b where ab: "getReplacementLineRange (line_spans 0 ls) r = Inr (a, b)"
    "group_replacements (line_spans 0 ls) rs (add_to_groups (a, b) r gs) = Inr gs'"
    by (auto split: sum.splits)
  have "grouped ls 0 (add_to_groups (a, b) r gs) \<and> group_reps (add_to_groups (a, b) r gs) = group_reps gs @ [r]"
    using line_range_ok [OF ab(1)] Cons.prems by (intro add_to_groups_ok) auto
  with Cons.IH [OF _ _ _ ab(2)] Cons.prems show ?case by auto
qed simp

lemma group_replacements_found:
  "\<forall>r \<in> set rs. me_matchIndex r < length (concat ls) \<and> edit_end r \<le> length (concat ls) \<Longrightarrow>
     \<exists>gs'. group_replacements (line_spans 0 ls) rs gs = Inr gs'"
proof (induction rs arbitrary: gs)
  case (Cons r rs)
  then obtain a b where "getReplacementLineRange (line_spans 0 ls) r = Inr (a, b)" using line_range_found [of r ls] by auto
  with Cons show ?case by auto
qed simp

text \<open>Lines outside the groups are copied, the groups are rewritten.\<close>

fun kept_lines :: "utf16 list \<Rightarrow> nat \<Rightarrow> line_group list \<Rightarrow> utf16 list" where
  "kept_lines ls k [] = [concat (drop k ls)]"
| "kept_lines ls k (g # gs) = concat (sub_list k (gr_startLine g) ls) # kept_lines ls (gr_endLine g) gs"

definition group_text :: "utf16 list \<Rightarrow> line_group \<Rightarrow> utf16" where
  "group_text ls g = concat (sub_list (gr_startLine g) (gr_endLine g) ls)"

definition rewritten :: "utf16 list \<Rightarrow> line_group \<Rightarrow> utf16" where
  "rewritten ls g = applyReplacements (group_text ls g) (gr_replacements g) (line_offset ls (gr_startLine g))"

lemma length_kept_lines [simp]: "length (kept_lines ls k gs) = Suc (length gs)"
  by (induction gs arbitrary: k) auto

lemma concat_sub_drop: "i \<le> j \<Longrightarrow> concat (sub_list i j ls) @ concat (drop j ls) = concat (drop i ls)"
  by (metis concat_append sub_list_drop)

lemma grouped_weave: "grouped ls k gs \<Longrightarrow> concat (drop k ols) = weave (kept_lines ols k gs) (map (group_text ols) gs)"
proof (induction gs arbitrary: k)
  case (Cons g gs)
  have 1: "concat (drop (gr_endLine g) ols) = weave (kept_lines ols (gr_endLine g) gs) (map (group_text ols) gs)"
    using Cons.prems by (intro Cons.IH) simp
  have 2: "group_text ols g @ concat (drop (gr_endLine g) ols) = concat (drop (gr_startLine g) ols)"
    using Cons.prems by (simp add: group_text_def concat_sub_drop)
  have 3: "concat (sub_list k (gr_startLine g) ols) @ concat (drop (gr_startLine g) ols) = concat (drop k ols)"
    using Cons.prems by (simp add: concat_sub_drop)
  show ?case by (simp only: kept_lines.simps list.map weave.simps 1 [symmetric] 2 3)
qed simp

lemma write_groups_weave:
  "grouped ls k gs \<Longrightarrow> write_groups ols (concat ls) (line_spans 0 ls) k gs = weave (kept_lines ols k gs) (map (rewritten ls) gs)"
proof (induction gs arbitrary: k)
  case (Cons g gs)
  have g: "gr_startLine g < gr_endLine g" "gr_endLine g \<le> length ls" using Cons.prems grouped_le by auto
  have "sub_list (line_offset ls (gr_startLine g)) (line_offset ls (gr_endLine g)) (concat ls) = group_text ls g"
    using g by (simp add: group_text_def concat_sub_list)
  then show ?case using Cons g by (simp add: nth_spans rewritten_def Let_def)
qed simp

lemma splice_take:
  "in_order p m rs \<Longrightarrow> in_order m n rest \<Longrightarrow> m \<le> length c \<Longrightarrow>
     splice p (take m c) (ranges rs) @ splice m c (ranges rest) = splice p c (ranges (rs @ rest))"
proof (induction rs arbitrary: p)
  case Nil
  then have "drop p (take m c) = sub_list p m c" by (simp add: sub_list_def drop_take)
  with Nil splice_shift [of p m n rest c] show ?case by simp
next
  case (Cons r rs)
  then have "me_matchIndex r \<le> m" using in_order_le by fastforce
  then have "sub_list p (me_matchIndex r) (take m c) = sub_list p (me_matchIndex r) c" by (simp add: sub_list_def drop_take min_def)
  with Cons show ?case by simp
qed

lemma rewritten_splice:
  assumes "group_ok ls g"
  shows "rewritten ls g = splice (line_offset ls (gr_startLine g)) (take (line_offset ls (gr_endLine g)) (concat ls)) (ranges (gr_replacements g))"
proof -
  let ?a = "line_offset ls (gr_startLine g)" and ?c = "take (line_offset ls (gr_endLine g)) (concat ls)"
  have "line_offset ls (gr_endLine g) \<le> length (concat ls)"
    using line_offset_mono [of "gr_endLine g" "length ls" ls] assms by (simp add: group_ok_def line_offset_def)
  then have "in_order ?a (length ?c) (gr_replacements g)" using assms by (simp add: group_ok_def)
  moreover have "group_text ls g = drop ?a ?c"
    using assms by (simp add: group_text_def concat_sub_list group_ok_def) (simp add: sub_list_def drop_take)
  ultimately show ?thesis using applyReplacements_splice [of ?a ?c "gr_replacements g" ?a] by (simp add: rewritten_def)
qed

lemma groups_splice:
  "grouped ls k gs \<Longrightarrow> weave (kept_lines ls k gs) (map (rewritten ls) gs) = splice (line_offset ls k) (concat ls) (ranges (group_reps gs))"
proof (induction gs arbitrary: k)
  case Nil
  then show ?case by (simp add: concat_drop)
next
  case (Cons g gs)
  let ?s = "line_offset ls (gr_startLine g)" and ?e = "line_offset ls (gr_endLine g)" and ?c = "concat ls"
  have g: "group_ok ls g" "k \<le> gr_startLine g" using Cons.prems grouped_le by (auto simp: group_ok_def)
  have o: "in_order ?s ?e (gr_replacements g)" "in_order ?e (length ?c) (group_reps gs)"
    using Cons.prems grouped_in_order by auto
  have IH: "weave (kept_lines ls (gr_endLine g) gs) (map (rewritten ls) gs) = splice ?e ?c (ranges (group_reps gs))"
    using Cons.prems by (intro Cons.IH) simp
  have 1: "rewritten ls g @ splice ?e ?c (ranges (group_reps gs)) = splice ?s ?c (ranges (gr_replacements g @ group_reps gs))"
    unfolding rewritten_splice [OF g(1)] by (rule splice_take [OF o in_order_le [OF o(2)]])
  have 2: "sub_list (line_offset ls k) ?s ?c @ splice ?s ?c (ranges (gr_replacements g @ group_reps gs)) =
      splice (line_offset ls k) ?c (ranges (gr_replacements g @ group_reps gs))"
    by (rule splice_shift [OF line_offset_mono [OF g(2)] in_order_append [OF o]])
  show ?case by (simp only: kept_lines.simps list.map weave.simps IH 1 concat_sub_list [OF g(2)] 2 concat.simps)
qed

text \<open>What the version that keeps lines returns.\<close>

lemma preserving_ok:
  assumes "applyReplacementsPreservingUnchangedLines original base rs = Inr new" "sorted_wrt before (sort_key me_matchIndex rs)"
  shows "\<exists>gs. grouped (splitLinesWithEndings base) 0 gs \<and> group_reps gs = sort_key me_matchIndex rs \<and>
    original = weave (kept_lines (splitLinesWithEndings original) 0 gs) (map (group_text (splitLinesWithEndings original)) gs) \<and>
    base = weave (kept_lines (splitLinesWithEndings base) 0 gs) (map (group_text (splitLinesWithEndings base)) gs) \<and>
    new = weave (kept_lines (splitLinesWithEndings original) 0 gs) (map (rewritten (splitLinesWithEndings base)) gs)"
proof -
  let ?ls = "splitLinesWithEndings base" and ?ols = "splitLinesWithEndings original"
  from assms(1) obtain gs where gs: "group_replacements (line_spans 0 ?ls) (sort_key me_matchIndex rs) [] = Inr gs"
    "new = write_groups ?ols base (line_spans 0 ?ls) 0 gs"
    by (auto simp: applyReplacementsPreservingUnchangedLines_def getLineSpans_def Let_def split: if_splits sum.splits)
  from group_replacements_ok [OF _ assms(2) _ gs(1)] have g: "grouped ?ls 0 gs" "group_reps gs = sort_key me_matchIndex rs" by simp_all
  show ?thesis
    using g grouped_weave [OF g(1), of ?ols] grouped_weave [OF g(1), of ?ls] write_groups_weave [OF g(1), of ?ols] gs(2)
    by (intro exI [of _ gs]) simp
qed

lemma preserving_same:
  assumes "sorted_wrt before (sort_key me_matchIndex rs)" "\<forall>r \<in> set rs. me_matchIndex r < length c \<and> edit_end r \<le> length c"
  shows "applyReplacementsPreservingUnchangedLines c c rs = Inr (applyReplacements c (sort_key me_matchIndex rs) 0)"
proof -
  let ?ls = "splitLinesWithEndings c" and ?rs = "sort_key me_matchIndex rs"
  obtain gs where gs: "group_replacements (line_spans 0 ?ls) ?rs [] = Inr gs"
    using group_replacements_found [of ?rs ?ls "[]"] assms(2) by auto
  from group_replacements_ok [OF _ assms(1) _ gs] have g: "grouped ?ls 0 gs" "group_reps gs = ?rs" by simp_all
  have "write_groups ?ls c (line_spans 0 ?ls) 0 gs = splice 0 c (ranges ?rs)"
    using write_groups_weave [OF g(1), of ?ls] groups_splice [OF g(1)] by (simp add: g(2))
  moreover have "in_order 0 (length c) ?rs" by (rule in_order_before [OF assms(1)]) (use assms(2) in auto)
  ultimately show ?thesis
    using gs applyReplacements_splice [of 0 c ?rs 0]
    by (simp add: applyReplacementsPreservingUnchangedLines_def getLineSpans_def Let_def)
qed

section \<open>Line endings\<close>

lemma not_line_feed [simp]: "carriage_return \<noteq> line_feed" "line_feed \<noteq> carriage_return"
  by (simp_all add: carriage_return_def line_feed_def)

lemma restore_append: "restoreLineEndings b (s @ t) = restoreLineEndings b s @ restoreLineEndings b t"
  by (simp add: restoreLineEndings_def)

lemma restore_weave: "restoreLineEndings b (weave gs xs) = weave (map (restoreLineEndings b) gs) (map (restoreLineEndings b) xs)"
  by (rule weave_map) (simp_all add: restore_append, simp add: restoreLineEndings_def)

lemma replace_crlf_id: "carriage_return \<notin> set u \<Longrightarrow> replace_crlf u = u"
  by (induction u rule: replace_crlf.induct) auto

lemma replace_crlf_other: "c \<noteq> carriage_return \<Longrightarrow> replace_crlf (c # s) = c # replace_crlf s"
  by (cases s) auto

lemma normalize_restore: "carriage_return \<notin> set u \<Longrightarrow> normalizeToLF (restoreLineEndings b u) = u"
proof (cases b)
  case True
  assume u: "carriage_return \<notin> set u"
  then have "replace_crlf (restoreLineEndings True u) = u"
    by (induction u) (auto simp: restoreLineEndings_def replace_crlf_other)
  moreover have "map (\<lambda>c. if c = carriage_return then line_feed else c) u = u" using u by (induction u) auto
  ultimately show ?thesis by (simp add: normalizeToLF_def True)
next
  case False
  assume u: "carriage_return \<notin> set u"
  have "map (\<lambda>c. if c = carriage_return then line_feed else c) u = u" using u by (induction u) auto
  with False u show ?thesis by (simp add: normalizeToLF_def restoreLineEndings_def replace_crlf_id)
qed

lemma index_crlf:
  assumes "carriage_return \<notin> set u"
  shows "index_of [line_feed] (restoreLineEndings True u) = map_option Suc (index_of [line_feed] u)"
    and "index_of [carriage_return, line_feed] (restoreLineEndings True u) = index_of [line_feed] u"
    and "index_of [carriage_return, line_feed] u = None"
  using assms by (induction u) (auto simp: restoreLineEndings_def option.map_comp comp_def)

lemma detect_restore: "carriage_return \<notin> set u \<Longrightarrow> detectLineEnding (restoreLineEndings b u) = (b \<and> line_feed \<in> set u)"
proof -
  assume u: "carriage_return \<notin> set u"
  have lf: "index_of [line_feed] u = None \<longleftrightarrow> line_feed \<notin> set u" by (induction u) auto
  show ?thesis
  proof (cases b)
    case True
    then show ?thesis using index_crlf(1,2) [OF u] lf by (auto simp: detectLineEnding_def split: option.split)
  next
    case False
    then show ?thesis using index_crlf(3) [OF u] by (auto simp: detectLineEnding_def restoreLineEndings_def split: option.split)
  qed
qed

text \<open>Normalizing and restoring gives back a text whose lines all end alike.\<close>

lemma line_endings_roundtrip:
  "carriage_return \<notin> set u \<Longrightarrow>
     restoreLineEndings (detectLineEnding (restoreLineEndings b u)) (normalizeToLF (restoreLineEndings b u)) = restoreLineEndings b u"
proof -
  assume u: "carriage_return \<notin> set u"
  have "restoreLineEndings True u = u" if "line_feed \<notin> set u" using that by (induction u) (auto simp: restoreLineEndings_def)
  then show ?thesis by (auto simp: detect_restore [OF u] normalize_restore [OF u]) (auto simp: restoreLineEndings_def)
qed

lemma stripBom_append: "stripBom raw = (bom, s) \<Longrightarrow> raw = bom @ s"
  by (auto simp: stripBom_def split: list.splits if_splits)

lemma edited_text_exact:
  assumes "stripBom raw = (bom, restoreLineEndings b u)" "carriage_return \<notin> set u" "edited_text nfkc edits raw = Inr out"
    and "\<forall>e \<in> set edits. index_of (normalizeToLF (ed_oldText e)) u \<noteq> None"
  shows "\<exists>R gs es. R = restoreLineEndings (detectLineEnding (restoreLineEndings b u)) \<and>
    mset es = mset (map normalize_edit edits) \<and> length gs = Suc (length es) \<and>
    raw = bom @ weave (map R gs) (map (\<lambda>e. R (ed_oldText e)) es) \<and> out = bom @ weave (map R gs) (map (\<lambda>e. R (ed_newText e)) es)"
proof -
  let ?R = "restoreLineEndings (detectLineEnding (restoreLineEndings b u))"
  from assms(1,3) obtain c' where c': "applyEditsToNormalizedContent nfkc u edits = Inr c'" "out = bom @ ?R c'"
    by (auto simp: edited_text_def normalize_restore [OF assms(2)] split: sum.splits)
  have "\<forall>e \<in> set edits. \<not> fm_usedFuzzyMatch (fuzzyFindText nfkc u (normalizeToLF (ed_oldText e)))"
    using assms(4) by (auto simp: fuzzyFindText_def)
  from exact_edits_weave [OF c'(1) this] obtain gs es where w: "mset es = mset (map normalize_edit edits)"
    "length gs = Suc (length es)" "u = weave gs (map ed_oldText es)" "c' = weave gs (map ed_newText es)" by blast
  have "restoreLineEndings b u = ?R u" using line_endings_roundtrip [OF assms(2), of b] normalize_restore [OF assms(2), of b] by simp
  then have "raw = bom @ ?R u" using stripBom_append [OF assms(1)] by simp
  then show ?thesis
    using w c'(2) by (intro exI [of _ ?R] exI [of _ gs] exI [of _ es]) (simp add: restore_weave comp_def)
qed

end
