(* ===== verification/Edit_Tool.thy ===== *)
theory Edit_Tool
  imports Edit_Facts Json
begin

text \<open>
  The edit tool around the edits: its arguments, its steps on the file (\<open>tools/edit.ts\<close>) and the diff it
  shows (\<open>generateDiffString\<close> of \<open>tools/edit-diff.ts\<close>). The comparison of lines is that of a library: its
  parts are a parameter.
\<close>

section \<open>Arguments\<close>

fun json_list :: "json option \<Rightarrow> json list option" where
  "json_list (Some (JArr vs)) = Some vs"
| "json_list _ = None"

text \<open>A list of edits that came as a text, and the single edit of older calls.\<close>

definition parsed_edits :: "(string \<times> json) list \<Rightarrow> (string \<times> json) list" where
  "parsed_edits fs =
     (case map_of fs ''edits'' of
        Some (JStr s) \<Rightarrow> (case json_parse s of
            Some (JArr vs) \<Rightarrow> map (\<lambda>(k, v). (k, if k = ''edits'' then JArr vs else v)) fs
          | _ \<Rightarrow> fs)
      | _ \<Rightarrow> fs)"

definition prepareEditArguments :: "json \<Rightarrow> json" where
  "prepareEditArguments input =
     (case input of
        JObj fs0 \<Rightarrow>
          (let fs = parsed_edits fs0 in
           case (map_of fs ''oldText'', map_of fs ''newText'') of
             (Some (JStr old), Some (JStr new)) \<Rightarrow>
               (let edits = nullish (json_list (map_of fs ''edits'')) [] @
                  [JObj [(''oldText'', JStr old), (''newText'', JStr new)]];
                    rest = filter (\<lambda>(k, v). k \<notin> {''oldText'', ''newText''}) fs
                in if map_of rest ''edits'' = None then JObj (rest @ [(''edits'', JArr edits)])
                   else JObj (map (\<lambda>(k, v). (k, if k = ''edits'' then JArr edits else v)) rest))
           | _ \<Rightarrow> JObj fs)
      | _ \<Rightarrow> input)"

definition NO_EDITS :: string where
  "NO_EDITS = ''Edit tool input is invalid. edits must contain at least one replacement.''"

section \<open>The diff that is shown\<close>

datatype part_kind = PartSame | PartAdded | PartRemoved

record diff_part =
  dp_kind :: part_kind
  dp_value :: utf16

text \<open>A row has a sign, a number and a line, or stands for lines left out.\<close>

datatype diff_row =
    AddedRow nat utf16
  | RemovedRow nat utf16
  | ContextRow nat utf16
  | SkipRow

record diff_state =
  ds_rows :: "diff_row list"
  ds_oldLineNum :: nat
  ds_newLineNum :: nat
  ds_lastWasChange :: bool
  ds_firstChangedLine :: "nat option"

definition part_lines :: "utf16 \<Rightarrow> utf16 list" where
  "part_lines v = (let raw = split_at_lf v in if last raw = [] then butlast raw else raw)"

definition add_row :: "utf16 \<Rightarrow> diff_state \<Rightarrow> diff_state" where
  "add_row l st = st\<lparr>ds_rows := ds_rows st @ [AddedRow (ds_newLineNum st) l], ds_newLineNum := Suc (ds_newLineNum st)\<rparr>"

definition remove_row :: "utf16 \<Rightarrow> diff_state \<Rightarrow> diff_state" where
  "remove_row l st = st\<lparr>ds_rows := ds_rows st @ [RemovedRow (ds_oldLineNum st) l], ds_oldLineNum := Suc (ds_oldLineNum st)\<rparr>"

definition context_row :: "utf16 \<Rightarrow> diff_state \<Rightarrow> diff_state" where
  "context_row l st = st\<lparr>ds_rows := ds_rows st @ [ContextRow (ds_oldLineNum st) l],
     ds_oldLineNum := Suc (ds_oldLineNum st), ds_newLineNum := Suc (ds_newLineNum st)\<rparr>"

definition advance :: "nat \<Rightarrow> diff_state \<Rightarrow> diff_state" where
  "advance n st = st\<lparr>ds_oldLineNum := ds_oldLineNum st + n, ds_newLineNum := ds_newLineNum st + n\<rparr>"

definition skip_rows :: "nat \<Rightarrow> diff_state \<Rightarrow> diff_state" where
  "skip_rows n st = advance n (st\<lparr>ds_rows := ds_rows st @ [SkipRow]\<rparr>)"

definition context_part :: "nat \<Rightarrow> bool \<Rightarrow> utf16 list \<Rightarrow> diff_state \<Rightarrow> diff_state" where
  "context_part n next raw st =
     (if ds_lastWasChange st \<and> next then
        if length raw \<le> n * 2 then fold context_row raw st
        else
          let leading = take n raw; trailing = drop (length raw - n) raw;
              skipped = length raw - length leading - length trailing
          in fold context_row trailing (skip_rows skipped (fold context_row leading st))
      else if ds_lastWasChange st then
        let shown = take n raw; skipped = length raw - length shown; st1 = fold context_row shown st
        in if skipped > 0 then skip_rows skipped st1 else st1
      else if next then
        let skipped = length raw - n; st1 = (if skipped > 0 then skip_rows skipped st else st)
        in fold context_row (drop skipped raw) st1
      else advance (length raw) st)"

fun diff_rows :: "nat \<Rightarrow> diff_part list \<Rightarrow> diff_state \<Rightarrow> diff_state" where
  "diff_rows n [] st = st"
| "diff_rows n (p # ps) st =
     (let raw = part_lines (dp_value p) in
      diff_rows n ps
        (if dp_kind p = PartSame
         then (context_part n (ps \<noteq> [] \<and> dp_kind (hd ps) \<noteq> PartSame) raw st)\<lparr>ds_lastWasChange := False\<rparr>
         else
           (let st1 = (if ds_firstChangedLine st = None then st\<lparr>ds_firstChangedLine := Some (ds_newLineNum st)\<rparr> else st)
            in (fold (if dp_kind p = PartAdded then add_row else remove_row) raw st1)\<lparr>ds_lastWasChange := True\<rparr>)))"

definition diff_start :: diff_state where
  "diff_start = \<lparr>ds_rows = [], ds_oldLineNum = 1, ds_newLineNum = 1, ds_lastWasChange = False, ds_firstChangedLine = None\<rparr>"

definition pad_start :: "nat \<Rightarrow> utf16 \<Rightarrow> utf16" where
  "pad_start n s = replicate (n - length s) 32 @ s"

fun row_text :: "nat \<Rightarrow> diff_row \<Rightarrow> utf16" where
  "row_text w (AddedRow n l) = ascii_units ''+'' @ pad_start w (ascii_units (show_nat n)) @ ascii_units '' '' @ l"
| "row_text w (RemovedRow n l) = ascii_units ''-'' @ pad_start w (ascii_units (show_nat n)) @ ascii_units '' '' @ l"
| "row_text w (ContextRow n l) = ascii_units '' '' @ pad_start w (ascii_units (show_nat n)) @ ascii_units '' '' @ l"
| "row_text w SkipRow = ascii_units '' '' @ pad_start w [] @ ascii_units '' ...''"

definition generateDiffString :: "(utf16 \<Rightarrow> utf16 \<Rightarrow> diff_part list) \<Rightarrow> utf16 \<Rightarrow> utf16 \<Rightarrow> nat \<Rightarrow> utf16 \<times> nat option" where
  "generateDiffString diffLines old new n =
     (let maxLineNum = max (length (split_at_lf old)) (length (split_at_lf new));
          st = diff_rows n (diffLines old new) diff_start
      in (join_lines (map (row_text (length (show_nat maxLineNum))) (ds_rows st)), ds_firstChangedLine st))"

section \<open>The steps on the file\<close>

record 'w edit_operations =
  eo_access :: "string \<Rightarrow> 'w \<Rightarrow> string option \<times> 'w"
  eo_readFile :: "string \<Rightarrow> 'w \<Rightarrow> (string + utf16) \<times> 'w"
  eo_writeFile :: "string \<Rightarrow> utf16 \<Rightarrow> 'w \<Rightarrow> string option \<times> 'w"
  eo_aborted :: "'w \<Rightarrow> bool"

definition ABORTED :: string where
  "ABORTED = ''Operation aborted''"

text \<open>The body of \<open>execute\<close>: a message of an error, or the number of edits with the diff.\<close>

definition execute_edit ::
  "(utf16 \<Rightarrow> utf16) \<Rightarrow> (utf16 \<Rightarrow> utf16 \<Rightarrow> diff_part list) \<Rightarrow> 'w edit_operations \<Rightarrow> string \<Rightarrow> edit list \<Rightarrow> 'w \<Rightarrow>
     (string + nat \<times> utf16 \<times> nat option) \<times> 'w" where
  "execute_edit nfkc diffLines ops path edits w0 =
     (if edits = [] then (Inl NO_EDITS, w0)
      else if eo_aborted ops w0 then (Inl ABORTED, w0)
      else case eo_access ops path w0 of
          (Some e, w1) \<Rightarrow> (Inl (if eo_aborted ops w1 then ABORTED else ''Could not edit file: '' @ path @ ''. '' @ e @ ''.''), w1)
        | (None, w1) \<Rightarrow>
            if eo_aborted ops w1 then (Inl ABORTED, w1)
            else case eo_readFile ops path w1 of
                (Inl e, w2) \<Rightarrow> (Inl e, w2)
              | (Inr raw, w2) \<Rightarrow>
                  if eo_aborted ops w2 then (Inl ABORTED, w2)
                  else case edited_text nfkc edits raw of
                      Inl e \<Rightarrow> (Inl (edit_error_message path e), w2)
                    | Inr out \<Rightarrow>
                        (case eo_writeFile ops path out w2 of
                           (Some e, w3) \<Rightarrow> (Inl e, w3)
                         | (None, w3) \<Rightarrow>
                             if eo_aborted ops w3 then (Inl ABORTED, w3)
                             else (let base = normalizeToLF (snd (stripBom raw)) in
                               case applyEditsToNormalizedContent nfkc base edits of
                                 Inl e \<Rightarrow> (Inl (edit_error_message path e), w3)
                               | Inr newContent \<Rightarrow> (Inr (length edits, generateDiffString diffLines base newContent 4), w3))))"

text \<open>\<open>computeEditsDiff\<close>: the diff of edits that are not applied.\<close>

definition computeEditsDiff ::
  "(utf16 \<Rightarrow> utf16) \<Rightarrow> (utf16 \<Rightarrow> utf16 \<Rightarrow> diff_part list) \<Rightarrow> 'w edit_operations \<Rightarrow> string \<Rightarrow> edit list \<Rightarrow> 'w \<Rightarrow>
     (string + utf16 \<times> nat option) \<times> 'w" where
  "computeEditsDiff nfkc diffLines ops path edits w0 =
     (case eo_access ops path w0 of
        (Some e, w1) \<Rightarrow> (Inl (''Could not edit file: '' @ path @ ''. '' @ e @ ''.''), w1)
      | (None, w1) \<Rightarrow>
          (case eo_readFile ops path w1 of
             (Inl e, w2) \<Rightarrow> (Inl e, w2)
           | (Inr raw, w2) \<Rightarrow>
               (let base = normalizeToLF (snd (stripBom raw)) in
                case applyEditsToNormalizedContent nfkc base edits of
                  Inl e \<Rightarrow> (Inl (edit_error_message path e), w2)
                | Inr newContent \<Rightarrow> (Inr (generateDiffString diffLines base newContent 4), w2))))"

section \<open>The numbers of the diff\<close>

text \<open>A row shows the line with its number: of the new text when it is added, of the old text otherwise.\<close>

fun row_right :: "utf16 list \<Rightarrow> utf16 list \<Rightarrow> diff_row \<Rightarrow> bool" where
  "row_right olds news (AddedRow n l) \<longleftrightarrow> 0 < n \<and> n \<le> length news \<and> news ! (n - 1) = l"
| "row_right olds news (RemovedRow n l) \<longleftrightarrow> 0 < n \<and> n \<le> length olds \<and> olds ! (n - 1) = l"
| "row_right olds news (ContextRow n l) \<longleftrightarrow> 0 < n \<and> n \<le> length olds \<and> olds ! (n - 1) = l"
| "row_right olds news SkipRow \<longleftrightarrow> True"

definition at_lines :: "utf16 list \<Rightarrow> utf16 list \<Rightarrow> nat \<Rightarrow> nat \<Rightarrow> diff_state \<Rightarrow> bool" where
  "at_lines olds news i j st \<longleftrightarrow> ds_oldLineNum st = Suc i \<and> ds_newLineNum st = Suc j \<and> (\<forall>r \<in> set (ds_rows st). row_right olds news r)"

lemma prefix_drop_Cons: "prefix (l # ls) (drop i xs) \<Longrightarrow> i < length xs \<and> xs ! i = l \<and> prefix ls (drop (Suc i) xs)"
proof -
  assume "prefix (l # ls) (drop i xs)"
  then obtain zs where zs: "drop i xs = l # ls @ zs" by (auto simp: prefix_def)
  then have "i < length xs" by (cases "i < length xs") auto
  moreover from this zs have "xs ! i = l" "drop (Suc i) xs = ls @ zs" by (simp_all add: Cons_nth_drop_Suc [symmetric])
  ultimately show ?thesis by simp
qed

lemma prefix_drop_append: "prefix (ls @ ms) (drop i xs) \<Longrightarrow> prefix ls (drop i xs) \<and> prefix ms (drop (i + length ls) xs)"
  by (metis append_prefixD drop_drop add.commute append_eq_conv_conj prefix_def append_assoc)

lemma context_rows:
  "at_lines olds news i j st \<Longrightarrow> prefix ls (drop i olds) \<Longrightarrow> at_lines olds news (i + length ls) (j + length ls) (fold context_row ls st)"
proof (induction ls arbitrary: i j st)
  case (Cons l ls)
  from prefix_drop_Cons [OF Cons.prems(2)] have l: "i < length olds" "olds ! i = l" "prefix ls (drop (Suc i) olds)" by simp_all
  then have "at_lines olds news (Suc i) (Suc j) (context_row l st)" using Cons.prems(1) by (auto simp: at_lines_def context_row_def)
  from Cons.IH [OF this l(3)] show ?case by simp
qed simp

lemma added_rows:
  "at_lines olds news i j st \<Longrightarrow> prefix ls (drop j news) \<Longrightarrow> at_lines olds news i (j + length ls) (fold add_row ls st)"
proof (induction ls arbitrary: j st)
  case (Cons l ls)
  from prefix_drop_Cons [OF Cons.prems(2)] have l: "j < length news" "news ! j = l" "prefix ls (drop (Suc j) news)" by simp_all
  then have "at_lines olds news i (Suc j) (add_row l st)" using Cons.prems(1) by (auto simp: at_lines_def add_row_def)
  from Cons.IH [OF this l(3)] show ?case by simp
qed simp

lemma removed_rows:
  "at_lines olds news i j st \<Longrightarrow> prefix ls (drop i olds) \<Longrightarrow> at_lines olds news (i + length ls) j (fold remove_row ls st)"
proof (induction ls arbitrary: i st)
  case (Cons l ls)
  from prefix_drop_Cons [OF Cons.prems(2)] have l: "i < length olds" "olds ! i = l" "prefix ls (drop (Suc i) olds)" by simp_all
  then have "at_lines olds news (Suc i) j (remove_row l st)" using Cons.prems(1) by (auto simp: at_lines_def remove_row_def)
  from Cons.IH [OF this l(3)] show ?case by simp
qed simp

lemma skipped_rows:
  "at_lines olds news i j st \<Longrightarrow> at_lines olds news (i + n) (j + n) (skip_rows n st)"
  "at_lines olds news i j st \<Longrightarrow> at_lines olds news (i + n) (j + n) (advance n st)"
  by (auto simp: at_lines_def skip_rows_def advance_def)

lemma context_part_lines:
  assumes st: "at_lines olds news i j st" and raw: "prefix raw (drop i olds)"
  shows "at_lines olds news (i + length raw) (j + length raw) (context_part n next raw st)"
proof -
  have ends: "prefix (take m raw) (drop i olds)" "m \<le> length raw \<Longrightarrow> prefix (drop m raw) (drop (i + m) olds)" for m
    using prefix_drop_append [of "take m raw" "drop m raw" i olds] raw by simp_all
  have lead: "at_lines olds news (i + min (length raw) n) (j + min (length raw) n) (fold context_row (take n raw) st)"
    using context_rows [OF st ends(1)] by simp
  have both: "at_lines olds news (i + length raw) (j + length raw)
      (fold context_row (drop (length raw - n) raw) (skip_rows (length raw - n - n) (fold context_row (take n raw) st)))" if "n * 2 < length raw"
  proof -
    have "at_lines olds news (i + (length raw - n)) (j + (length raw - n)) (skip_rows (length raw - n - n) (fold context_row (take n raw) st))"
      using skipped_rows(1) [OF lead, of "length raw - n - n"] that by (simp add: min_def)
    from context_rows [OF this ends(2)] that show ?thesis by simp
  qed
  have before: "at_lines olds news (i + length raw) (j + length raw)
      (fold context_row (drop (length raw - n) raw) (if 0 < length raw - n then skip_rows (length raw - n) st else st))"
  proof -
    have "at_lines olds news (i + (length raw - n)) (j + (length raw - n)) (if 0 < length raw - n then skip_rows (length raw - n) st else st)"
      using st skipped_rows(1) [OF st, of "length raw - n"] by (cases "n < length raw") simp_all
    from context_rows [OF this ends(2)] show ?thesis by simp
  qed
  have after0: "at_lines olds news (i + length raw) (j + length raw)
      (let st1 = fold context_row (take n raw) st in if 0 < length raw - min (length raw) n then skip_rows (length raw - min (length raw) n) st1 else st1)"
    using lead skipped_rows(1) [OF lead, of "length raw - n"] by (auto simp: Let_def min_def)
  show ?thesis
    using context_rows [OF st raw] both before after0 skipped_rows(2) [OF st]
    by (auto simp: context_part_def Let_def min.commute min_def)
qed

definition side_lines :: "part_kind \<Rightarrow> diff_part list \<Rightarrow> utf16 list" where
  "side_lines other ps = concat (map (\<lambda>p. if dp_kind p = other then [] else part_lines (dp_value p)) ps)"

lemma at_lines_fields [simp]:
  "at_lines olds news i j (st\<lparr>ds_lastWasChange := b\<rparr>) = at_lines olds news i j st"
  "at_lines olds news i j (st\<lparr>ds_firstChangedLine := f\<rparr>) = at_lines olds news i j st"
  by (simp_all add: at_lines_def)

lemma diff_rows_right:
  "at_lines olds news i j st \<Longrightarrow> prefix (side_lines PartAdded ps) (drop i olds) \<Longrightarrow> prefix (side_lines PartRemoved ps) (drop j news) \<Longrightarrow>
     \<forall>r \<in> set (ds_rows (diff_rows n ps st)). row_right olds news r"
proof (induction n ps st arbitrary: i j rule: diff_rows.induct)
  case (1 n st)
  then show ?case by (simp add: at_lines_def)
next
  case (2 n p ps st)
  let ?raw = "part_lines (dp_value p)"
  let ?st1 = "if ds_firstChangedLine st = None then st\<lparr>ds_firstChangedLine := Some (ds_newLineNum st)\<rparr> else st"
  have st1: "at_lines olds news i j ?st1" using "2.prems"(1) by simp
  have sides: "side_lines k (p # ps) = (if dp_kind p = k then [] else ?raw) @ side_lines k ps" for k by (simp add: side_lines_def)
  show ?case
  proof (cases "dp_kind p")
    case PartSame
    then have "prefix (?raw @ side_lines PartAdded ps) (drop i olds)" "prefix (?raw @ side_lines PartRemoved ps) (drop j news)"
      using "2.prems"(2,3) sides by simp_all
    from prefix_drop_append [OF this(1)] prefix_drop_append [OF this(2)]
      "2.IH" [OF refl, of "i + length ?raw" "j + length ?raw"] PartSame context_part_lines [OF "2.prems"(1), of ?raw]
    show ?thesis by (simp add: Let_def)
  next
    case PartAdded
    then have "prefix (side_lines PartAdded ps) (drop i olds)" "prefix (?raw @ side_lines PartRemoved ps) (drop j news)"
      using "2.prems"(2,3) sides by simp_all
    from this(1) prefix_drop_append [OF this(2)] "2.IH" [OF refl, of i "j + length ?raw"] PartAdded added_rows [OF st1, of ?raw]
    show ?thesis by (simp add: Let_def)
  next
    case PartRemoved
    then have "prefix (?raw @ side_lines PartAdded ps) (drop i olds)" "prefix (side_lines PartRemoved ps) (drop j news)"
      using "2.prems"(2,3) sides by simp_all
    from this(2) prefix_drop_append [OF this(1)] "2.IH" [OF refl, of "i + length ?raw" j] PartRemoved removed_rows [OF st1, of ?raw]
    show ?thesis by (simp add: Let_def)
  qed
qed

text \<open>
  What is documented of the comparison: the parts that are not added make up the old text, those that are
  not removed the new one, and a part of either ends with a line feed unless it is the last.
\<close>

definition side_values :: "part_kind \<Rightarrow> diff_part list \<Rightarrow> utf16 list" where
  "side_values other ps = map dp_value (filter (\<lambda>p. dp_kind p \<noteq> other) ps)"

definition whole_lines :: "utf16 list \<Rightarrow> bool" where
  "whole_lines vs \<longleftrightarrow> (\<forall>v \<in> set (butlast vs). \<exists>u. v = u @ [line_feed])"

definition diff_contract :: "(utf16 \<Rightarrow> utf16 \<Rightarrow> diff_part list) \<Rightarrow> bool" where
  "diff_contract diffLines \<longleftrightarrow> (\<forall>old new. let ps = diffLines old new in
     concat (side_values PartAdded ps) = old \<and> concat (side_values PartRemoved ps) = new \<and>
     whole_lines (side_values PartAdded ps) \<and> whole_lines (side_values PartRemoved ps))"

lemma split_at_lf_end: "split_at_lf (u @ [line_feed] @ v) = split_at_lf u @ split_at_lf v"
  by (induction u) (auto split: list.split simp: neq_Nil_conv)

lemma part_lines_append: "part_lines (u @ [line_feed] @ v) = part_lines (u @ [line_feed]) @ part_lines v"
  using split_at_lf_end [of u v] split_at_lf_end [of u "[]"] split_at_lf_not_Nil [of v]
  by (simp add: part_lines_def Let_def butlast_append)

lemma part_lines_concat: "whole_lines vs \<Longrightarrow> concat (map part_lines vs) = part_lines (concat vs)"
proof (induction vs)
  case Nil
  then show ?case by (simp add: part_lines_def)
next
  case (Cons v vs)
  show ?case
  proof (cases "vs = []")
    case False
    with Cons.prems obtain u where u: "v = u @ [line_feed]" by (auto simp: whole_lines_def)
    from Cons False have "concat (map part_lines vs) = part_lines (concat vs)" by (simp add: whole_lines_def)
    then show ?thesis using part_lines_append [of u "concat vs"] by (simp add: u)
  qed simp
qed

lemma side_lines_values: "side_lines k ps = concat (map part_lines (side_values k ps))"
  by (induction ps) (auto simp: side_lines_def side_values_def)

lemma diff_numbers_right:
  assumes "diff_contract diffLines"
  shows "\<forall>r \<in> set (ds_rows (diff_rows n (diffLines old new) diff_start)). row_right (part_lines old) (part_lines new) r"
proof -
  let ?ps = "diffLines old new"
  have ps: "concat (side_values PartAdded ?ps) = old" "concat (side_values PartRemoved ?ps) = new"
    "whole_lines (side_values PartAdded ?ps)" "whole_lines (side_values PartRemoved ?ps)"
    using assms by (simp_all add: diff_contract_def Let_def)
  have "side_lines PartAdded ?ps = part_lines old" "side_lines PartRemoved ?ps = part_lines new"
    using part_lines_concat [OF ps(3)] part_lines_concat [OF ps(4)] by (simp_all add: side_lines_values ps)
  moreover have "at_lines (part_lines old) (part_lines new) 0 0 diff_start" by (simp add: at_lines_def diff_start_def)
  ultimately show ?thesis by (intro diff_rows_right [where i = 0 and j = 0]) simp_all
qed

end
