(* ===== verification/Edit_Scenarios.thy ===== *)
theory Edit_Scenarios
  imports Edit_Tool
begin

text \<open>
  Edits of concrete texts: what the witnesses use, and edits that go wrong. The texts are plain, so that
  their normal form NFKC is the text itself.
\<close>

definition crlf :: utf16 where
  "crlf = [carriage_return, line_feed]"

definition one_edit :: "utf16 \<Rightarrow> utf16 \<Rightarrow> edit list" where
  "one_edit old new = [\<lparr>ed_oldText = old, ed_newText = new\<rparr>]"

text \<open>A file with a byte order mark and lines that end with CR LF.\<close>

definition demo_lines :: utf16 where
  "demo_lines = ascii_units ''one'' @ [line_feed] @ ascii_units ''two'' @ [line_feed]"

definition demo_edit_file :: utf16 where
  "demo_edit_file = byte_order_mark # restoreLineEndings True demo_lines"

definition demo_edits :: "edit list" where
  "demo_edits = [\<lparr>ed_oldText = ascii_units ''wo'', ed_newText = ascii_units ''en''\<rparr>, \<lparr>ed_oldText = ascii_units ''on'', ed_newText = []\<rparr>]"

lemmas edit_eval = edited_text_def stripBom_def applyEditsToNormalizedContent_def fuzzyFindText_def normalizeForFuzzyMatch_def
  countOccurrences_def split_pieces_def split_count.simps normalizeToLF_def restoreLineEndings_def detectLineEnding_def
  normalize_edit_def trimEnd_def js_space_def plain_quote_def plain_dash_def plain_space_def applyReplacements_def replace_one_def
  ascii_units_def carriage_return_def line_feed_def byte_order_mark_def Let_def one_edit_def
  applyReplacementsPreservingUnchangedLines_def getLineSpans_def getReplacementLineRange_def add_to_groups_def sub_list_def

lemma demo_edited:
  "edited_text id demo_edits demo_edit_file = Inr (byte_order_mark # ascii_units ''e'' @ crlf @ ascii_units ''ten'' @ crlf)"
  by (simp add: edit_eval demo_edits_def demo_edit_file_def demo_lines_def crlf_def)

lemma demo_facts:
  "stripBom demo_edit_file = ([byte_order_mark], restoreLineEndings True demo_lines)" "carriage_return \<notin> set demo_lines"
  "\<forall>e \<in> set demo_edits. index_of (normalizeToLF (ed_oldText e)) demo_lines \<noteq> None"
  by (simp_all add: edit_eval demo_edits_def demo_edit_file_def demo_lines_def)

text \<open>The second occurrence of an old text is not seen when it overlaps the first.\<close>

lemma overlapping_occurrence_accepted:
  "index_of (ascii_units ''aa'') (drop 1 (ascii_units ''aaa'')) = Some 0 \<and>
     applyEditsToNormalizedContent id (ascii_units ''aaa'') (one_edit (ascii_units ''aa'') (ascii_units ''b'')) = Inr (ascii_units ''ba'')"
  by (simp add: edit_eval)

text \<open>An old text of spaces that does not occur is found, empty, at the start of a short text.\<close>

lemma absent_spaces_inserted:
  "index_of (ascii_units ''  '') (ascii_units ''ab'') = None \<and>
     applyEditsToNormalizedContent id (ascii_units ''ab'') (one_edit (ascii_units ''  '') (ascii_units ''X'')) = Inr (ascii_units ''Xab'')"
  by (simp add: edit_eval)

text \<open>A text with one such old text cannot be edited there, though it occurs once.\<close>

lemma unique_text_refused:
  "index_of (ascii_units ''x '') (drop 3 (ascii_units ''x y; x;'')) = None \<and>
     applyEditsToNormalizedContent id (ascii_units ''x y; x;'') (one_edit (ascii_units ''x '') (ascii_units ''z '')) = Inl (DuplicateText 0 1 2)"
  by (simp add: edit_eval)

text \<open>A last line of spaces without a line feed disappears in the normal form, and no normalized edit is possible.\<close>

lemma blank_last_line_blocks:
  "applyEditsToNormalizedContent id ([0x2018, 97, 0x2019, line_feed] @ ascii_units '' '') (one_edit (ascii_units [CHR 39, CHR ''a'', CHR 39]) (ascii_units ''b''))
     = Inl DifferentLineCount"
  by (simp add: edit_eval)

text \<open>With quotes in another form the line of the match is rewritten and the other one copied.\<close>

lemma quoted_line_rewritten:
  "applyEditsToNormalizedContent id ([0x2018, 97, 0x2019, line_feed, 0x2018, 98, 0x2019, 32, line_feed])
     (one_edit (ascii_units [CHR 39, CHR ''a'', CHR 39]) (ascii_units ''c'')) = Inr [99, line_feed, 0x2018, 98, 0x2019, 32, line_feed]"
  by (simp add: edit_eval)

text \<open>Two replacements in one line and one in the next, on a text that is its own base.\<close>

definition demo_matches :: "matched_edit list" where
  "demo_matches = [\<lparr>me_editIndex = 0, me_matchIndex = 5, me_matchLength = 1, me_newText = ascii_units ''T''\<rparr>,
     \<lparr>me_editIndex = 1, me_matchIndex = 0, me_matchLength = 1, me_newText = ascii_units ''O''\<rparr>,
     \<lparr>me_editIndex = 2, me_matchIndex = 1, me_matchLength = 1, me_newText = []\<rparr>]"

lemma demo_matches_facts:
  "sorted_wrt before (sort_key me_matchIndex demo_matches)"
  "\<forall>r \<in> set demo_matches. me_matchIndex r < length demo_lines \<and> edit_end r \<le> length demo_lines"
  by (simp_all add: edit_eval demo_matches_def demo_lines_def)

end
