(* ===== verification/File_Queue.thy ===== *)
theory File_Queue
  imports Prelude
begin

text \<open>
  The queue of changes to files (\<open>coding-agent/src/core/tools/file-mutation-queue.ts\<close>). Calls are numbered;
  the promise that a call chains to its file is the number of the call, and it is resolved when the call
  has released it and the promise before it is resolved. Registrations follow each other in the order of
  the calls. The file system answers \<open>realpath\<close>, an event; \<open>resolve\<close> of the runtime is a parameter.
\<close>

section \<open>State\<close>

datatype realpath_result = RealPath string | MissingPath | RealPathError string

datatype call_phase =
    Registering
  | RegistrationFailed string
  | AwaitingTurn
  | Mutating
  | Released

record mutation_call =
  mc_filePath :: string
  mc_phase :: call_phase
  mc_key :: string
  mc_currentQueue :: "nat option"

record mutation_queues =
  mq_calls :: "mutation_call list"
  mq_fileMutationQueues :: "(string, nat) omap"

definition no_calls :: mutation_queues where
  "no_calls = \<lparr>mq_calls = [], mq_fileMutationQueues = []\<rparr>"

section \<open>Steps\<close>

definition getMutationQueueKey :: "(string \<Rightarrow> string) \<Rightarrow> realpath_result \<Rightarrow> string \<Rightarrow> string + string" where
  "getMutationQueueKey resolve result path =
     (case result of RealPath p \<Rightarrow> Inr p | MissingPath \<Rightarrow> Inr (resolve path) | RealPathError e \<Rightarrow> Inl e)"

definition call_withFileMutationQueue :: "string \<Rightarrow> mutation_queues \<Rightarrow> mutation_queues" where
  "call_withFileMutationQueue path q = q\<lparr>mq_calls := mq_calls q @
     [\<lparr>mc_filePath = path, mc_phase = Registering, mc_key = [], mc_currentQueue = None\<rparr>]\<rparr>"

definition set_call :: "nat \<Rightarrow> (mutation_call \<Rightarrow> mutation_call) \<Rightarrow> mutation_queues \<Rightarrow> mutation_queues" where
  "set_call n f q = q\<lparr>mq_calls := (mq_calls q)[n := f (mq_calls q ! n)]\<rparr>"

fun first_registering :: "nat \<Rightarrow> mutation_call list \<Rightarrow> nat option" where
  "first_registering i [] = None"
| "first_registering i (c # cs) = (if mc_phase c = Registering then Some i else first_registering (Suc i) cs)"

definition register_call :: "(string \<Rightarrow> string) \<Rightarrow> realpath_result \<Rightarrow> mutation_queues \<Rightarrow> mutation_queues option" where
  "register_call resolve result q =
     (case first_registering 0 (mq_calls q) of
        None \<Rightarrow> None
      | Some n \<Rightarrow>
          (case getMutationQueueKey resolve result (mc_filePath (mq_calls q ! n)) of
             Inl e \<Rightarrow> Some (set_call n (\<lambda>c. c\<lparr>mc_phase := RegistrationFailed e\<rparr>) q)
           | Inr key \<Rightarrow>
               Some (set_call n (\<lambda>c. c\<lparr>mc_phase := AwaitingTurn, mc_key := key,
                   mc_currentQueue := om_get (mq_fileMutationQueues q) key\<rparr>)
                 (q\<lparr>mq_fileMutationQueues := om_set (mq_fileMutationQueues q) key n\<rparr>))))"

text \<open>\<open>currentQueue.then(() => nextQueue)\<close>.\<close>

function chain_resolved :: "mutation_call list \<Rightarrow> nat \<Rightarrow> bool" where
  "chain_resolved cs n \<longleftrightarrow> n < length cs \<and> mc_phase (cs ! n) = Released \<and>
     (case mc_currentQueue (cs ! n) of None \<Rightarrow> True | Some p \<Rightarrow> if p < n then chain_resolved cs p else False)"
  by pat_completeness auto
termination
  by (relation "measure snd") auto

declare chain_resolved.simps [simp del]

definition may_start :: "nat \<Rightarrow> mutation_queues \<Rightarrow> bool" where
  "may_start n q \<longleftrightarrow> n < length (mq_calls q) \<and> mc_phase (mq_calls q ! n) = AwaitingTurn \<and>
     (case mc_currentQueue (mq_calls q ! n) of None \<Rightarrow> True | Some p \<Rightarrow> chain_resolved (mq_calls q) p)"

definition start_call :: "nat \<Rightarrow> mutation_queues \<Rightarrow> mutation_queues option" where
  "start_call n q = (if may_start n q then Some (set_call n (\<lambda>c. c\<lparr>mc_phase := Mutating\<rparr>) q) else None)"

text \<open>The \<open>finally\<close> after the operation.\<close>

definition finish_call :: "nat \<Rightarrow> mutation_queues \<Rightarrow> mutation_queues option" where
  "finish_call n q =
     (if n < length (mq_calls q) \<and> mc_phase (mq_calls q ! n) = Mutating
      then
        let key = mc_key (mq_calls q ! n); q1 = set_call n (\<lambda>c. c\<lparr>mc_phase := Released\<rparr>) q
        in Some (if om_get (mq_fileMutationQueues q1) key = Some n
             then q1\<lparr>mq_fileMutationQueues := om_delete (mq_fileMutationQueues q1) key\<rparr> else q1)
      else None)"

datatype queue_event =
    QueueCall string
  | QueueRegister realpath_result
  | QueueStart nat
  | QueueFinish nat

fun queue_step :: "(string \<Rightarrow> string) \<Rightarrow> queue_event \<Rightarrow> mutation_queues \<Rightarrow> mutation_queues option" where
  "queue_step resolve (QueueCall path) q = Some (call_withFileMutationQueue path q)"
| "queue_step resolve (QueueRegister result) q = register_call resolve result q"
| "queue_step resolve (QueueStart n) q = start_call n q"
| "queue_step resolve (QueueFinish n) q = finish_call n q"

fun mutation_run :: "(string \<Rightarrow> string) \<Rightarrow> queue_event list \<Rightarrow> mutation_queues \<Rightarrow> mutation_queues option" where
  "mutation_run resolve [] q = Some q"
| "mutation_run resolve (ev # evs) q = Option.bind (queue_step resolve ev q) (mutation_run resolve evs)"

section \<open>One call at a time\<close>

definition registered :: "mutation_call \<Rightarrow> bool" where
  "registered c \<longleftrightarrow> mc_phase c \<in> {AwaitingTurn, Mutating, Released}"

text \<open>The calls before a number that have a key and are not finished.\<close>

definition open_before :: "mutation_call list \<Rightarrow> string \<Rightarrow> nat \<Rightarrow> nat set" where
  "open_before cs key n = {m. m < n \<and> m < length cs \<and> registered (cs ! m) \<and> mc_key (cs ! m) = key \<and> mc_phase (cs ! m) \<noteq> Released}"

definition between :: "mutation_call list \<Rightarrow> string \<Rightarrow> nat \<Rightarrow> nat \<Rightarrow> nat set" where
  "between cs key p n = {m. p < m \<and> m < n \<and> m < length cs \<and> registered (cs ! m) \<and> mc_key (cs ! m) = key}"

text \<open>
  The invariant: a call waits for the last call with its key before it, or nothing is open before it; a
  call that runs or ran has nothing open before it; the map has the last call of each key that is open;
  calls after one that is registering are registering.
\<close>

definition turn_ok :: "mutation_call list \<Rightarrow> nat \<Rightarrow> bool" where
  "turn_ok cs n \<longleftrightarrow>
     (case mc_currentQueue (cs ! n) of
        None \<Rightarrow> open_before cs (mc_key (cs ! n)) n = {}
      | Some p \<Rightarrow> p < n \<and> registered (cs ! p) \<and> mc_key (cs ! p) = mc_key (cs ! n) \<and> between cs (mc_key (cs ! n)) p n = {}) \<and>
     (mc_phase (cs ! n) \<in> {Mutating, Released} \<longrightarrow> open_before cs (mc_key (cs ! n)) n = {})"

definition key_ok :: "mutation_call list \<Rightarrow> string \<Rightarrow> nat option \<Rightarrow> bool" where
  "key_ok cs key entry \<longleftrightarrow>
     (case entry of
        None \<Rightarrow> open_before cs key (length cs) = {}
      | Some p \<Rightarrow> p < length cs \<and> registered (cs ! p) \<and> mc_key (cs ! p) = key \<and> between cs key p (length cs) = {})"

definition queue_inv :: "mutation_queues \<Rightarrow> bool" where
  "queue_inv q \<longleftrightarrow> om_wf (mq_fileMutationQueues q) \<and>
     (\<forall>n < length (mq_calls q). registered (mq_calls q ! n) \<longrightarrow> turn_ok (mq_calls q) n) \<and>
     (\<forall>key. key_ok (mq_calls q) key (om_get (mq_fileMutationQueues q) key)) \<and>
     (\<forall>n < length (mq_calls q). \<forall>m < n. mc_phase (mq_calls q ! m) = Registering \<longrightarrow> mc_phase (mq_calls q ! n) = Registering)"

lemma open_from: "open_before cs k (Suc p) = {} \<Longrightarrow> between cs k p n = {} \<Longrightarrow> open_before cs k n = {}"
proof -
  assume o: "open_before cs k (Suc p) = {}" and b: "between cs k p n = {}"
  have "m \<in> open_before cs k (Suc p) \<or> m \<in> between cs k p n" if "m \<in> open_before cs k n" for m
    using that by (cases "m < Suc p") (auto simp: open_before_def between_def)
  with o b show ?thesis by blast
qed

text \<open>A chain is resolved exactly when nothing of its key is open up to its call.\<close>

lemma chain_resolved_open:
  assumes "\<forall>n < length cs. registered (cs ! n) \<longrightarrow> turn_ok cs n" "n < length cs" "registered (cs ! n)"
  shows "chain_resolved cs n \<longleftrightarrow> open_before cs (mc_key (cs ! n)) (Suc n) = {}"
  using assms(2,3)
proof (induction n rule: less_induct)
  case (less n)
  have ok: "turn_ok cs n" using assms(1) less.prems by simp
  have split: "open_before cs (mc_key (cs ! n)) (Suc n) =
      open_before cs (mc_key (cs ! n)) n \<union> (if mc_phase (cs ! n) = Released then {} else {n})"
    using less.prems by (auto simp: open_before_def less_Suc_eq)
  show ?case
  proof (cases "mc_currentQueue (cs ! n)")
    case None
    then show ?thesis using ok less.prems split by (auto simp: chain_resolved.simps [of cs n] turn_ok_def)
  next
    case (Some p)
    then have p: "p < n" "registered (cs ! p)" "mc_key (cs ! p) = mc_key (cs ! n)" "between cs (mc_key (cs ! n)) p n = {}"
      using ok by (simp_all add: turn_ok_def)
    have "open_before cs (mc_key (cs ! n)) n = open_before cs (mc_key (cs ! n)) (Suc p)"
    proof
      show "open_before cs (mc_key (cs ! n)) n \<subseteq> open_before cs (mc_key (cs ! n)) (Suc p)"
        using p(4) by (auto simp: open_before_def between_def)
      show "open_before cs (mc_key (cs ! n)) (Suc p) \<subseteq> open_before cs (mc_key (cs ! n)) n"
        using p(1) by (auto simp: open_before_def)
    qed
    then show ?thesis
      using Some p(1,3) less.IH [OF p(1) _ p(2)] less.prems split by (simp add: chain_resolved.simps [of cs n])
  qed
qed

lemma open_update:
  "n < length cs \<Longrightarrow> open_before (cs[n := c]) key m = (open_before cs key m - {n}) \<union>
     (if n < m \<and> registered c \<and> mc_key c = key \<and> mc_phase c \<noteq> Released then {n} else {})"
  by (auto simp: open_before_def nth_list_update split: if_splits)

lemma between_update:
  "n < length cs \<Longrightarrow> between (cs[n := c]) key p m = (between cs key p m - {n}) \<union>
     (if p < n \<and> n < m \<and> registered c \<and> mc_key c = key then {n} else {})"
  by (auto simp: between_def nth_list_update split: if_splits)

lemma queue_invI:
  "om_wf (mq_fileMutationQueues q) \<Longrightarrow>
     (\<And>n. n < length (mq_calls q) \<Longrightarrow> registered (mq_calls q ! n) \<Longrightarrow> turn_ok (mq_calls q) n) \<Longrightarrow>
     (\<And>key. key_ok (mq_calls q) key (om_get (mq_fileMutationQueues q) key)) \<Longrightarrow>
     (\<And>m n. m < n \<Longrightarrow> n < length (mq_calls q) \<Longrightarrow> mc_phase (mq_calls q ! m) = Registering \<Longrightarrow> mc_phase (mq_calls q ! n) = Registering) \<Longrightarrow>
     queue_inv q"
  by (auto simp: queue_inv_def)

lemma queue_invD:
  "queue_inv q \<Longrightarrow> om_wf (mq_fileMutationQueues q)"
  "queue_inv q \<Longrightarrow> n < length (mq_calls q) \<Longrightarrow> registered (mq_calls q ! n) \<Longrightarrow> turn_ok (mq_calls q) n"
  "queue_inv q \<Longrightarrow> key_ok (mq_calls q) key (om_get (mq_fileMutationQueues q) key)"
  "queue_inv q \<Longrightarrow> m < n \<Longrightarrow> n < length (mq_calls q) \<Longrightarrow> mc_phase (mq_calls q ! m) = Registering \<Longrightarrow> mc_phase (mq_calls q ! n) = Registering"
  by (auto simp: queue_inv_def)

text \<open>A change of phase that opens nothing keeps what other calls wait for.\<close>

lemma phase_keeps_ok:
  assumes "n < length cs" "registered (cs ! n)" "registered c" "mc_key c = mc_key (cs ! n)" "mc_currentQueue c = mc_currentQueue (cs ! n)"
    and "mc_phase (cs ! n) = Released \<longrightarrow> mc_phase c = Released"
  shows "m < length cs \<Longrightarrow> m \<noteq> n \<Longrightarrow> turn_ok cs m \<Longrightarrow> turn_ok (cs[n := c]) m"
    and "key_ok cs key entry \<Longrightarrow> key_ok (cs[n := c]) key entry"
    and "turn_ok cs n \<Longrightarrow> (mc_phase c \<in> {Mutating, Released} \<Longrightarrow> open_before cs (mc_key (cs ! n)) n = {}) \<Longrightarrow> turn_ok (cs[n := c]) n"
proof -
  have o: "open_before (cs[n := c]) k i \<subseteq> open_before cs k i" for k i
    using assms by (auto simp: open_before_def nth_list_update split: if_splits)
  have b: "between (cs[n := c]) k p i = between cs k p i" for k p i
    using assms by (auto simp: between_def nth_list_update split: if_splits)
  have r: "registered (cs[n := c] ! i) = registered (cs ! i)" "mc_key (cs[n := c] ! i) = mc_key (cs ! i)"
    "mc_currentQueue (cs[n := c] ! i) = mc_currentQueue (cs ! i)" for i
    using assms by (auto simp: nth_list_update)
  have empty: "open_before cs k i = {} \<Longrightarrow> open_before (cs[n := c]) k i = {}" for k i using o by blast
  show "m < length cs \<Longrightarrow> m \<noteq> n \<Longrightarrow> turn_ok cs m \<Longrightarrow> turn_ok (cs[n := c]) m"
    unfolding turn_ok_def r b by (auto simp: empty split: option.split)
  show "key_ok cs key entry \<Longrightarrow> key_ok (cs[n := c]) key entry"
    unfolding key_ok_def r b length_list_update by (auto simp: empty split: option.split)
  show "turn_ok cs n \<Longrightarrow> (mc_phase c \<in> {Mutating, Released} \<Longrightarrow> open_before cs (mc_key (cs ! n)) n = {}) \<Longrightarrow> turn_ok (cs[n := c]) n"
    unfolding turn_ok_def r b using assms(1) by (auto simp: empty split: option.split)
qed

lemma phase_keeps_inv:
  assumes inv: "queue_inv q" and n: "n < length (mq_calls q)" "registered (mq_calls q ! n)"
    and f: "\<And>c. mc_key (f c) = mc_key c" "\<And>c. mc_currentQueue (f c) = mc_currentQueue c" "registered (f (mq_calls q ! n))"
    and released: "mc_phase (mq_calls q ! n) = Released \<longrightarrow> mc_phase (f (mq_calls q ! n)) = Released"
    and running: "mc_phase (f (mq_calls q ! n)) \<in> {Mutating, Released} \<Longrightarrow> open_before (mq_calls q) (mc_key (mq_calls q ! n)) n = {}"
  shows "queue_inv (set_call n f q)"
proof (rule queue_invI)
  note keeps = phase_keeps_ok [OF n f(3,1,2) released]
  show "om_wf (mq_fileMutationQueues (set_call n f q))" using queue_invD(1) [OF inv] by (simp add: set_call_def)
  show "turn_ok (mq_calls (set_call n f q)) m" if "m < length (mq_calls (set_call n f q))" "registered (mq_calls (set_call n f q) ! m)" for m
  proof (cases "m = n")
    case True
    then show ?thesis using keeps(3) [OF queue_invD(2) [OF inv n] running] by (simp add: set_call_def)
  next
    case False
    then show ?thesis using keeps(1) [OF _ False queue_invD(2) [OF inv]] that by (simp add: set_call_def)
  qed
  show "key_ok (mq_calls (set_call n f q)) key (om_get (mq_fileMutationQueues (set_call n f q)) key)" for key
    using keeps(2) [OF queue_invD(3) [OF inv]] by (simp add: set_call_def)
  show "mc_phase (mq_calls (set_call n f q) ! j) = Registering" if "i < j" "j < length (mq_calls (set_call n f q))"
    "mc_phase (mq_calls (set_call n f q) ! i) = Registering" for i j
  proof -
    have "i \<noteq> n" using that f(3) n by (auto simp: set_call_def registered_def)
    then have "mc_phase (mq_calls q ! j) = Registering" using that queue_invD(4) [OF inv that(1)] by (simp add: set_call_def)
    moreover from this have "j \<noteq> n" using n(2) by (auto simp: registered_def)
    ultimately show ?thesis by (simp add: set_call_def)
  qed
qed

lemma start_keeps_inv: "queue_inv q \<Longrightarrow> start_call n q = Some q' \<Longrightarrow> queue_inv q'"
proof -
  assume inv: "queue_inv q" and "start_call n q = Some q'"
  then have may: "may_start n q" and q': "q' = set_call n (\<lambda>c. c\<lparr>mc_phase := Mutating\<rparr>) q" by (simp_all add: start_call_def split: if_splits)
  let ?cs = "mq_calls q" and ?k = "mc_key (mq_calls q ! n)"
  have n: "n < length ?cs" "registered (?cs ! n)" using may by (auto simp: may_start_def registered_def)
  have ok: "turn_ok ?cs n" by (rule queue_invD(2) [OF inv n])
  have "open_before ?cs ?k n = {}"
  proof (cases "mc_currentQueue (?cs ! n)")
    case None
    then show ?thesis using ok by (simp add: turn_ok_def)
  next
    case (Some p)
    then have p: "p < n" "registered (?cs ! p)" "mc_key (?cs ! p) = ?k" "between ?cs ?k p n = {}" "chain_resolved ?cs p"
      using ok may by (simp_all add: turn_ok_def may_start_def)
    have all_ok: "\<forall>i < length ?cs. registered (?cs ! i) \<longrightarrow> turn_ok ?cs i" using queue_invD(2) [OF inv] by blast
    have "p < length ?cs" using p(1) n(1) by simp
    from chain_resolved_open [OF all_ok this p(2)] have "open_before ?cs ?k (Suc p) = {}" using p by simp
    from open_from [OF this p(4)] show ?thesis .
  qed
  then show ?thesis unfolding q' using n may by (intro phase_keeps_inv [OF inv n]) (auto simp: registered_def may_start_def)
qed

lemma finish_keeps_inv: "queue_inv q \<Longrightarrow> finish_call n q = Some q' \<Longrightarrow> queue_inv q'"
proof -
  assume inv: "queue_inv q" and fin: "finish_call n q = Some q'"
  let ?cs = "mq_calls q" and ?k = "mc_key (mq_calls q ! n)" and ?f = "\<lambda>c. c\<lparr>mc_phase := Released\<rparr>"
  have n: "n < length ?cs" "mc_phase (?cs ! n) = Mutating" "registered (?cs ! n)"
    using fin by (auto simp: finish_call_def registered_def split: if_splits)
  have none: "open_before ?cs ?k n = {}" using queue_invD(2) [OF inv n(1,3)] n(2) by (simp add: turn_ok_def)
  have inv1: "queue_inv (set_call n ?f q)" using none by (intro phase_keeps_inv [OF inv n(1,3)]) (auto simp: registered_def)
  show ?thesis
  proof (cases "om_get (mq_fileMutationQueues q) ?k = Some n")
    case False
    then show ?thesis using inv1 fin n by (simp add: finish_call_def Let_def set_call_def split: if_splits)
  next
    case True
    let ?cs' = "mq_calls (set_call n ?f q)"
    have "between ?cs ?k n (length ?cs) = {}" using queue_invD(3) [OF inv, of ?k] True by (simp add: key_ok_def)
    moreover have "open_before ?cs' ?k (Suc n) = {}"
      using none n by (auto simp: set_call_def open_before_def nth_list_update less_Suc_eq split: if_splits)
    ultimately have "open_before ?cs' ?k (length ?cs') = {}"
      using open_from [of ?cs' ?k n "length ?cs'"] n by (auto simp: set_call_def between_def nth_list_update split: if_splits)
    then have "key_ok ?cs' key (if key = ?k then None else om_get (mq_fileMutationQueues q) key)" for key
      using queue_invD(3) [OF inv1, of key] by (auto simp: key_ok_def set_call_def)
    then have "queue_inv ((set_call n ?f q)\<lparr>mq_fileMutationQueues := om_delete (mq_fileMutationQueues q) ?k\<rparr>)"
      using queue_invD(1,2,4) [OF inv1] queue_invD(1) [OF inv] by (intro queue_invI) (auto simp: set_call_def)
    then show ?thesis using fin n True by (simp add: finish_call_def Let_def set_call_def split: if_splits)
  qed
qed

lemma first_registering_Some:
  "first_registering i cs = Some n \<Longrightarrow> i \<le> n \<and> n - i < length cs \<and> mc_phase (cs ! (n - i)) = Registering"
proof (induction cs arbitrary: i)
  case (Cons c cs)
  show ?case
  proof (cases "mc_phase c = Registering")
    case False
    with Cons.prems have "first_registering (Suc i) cs = Some n" by simp
    from Cons.IH [OF this] have "Suc i \<le> n" "n - Suc i < length cs" "mc_phase (cs ! (n - Suc i)) = Registering" by simp_all
    moreover from \<open>Suc i \<le> n\<close> obtain k where "n = Suc i + k" using le_Suc_ex by blast
    ultimately show ?thesis by simp
  qed (use Cons.prems in auto)
qed simp

lemma first_registering_least: "first_registering i cs = Some n \<Longrightarrow> m < n - i \<Longrightarrow> mc_phase (cs ! m) \<noteq> Registering"
proof (induction cs arbitrary: i m)
  case (Cons c cs)
  then show ?case by (cases m) (auto split: if_splits simp: Suc_diff_le dest!: first_registering_Some)
qed simp

text \<open>A registration: all calls behind it are registering.\<close>

lemma register_keeps_inv: "queue_inv q \<Longrightarrow> register_call resolve result q = Some q' \<Longrightarrow> queue_inv q'"
proof -
  assume inv: "queue_inv q" and reg: "register_call resolve result q = Some q'"
  let ?cs = "mq_calls q"
  from reg obtain n where first: "first_registering 0 ?cs = Some n" by (auto simp: register_call_def split: option.splits)
  have n: "n < length ?cs" "mc_phase (?cs ! n) = Registering" using first_registering_Some [OF first] by simp_all
  have behind: "\<not> registered (?cs ! m)" if "n \<le> m" "m < length ?cs" for m
    using queue_invD(4) [OF inv _ that(2) n(2)] that n(2) by (cases "m = n") (auto simp: registered_def)
  have order: "mc_phase (?cs[n := c] ! j) = Registering" if "i < j" "j < length ?cs" "mc_phase (?cs[n := c] ! i) = Registering"
    "mc_phase c \<noteq> Registering" for i j c
    using that queue_invD(4) [OF inv that(1,2)] queue_invD(4) [OF inv, of n j] first_registering_least [OF first, of i] n
    by (cases "i = n"; cases "j = n") auto
  have old: "turn_ok (?cs[n := c]) m" if "m < n" "registered (?cs ! m)" for m c
  proof -
    have "open_before (?cs[n := c]) k m = open_before ?cs k m" "between (?cs[n := c]) k p m = between ?cs k p m" for k p
      using that n by (auto simp: open_before_def between_def nth_list_update split: if_splits)
    moreover have "turn_ok ?cs m" using queue_invD(2) [OF inv] that n by simp
    ultimately show ?thesis using that by (auto simp: turn_ok_def nth_list_update split: option.splits)
  qed
  show ?thesis
  proof (cases "getMutationQueueKey resolve result (mc_filePath (?cs ! n))")
    case (Inl e)
    let ?c = "(?cs ! n)\<lparr>mc_phase := RegistrationFailed e\<rparr>"
    have q': "q' = q\<lparr>mq_calls := ?cs[n := ?c]\<rparr>" using reg first Inl by (simp add: register_call_def set_call_def)
    have nr: "\<not> registered (?cs ! n)" "\<not> registered ?c" using behind n by (simp_all add: registered_def)
    have "open_before (?cs[n := ?c]) k m = open_before ?cs k m" "between (?cs[n := ?c]) k p m = between ?cs k p m" for k p m
      using n nr by (auto simp: open_before_def between_def nth_list_update split: if_splits)
    moreover have "registered (?cs[n := ?c] ! p) = registered (?cs ! p)" "mc_key (?cs[n := ?c] ! p) = mc_key (?cs ! p)" for p
      using n nr by (auto simp: nth_list_update)
    ultimately have keys: "key_ok (?cs[n := ?c]) key entry = key_ok ?cs key entry" for key entry
      by (cases entry) (simp_all add: key_ok_def)
    show ?thesis unfolding q'
    proof (rule queue_invI)
      show "turn_ok (mq_calls (q\<lparr>mq_calls := ?cs[n := ?c]\<rparr>)) m" if "m < length (mq_calls (q\<lparr>mq_calls := ?cs[n := ?c]\<rparr>))"
        "registered (mq_calls (q\<lparr>mq_calls := ?cs[n := ?c]\<rparr>) ! m)" for m
        using that behind [of m] old [of m ?c] n by (cases m n rule: linorder_cases) (auto simp: registered_def)
    qed (use queue_invD(1,3) [OF inv] keys order [of _ _ ?c] in auto)
  next
    case (Inr key)
    let ?entry = "om_get (mq_fileMutationQueues q) key"
    let ?c = "(?cs ! n)\<lparr>mc_phase := AwaitingTurn, mc_key := key, mc_currentQueue := ?entry\<rparr>"
    let ?q = "q\<lparr>mq_fileMutationQueues := om_set (mq_fileMutationQueues q) key n, mq_calls := ?cs[n := ?c]\<rparr>"
    have q': "q' = ?q" using reg first Inr by (auto simp: register_call_def set_call_def)
    have ko: "key_ok ?cs key ?entry" by (rule queue_invD(3) [OF inv])
    have new: "turn_ok (?cs[n := ?c]) n"
    proof -
      have 1: "open_before (?cs[n := ?c]) key n = open_before ?cs key n" "between (?cs[n := ?c]) key p n = between ?cs key p n" for p
        using n by (auto simp: open_before_def between_def nth_list_update split: if_splits)
      have 2: "open_before ?cs key n \<subseteq> open_before ?cs key (length ?cs)" "between ?cs key p n \<subseteq> between ?cs key p (length ?cs)" for p
        using n by (auto simp: open_before_def between_def)
      show ?thesis
      proof (cases ?entry)
        case None
        with ko 2(1) have "open_before ?cs key n = {}" by (simp add: key_ok_def)
        then have "open_before (?cs[n := ?c]) key n = {}" by (simp only: 1)
        with None n show ?thesis by (simp add: turn_ok_def)
      next
        case (Some p)
        with ko have p: "p < length ?cs" "registered (?cs ! p)" "mc_key (?cs ! p) = key" "between ?cs key p (length ?cs) = {}"
          by (simp_all add: key_ok_def)
        have "p < n" using behind [of p] p by (cases "p < n") auto
        moreover have "between (?cs[n := ?c]) key p n = {}" using 2(2) [of p] p(4) unfolding 1 by simp
        ultimately show ?thesis using n p Some by (simp add: turn_ok_def)
      qed
    qed
    have keys: "key_ok (?cs[n := ?c]) k (om_get (om_set (mq_fileMutationQueues q) key n) k)" for k
    proof (cases "k = key")
      case True
      have "between (?cs[n := ?c]) key n (length ?cs) = {}" using behind by (auto simp: between_def nth_list_update split: if_splits)
      then show ?thesis using True n by (simp add: key_ok_def registered_def)
    next
      case False
      have "open_before (?cs[n := ?c]) k m = open_before ?cs k m" "between (?cs[n := ?c]) k p m = between ?cs k p m" for p m
        using n False behind [of n] by (auto simp: open_before_def between_def nth_list_update split: if_splits)
      moreover have "\<not> registered (?cs ! n)" using behind n by simp
      ultimately show ?thesis using False queue_invD(3) [OF inv, of k] n by (auto simp: key_ok_def nth_list_update split: option.splits)
    qed
    show ?thesis unfolding q'
    proof (rule queue_invI)
      show "turn_ok (mq_calls ?q) m" if "m < length (mq_calls ?q)" "registered (mq_calls ?q ! m)" for m
        using that behind [of m] old [of m ?c] new n by (cases m n rule: linorder_cases) auto
    qed (use queue_invD(1) [OF inv] keys order [of _ _ ?c] in auto)
  qed
qed

lemma call_keeps_inv: "queue_inv q \<Longrightarrow> queue_inv (call_withFileMutationQueue path q)"
proof (rule queue_invI)
  assume inv: "queue_inv q"
  let ?c = "\<lparr>mc_filePath = path, mc_phase = Registering, mc_key = [], mc_currentQueue = None\<rparr>"
  let ?cs = "mq_calls q" and ?q = "call_withFileMutationQueue path q"
  have q: "mq_calls ?q = ?cs @ [?c]" "mq_fileMutationQueues ?q = mq_fileMutationQueues q" by (simp_all add: call_withFileMutationQueue_def)
  have sets: "open_before (?cs @ [?c]) k m = open_before ?cs k m" "between (?cs @ [?c]) k p m = between ?cs k p m" for k p m
    by (auto simp: open_before_def between_def nth_append registered_def less_Suc_eq)
  have long: "open_before ?cs k (Suc (length ?cs)) = open_before ?cs k (length ?cs)" "between ?cs k p (Suc (length ?cs)) = between ?cs k p (length ?cs)" for k p
    by (auto simp: open_before_def between_def)
  show "om_wf (mq_fileMutationQueues ?q)" using queue_invD(1) [OF inv] by (simp add: q)
  show "turn_ok (mq_calls ?q) n" if "n < length (mq_calls ?q)" "registered (mq_calls ?q ! n)" for n
  proof -
    have n: "n < length ?cs" "registered (?cs ! n)" using that by (auto simp: q nth_append registered_def less_Suc_eq split: if_splits)
    then show ?thesis using queue_invD(2) [OF inv n] by (auto simp: q turn_ok_def sets nth_append split: option.splits)
  qed
  show "key_ok (mq_calls ?q) key (om_get (mq_fileMutationQueues ?q) key)" for key
    using queue_invD(3) [OF inv, of key] by (auto simp: q key_ok_def sets long nth_append split: option.splits)
  show "mc_phase (mq_calls ?q ! n) = Registering" if "m < n" "n < length (mq_calls ?q)" "mc_phase (mq_calls ?q ! m) = Registering" for m n
    using that queue_invD(4) [OF inv that(1)] by (auto simp: q nth_append less_Suc_eq split: if_splits)
qed

lemma queue_step_inv: "queue_inv q \<Longrightarrow> queue_step resolve ev q = Some q' \<Longrightarrow> queue_inv q'"
  by (cases ev) (auto intro: call_keeps_inv register_keeps_inv start_keeps_inv finish_keeps_inv)

lemma queue_run_inv: "mutation_run resolve evs q = Some q' \<Longrightarrow> queue_inv q \<Longrightarrow> queue_inv q'"
  by (induction evs arbitrary: q) (auto simp: bind_eq_Some_conv intro: queue_step_inv)

lemma no_calls_inv: "queue_inv no_calls"
  by (rule queue_invI) (auto simp: no_calls_def om_wf_def om_keys_def key_ok_def open_before_def)

text \<open>A call that runs or ran has all earlier calls with its key behind it.\<close>

lemma running_in_order:
  assumes "queue_inv q" "n < length (mq_calls q)" "mc_phase (mq_calls q ! n) \<in> {Mutating, Released}" "m < n"
    and "registered (mq_calls q ! m)" "mc_key (mq_calls q ! m) = mc_key (mq_calls q ! n)"
  shows "mc_phase (mq_calls q ! m) = Released"
proof -
  have "turn_ok (mq_calls q) n" using queue_invD(2) [OF assms(1,2)] assms(3) by (auto simp: registered_def)
  then have "open_before (mq_calls q) (mc_key (mq_calls q ! n)) n = {}" using assms(3) by (auto simp: turn_ok_def)
  then show ?thesis using assms(2,4,5,6) by (auto simp: open_before_def)
qed

text \<open>The first open call of a key that waits may start.\<close>

lemma first_may_start:
  assumes "queue_inv q" "n < length (mq_calls q)" "mc_phase (mq_calls q ! n) = AwaitingTurn"
    and "open_before (mq_calls q) (mc_key (mq_calls q ! n)) n = {}"
  shows "may_start n q"
proof (cases "mc_currentQueue (mq_calls q ! n)")
  case None
  then show ?thesis using assms by (simp add: may_start_def)
next
  case (Some p)
  let ?cs = "mq_calls q" and ?k = "mc_key (mq_calls q ! n)"
  have reg: "registered (?cs ! n)" using assms(3) by (simp add: registered_def)
  have p: "p < n" "registered (?cs ! p)" "mc_key (?cs ! p) = ?k" using queue_invD(2) [OF assms(1,2) reg] Some by (simp_all add: turn_ok_def)
  have "open_before ?cs ?k (Suc p) \<subseteq> open_before ?cs ?k n" using p(1) by (auto simp: open_before_def)
  then have "chain_resolved ?cs p"
    using chain_resolved_open [of ?cs p] queue_invD(2) [OF assms(1)] p assms(2,4) by simp
  then show ?thesis using assms Some by (simp add: may_start_def)
qed

section \<open>A path with two keys\<close>

text \<open>
  While a new file is being created through a link to a directory its key is the path, and the next call
  for the same path gets the real path as its key: both run.
\<close>

lemma two_keys_overlap:
  "\<exists>q. mutation_run id [QueueCall ''link/new'', QueueRegister MissingPath, QueueStart 0, QueueCall ''link/new'',
      QueueRegister (RealPath ''real/new''), QueueStart 1] no_calls = Some q \<and>
     map mc_filePath (mq_calls q) = [''link/new'', ''link/new''] \<and> map mc_phase (mq_calls q) = [Mutating, Mutating]"
  by (simp add: no_calls_def call_withFileMutationQueue_def register_call_def getMutationQueueKey_def set_call_def start_call_def may_start_def
      om_get_def)

end
