(* ===== verification/Branch_Facts.thy ===== *)
theory Branch_Facts
  imports Branch_Summary
begin

text \<open>
  What is known of branch summaries: on a well-formed session the collected entries are the old path
  without what it shares with the target path, and the selected messages are the newest ones, as many
  as the budget of tokens allows.
\<close>

section \<open>Paths of one tree\<close>

lemma linked_append: "linked (xs @ ys) \<Longrightarrow> linked xs"
  by (induction xs rule: linked.induct) auto

lemma is_path_prefix: "is_path (xs @ ys) \<Longrightarrow> xs \<noteq> [] \<Longrightarrow> is_path xs"
  by (auto simp: is_path_def dest: linked_append)

lemma is_path_last:
  "is_path (xs @ [x]) \<Longrightarrow> if xs = [] then is_root x else en_parentId x = Some (en_id (last xs))"
  by (cases xs rule: rev_cases) (auto simp: is_path_def linked_snoc)

text \<open>In a set of entries told apart by their identifiers, a path is known by its last entry.\<close>

lemma path_unique:
  assumes "is_path p" "is_path q" "last p = last q" "inj_on en_id (set p \<union> set q)"
    "\<forall>x \<in> set p \<union> set q. en_id x \<noteq> []"
  shows "p = q"
  using assms
proof (induction p arbitrary: q rule: rev_induct)
  case Nil
  then show ?case by (simp add: is_path_def)
next
  case (snoc x xs)
  obtain ys where q: "q = ys @ [x]"
    using snoc.prems(2,3) by (metis append_butlast_last_id is_path_def last_snoc)
  note px = is_path_last [OF snoc.prems(1)] and qx = is_path_last [OF snoc.prems(2) [unfolded q]]
  show ?case
  proof (cases "xs = [] \<or> ys = []")
    case True
    have "en_id (last zs) \<noteq> []" if "zs \<noteq> []" "zs = xs \<or> zs = ys" for zs
      using that snoc.prems(5) q last_in_set by fastforce
    with True px qx have "xs = [] \<and> ys = []" by (auto simp: is_root_def split: if_splits)
    with q show ?thesis by simp
  next
    case False
    with px qx have "en_id (last xs) = en_id (last ys)" by simp
    moreover have "last xs \<in> set (xs @ [x]) \<union> set q" "last ys \<in> set (xs @ [x]) \<union> set q"
      using False q by auto
    ultimately have "last xs = last ys" using inj_onD [OF snoc.prems(4)] by blast
    moreover have "is_path xs" "is_path ys"
      using is_path_prefix [of xs "[x]"] is_path_prefix [of ys "[x]"] snoc.prems(1,2) q False by auto
    moreover have "inj_on en_id (set xs \<union> set ys)"
      using snoc.prems(4) q by (auto intro: inj_on_subset)
    ultimately have "xs = ys" using snoc.IH [of ys] snoc.prems(5) q by auto
    with q show ?thesis by simp
  qed
qed

section \<open>The walk to the common ancestor\<close>

definition end_id :: "session_entry list \<Rightarrow> string option" where
  "end_id es = map_option en_id (last_opt es)"

lemma end_id_simps [simp]: "end_id [] = None" "end_id (xs @ [x]) = Some (en_id x)"
  by (simp_all add: end_id_def)

lemma collect_path:
  assumes "common @ rest = [] \<or> is_path (common @ rest)" "distinct (map en_id (common @ rest))"
    "\<forall>x \<in> set (common @ rest). get (en_id x) = Some x \<and> en_id x \<noteq> []"
  shows "collect_loop get (end_id common) (end_id (common @ rest)) acc = Some (None, rest @ acc)"
  using assms
proof (induction rest arbitrary: acc rule: rev_induct)
  case Nil
  show ?case
    by (cases common rule: rev_cases) (simp_all add: collect_loop.simps)
next
  case (snoc x xs)
  have path: "is_path ((common @ xs) @ [x])" using snoc.prems(1) by simp
  have x: "get (en_id x) = Some x" "en_id x \<noteq> []" using snoc.prems(3) by auto
  have anc: "end_id common \<noteq> Some (en_id x)"
    using snoc.prems(2) by (cases common rule: rev_cases) auto
  have "collect_loop get (end_id common) (end_id (common @ xs @ [x])) acc =
      collect_loop get (end_id common) (en_parentId x) (x # acc)"
  proof -
    have "end_id (common @ xs @ [x]) = Some (en_id x)" using end_id_simps(2) [of "common @ xs" x] by simp
    with x anc show ?thesis by (simp add: collect_loop.simps [of get _ "Some (en_id x)"])
  qed
  also have "\<dots> = Some (None, xs @ x # acc)"
  proof (cases "common @ xs = []")
    case True
    with is_path_last [OF path] show ?thesis
      by (auto simp: is_root_def collect_loop.simps [of get _ None] collect_loop.simps [of get _ "Some []"]
          split: option.splits)
  next
    case False
    with is_path_last [OF path] have "en_parentId x = end_id (common @ xs)"
      by (cases "common @ xs" rule: rev_cases) auto
    moreover have "is_path (common @ xs)" using is_path_prefix [OF path False] .
    ultimately show ?thesis using snoc.IH [of "x # acc"] snoc.prems by auto
  qed
  finally show ?case by simp
qed

text \<open>Two paths of one tree share a prefix; its end is the deepest common entry.\<close>

lemma find_rev_split:
  "find P (rev xs) = Some x \<Longrightarrow> \<exists>pre post. xs = pre @ x # post \<and> P x \<and> (\<forall>y \<in> set post. \<not> P y)"
proof (induction xs rule: rev_induct)
  case (snoc y ys)
  show ?case
  proof (cases "P y")
    case True
    with snoc.prems show ?thesis by (intro exI [of _ ys] exI [of _ "[]"]) auto
  next
    case False
    with snoc obtain pre post where "ys = pre @ x # post" "P x" "\<forall>y \<in> set post. \<not> P y" by auto
    with False show ?thesis by (intro exI [of _ pre] exI [of _ "post @ [y]"]) auto
  qed
qed simp

lemma common_prefix:
  assumes "is_path old" "is_path tgt" "inj_on en_id (set old \<union> set tgt)" "distinct (map en_id old)"
    "\<forall>x \<in> set old \<union> set tgt. en_id x \<noteq> []"
  shows "\<exists>common rest diverged. old = common @ rest \<and> tgt = common @ diverged \<and>
    deepest_common old tgt = end_id common \<and> set rest \<inter> set tgt = {} \<and> set diverged \<inter> set old = {}"
proof (cases "find (\<lambda>e. en_id e \<in> en_id ` set old) (rev tgt)")
  case None
  then have "\<forall>e \<in> set tgt. en_id e \<notin> en_id ` set old" by (simp add: find_None_iff_ball)
  with None show ?thesis
    by (intro exI [of _ "[]"] exI [of _ old] exI [of _ tgt]) (auto simp: deepest_common_def)
next
  case (Some e)
  from find_rev_split [OF Some] obtain pre post where t: "tgt = pre @ e # post"
    "en_id e \<in> en_id ` set old" "\<forall>y \<in> set post. en_id y \<notin> en_id ` set old" by blast
  then obtain e' where "e' \<in> set old" "en_id e' = en_id e" by auto
  then have "e \<in> set old" using assms(3) t(1) by (metis (no_types) UnCI inj_onD in_set_conv_decomp)
  then obtain pre' rest where o: "old = pre' @ e # rest" by (meson split_list)
  have "pre' @ [e] = pre @ [e]"
  proof (rule path_unique)
    show "is_path (pre' @ [e])" using is_path_prefix [of "pre' @ [e]" rest] assms(1) o by simp
    show "is_path (pre @ [e])" using is_path_prefix [of "pre @ [e]" post] assms(2) t(1) by simp
    show "inj_on en_id (set (pre' @ [e]) \<union> set (pre @ [e]))"
      by (rule inj_on_subset [OF assms(3)]) (auto simp: o t(1))
  qed (use assms(5) o t(1) in auto)
  then have eq: "pre' = pre" by simp
  have "set rest \<inter> set tgt = {}"
  proof -
    have "y \<notin> set (pre @ [e])" if "y \<in> set rest" for y
      using assms(4) that by (auto simp: o eq)
    moreover have "y \<notin> set post" if "y \<in> set rest" for y
      using t(3) that by (auto simp: o)
    ultimately show ?thesis by (auto simp: t(1))
  qed
  moreover have "set post \<inter> set old = {}" using t(3) by auto
  moreover have "deepest_common old tgt = end_id (pre @ [e])" by (simp add: deepest_common_def Some)
  ultimately show ?thesis
    by (intro exI [of _ "pre @ [e]"] exI [of _ rest] exI [of _ post]) (simp add: o eq t(1))
qed

lemma collect_inv:
  assumes inv: "session_inv (view s)" and old: "l \<in> ids_of (ss_entries (view s))"
    and target: "t \<in> ids_of (ss_entries (view s))"
    and "\<And>i. op_getEntry ops i s = om_get (ss_byId (view s)) i"
    and "\<And>l. op_getPathToRoot ops l s = getPathToRoot (view s) l"
  shows "\<exists>common entries diverged. path_of (view s) (Some l) = common @ entries \<and>
    path_of (view s) (Some t) = common @ diverged \<and> set entries \<inter> set (path_of (view s) (Some t)) = {} \<and>
    collectEntriesForBranchSummary ops (Some l) t s =
      Some (Inr \<lparr>cer_entries = entries, cer_commonAncestorId = end_id common\<rparr>)"
proof -
  let ?old = "path_of (view s) (Some l)" and ?tgt = "path_of (view s) (Some t)"
  note po = getPathToRoot_inv [OF inv old] and pt = getPathToRoot_inv [OF inv target]
  have wo: "well_ordered {} (ss_entries (view s))" and by_id: "ss_byId (view s) = index_entries (ss_entries (view s))"
    using inv by (auto simp: session_inv_def) (metis state_of_entries_simps(2))
  note dist = conjunct1 [OF well_ordered_distinct [OF wo]]
  have get: "\<forall>x \<in> set (ss_entries (view s)). om_get (ss_byId (view s)) (en_id x) = Some x"
    using get_index_distinct [OF dist] by (simp add: by_id)
  have ne: "\<forall>x \<in> set (ss_entries (view s)). en_id x \<noteq> []"
    using wo by (auto simp: in_set_conv_decomp well_ordered_append)
  have inj: "inj_on en_id (set (ss_entries (view s)))" using dist by (simp add: distinct_map)
  have sub: "set ?old \<union> set ?tgt \<subseteq> set (ss_entries (view s))" using po(4) pt(4) by simp
  have "inj_on en_id (set ?old \<union> set ?tgt)" using inj_on_subset [OF inj sub] .
  moreover have "distinct (map en_id ?old)" using well_ordered_distinct [OF po(5)] by simp
  moreover have "\<forall>x \<in> set ?old \<union> set ?tgt. en_id x \<noteq> []" using ne sub by blast
  ultimately obtain common rest diverged where
    c: "?old = common @ rest" "?tgt = common @ diverged" "deepest_common ?old ?tgt = end_id common"
      "set rest \<inter> set ?tgt = {}"
    using common_prefix [OF po(2) pt(2)] by blast
  have e: "end_id (common @ rest) = Some l"
    using po(2,3) c(1) by (cases "common @ rest" rule: rev_cases) (auto simp: is_path_def)
  have "collect_loop (\<lambda>i. op_getEntry ops i s) (end_id common) (Some l) [] = Some (None, rest @ [])"
    unfolding e [symmetric]
  proof (rule collect_path)
    show "common @ rest = [] \<or> is_path (common @ rest)" using po(2) c(1) by simp
    show "distinct (map en_id (common @ rest))" using well_ordered_distinct [OF po(5)] c(1) by simp
    show "\<forall>x \<in> set (common @ rest). op_getEntry ops (en_id x) s = Some x \<and> en_id x \<noteq> []"
      using get ne po(4) c(1) by (auto simp: assms(4))
  qed
  moreover have "l \<noteq> []" using old ne by auto
  ultimately show ?thesis
    using c po(1) pt(1) by (auto simp: collectEntriesForBranchSummary_def truthy_str_def getBranch_def assms(5) Let_def)
qed

section \<open>The messages within the budget\<close>

definition branch_messages :: "session_entry list \<Rightarrow> agent_message list" where
  "branch_messages es = List.map_filter branch_message es"

definition token_sum :: "agent_message list \<Rightarrow> int" where
  "token_sum ms = sum_list (map (int \<circ> estimateTokens) ms)"

fun is_summary_message :: "agent_message \<Rightarrow> bool" where
  "is_summary_message (BranchSummary _) = True"
| "is_summary_message (CompactionSummary _) = True"
| "is_summary_message _ = False"

lemma branch_messages_Nil [simp]: "branch_messages [] = []"
  by (simp add: branch_messages_def List.map_filter_def)

lemma branch_messages_Cons:
  "branch_messages (e # es) = (case branch_message e of None \<Rightarrow> branch_messages es | Some m \<Rightarrow> m # branch_messages es)"
  by (simp add: branch_messages_def List.map_filter_def split: option.splits)

lemma branch_messages_rev: "branch_messages (rev es) = rev (branch_messages es)"
  by (simp add: branch_messages_def List.map_filter_def rev_map rev_filter)

lemma token_sum_simps [simp]:
  "token_sum [] = 0" "token_sum (m # ms) = int (estimateTokens m) + token_sum ms"
  "token_sum (ms @ ns) = token_sum ms + token_sum ns" "token_sum (rev ms) = token_sum ms"
  by (simp_all add: token_sum_def flip: rev_map)

lemma summary_entry_message: "is_summary_entry e \<Longrightarrow> branch_message e = Some m \<Longrightarrow> is_summary_message m"
  by (auto simp: is_summary_entry_def branch_message_def createBranchSummaryMessage_def
      createCompactionSummaryMessage_def split: entry_body.splits)

text \<open>What a selection adds to what it has: the next messages, up to the one that breaks the budget.\<close>

definition within_budget :: "int \<Rightarrow> agent_message list \<Rightarrow> bool" where
  "within_budget budget ms \<longleftrightarrow> budget > 0 \<longrightarrow> token_sum ms \<le> budget \<or>
     (\<exists>m rest. ms = m # rest \<and> is_summary_message m \<and> 10 * token_sum rest < 9 * budget)"

lemma select_messages_spec:
  assumes "bp_totalTokens p = token_sum (bp_messages p)" "within_budget budget (bp_messages p)"
  shows "\<exists>taken left. branch_messages es = taken @ left \<and>
    bp_messages (select_messages budget es p) = rev taken @ bp_messages p \<and>
    bp_totalTokens (select_messages budget es p) = token_sum (rev taken @ bp_messages p) \<and>
    within_budget budget (rev taken @ bp_messages p) \<and>
    (\<forall>m rest. left = m # rest \<longrightarrow> budget > 0 \<and> token_sum (rev taken @ bp_messages p) + int (estimateTokens m) > budget)"
  using assms
proof (induction es arbitrary: p)
  case Nil
  then show ?case by simp
next
  case (Cons e es)
  show ?case
  proof (cases "branch_message e")
    case None
    with Cons show ?thesis by (simp add: branch_messages_Cons)
  next
    case (Some m)
    let ?k = "int (estimateTokens m)"
    let ?p = "p\<lparr>bp_fileOps := extractFileOpsFromMessage m (bp_fileOps p)\<rparr>"
    let ?q = "?p\<lparr>bp_messages := m # bp_messages p, bp_totalTokens := bp_totalTokens p + ?k\<rparr>"
    show ?thesis
    proof (cases "budget > 0 \<and> bp_totalTokens p + ?k > budget")
      case False
      then have sel: "select_messages budget (e # es) p = select_messages budget es ?q"
        using Some by (auto simp: Let_def)
      have "within_budget budget (bp_messages ?q)" using False Cons.prems(1) by (auto simp: within_budget_def)
      moreover have "bp_totalTokens ?q = token_sum (bp_messages ?q)" using Cons.prems(1) by simp
      ultimately obtain taken left where "branch_messages es = taken @ left"
        "bp_messages (select_messages budget es ?q) = rev taken @ m # bp_messages p"
        "bp_totalTokens (select_messages budget es ?q) = token_sum (rev taken @ m # bp_messages p)"
        "within_budget budget (rev taken @ m # bp_messages p)"
        "\<forall>x rest. left = x # rest \<longrightarrow> budget > 0 \<and>
           token_sum (rev taken @ m # bp_messages p) + int (estimateTokens x) > budget"
        using Cons.IH [of ?q] by auto
      with sel Some show ?thesis
        by (intro exI [of _ "m # taken"] exI [of _ left]) (simp add: branch_messages_Cons)
    next
      case True
      show ?thesis
      proof (cases "is_summary_entry e \<and> 10 * bp_totalTokens p < 9 * budget")
        case True
        with \<open>budget > 0 \<and> _\<close> Some have "select_messages budget (e # es) p = ?q" by (simp add: Let_def)
        moreover have "within_budget budget (m # bp_messages p)"
          using True summary_entry_message [OF _ Some] Cons.prems(1) by (auto simp: within_budget_def)
        ultimately show ?thesis
          using Some Cons.prems(1) \<open>budget > 0 \<and> _\<close>
          by (intro exI [of _ "[m]"] exI [of _ "branch_messages es"]) (auto simp: branch_messages_Cons)
      next
        case False
        with \<open>budget > 0 \<and> _\<close> Some have "select_messages budget (e # es) p = ?p" by (auto simp: Let_def)
        with Some Cons.prems True show ?thesis
          by (intro exI [of _ "[]"] exI [of _ "m # branch_messages es"]) (simp add: branch_messages_Cons)
      qed
    qed
  qed
qed

lemma prepare_spec:
  "\<exists>older. branch_messages entries = older @ bp_messages (prepareBranchEntries entries budget) \<and>
     bp_totalTokens (prepareBranchEntries entries budget) =
       token_sum (bp_messages (prepareBranchEntries entries budget)) \<and>
     within_budget budget (bp_messages (prepareBranchEntries entries budget)) \<and>
     (older \<noteq> [] \<longrightarrow> budget > 0 \<and>
        token_sum (last older # bp_messages (prepareBranchEntries entries budget)) > budget)"
proof -
  let ?p = "\<lparr>bp_messages = [], bp_fileOps = fold summary_details entries createFileOps, bp_totalTokens = 0\<rparr>"
  from select_messages_spec [of ?p budget "rev entries"] obtain taken left where
    t: "branch_messages (rev entries) = taken @ left"
      "bp_messages (prepareBranchEntries entries budget) = rev taken"
      "bp_totalTokens (prepareBranchEntries entries budget) = token_sum (rev taken)"
      "within_budget budget (rev taken)"
      "\<forall>m rest. left = m # rest \<longrightarrow> budget > 0 \<and> token_sum (rev taken) + int (estimateTokens m) > budget"
    by (auto simp: within_budget_def prepareBranchEntries_def)
  have "branch_messages entries = rev left @ rev taken"
    using t(1) by (metis branch_messages_rev rev_append rev_rev_ident)
  with t show ?thesis by (cases left) (auto intro!: exI [of _ "rev left"])
qed

text \<open>A budget that is not positive is none: the window of a small model does not limit anything.\<close>

lemma prepare_unlimited:
  "budget \<le> 0 \<Longrightarrow> bp_messages (prepareBranchEntries entries budget) = branch_messages entries"
  using prepare_spec [of entries budget] by force

end
