(* ===== verification/Prompt_Templates.thy ===== *)
theory Prompt_Templates
  imports Messages
begin

text \<open>
  Prompt templates and skills as text: the argument parser and the substitution of placeholders in
  \<open>agent/src/harness/prompt-templates.ts\<close> and \<open>coding-agent/src/core/prompt-templates.ts\<close> (which differ),
  and the formatting functions of \<open>agent/src/harness/skills.ts\<close>. Regular expressions are scanners over
  one-byte characters. Reading templates and skills from disk is not modelled.
\<close>

section \<open>Command arguments\<close>

text \<open>
  The loop over the characters: the arguments so far, the current one, the open quote. Both versions
  share it; they differ in what separates arguments.
\<close>

fun parse_args_loop :: "(char \<Rightarrow> bool) \<Rightarrow> string \<Rightarrow> string list \<Rightarrow> string \<Rightarrow> char option \<Rightarrow> string list" where
  "parse_args_loop space [] args current inQuote = (if current \<noteq> [] then args @ [current] else args)"
| "parse_args_loop space (c # cs) args current (Some q) =
     (if c = q then parse_args_loop space cs args current None
      else parse_args_loop space cs args (current @ [c]) (Some q))"
| "parse_args_loop space (c # cs) args current None =
     (if c = CHR 0x22 \<or> c = CHR 0x27 then parse_args_loop space cs args current (Some c)
      else if space c
      then (if current \<noteq> [] then parse_args_loop space cs (args @ [current]) [] None
            else parse_args_loop space cs args current None)
      else parse_args_loop space cs args (current @ [c]) None)"

definition blank_or_tab :: "char \<Rightarrow> bool" where
  "blank_or_tab c = (c = CHR '' '' \<or> c = CHR 0x09)"

definition parseCommandArgs :: "string \<Rightarrow> string list" where
  "parseCommandArgs argsString = parse_args_loop blank_or_tab argsString [] [] None"

definition ca_parseCommandArgs :: "string \<Rightarrow> string list" where
  "ca_parseCommandArgs argsString = parse_args_loop is_space argsString [] [] None"

section \<open>Placeholders\<close>

definition decimal_digit :: "char \<Rightarrow> bool" where
  "decimal_digit c = (digit_value c \<noteq> None)"

definition span_digits :: "string \<Rightarrow> string \<times> string" where
  "span_digits s = (takeWhile decimal_digit s, dropWhile decimal_digit s)"

text \<open>\<open>parseInt(digits, 10)\<close> of one or more digits.\<close>

definition int_of_digits :: "string \<Rightarrow> nat" where
  "int_of_digits ds = nullish (read_digits 0 ds) 0"

text \<open>\<open>args[n - 1]\<close>, and \<open>args.slice(start, start + length).join(" ")\<close> with a start below 0 taken as 0.\<close>

definition positional :: "string list \<Rightarrow> nat \<Rightarrow> string option" where
  "positional args n = (if n = 0 \<or> length args < n then None else Some (args ! (n - 1)))"

definition slice_args :: "string list \<Rightarrow> nat \<Rightarrow> nat option \<Rightarrow> string" where
  "slice_args args n len =
     join_with '' '' (case len of None \<Rightarrow> drop (n - 1) args | Some l \<Rightarrow> take l (drop (n - 1) args))"

fun strip_text :: "string \<Rightarrow> string \<Rightarrow> string option" where
  "strip_text [] s = Some s"
| "strip_text (p # ps) [] = None"
| "strip_text (p # ps) (c # cs) = (if p = c then strip_text ps cs else None)"

text \<open>One or more digits.\<close>

definition digits1 :: "string \<Rightarrow> (nat \<times> string) option" where
  "digits1 s = (case span_digits s of (ds, rest) \<Rightarrow> if ds = [] then None else Some (int_of_digits ds, rest))"

text \<open>After \<open>${@:\<close>: digits, perhaps a colon and digits, the closing brace.\<close>

definition match_slice :: "string \<Rightarrow> ((nat \<times> nat option) \<times> string) option" where
  "match_slice s =
     (case strip_text ''${@:'' s of
        None \<Rightarrow> None
      | Some s1 \<Rightarrow>
          (case digits1 s1 of
             None \<Rightarrow> None
           | Some (n, s2) \<Rightarrow>
               (case strip_text ''}'' s2 of
                  Some s3 \<Rightarrow> Some ((n, None), s3)
                | None \<Rightarrow>
                    (case Option.bind (strip_text '':'' s2) digits1 of
                       None \<Rightarrow> None
                     | Some (l, s3) \<Rightarrow> map_option (\<lambda>s4. ((n, Some l), s4)) (strip_text ''}'' s3)))))"

section \<open>The coding agent: one pass\<close>

datatype placeholder =
    Literal char
  | Positional nat
  | AllArgs
  | Slice nat "nat option"
  | Fallback nat string

definition match_fallback :: "string \<Rightarrow> (placeholder \<times> string) option" where
  "match_fallback s =
     (case Option.bind (strip_text ''${'' s) digits1 of
        None \<Rightarrow> None
      | Some (n, s1) \<Rightarrow>
          (case strip_text '':-'' s1 of
             None \<Rightarrow> None
           | Some s2 \<Rightarrow>
               map_option (\<lambda>s3. (Fallback n (takeWhile (\<lambda>c. c \<noteq> CHR ''}'') s2), s3))
                 (strip_text ''}'' (dropWhile (\<lambda>c. c \<noteq> CHR ''}'') s2))))"

definition match_simple :: "string \<Rightarrow> (placeholder \<times> string) option" where
  "match_simple s =
     (case strip_text ''$'' s of
        None \<Rightarrow> None
      | Some s1 \<Rightarrow>
          (case strip_text ''ARGUMENTS'' s1 of
             Some s2 \<Rightarrow> Some (AllArgs, s2)
           | None \<Rightarrow>
               (case strip_text ''@'' s1 of
                  Some s2 \<Rightarrow> Some (AllArgs, s2)
                | None \<Rightarrow> map_option (\<lambda>(n, s2). (Positional n, s2)) (digits1 s1))))"

text \<open>The alternatives of the expression, in their order.\<close>

definition match_placeholder :: "string \<Rightarrow> (placeholder \<times> string) option" where
  "match_placeholder s =
     (case match_fallback s of
        Some r \<Rightarrow> Some r
      | None \<Rightarrow>
          (case match_slice s of
             Some ((n, len), rest) \<Rightarrow> Some (Slice n len, rest)
           | None \<Rightarrow> match_simple s))"

lemma strip_text_length: "strip_text p s = Some r \<Longrightarrow> length s = length p + length r"
  by (induction p s rule: strip_text.induct) (auto split: if_splits)

lemma digits1_length: "digits1 s = Some (n, r) \<Longrightarrow> length r < length s"
  unfolding digits1_def span_digits_def
  by (cases s) (auto split: if_splits intro: le_imp_less_Suc length_dropWhile_le)

lemma bind_digits1: "Option.bind (strip_text p s) digits1 = Some (n, r) \<Longrightarrow> length r < length s"
  by (auto simp: bind_eq_Some_conv dest!: strip_text_length digits1_length)

lemma match_slice_length: "match_slice s = Some (x, r) \<Longrightarrow> length r < length s"
  by (auto simp: match_slice_def split: option.splits prod.splits
      dest!: strip_text_length digits1_length bind_digits1)

lemma match_fallback_length: "match_fallback s = Some (x, r) \<Longrightarrow> length r < length s"
proof -
  assume "match_fallback s = Some (x, r)"
  then obtain s2 where "2 + length s2 < length s" "length (dropWhile (\<lambda>c. c \<noteq> CHR ''}'') s2) = 1 + length r"
    by (fastforce simp: match_fallback_def split: option.splits prod.splits dest!: strip_text_length bind_digits1)
  with length_dropWhile_le [of "\<lambda>c. c \<noteq> CHR ''}''" s2] show ?thesis by linarith
qed

lemma match_placeholder_length: "match_placeholder s = Some (p, r) \<Longrightarrow> length r < length s"
  by (auto simp: match_placeholder_def match_simple_def split: option.splits prod.splits
      dest!: strip_text_length digits1_length match_slice_length match_fallback_length)

function parse_template :: "string \<Rightarrow> placeholder list" where
  "parse_template [] = []"
| "parse_template (c # cs) =
     (case match_placeholder (c # cs) of
        Some (p, rest) \<Rightarrow> p # parse_template rest
      | None \<Rightarrow> Literal c # parse_template cs)"
  by pat_completeness auto
termination
  by (relation "measure length") (auto dest: match_placeholder_length)

text \<open>The replacement callback.\<close>

fun placeholder_value :: "string list \<Rightarrow> placeholder \<Rightarrow> string" where
  "placeholder_value args (Literal c) = [c]"
| "placeholder_value args (Positional n) = nullish (positional args n) []"
| "placeholder_value args AllArgs = join_with '' '' args"
| "placeholder_value args (Slice n len) = slice_args args n len"
| "placeholder_value args (Fallback n s) = or_str (positional args n) s"

definition ca_substituteArgs :: "string \<Rightarrow> string list \<Rightarrow> string" where
  "ca_substituteArgs content args = concat (map (placeholder_value args) (parse_template content))"

section \<open>The harness: four passes\<close>

function subst_positional :: "string list \<Rightarrow> string \<Rightarrow> string" where
  "subst_positional args [] = []"
| "subst_positional args (c # cs) =
     (case Option.bind (strip_text ''$'' (c # cs)) digits1 of
        Some (n, rest) \<Rightarrow> nullish (positional args n) [] @ subst_positional args rest
      | None \<Rightarrow> c # subst_positional args cs)"
  by pat_completeness auto
termination
  by (relation "measure (length \<circ> snd)") (auto simp del: strip_text.simps dest!: bind_digits1)

function subst_slices :: "string list \<Rightarrow> string \<Rightarrow> string" where
  "subst_slices args [] = []"
| "subst_slices args (c # cs) =
     (case match_slice (c # cs) of
        Some ((n, len), rest) \<Rightarrow> slice_args args n len @ subst_slices args rest
      | None \<Rightarrow> c # subst_slices args cs)"
  by pat_completeness auto
termination
  by (relation "measure (length \<circ> snd)") (auto dest: match_slice_length)

text \<open>
  \<open>String.replace\<close> with a replacement string: in it, a dollar with a dollar, an ampersand, a backquote
  or a quote stands for a dollar, the match, what is before it or what is after it in the string.
\<close>

fun expand_replacement :: "string \<Rightarrow> string \<Rightarrow> string \<Rightarrow> string \<Rightarrow> string" where
  "expand_replacement pre matched post (c # d # cs) =
     (if c \<noteq> CHR ''$'' then c # expand_replacement pre matched post (d # cs)
      else if d = CHR ''$'' then CHR ''$'' # expand_replacement pre matched post cs
      else if d = CHR ''&'' then matched @ expand_replacement pre matched post cs
      else if d = CHR 0x60 then pre @ expand_replacement pre matched post cs
      else if d = CHR 0x27 then post @ expand_replacement pre matched post cs
      else c # expand_replacement pre matched post (d # cs))"
| "expand_replacement pre matched post cs = cs"

text \<open>Every occurrence of a non-empty text; \<open>pre\<close> is the part of the string already scanned.\<close>

fun replace_all_from :: "string \<Rightarrow> string \<Rightarrow> string \<Rightarrow> nat \<Rightarrow> string \<Rightarrow> string" where
  "replace_all_from pat repl pre skip [] = []"
| "replace_all_from pat repl pre (Suc n) (c # cs) = replace_all_from pat repl (pre @ [c]) n cs"
| "replace_all_from pat repl pre 0 (c # cs) =
     (case strip_text pat (c # cs) of
        Some post \<Rightarrow> expand_replacement pre pat post repl @ replace_all_from pat repl (pre @ [c]) (length pat - 1) cs
      | None \<Rightarrow> c # replace_all_from pat repl (pre @ [c]) 0 cs)"

definition replace_all :: "string \<Rightarrow> string \<Rightarrow> string \<Rightarrow> string" where
  "replace_all pat repl s = replace_all_from pat repl [] 0 s"

definition substituteArgs :: "string \<Rightarrow> string list \<Rightarrow> string" where
  "substituteArgs content args =
     (let allArgs = join_with '' '' args in
      replace_all ''$@'' allArgs (replace_all ''$ARGUMENTS'' allArgs
        (subst_slices args (subst_positional args content))))"

record prompt_template =
  pt_name :: string
  pt_content :: string

definition formatPromptTemplateInvocation :: "prompt_template \<Rightarrow> string list \<Rightarrow> string" where
  "formatPromptTemplateInvocation t args = substituteArgs (pt_content t) args"

section \<open>Expanding a prompt\<close>

text \<open>A slash, a name without white space and, after white space, the arguments.\<close>

definition expandPromptTemplate :: "string \<Rightarrow> prompt_template list \<Rightarrow> string" where
  "expandPromptTemplate s templates =
     (case strip_text ''/'' s of
        None \<Rightarrow> s
      | Some r \<Rightarrow>
          let name = takeWhile (\<lambda>c. \<not> is_space c) r; argsString = dropWhile is_space (dropWhile (\<lambda>c. \<not> is_space c) r) in
          if name = [] then s
          else case find (\<lambda>t. pt_name t = name) templates of
              Some t \<Rightarrow> ca_substituteArgs (pt_content t) (ca_parseCommandArgs argsString)
            | None \<Rightarrow> s)"

section \<open>Skills\<close>

record skill =
  sk_name :: string
  sk_description :: string
  sk_content :: string
  sk_filePath :: string
  sk_disableModelInvocation :: "bool option"

text \<open>Backslashes become slashes, trailing slashes go; the part before the last slash.\<close>

definition normalizeEnvPath :: "string \<Rightarrow> string" where
  "normalizeEnvPath path = map (\<lambda>c. if c = CHR 0x5C then CHR ''/'' else c) path"

definition strip_slashes :: "string \<Rightarrow> string" where
  "strip_slashes s = rev (dropWhile (\<lambda>c. c = CHR ''/'') (rev s))"

definition dirnameEnvPath :: "string \<Rightarrow> string" where
  "dirnameEnvPath path =
     (let normalized = strip_slashes (normalizeEnvPath path);
          dir = rev (drop 1 (dropWhile (\<lambda>c. c \<noteq> CHR ''/'') (rev normalized)))
      in if dir = [] then ''/'' else dir)"

definition basenameEnvPath :: "string \<Rightarrow> string" where
  "basenameEnvPath path = rev (takeWhile (\<lambda>c. c \<noteq> CHR ''/'') (rev (strip_slashes (normalizeEnvPath path))))"

definition formatSkillInvocation :: "skill \<Rightarrow> string option \<Rightarrow> string" where
  "formatSkillInvocation s additionalInstructions =
     (let block = ''<skill name='' @ [CHR 0x22] @ sk_name s @ [CHR 0x22] @ '' location='' @ [CHR 0x22] @ sk_filePath s @
            [CHR 0x22] @ ''>'' @ newline @ ''References are relative to '' @ dirnameEnvPath (sk_filePath s) @ ''.'' @ newline @
            newline @ sk_content s @ newline @ ''</skill>''
      in if truthy_str additionalInstructions then block @ newline @ newline @ nullish additionalInstructions [] else block)"

text \<open>The five replacements of \<open>escapeXml\<close>, one after the other.\<close>

definition replace_char :: "char \<Rightarrow> string \<Rightarrow> string \<Rightarrow> string" where
  "replace_char c r s = concat (map (\<lambda>x. if x = c then r else [x]) s)"

definition escapeXml :: "string \<Rightarrow> string" where
  "escapeXml s =
     replace_char (CHR 0x27) ''&apos;'' (replace_char (CHR 0x22) ''&quot;'' (replace_char (CHR ''>'') ''&gt;''
       (replace_char (CHR ''<'') ''&lt;'' (replace_char (CHR ''&'') ''&amp;'' s))))"

definition skill_lines :: "skill \<Rightarrow> string list" where
  "skill_lines s = [''  <skill>'', ''    <name>'' @ escapeXml (sk_name s) @ ''</name>'',
     ''    <description>'' @ escapeXml (sk_description s) @ ''</description>'',
     ''    <location>'' @ escapeXml (sk_filePath s) @ ''</location>'', ''  </skill>'']"

text \<open>The first lines are not ASCII text; they are a parameter.\<close>

definition formatSkillsForSystemPrompt :: "string list \<Rightarrow> skill list \<Rightarrow> string" where
  "formatSkillsForSystemPrompt intro skills =
     (let visible = filter (\<lambda>s. sk_disableModelInvocation s \<noteq> Some True) skills in
      if visible = [] then []
      else join_with newline (intro @ [''<available_skills>''] @ concat (map skill_lines visible) @ [''</available_skills>'']))"

text \<open>What is wrong with the name of a skill, and with its description.\<close>

definition quoted :: "string \<Rightarrow> string" where
  "quoted s = [CHR 0x22] @ s @ [CHR 0x22]"

fun has_double_hyphen :: "string \<Rightarrow> bool" where
  "has_double_hyphen (a # b # cs) = (a = CHR ''-'' \<and> b = CHR ''-'' \<or> has_double_hyphen (b # cs))"
| "has_double_hyphen _ = False"

definition name_char :: "char \<Rightarrow> bool" where
  "name_char c = (let n = of_char c :: nat in 97 \<le> n \<and> n \<le> 122 \<or> 48 \<le> n \<and> n \<le> 57 \<or> n = 45)"

definition validateName :: "string \<Rightarrow> string \<Rightarrow> string list" where
  "validateName name parentDirName =
     (if name \<noteq> parentDirName
      then [''name '' @ quoted name @ '' does not match parent directory '' @ quoted parentDirName] else []) @
     (if length name > 64 then [''name exceeds 64 characters ('' @ show_nat (length name) @ '')''] else []) @
     (if name \<noteq> [] \<and> list_all name_char name then []
      else [''name contains invalid characters (must be lowercase a-z, 0-9, hyphens only)'']) @
     (if name \<noteq> [] \<and> (hd name = CHR ''-'' \<or> last name = CHR ''-'') then [''name must not start or end with a hyphen''] else []) @
     (if has_double_hyphen name then [''name must not contain consecutive hyphens''] else [])"

definition validateDescription :: "string option \<Rightarrow> string list" where
  "validateDescription description =
     (case description of
        None \<Rightarrow> [''description is required'']
      | Some d \<Rightarrow> if trim d = [] then [''description is required'']
          else if length d > 1024 then [''description exceeds 1024 characters ('' @ show_nat (length d) @ '')''] else [])"

end
