(* ===== verification/Template_Facts.thy ===== *)
theory Template_Facts
  imports Prompt_Templates
begin

text \<open>
  What is known of prompt templates: the placeholders of a template are read back as they were written
  and each is replaced by its value, whatever the arguments contain; the substitution of the harness
  agrees as long as no argument contains a dollar. Quoted arguments are parsed as they were.
\<close>

section \<open>Spelling placeholders\<close>

text \<open>All arguments can be spelled in two ways.\<close>

fun show_placeholder :: "bool \<Rightarrow> placeholder \<Rightarrow> string" where
  "show_placeholder short (Literal c) = [c]"
| "show_placeholder short (Positional n) = ''$'' @ show_nat n"
| "show_placeholder short AllArgs = (if short then ''$@'' else ''$ARGUMENTS'')"
| "show_placeholder short (Slice n None) = ''${@:'' @ show_nat n @ ''}''"
| "show_placeholder short (Slice n (Some l)) = ''${@:'' @ show_nat n @ '':'' @ show_nat l @ ''}''"
| "show_placeholder short (Fallback n s) = ''${'' @ show_nat n @ '':-'' @ s @ ''}''"

definition show_template :: "bool \<Rightarrow> placeholder list \<Rightarrow> string" where
  "show_template short ps = concat (map (show_placeholder short) ps)"

text \<open>No literal is a dollar, no default text has a closing brace, no digit follows a number.\<close>

fun plain_placeholder :: "placeholder \<Rightarrow> bool" where
  "plain_placeholder (Literal c) = (c \<noteq> CHR ''$'')"
| "plain_placeholder (Fallback n s) = (CHR ''}'' \<notin> set s)"
| "plain_placeholder _ = True"

fun unambiguous :: "placeholder list \<Rightarrow> bool" where
  "unambiguous [] = True"
| "unambiguous (Positional n # Literal c # ps) = (\<not> decimal_digit c \<and> unambiguous (Literal c # ps))"
| "unambiguous (p # ps) = (plain_placeholder p \<and> unambiguous ps)"

lemma decimal_digits_show: "list_all decimal_digit (show_nat n)"
proof (induction n rule: show_nat.induct)
  case (1 n)
  have "decimal_digit (digit_char d)" if "d < 10" for d
    using that by (simp add: decimal_digit_def digit_value_digit_char)
  with 1 show ?case by (cases "n < 10") (simp_all add: show_nat.simps [of n])
qed

lemma dollar_no_digit: "\<not> decimal_digit (CHR ''$'')" "\<not> decimal_digit (CHR ''}'')" "\<not> decimal_digit (CHR '':'')"
  by (simp_all add: decimal_digit_def digit_value_def)

lemma digits1_show:
  "rest = [] \<or> \<not> decimal_digit (hd rest) \<Longrightarrow> digits1 (show_nat n @ rest) = Some (n, rest)"
proof -
  assume r: "rest = [] \<or> \<not> decimal_digit (hd rest)"
  have "\<forall>c \<in> set (show_nat n). decimal_digit c" using decimal_digits_show by (simp add: list_all_iff)
  with r have "takeWhile decimal_digit (show_nat n @ rest) = show_nat n" "dropWhile decimal_digit (show_nat n @ rest) = rest"
    by (cases rest; simp add: takeWhile_append2 dropWhile_append2)+
  then show ?thesis by (simp add: digits1_def span_digits_def int_of_digits_def read_digits_show_nat)
qed

lemma strip_text_append [simp]: "strip_text p (p @ s) = Some s"
  by (induction p) auto

lemma digits1_none: "s = [] \<or> \<not> decimal_digit (hd s) \<Longrightarrow> digits1 s = None"
  by (cases s) (auto simp: digits1_def span_digits_def)

lemma digit_hd_show: "decimal_digit (hd (show_nat n @ s))"
  using decimal_digits_show [of n] by (cases "show_nat n") auto

lemma strip_show_nat: "\<not> decimal_digit x \<Longrightarrow> strip_text (x # xs) (show_nat n @ s) = None"
  using digit_hd_show [of n s] by (cases "show_nat n") auto

text \<open>One placeholder is matched as it was spelled.\<close>

lemma match_spelled:
  assumes "plain_placeholder p" "\<forall>c. p \<noteq> Literal c"
    "\<forall>n. p = Positional n \<longrightarrow> rest = [] \<or> \<not> decimal_digit (hd rest)"
  shows "match_placeholder (show_placeholder short p @ rest) = Some (p, rest)"
proof (cases p)
  case (Positional n)
  have "\<not> decimal_digit (CHR ''A'')" "\<not> decimal_digit (CHR ''@'')" "\<not> decimal_digit (CHR ''{'')"
    by (simp_all add: decimal_digit_def digit_value_def)
  then have "strip_text ''ARGUMENTS'' (show_nat n @ rest) = None" "strip_text ''@'' (show_nat n @ rest) = None"
    "strip_text ''{'' (show_nat n @ rest) = None" "strip_text ''{@:'' (show_nat n @ rest) = None"
    using strip_show_nat by blast+
  with assms(3) Positional digits1_show [of rest n] show ?thesis
    by (simp add: match_placeholder_def match_fallback_def match_slice_def match_simple_def)
next
  case AllArgs
  then show ?thesis
    by (simp add: match_placeholder_def match_fallback_def match_slice_def match_simple_def)
next
  case (Slice n len)
  have "digits1 (''@:'' @ s) = None" for s by (rule digits1_none) (simp add: decimal_digit_def digit_value_def)
  with digits1_show [of "CHR ''}'' # s" for s] digits1_show [of "CHR '':'' # s" for s] Slice show ?thesis
    by (cases len) (simp_all add: match_placeholder_def match_fallback_def match_slice_def dollar_no_digit)
next
  case (Fallback n s)
  with assms(1) have "\<forall>c \<in> set s. c \<noteq> CHR ''}''" by auto
  then have "takeWhile (\<lambda>c. c \<noteq> CHR ''}'') (s @ CHR ''}'' # rest) = s"
    "dropWhile (\<lambda>c. c \<noteq> CHR ''}'') (s @ CHR ''}'' # rest) = CHR ''}'' # rest"
    by (simp_all add: takeWhile_append2 dropWhile_append2)
  with Fallback digits1_show [of "CHR '':'' # CHR ''-'' # s @ CHR ''}'' # rest" n] show ?thesis
    by (simp add: match_placeholder_def match_fallback_def dollar_no_digit)
qed (use assms in simp)

lemma match_literal: "c \<noteq> CHR ''$'' \<Longrightarrow> match_placeholder (c # cs) = None"
  by (simp add: match_placeholder_def match_fallback_def match_slice_def match_simple_def)

lemma parse_template_step:
  "match_placeholder s = Some (p, rest) \<Longrightarrow> s \<noteq> [] \<Longrightarrow> parse_template s = p # parse_template rest"
  by (cases s) simp_all

lemma show_placeholder_neq [simp]: "show_placeholder short p \<noteq> []"
  by (induction short p rule: show_placeholder.induct) auto

lemma show_placeholder_hd:
  "\<forall>c. p \<noteq> Literal c \<Longrightarrow> hd (show_placeholder short p) = CHR ''$''"
  by (induction short p rule: show_placeholder.induct) auto

lemma show_template_simps [simp]:
  "show_template short [] = []" "show_template short (p # ps) = show_placeholder short p @ show_template short ps"
  by (simp_all add: show_template_def)

lemma unambiguous_Cons:
  assumes "unambiguous (p # ps)"
  shows "plain_placeholder p" "unambiguous ps"
    "p = Positional n \<Longrightarrow> show_template short ps = [] \<or> \<not> decimal_digit (hd (show_template short ps))"
proof -
  show "plain_placeholder p" "unambiguous ps"
    using assms by (cases "p # ps" rule: unambiguous.cases; auto)+
  show "p = Positional n \<Longrightarrow> show_template short ps = [] \<or> \<not> decimal_digit (hd (show_template short ps))"
  proof (cases ps)
    case (Cons q qs)
    assume "p = Positional n"
    with assms Cons show ?thesis
      by (cases q) (auto simp: show_placeholder_hd hd_append dollar_no_digit simp del: show_placeholder.simps(2-6))
  qed simp
qed

lemma parse_show: "unambiguous ps \<Longrightarrow> parse_template (show_template short ps) = ps"
proof (induction ps)
  case (Cons p ps)
  note u = unambiguous_Cons [OF Cons.prems]
  show ?case
  proof (cases "\<exists>c. p = Literal c")
    case True
    then obtain c where c: "p = Literal c" by blast
    with u(1) have "match_placeholder (c # show_template short ps) = None" by (intro match_literal) simp
    with c Cons.IH [OF u(2)] show ?thesis by simp
  next
    case False
    then have "match_placeholder (show_placeholder short p @ show_template short ps) = Some (p, show_template short ps)"
      using u by (intro match_spelled) auto
    with parse_template_step Cons.IH [OF u(2)] show ?thesis by simp
  qed
qed simp

lemma ca_substitute_show:
  "unambiguous ps \<Longrightarrow> ca_substituteArgs (show_template short ps) args = concat (map (placeholder_value args) ps)"
  by (simp add: ca_substituteArgs_def parse_show)

section \<open>Quoted arguments\<close>

lemma parse_quoted:
  "CHR 0x22 \<notin> set a \<Longrightarrow>
     parse_args_loop sp (a @ CHR 0x22 # rest) args cur (Some (CHR 0x22)) = parse_args_loop sp rest args (cur @ a) None"
  by (induction a arbitrary: cur) auto

lemma parse_quoted_args:
  assumes "sp (CHR '' '')" "\<forall>a \<in> set xs. a \<noteq> [] \<and> CHR 0x22 \<notin> set a"
  shows "parse_args_loop sp (join_with '' '' (map quoted xs)) args [] None = args @ xs"
  using assms(2)
proof (induction xs arbitrary: args rule: induct_list012)
  case (2 x)
  then show ?case using parse_quoted [of x sp "[]" args "[]"] by (simp add: quoted_def)
next
  case (3 x y zs)
  have "parse_args_loop sp (quoted x @ '' '' @ join_with '' '' (map quoted (y # zs))) args [] None =
      parse_args_loop sp (join_with '' '' (map quoted (y # zs))) (args @ [x]) [] None"
    using 3(3) assms(1) by (simp add: quoted_def parse_quoted)
  with 3(2) [of "args @ [x]"] 3(3) show ?case by simp
qed simp

lemma quoted_args_parsed:
  "\<forall>a \<in> set xs. a \<noteq> [] \<and> CHR 0x22 \<notin> set a \<Longrightarrow>
     parseCommandArgs (join_with '' '' (map quoted xs)) = xs \<and> ca_parseCommandArgs (join_with '' '' (map quoted xs)) = xs"
  unfolding parseCommandArgs_def ca_parseCommandArgs_def
  using parse_quoted_args [of blank_or_tab xs "[]"] parse_quoted_args [of is_space xs "[]"]
  by (simp add: blank_or_tab_def is_space_def)

section \<open>The four passes of the harness\<close>

text \<open>Text without dollars passes through; without dollars in it a replacement is used as it is.\<close>

definition dollar_free :: "string \<Rightarrow> bool" where
  "dollar_free s = (CHR ''$'' \<notin> set s)"

lemma dollar_free_simps [simp]:
  "dollar_free []" "dollar_free (c # s) = (c \<noteq> CHR ''$'' \<and> dollar_free s)"
  "dollar_free (s @ t) = (dollar_free s \<and> dollar_free t)"
  by (auto simp: dollar_free_def)

lemma positional_text: "dollar_free t \<Longrightarrow> subst_positional args (t @ s) = t @ subst_positional args s"
  by (induction t) auto

lemma slices_text: "dollar_free t \<Longrightarrow> subst_slices args (t @ s) = t @ subst_slices args s"
  by (induction t) (auto simp: match_slice_def)

lemma expand_dollar_free: "dollar_free repl \<Longrightarrow> expand_replacement pre matched post repl = repl"
  by (induction pre matched post repl rule: expand_replacement.induct) auto

lemma replace_from_pre:
  assumes "dollar_free repl"
  shows "replace_all_from pat repl pre n s = replace_all_from pat repl pre' n s"
proof (induction s arbitrary: pre pre' n)
  case (Cons c cs)
  note IH = Cons.IH [of "pre @ [c]" _ "pre' @ [c]"]
  show ?case
  proof (cases n)
    case 0
    show ?thesis
      unfolding 0 replace_all_from.simps IH by (simp only: expand_dollar_free [OF assms])
  qed (simp add: IH)
qed simp

lemma replace_text:
  assumes "dollar_free repl" "dollar_free t" "pat = CHR ''$'' # pat'"
  shows "replace_all pat repl (t @ s) = t @ replace_all pat repl s"
  unfolding replace_all_def using assms(2)
proof (induction t)
  case (Cons c t)
  then have "strip_text pat (c # t @ s) = None" by (auto simp: assms(3))
  with Cons show ?case by (simp add: replace_from_pre [OF assms(1), of pat "[c]" _ _ "[]"])
qed simp

lemma replace_skip:
  "replace_all_from pat repl pre (length xs) (xs @ s) = replace_all_from pat repl (pre @ xs) 0 s"
  by (induction xs arbitrary: pre) simp_all

lemma replace_match:
  assumes "dollar_free repl" "pat = c # pat'"
  shows "replace_all pat repl (pat @ s) = repl @ replace_all pat repl s"
proof -
  have "replace_all_from pat repl [] 0 (c # pat' @ s) =
      expand_replacement [] pat s repl @ replace_all_from pat repl [c] (length pat') (pat' @ s)"
    using assms(2) strip_text_append [of pat s] by simp
  then show ?thesis
    using replace_from_pre [OF assms(1), of pat "[c] @ pat'" 0 s "[]"]
    by (simp add: replace_all_def assms expand_dollar_free replace_skip)
qed

text \<open>What is left of a placeholder after the first pass, and after the second.\<close>

fun after_positional :: "string list \<Rightarrow> bool \<Rightarrow> placeholder \<Rightarrow> string" where
  "after_positional args short (Positional n) = nullish (positional args n) []"
| "after_positional args short p = show_placeholder short p"

fun after_slices :: "string list \<Rightarrow> bool \<Rightarrow> placeholder \<Rightarrow> string" where
  "after_slices args short (Slice n len) = slice_args args n len"
| "after_slices args short p = after_positional args short p"

fun no_fallback :: "placeholder \<Rightarrow> bool" where
  "no_fallback (Fallback n s) = False"
| "no_fallback _ = True"

lemma subst_positional_step:
  "Option.bind (strip_text ''$'' s) digits1 = Some (n, rest) \<Longrightarrow>
     subst_positional args s = nullish (positional args n) [] @ subst_positional args rest"
  by (cases s) simp_all

lemma first_pass:
  "unambiguous ps \<Longrightarrow> \<forall>p \<in> set ps. no_fallback p \<Longrightarrow>
     subst_positional args (show_template short ps) = concat (map (after_positional args short) ps)"
proof (induction ps)
  case (Cons p ps)
  note u = unambiguous_Cons [OF Cons.prems(1)]
  have IH: "subst_positional args (show_template short ps) = concat (map (after_positional args short) ps)"
    using Cons u by simp
  have dollar: "subst_positional args (CHR ''$'' # t @ s) = CHR ''$'' # t @ subst_positional args s"
    if "dollar_free t" "t \<noteq> []" "\<not> decimal_digit (hd t)" for t s
  proof -
    have "digits1 (t @ s) = None" using that(2,3) by (intro digits1_none) simp
    with positional_text [OF that(1), of args s] show ?thesis by simp
  qed
  have plain: "dollar_free (show_nat n)" for n
    using decimal_digits_show [of n] dollar_no_digit(1) by (auto simp: dollar_free_def list_all_iff)
  have letters: "\<not> decimal_digit (CHR ''A'')" "\<not> decimal_digit (CHR ''@'')" "\<not> decimal_digit (CHR ''{'')"
    by (simp_all add: decimal_digit_def digit_value_def)
  show ?case
  proof (cases p)
    case (Literal c)
    with u(1) positional_text [of "[c]" args "show_template short ps"] IH show ?thesis by simp
  next
    case (Positional n)
    with u(3) digits1_show [of "show_template short ps" n] IH show ?thesis
      using subst_positional_step [of "''$'' @ show_nat n @ show_template short ps" n "show_template short ps" args] by simp
  next
    case AllArgs
    with IH dollar [of "''@''"] dollar [of "''ARGUMENTS''"] letters show ?thesis by auto
  next
    case (Slice n len)
    with IH dollar [of "''{@:'' @ show_nat n @ ''}''"] plain letters
    show ?thesis
    proof (cases len)
      case (Some l)
      with Slice IH dollar [of "''{@:'' @ show_nat n @ '':'' @ show_nat l @ ''}''"] plain letters show ?thesis by simp
    qed simp
  qed (use Cons.prems in simp)
qed simp

lemma value_dollar_free:
  assumes "\<forall>a \<in> set args. dollar_free a"
  shows "dollar_free (nullish (positional args n) [])" "dollar_free (slice_args args n len)" "dollar_free (join_with '' '' args)"
proof -
  have join: "\<forall>a \<in> set xs. dollar_free a \<Longrightarrow> dollar_free (join_with '' '' xs)" for xs
    by (induction xs rule: induct_list012) auto
  show "dollar_free (nullish (positional args n) [])" using assms by (auto simp: positional_def)
  show "dollar_free (slice_args args n len)"
    using assms by (auto simp: slice_args_def intro!: join dest: in_set_dropD in_set_takeD split: option.splits)
  show "dollar_free (join_with '' '' args)" using assms by (rule join)
qed

lemma subst_slices_step:
  "match_slice s = Some ((n, len), rest) \<Longrightarrow> subst_slices args s = slice_args args n len @ subst_slices args rest"
  by (cases s) (simp_all add: match_slice_def)

lemma match_slice_spelled: "match_slice (show_placeholder short (Slice n len) @ rest) = Some ((n, len), rest)"
  using digits1_show [of "CHR ''}'' # s" for s] digits1_show [of "CHR '':'' # s" for s]
  by (cases len) (simp_all add: match_slice_def dollar_no_digit)

lemma second_pass:
  assumes "\<forall>a \<in> set args. dollar_free a" "\<forall>p \<in> set ps. no_fallback p \<and> plain_placeholder p"
  shows "subst_slices args (concat (map (after_positional args short) ps)) = concat (map (after_slices args short) ps)"
  using assms(2)
proof (induction ps)
  case (Cons p ps)
  then have IH: "subst_slices args (concat (map (after_positional args short) ps)) = concat (map (after_slices args short) ps)"
    by simp
  show ?case
  proof (cases p)
    case (Literal c)
    with Cons.prems IH slices_text [of "[c]" args] show ?thesis by simp
  next
    case (Positional n)
    with IH slices_text [OF value_dollar_free(1) [OF assms(1)]] show ?thesis by simp
  next
    case AllArgs
    have "match_slice (CHR ''$'' # CHR ''A'' # s) = None" "match_slice (CHR ''$'' # CHR ''@'' # s) = None" for s
      by (simp_all add: match_slice_def)
    then have "subst_slices args (''$ARGUMENTS'' @ s) = ''$ARGUMENTS'' @ subst_slices args s"
      "subst_slices args (''$@'' @ s) = ''$@'' @ subst_slices args s" for s
      using slices_text [of "''ARGUMENTS''" args] slices_text [of "''@''" args] by simp_all
    with AllArgs IH show ?thesis by (cases short) (simp_all del: subst_slices.simps append_Cons)
  next
    case (Slice n len)
    with IH subst_slices_step [OF match_slice_spelled] show ?thesis by simp
  qed (use Cons.prems in simp)
qed simp

lemma replace_other:
  assumes "dollar_free repl" "strip_text pat (CHR ''$'' # t @ s) = None" "dollar_free t" "pat = CHR ''$'' # pat'"
  shows "replace_all pat repl (CHR ''$'' # t @ s) = CHR ''$'' # t @ replace_all pat repl s"
  using assms(2) replace_text [OF assms(1,3,4), of s] replace_from_pre [OF assms(1), of pat "''$''" 0 "t @ s" "[]"]
  by (simp add: replace_all_def)

lemma last_passes:
  assumes "\<forall>a \<in> set args. dollar_free a" "\<forall>p \<in> set ps. no_fallback p \<and> plain_placeholder p"
  shows "replace_all ''$@'' (join_with '' '' args) (replace_all ''$ARGUMENTS'' (join_with '' '' args)
    (concat (map (after_slices args short) ps))) = concat (map (placeholder_value args) ps)"
  using assms(2)
proof (induction ps)
  case Nil
  then show ?case by (simp add: replace_all_def)
next
  case (Cons p ps)
  note all_free = value_dollar_free(3) [OF assms(1)]
  note plain = replace_text [OF all_free, of _ "''$ARGUMENTS''" "''ARGUMENTS''"] replace_text [OF all_free, of _ "''$@''" "''@''"]
  note IH = Cons.IH
  show ?case
  proof (cases p)
    case (Literal c)
    then have "dollar_free [c]" using Cons.prems by simp
    with Literal IH plain [of "[c]"] Cons.prems show ?thesis by simp
  next
    case (Positional n)
    with IH plain [OF value_dollar_free(1) [OF assms(1)]] Cons.prems show ?thesis by simp
  next
    case AllArgs
    show ?thesis
    proof (cases short)
      case True
      have "replace_all ''$ARGUMENTS'' (join_with '' '' args) (CHR ''$'' # ''@'' @ s) =
          CHR ''$'' # ''@'' @ replace_all ''$ARGUMENTS'' (join_with '' '' args) s" for s
        by (rule replace_other [OF all_free]) simp_all
      with True AllArgs IH Cons.prems replace_match [OF all_free, of "''$@''"] show ?thesis by simp
    next
      case False
      with AllArgs IH Cons.prems replace_match [OF all_free, of "''$ARGUMENTS''"] plain(2) [OF all_free] show ?thesis by simp
    qed
  next
    case (Slice n len)
    with IH plain [OF value_dollar_free(2) [OF assms(1)]] Cons.prems show ?thesis by simp
  qed (use Cons.prems in simp)
qed

lemma substitutions_agree:
  assumes "unambiguous ps" "\<forall>p \<in> set ps. no_fallback p" "\<forall>a \<in> set args. dollar_free a"
  shows "substituteArgs (show_template short ps) args = concat (map (placeholder_value args) ps)"
proof -
  have "\<forall>p \<in> set ps. plain_placeholder p"
    using assms(1) by (induction ps) (auto dest: unambiguous_Cons)
  with assms show ?thesis by (simp add: substituteArgs_def Let_def first_pass second_pass last_passes)
qed

section \<open>Arguments with dollars\<close>

text \<open>In the harness an argument can be replaced again, and two dollars become one.\<close>

lemma harness_rescans:
  "substituteArgs ''$1'' [''$@'', ''b''] = ''$@ b''" "substituteArgs ''$ARGUMENTS'' [''a$$b''] = ''a$b''"
  by (simp_all add: substituteArgs_def replace_all_def positional_def digits1_def span_digits_def decimal_digit_def
      digit_value_def int_of_digits_def match_slice_def)

lemma single_pass_keeps:
  "ca_substituteArgs ''$1'' [''$@'', ''b''] = ''$@''" "ca_substituteArgs ''$ARGUMENTS'' [''a$$b''] = ''a$$b''"
proof -
  have "show_nat 1 = ''1''" by code_simp
  then have "show_template False [Positional 1] = ''$1''" "show_template False [AllArgs] = ''$ARGUMENTS''" by simp_all
  then show "ca_substituteArgs ''$1'' [''$@'', ''b''] = ''$@''" "ca_substituteArgs ''$ARGUMENTS'' [''a$$b''] = ''a$$b''"
    using ca_substitute_show [of "[Positional 1]" False "[''$@'', ''b'']"] ca_substitute_show [of "[AllArgs]" False "[''a$$b'']"]
    by (simp_all add: positional_def)
qed

lemma empty_argument_dropped: "parseCommandArgs (quoted [] @ '' x'') = [''x'']"
  by code_simp

section \<open>Skills in the system prompt\<close>

text \<open>No character of a name, a description or a path can open or close an element or an attribute.\<close>

lemma replace_char_set: "x \<in> set (replace_char c r s) \<Longrightarrow> x \<in> set r \<or> x \<in> set s \<and> x \<noteq> c"
  by (auto simp: replace_char_def split: if_splits)

lemma escapeXml_safe: "x \<in> set (escapeXml s) \<Longrightarrow> x \<noteq> CHR ''<'' \<and> x \<noteq> CHR ''>'' \<and> x \<noteq> CHR 0x22 \<and> x \<noteq> CHR 0x27"
  unfolding escapeXml_def
  by (elim replace_char_set [THEN disjE] conjE) (auto dest!: replace_char_set)

end
