(* ===== verification/Agent_Harness.thy ===== *)
theory Agent_Harness
  imports Agent_Runtime Branch_Summary Prompt_Templates
begin

text \<open>
  \<open>agent/src/harness/agent-harness.ts\<close>: the agent that owns a session. It runs the agent loop on the
  context of the session, stores every message when it ends, queues writes and messages that arrive
  while it is busy, compacts the session and moves in its tree. Storage operations are parameters with
  the interface of \<open>Session\<close>; the handlers, tools and models are functions of an environment \<open>'e\<close>. An
  external call returns, beside its result, the calls of the harness it made; their effect on the
  harness is applied when it settles, and what they notify belongs to that call. Tools are opaque
  values \<open>'t\<close>, so that they can be kept in the state; what a tool does is a parameter. The set of
  handlers does not change during an operation.
\<close>

section \<open>Errors and options\<close>

datatype harness_error_code =
    BusyHarness | HarnessState | InvalidArgument | SessionFault | HookFault | AuthFault | CompactionFault | BranchSummaryFault | UnknownFault

record harness_error =
  he_code :: harness_error_code
  he_message :: string

definition harness_error :: "harness_error_code \<Rightarrow> string \<Rightarrow> harness_error" where
  "harness_error c m = \<lparr>he_code = c, he_message = m\<rparr>"

definition hn_createUserMessage :: "int \<Rightarrow> string \<Rightarrow> media list option \<Rightarrow> agent_message" where
  "hn_createUserMessage now s images =
     User \<lparr>um_content = Parts (TextContent s None # nullish images []), um_timestamp = Some now\<rparr>"

definition hn_createFailureMessage :: "model \<Rightarrow> string \<Rightarrow> bool \<Rightarrow> int \<Rightarrow> assistant_message" where
  "hn_createFailureMessage model err aborted now =
     \<lparr>am_content = [AText [] None], am_api = mod_api model, am_provider = mod_provider model,
      am_model = mod_id model, am_usage = EMPTY_USAGE,
      am_stopReason = (if aborted then Aborted else StopError), am_errorMessage = Some err, am_timestamp = now\<rparr>"

text \<open>Names that occur again, each once, in the order of their second occurrence.\<close>

fun duplicates_loop :: "string list \<Rightarrow> string list \<Rightarrow> string list \<Rightarrow> string list" where
  "duplicates_loop [] seen duplicates = duplicates"
| "duplicates_loop (n # ns) seen duplicates =
     duplicates_loop ns (set_add n seen) (if n \<in> set seen then set_add n duplicates else duplicates)"

definition findDuplicateNames :: "string list \<Rightarrow> string list" where
  "findDuplicateNames names = duplicates_loop names [] []"

text \<open>Options of requests; the maps of headers and of metadata keep the order of their keys.\<close>

record harness_stream_options =
  hs_transport :: "string option"
  hs_timeoutMs :: "int option"
  hs_maxRetries :: "int option"
  hs_maxRetryDelayMs :: "int option"
  hs_headers :: "(string, string) omap option"
  hs_metadata :: "(string, json) omap option"
  hs_cacheRetention :: "string option"

text \<open>
  A patch: a field that is absent (\<open>None\<close>), present and undefined (\<open>Some None\<close>), or present with a
  value. In the maps a key may be present and undefined, which deletes it.
\<close>

record stream_options_patch =
  hp_transport :: "string option option"
  hp_timeoutMs :: "int option option"
  hp_maxRetries :: "int option option"
  hp_maxRetryDelayMs :: "int option option"
  hp_cacheRetention :: "string option option"
  hp_headers :: "(string \<times> string option) list option option"
  hp_metadata :: "(string \<times> json option) list option option"

definition patch_map :: "(string, 'v) omap option \<Rightarrow> (string \<times> 'v option) list option option \<Rightarrow> (string, 'v) omap option" where
  "patch_map base patch =
     (case patch of
        None \<Rightarrow> base
      | Some None \<Rightarrow> None
      | Some (Some kvs) \<Rightarrow>
          let m = fold (\<lambda>(k, v) m. case v of None \<Rightarrow> om_delete m k | Some x \<Rightarrow> om_set m k x) kvs (nullish base [])
          in if m = [] then None else Some m)"

definition applyStreamOptionsPatch ::
  "harness_stream_options \<Rightarrow> stream_options_patch option \<Rightarrow> harness_stream_options" where
  "applyStreamOptionsPatch base patch =
     (case patch of
        None \<Rightarrow> base
      | Some p \<Rightarrow>
          \<lparr>hs_transport = nullish (hp_transport p) (hs_transport base),
           hs_timeoutMs = nullish (hp_timeoutMs p) (hs_timeoutMs base),
           hs_maxRetries = nullish (hp_maxRetries p) (hs_maxRetries base),
           hs_maxRetryDelayMs = nullish (hp_maxRetryDelayMs p) (hs_maxRetryDelayMs base),
           hs_headers = patch_map (hs_headers base) (hp_headers p),
           hs_metadata = patch_map (hs_metadata base) (hp_metadata p),
           hs_cacheRetention = nullish (hp_cacheRetention p) (hs_cacheRetention base)\<rparr>)"

section \<open>State\<close>

datatype harness_phase = IdlePhase | TurnPhase | CompactionPhase | BranchSummaryPhase | RetryPhase

record harness_resources =
  hr_skills :: "skill list option"
  hr_promptTemplates :: "prompt_template list option"

text \<open>
  A pending write is an entry without its identifier, parent and time. \<open>hn_run\<close> is the controller of
  the active run, with the state of its signal; \<open>hn_runPromise\<close> tells whether a run is to be waited for.
  \<open>hn_queueArrays\<close> counts how often \<open>abort\<close> put new arrays in the place of the two queues.
\<close>

record ('s, 't) harness =
  hn_session :: 's
  hn_phase :: harness_phase
  hn_run :: "bool option"
  hn_runPromise :: bool
  hn_pending :: "entry_body list"
  hn_model :: model
  hn_thinkingLevel :: thinking_level
  hn_streamOptions :: harness_stream_options
  hn_resources :: harness_resources
  hn_tools :: "(string, 't) omap"
  hn_activeToolNames :: "string list"
  hn_steerQueue :: "agent_message list"
  hn_steeringMode :: queue_mode
  hn_followUpQueue :: "agent_message list"
  hn_followUpMode :: queue_mode
  hn_nextTurnQueue :: "agent_message list"
  hn_queueArrays :: nat

record 't turn_state =
  ts_messages :: "agent_message list"
  ts_resources :: harness_resources
  ts_streamOptions :: harness_stream_options
  ts_sessionId :: string
  ts_systemPrompt :: string
  ts_model :: model
  ts_thinkingLevel :: thinking_level
  ts_tools :: "'t list"
  ts_activeTools :: "'t list"

text \<open>The world of an operation: the harness, the turn state its closures share, and the environment.\<close>

record ('s, 't, 'e) harness_world =
  hw_harness :: "('s, 't) harness"
  hw_turn :: "'t turn_state"
  hw_env :: 'e

text \<open>The calls of the harness that an external call may make.\<close>

datatype 't harness_call =
    CallSteer string "media list option"
  | CallFollowUp string "media list option"
  | CallNextTurn string "media list option"
  | CallAppendMessage agent_message
  | CallSetModel model
  | CallSetThinkingLevel thinking_level
  | CallSetTools "'t list" "string list option"
  | CallSetActiveTools "string list"
  | CallSetSteeringMode queue_mode
  | CallSetFollowUpMode queue_mode
  | CallSetResources harness_resources
  | CallSetStreamOptions harness_stream_options
  | CallAbort

type_synonym ('t, 'e, 'a) hext = "'e \<Rightarrow> 'a outcome \<times> 't harness_call list \<times> 'e"

section \<open>Events, handlers and options\<close>

datatype harness_event =
    FromLoop agent_event
  | QueueUpdate "agent_message list" "agent_message list" "agent_message list"
  | SavePoint bool
  | AbortDone "agent_message list" "agent_message list"
  | Settled nat
  | AfterProviderResponse int "(string, string) omap"
  | SessionCompacted session_entry bool
  | SessionMoved "string option" "string option" "session_entry option" bool
  | ModelUpdate model model
  | ThinkingLevelUpdate thinking_level thinking_level
  | ToolsUpdate "string list" "string list" "string list" "string list"
  | ResourcesUpdate harness_resources harness_resources

record before_agent_start =
  bs_prompt :: string
  bs_images :: "media list option"
  bs_systemPrompt :: string
  bs_resources :: harness_resources

record before_agent_start_result =
  br_messages :: "agent_message list option"
  br_systemPrompt :: "string option"

record tool_call_event =
  tv_toolCallId :: string
  tv_toolName :: string

record harness_tool_call_result =
  hcr_block :: "bool option"
  hcr_reason :: "string option"

record harness_tool_result = tool_call_event +
  tv_input :: json
  tv_content :: "media list option"
  tv_details :: "json option"
  tv_isError :: bool

record compact_result =
  cr_summary :: string
  cr_firstKeptEntryId :: string
  cr_tokensBefore :: int
  cr_details :: "json option"

record before_compact_result =
  bcr_cancel :: bool
  bcr_compaction :: "compact_result option"

record tree_preparation =
  tp_targetId :: string
  tp_oldLeafId :: "string option"
  tp_commonAncestorId :: "string option"
  tp_entriesToSummarize :: "session_entry list"
  tp_userWantsSummary :: bool
  tp_customInstructions :: "string option"
  tp_replaceInstructions :: "bool option"
  tp_label :: "string option"

record before_tree_result =
  btr_cancel :: bool
  btr_summary :: "(string \<times> json option) option"
  btr_customInstructions :: "string option"
  btr_replaceInstructions :: "bool option"

record ('t, 'e) harness_tool =
  ht_description :: string
  ht_parameters :: json
  ht_label :: string
  ht_policy :: "tool_policy_descriptor option"
  ht_prepareArguments :: "(json \<Rightarrow> string + json) option"
  ht_execute :: "string \<Rightarrow> json \<Rightarrow> 'e \<Rightarrow> tool_action list \<times> 't harness_call list \<times> 'e"
  ht_executionMode :: "execution_mode option"

text \<open>A request to the models, with the two callbacks a provider may call.\<close>

record ('t, 'e) harness_request =
  rq_options :: harness_stream_options
  rq_reasoning :: "thinking_level option"
  rq_sessionId :: string
  rq_onPayload :: "json \<Rightarrow> ('t, 'e, json) hext"
  rq_onResponse :: "int \<Rightarrow> (string, string) omap \<Rightarrow> bool option \<Rightarrow> ('t, 'e, unit) hext"

datatype ('s, 't, 'e) prompt_source =
    NoPrompt
  | StaticPrompt string
  | PromptCallback "'s \<Rightarrow> model \<Rightarrow> thinking_level \<Rightarrow> 't list \<Rightarrow> harness_resources \<Rightarrow> ('t, 'e, string) hext"

text \<open>
  What is fixed while the harness lives: the operations of the session, the meaning of tools, the
  models, the handlers in the order of their registration, the clock and the texts that are not ASCII.
  A handler of tool calls gets the arguments by reference and gives, beside its result, what it left.
\<close>

record ('s, 't, 'e) harness_options =
  ho_ops :: "'s storage_ops"
  ho_sessionOptions :: context_build_options
  ho_sessionId :: "'s \<Rightarrow> string"
  ho_toolName :: "'t \<Rightarrow> string"
  ho_tool :: "'t \<Rightarrow> ('t, 'e) harness_tool"
  ho_systemPrompt :: "('s, 't, 'e) prompt_source"
  ho_defaultPrompt :: string
  ho_stream :: "model \<Rightarrow> ('s, 't, 'e) harness_world llm_context \<Rightarrow> ('t, 'e) harness_request \<Rightarrow> ('t, 'e, response) hext"
  ho_complete :: "model \<Rightarrow> summary_request \<Rightarrow> ('t, 'e, assistant_message) hext"
  ho_prompts :: compaction_prompts
  ho_branchPrompt :: string
  ho_listeners :: "(harness_event \<Rightarrow> bool option \<Rightarrow> ('t, 'e, unit) hext) list"
  ho_beforeAgentStart :: "(before_agent_start \<Rightarrow> ('t, 'e, before_agent_start_result option) hext) list"
  ho_context :: "(agent_message list \<Rightarrow> ('t, 'e, agent_message list option) hext) list"
  ho_toolCall :: "(tool_call_event \<Rightarrow> json \<Rightarrow> ('t, 'e, harness_tool_call_result option \<times> json) hext) list"
  ho_toolResult :: "(harness_tool_result \<Rightarrow> ('t, 'e, after_tool_call_result option) hext) list"
  ho_beforeProviderRequest :: "(model \<Rightarrow> string \<Rightarrow> harness_stream_options \<Rightarrow> ('t, 'e, stream_options_patch option option) hext) list"
  ho_beforeProviderPayload :: "(model \<Rightarrow> json \<Rightarrow> ('t, 'e, json option) hext) list"
  ho_beforeCompact :: "(compaction_preparation \<Rightarrow> session_entry list \<Rightarrow> string option \<Rightarrow> ('t, 'e, before_compact_result option) hext) list"
  ho_beforeTree :: "(tree_preparation \<Rightarrow> ('t, 'e, before_tree_result option) hext) list"
  ho_now :: "'e \<Rightarrow> int"
  ho_date :: "'e \<Rightarrow> string"
  ho_validate :: "('s, 't, 'e) harness_world agent_tool \<Rightarrow> tool_call \<Rightarrow> string + json"
  ho_schedule :: "nat \<Rightarrow> 'e \<Rightarrow> nat \<times> 'e"

section \<open>Actions of the harness\<close>

text \<open>An action emits events of the loop and ends with an error or a result, or never settles.\<close>

type_synonym ('s, 't, 'e, 'a) hact = "(('s, 't, 'e) harness_world, agent_event, harness_error + 'a) act"

named_theorems hact_simps \<open>unfolding the actions of the harness\<close>

definition hret :: "'a \<Rightarrow> ('s, 't, 'e, 'a) hact" where
  "hret x = ret (Inr x)"

definition hfail :: "harness_error_code \<Rightarrow> string \<Rightarrow> ('s, 't, 'e, 'a) hact" where
  "hfail c m = ret (Inl (harness_error c m))"

definition hbind :: "('s, 't, 'e, 'a) hact \<Rightarrow> ('a \<Rightarrow> ('s, 't, 'e, 'b) hact) \<Rightarrow> ('s, 't, 'e, 'b) hact" where
  "hbind m f = seq m (\<lambda>r. case r of Inl e \<Rightarrow> ret (Inl e) | Inr x \<Rightarrow> f x)"

definition hmodify :: "(('s, 't) harness \<Rightarrow> ('s, 't) harness) \<Rightarrow> ('s, 't, 'e, unit) hact" where
  "hmodify f = (\<lambda>w. (Returned (Inr ()), w\<lparr>hw_harness := f (hw_harness w)\<rparr>, []))"

definition hgets :: "(('s, 't) harness \<Rightarrow> 'a) \<Rightarrow> ('s, 't, 'e, 'a) hact" where
  "hgets f = (\<lambda>w. (Returned (Inr (f (hw_harness w))), w, []))"

definition henv :: "('e \<Rightarrow> 'a) \<Rightarrow> ('s, 't, 'e, 'a) hact" where
  "henv f = (\<lambda>w. (Returned (Inr (f (hw_env w))), w, []))"

text \<open>Whatever the result of \<open>m\<close>, go on with it.\<close>

definition hcatch :: "('s, 't, 'e, 'a) hact \<Rightarrow> (harness_error + 'a \<Rightarrow> ('s, 't, 'e, 'b) hact) \<Rightarrow> ('s, 't, 'e, 'b) hact" where
  "hcatch m f = seq m f"

declare hret_def [hact_simps] hfail_def [hact_simps] hbind_def [hact_simps] hmodify_def [hact_simps]
  hgets_def [hact_simps] henv_def [hact_simps] hcatch_def [hact_simps]

text \<open>An operation of the session, and a read that may not end; their errors are session errors.\<close>

definition on_session :: "('s, 'a) sop \<Rightarrow> ('s, 't, 'e, 'a) hact" where
  "on_session f = (\<lambda>w. case f (hn_session (hw_harness w)) of
     (r, s) \<Rightarrow> (Returned (map_sum (\<lambda>e. harness_error SessionFault (se_message e)) id r),
                w\<lparr>hw_harness := (hw_harness w)\<lparr>hn_session := s\<rparr>\<rparr>, []))"

definition read_session :: "('s \<Rightarrow> (session_error + 'a) option) \<Rightarrow> ('s, 't, 'e, 'a) hact" where
  "read_session f = (\<lambda>w. case f (hn_session (hw_harness w)) of
     None \<Rightarrow> (Hung, w, [])
   | Some r \<Rightarrow> (Returned (map_sum (\<lambda>e. harness_error SessionFault (se_message e)) id r), w, []))"

text \<open>A session write: at once when the harness is idle, else a pending write.\<close>

definition store_or_queue :: "('s, 't, 'e) harness_options \<Rightarrow> entry_body \<Rightarrow> ('s, 't, 'e, unit) hact" where
  "store_or_queue opts body =
     hbind (hgets hn_phase) (\<lambda>phase.
       if phase = IdlePhase
       then hbind (henv (ho_date opts)) (\<lambda>now. hbind (on_session (append_body (ho_ops opts) now body)) (\<lambda>_. hret ()))
       else hmodify (\<lambda>h. h\<lparr>hn_pending := hn_pending h @ [body]\<rparr>))"

section \<open>What the public methods do to the state\<close>

definition steer_state :: "('s, 't, 'e) harness_options \<Rightarrow> string \<Rightarrow> media list option \<Rightarrow> ('s, 't, 'e, unit) hact" where
  "steer_state opts s images =
     hbind (hgets hn_phase) (\<lambda>phase.
       if phase = IdlePhase then hfail HarnessState ''Cannot steer while idle''
       else hbind (henv (ho_now opts)) (\<lambda>now.
         hmodify (\<lambda>h. h\<lparr>hn_steerQueue := hn_steerQueue h @ [hn_createUserMessage now s images]\<rparr>)))"

definition followUp_state :: "('s, 't, 'e) harness_options \<Rightarrow> string \<Rightarrow> media list option \<Rightarrow> ('s, 't, 'e, unit) hact" where
  "followUp_state opts s images =
     hbind (hgets hn_phase) (\<lambda>phase.
       if phase = IdlePhase then hfail HarnessState ''Cannot follow up while idle''
       else hbind (henv (ho_now opts)) (\<lambda>now.
         hmodify (\<lambda>h. h\<lparr>hn_followUpQueue := hn_followUpQueue h @ [hn_createUserMessage now s images]\<rparr>)))"

definition nextTurn_state :: "('s, 't, 'e) harness_options \<Rightarrow> string \<Rightarrow> media list option \<Rightarrow> ('s, 't, 'e, unit) hact" where
  "nextTurn_state opts s images =
     hbind (henv (ho_now opts)) (\<lambda>now.
       hmodify (\<lambda>h. h\<lparr>hn_nextTurnQueue := hn_nextTurnQueue h @ [hn_createUserMessage now s images]\<rparr>))"

definition validateUniqueNames :: "string list \<Rightarrow> string \<Rightarrow> harness_error + unit" where
  "validateUniqueNames names message =
     (let duplicates = findDuplicateNames names in
      if duplicates \<noteq> [] then Inl (harness_error InvalidArgument (message @ '': '' @ join_with '', '' duplicates)) else Inr ())"

definition validateToolNames :: "string list \<Rightarrow> (string, 't) omap \<Rightarrow> harness_error + unit" where
  "validateToolNames names tools =
     (case validateUniqueNames names ''Duplicate active tool name(s)'' of
        Inl e \<Rightarrow> Inl e
      | Inr _ \<Rightarrow>
          let missing = filter (\<lambda>n. \<not> om_has tools n) names in
          if missing \<noteq> [] then Inl (harness_error InvalidArgument (''Unknown tool(s): '' @ join_with '', '' missing)) else Inr ())"

definition setModel_state :: "('s, 't, 'e) harness_options \<Rightarrow> model \<Rightarrow> ('s, 't, 'e, unit) hact" where
  "setModel_state opts mdl =
     hbind (store_or_queue opts (ModelChange (mod_provider mdl) (mod_id mdl))) (\<lambda>_. hmodify (\<lambda>h. h\<lparr>hn_model := mdl\<rparr>))"

fun show_thinking_level :: "thinking_level \<Rightarrow> string" where
  "show_thinking_level ThinkOff = ''off''"
| "show_thinking_level Minimal = ''minimal''"
| "show_thinking_level Low = ''low''"
| "show_thinking_level Medium = ''medium''"
| "show_thinking_level High = ''high''"
| "show_thinking_level XHigh = ''xhigh''"
| "show_thinking_level Max = ''max''"

definition setThinkingLevel_state :: "('s, 't, 'e) harness_options \<Rightarrow> thinking_level \<Rightarrow> ('s, 't, 'e, unit) hact" where
  "setThinkingLevel_state opts level =
     hbind (store_or_queue opts (ThinkingLevelChange (show_thinking_level level)))
       (\<lambda>_. hmodify (\<lambda>h. h\<lparr>hn_thinkingLevel := level\<rparr>))"

definition tool_map :: "('t \<Rightarrow> string) \<Rightarrow> 't list \<Rightarrow> (string, 't) omap" where
  "tool_map name tools = fold (\<lambda>t m. om_set m (name t) t) tools []"

definition setTools_state ::
  "('s, 't, 'e) harness_options \<Rightarrow> 't list \<Rightarrow> string list option \<Rightarrow> ('s, 't, 'e, unit) hact" where
  "setTools_state opts tools activeToolNames =
     hbind (ret (validateUniqueNames (map (ho_toolName opts) tools) ''Duplicate tool name(s)'')) (\<lambda>_.
     hbind (hgets hn_activeToolNames) (\<lambda>current.
       let nextTools = tool_map (ho_toolName opts) tools; nextActive = nullish activeToolNames current in
       hbind (ret (validateToolNames nextActive nextTools)) (\<lambda>_.
       hbind (store_or_queue opts (ActiveToolsChange nextActive)) (\<lambda>_.
         hmodify (\<lambda>h. h\<lparr>hn_tools := nextTools, hn_activeToolNames := nextActive\<rparr>)))))"

definition setActiveTools_state :: "('s, 't, 'e) harness_options \<Rightarrow> string list \<Rightarrow> ('s, 't, 'e, unit) hact" where
  "setActiveTools_state opts names =
     hbind (hgets hn_tools) (\<lambda>tools. hbind (ret (validateToolNames names tools)) (\<lambda>_.
       hbind (store_or_queue opts (ActiveToolsChange names)) (\<lambda>_. hmodify (\<lambda>h. h\<lparr>hn_activeToolNames := names\<rparr>))))"

definition abort_state :: "('s, 't, 'e, agent_message list \<times> agent_message list) hact" where
  "abort_state =
     hbind (hgets (\<lambda>h. (hn_steerQueue h, hn_followUpQueue h))) (\<lambda>cleared.
     hbind (hmodify (\<lambda>h. h\<lparr>hn_steerQueue := [], hn_followUpQueue := [], hn_queueArrays := Suc (hn_queueArrays h),
             hn_run := map_option (\<lambda>_. True) (hn_run h)\<rparr>))
       (\<lambda>_. hret cleared))"

section \<open>External calls\<close>

text \<open>The effect of a call the external code made; when it fails, the external code sees the error.\<close>

definition exec_state :: "('s, 't, 'e, 'a) hact \<Rightarrow> ('s, 't, 'e) harness_world \<Rightarrow> ('s, 't, 'e) harness_world" where
  "exec_state m w = fst (snd (m w))"

fun apply_call :: "('s, 't, 'e) harness_options \<Rightarrow> 't harness_call \<Rightarrow> ('s, 't, 'e) harness_world \<Rightarrow> ('s, 't, 'e) harness_world" where
  "apply_call opts (CallSteer s images) = exec_state (steer_state opts s images)"
| "apply_call opts (CallFollowUp s images) = exec_state (followUp_state opts s images)"
| "apply_call opts (CallNextTurn s images) = exec_state (nextTurn_state opts s images)"
| "apply_call opts (CallAppendMessage m) = exec_state (store_or_queue opts (MessageEntry m))"
| "apply_call opts (CallSetModel mdl) = exec_state (setModel_state opts mdl)"
| "apply_call opts (CallSetThinkingLevel level) = exec_state (setThinkingLevel_state opts level)"
| "apply_call opts (CallSetTools tools names) = exec_state (setTools_state opts tools names)"
| "apply_call opts (CallSetActiveTools names) = exec_state (setActiveTools_state opts names)"
| "apply_call opts (CallSetSteeringMode md) = exec_state (hmodify (\<lambda>h. h\<lparr>hn_steeringMode := md\<rparr>))"
| "apply_call opts (CallSetFollowUpMode md) = exec_state (hmodify (\<lambda>h. h\<lparr>hn_followUpMode := md\<rparr>))"
| "apply_call opts (CallSetResources r) = exec_state (hmodify (\<lambda>h. h\<lparr>hn_resources := r\<rparr>))"
| "apply_call opts (CallSetStreamOptions so) = exec_state (hmodify (\<lambda>h. h\<lparr>hn_streamOptions := so\<rparr>))"
| "apply_call opts CallAbort = exec_state abort_state"

definition apply_calls ::
  "('s, 't, 'e) harness_options \<Rightarrow> 't harness_call list \<Rightarrow> ('s, 't, 'e) harness_world \<Rightarrow> ('s, 't, 'e) harness_world" where
  "apply_calls opts cs w = fold (apply_call opts) cs w"

text \<open>An external call; what it raises becomes an error of the given code.\<close>

definition external ::
  "('s, 't, 'e) harness_options \<Rightarrow> harness_error_code \<Rightarrow> ('t, 'e, 'a) hext \<Rightarrow> ('s, 't, 'e, 'a) hact" where
  "external opts code f = (\<lambda>w. case f (hw_env w) of
     (r, cs, e) \<Rightarrow> (case r of Returned x \<Rightarrow> Returned (Inr x) | Raised m \<Rightarrow> Returned (Inl (harness_error code m)) | Hung \<Rightarrow> Hung,
                   apply_calls opts cs (w\<lparr>hw_env := e\<rparr>), []))"

text \<open>An action as a call of the loop, which sees the message of an error.\<close>

definition as_call :: "('s, 't, 'e, 'a) hact \<Rightarrow> (('s, 't, 'e) harness_world, 'a) call" where
  "as_call m = (\<lambda>w. case m w of
     (Returned (Inr x), w', _) \<Rightarrow> (Returned x, w')
   | (Returned (Inl e), w', _) \<Rightarrow> (Raised (he_message e), w')
   | (Raised e, w', _) \<Rightarrow> (Raised e, w')
   | (Hung, w', _) \<Rightarrow> (Hung, w'))"

section \<open>Notifying and asking\<close>

fun is_abort :: "'t harness_call \<Rightarrow> bool" where
  "is_abort CallAbort = True"
| "is_abort _ = False"

text \<open>
  The listeners one after the other, with the state of the signal when there is one; the first that
  raises or hangs ends the delivery.
\<close>

fun notify_ext ::
  "(harness_event \<Rightarrow> bool option \<Rightarrow> ('t, 'e, unit) hext) list \<Rightarrow> harness_event \<Rightarrow> bool option \<Rightarrow> ('t, 'e, unit) hext" where
  "notify_ext [] ev sig = (\<lambda>e. (Returned (), [], e))"
| "notify_ext (l # ls) ev sig = (\<lambda>e. case l ev sig e of
     (Returned _, cs, e') \<Rightarrow>
       (case notify_ext ls ev (map_option (\<lambda>b. b \<or> list_ex is_abort cs) sig) e' of
          (r, cs', e'') \<Rightarrow> (r, cs @ cs', e''))
   | (Raised m, cs, e') \<Rightarrow> (Raised m, cs, e')
   | (Hung, cs, e') \<Rightarrow> (Hung, cs, e'))"

definition emitAny :: "('s, 't, 'e) harness_options \<Rightarrow> harness_event \<Rightarrow> bool option \<Rightarrow> ('s, 't, 'e, unit) hact" where
  "emitAny opts ev sig = external opts HookFault (notify_ext (ho_listeners opts) ev sig)"

definition emitOwn :: "('s, 't, 'e) harness_options \<Rightarrow> harness_event \<Rightarrow> bool option \<Rightarrow> ('s, 't, 'e, unit) hact" where
  "emitOwn opts ev sig = external opts HookFault (notify_ext (ho_listeners opts) ev sig)"

text \<open>The last result that is not \<open>undefined\<close> wins.\<close>

fun emitHook ::
  "('s, 't, 'e) harness_options \<Rightarrow> ('v \<Rightarrow> ('t, 'e, 'r option) hext) list \<Rightarrow> 'v \<Rightarrow> 'r option \<Rightarrow> ('s, 't, 'e, 'r option) hact" where
  "emitHook opts [] ev lastResult = hret lastResult"
| "emitHook opts (h # hs) ev lastResult =
     hbind (external opts HookFault (h ev)) (\<lambda>r. emitHook opts hs ev (nullish_opt r lastResult))"

fun emit_tool_call ::
  "('s, 't, 'e) harness_options \<Rightarrow> (tool_call_event \<Rightarrow> json \<Rightarrow> ('t, 'e, harness_tool_call_result option \<times> json) hext) list
     \<Rightarrow> tool_call_event \<Rightarrow> json \<Rightarrow> harness_tool_call_result option
     \<Rightarrow> ('s, 't, 'e, harness_tool_call_result option \<times> json) hact" where
  "emit_tool_call opts [] ev input lastResult = hret (lastResult, input)"
| "emit_tool_call opts (h # hs) ev input lastResult =
     hbind (external opts HookFault (h ev input))
       (\<lambda>(r, input'). emit_tool_call opts hs ev input' (nullish_opt r lastResult))"

fun emitBeforeProviderRequest ::
  "('s, 't, 'e) harness_options \<Rightarrow>
   (model \<Rightarrow> string \<Rightarrow> harness_stream_options \<Rightarrow> ('t, 'e, stream_options_patch option option) hext) list \<Rightarrow>
   model \<Rightarrow> string \<Rightarrow> harness_stream_options \<Rightarrow> ('s, 't, 'e, harness_stream_options) hact" where
  "emitBeforeProviderRequest opts [] mdl sessionId current = hret current"
| "emitBeforeProviderRequest opts (h # hs) mdl sessionId current =
     hbind (external opts HookFault (h mdl sessionId current)) (\<lambda>r.
       emitBeforeProviderRequest opts hs mdl sessionId
         (case r of Some (Some patch) \<Rightarrow> applyStreamOptionsPatch current (Some patch) | _ \<Rightarrow> current))"

text \<open>The callback for payloads, which the provider calls: each handler may replace the payload.\<close>

fun emitBeforeProviderPayload ::
  "(model \<Rightarrow> json \<Rightarrow> ('t, 'e, json option) hext) list \<Rightarrow> model \<Rightarrow> json \<Rightarrow> ('t, 'e, json) hext" where
  "emitBeforeProviderPayload [] mdl current = (\<lambda>e. (Returned current, [], e))"
| "emitBeforeProviderPayload (h # hs) mdl current = (\<lambda>e. case h mdl current e of
     (Returned r, cs, e') \<Rightarrow>
       (case emitBeforeProviderPayload hs mdl (nullish r current) e' of (x, cs', e'') \<Rightarrow> (x, cs @ cs', e''))
   | (Raised m, cs, e') \<Rightarrow> (Raised m, cs, e')
   | (Hung, cs, e') \<Rightarrow> (Hung, cs, e'))"

definition emitQueueUpdate :: "('s, 't, 'e) harness_options \<Rightarrow> ('s, 't, 'e, unit) hact" where
  "emitQueueUpdate opts =
     hbind (hgets (\<lambda>h. QueueUpdate (hn_steerQueue h) (hn_followUpQueue h) (hn_nextTurnQueue h)))
       (\<lambda>ev. emitOwn opts ev None)"

section \<open>The turn\<close>

text \<open>The tools and resources are read before the callback for the system prompt, the model after it.\<close>

definition system_prompt :: "('s, 't, 'e) harness_options \<Rightarrow> 't list \<Rightarrow> harness_resources \<Rightarrow> ('s, 't, 'e, string) hact" where
  "system_prompt opts activeTools resources =
     (case ho_systemPrompt opts of
        NoPrompt \<Rightarrow> hret (ho_defaultPrompt opts)
      | StaticPrompt s \<Rightarrow> hret s
      | PromptCallback f \<Rightarrow> hbind (hgets (\<lambda>h. f (hn_session h) (hn_model h) (hn_thinkingLevel h) activeTools resources))
          (external opts UnknownFault))"

definition createTurnState :: "('s, 't, 'e) harness_options \<Rightarrow> ('s, 't, 'e, 't turn_state) hact" where
  "createTurnState opts =
     hbind (read_session (session_buildContext (ho_ops opts) (ho_sessionOptions opts) no_options)) (\<lambda>context.
     hbind (hgets (\<lambda>h. (hn_resources h, ho_sessionId opts (hn_session h), om_values (hn_tools h),
                        List.map_filter (om_get (hn_tools h)) (hn_activeToolNames h))))
     (\<lambda>(resources, sessionId, tools, activeTools).
     hbind (system_prompt opts activeTools resources) (\<lambda>systemPrompt.
     hgets (\<lambda>h. \<lparr>ts_messages = sc_messages context, ts_resources = resources, ts_streamOptions = hn_streamOptions h,
        ts_sessionId = sessionId, ts_systemPrompt = systemPrompt, ts_model = hn_model h,
        ts_thinkingLevel = hn_thinkingLevel h, ts_tools = tools, ts_activeTools = activeTools\<rparr>))))"

definition lift_harness_tool :: "('s, 't, 'e) harness_options \<Rightarrow> 't \<Rightarrow> ('s, 't, 'e) harness_world agent_tool" where
  "lift_harness_tool opts t =
     (let d = ho_tool opts t in
      \<lparr>tl_name = ho_toolName opts t, tl_description = ht_description d, tl_parameters = ht_parameters d,
       tl_label = ht_label d, tl_policy = ht_policy d, tl_prepareArguments = ht_prepareArguments d,
       tl_execute = (\<lambda>i args w. case ht_execute d i args (hw_env w) of
          (script, cs, e) \<Rightarrow> (script, apply_calls opts cs (w\<lparr>hw_env := e\<rparr>))),
       tl_executionMode = ht_executionMode d\<rparr>)"

definition createContext ::
  "('s, 't, 'e) harness_options \<Rightarrow> 't turn_state \<Rightarrow> string option \<Rightarrow> ('s, 't, 'e) harness_world agent_context" where
  "createContext opts turnState systemPrompt =
     \<lparr>cx_systemPrompt = nullish systemPrompt (ts_systemPrompt turnState), cx_messages = ts_messages turnState,
      cx_tools = Some (map (lift_harness_tool opts) (ts_activeTools turnState))\<rparr>"

text \<open>The stream function reads the turn state of the moment.\<close>

definition createStreamFn ::
  "('s, 't, 'e) harness_options \<Rightarrow> model \<Rightarrow> ('s, 't, 'e) harness_world llm_context \<Rightarrow> stream_options
     \<Rightarrow> ('s, 't, 'e, response) hact" where
  "createStreamFn opts mdl context streamOptions =
     seq (gets hw_turn) (\<lambda>turnState.
     hbind (emitBeforeProviderRequest opts (ho_beforeProviderRequest opts) mdl (ts_sessionId turnState) (ts_streamOptions turnState))
     (\<lambda>requestOptions. external opts UnknownFault (ho_stream opts mdl context
        \<lparr>rq_options = requestOptions, rq_reasoning = so_reasoning streamOptions, rq_sessionId = ts_sessionId turnState,
         rq_onPayload = emitBeforeProviderPayload (ho_beforeProviderPayload opts) mdl,
         rq_onResponse = (\<lambda>status headers sig. notify_ext (ho_listeners opts) (AfterProviderResponse status headers) sig)\<rparr>)))"

text \<open>
  Draining a queue: the drained messages go back to the front of the same array when the notification
  fails; when an abort has replaced the array meanwhile, that array is nobody's queue any more.
\<close>

definition drain_by :: "queue_mode \<Rightarrow> agent_message list \<Rightarrow> agent_message list \<times> agent_message list" where
  "drain_by mode queue = (if mode = QueueAll then (queue, []) else (take 1 queue, drop 1 queue))"

definition drainQueuedMessages ::
  "('s, 't, 'e) harness_options \<Rightarrow> (('s, 't) harness \<Rightarrow> agent_message list) \<Rightarrow>
   ((agent_message list \<Rightarrow> agent_message list) \<Rightarrow> ('s, 't) harness \<Rightarrow> ('s, 't) harness) \<Rightarrow> (('s, 't) harness \<Rightarrow> queue_mode) \<Rightarrow>
   ('s, 't, 'e, agent_message list) hact" where
  "drainQueuedMessages opts queue update mode =
     hbind (hgets (\<lambda>h. (hn_queueArrays h, drain_by (mode h) (queue h)))) (\<lambda>(arrays, messages, rest).
     if messages = [] then hret []
     else hbind (hmodify (update (\<lambda>_. rest))) (\<lambda>_.
       hcatch (emitQueueUpdate opts) (\<lambda>r. case r of
           Inr _ \<Rightarrow> hret messages
         | Inl e \<Rightarrow> hbind (hmodify (\<lambda>h. if hn_queueArrays h = arrays then update (\<lambda>q. messages @ q) h else h))
               (\<lambda>_. ret (Inl e)))))"

section \<open>Pending writes and events of the loop\<close>

text \<open>Writes of a kind that has no branch in the loop are dropped.\<close>

definition flush_write :: "'s storage_ops \<Rightarrow> string \<Rightarrow> entry_body \<Rightarrow> ('s, unit) sop" where
  "flush_write ops now write =
     (case write of
        MessageEntry m \<Rightarrow> sbind (appendMessage ops now m) (\<lambda>_. sret ())
      | ModelChange p i \<Rightarrow> sbind (appendModelChange ops now p i) (\<lambda>_. sret ())
      | ThinkingLevelChange l \<Rightarrow> sbind (appendThinkingLevelChange ops now l) (\<lambda>_. sret ())
      | ActiveToolsChange names \<Rightarrow> sbind (appendActiveToolsChange ops now names) (\<lambda>_. sret ())
      | CustomEntry t d \<Rightarrow> sbind (appendCustomEntry ops now t d) (\<lambda>_. sret ())
      | CustomMessageEntry c \<Rightarrow>
          sbind (appendCustomMessageEntry ops now (cme_customType c) (cme_content c) (cme_display c) (cme_details c)) (\<lambda>_. sret ())
      | LabelEntry i l \<Rightarrow> sbind (appendLabel ops now i l) (\<lambda>_. sret ())
      | SessionInfo n \<Rightarrow> sbind (appendSessionName ops now (nullish n [])) (\<lambda>_. sret ())
      | LeafEntry t \<Rightarrow> op_setLeafId ops now t
      | _ \<Rightarrow> sret ())"

text \<open>The loop over the pending writes: each is removed once it is stored, so an error keeps it.\<close>

fun flush_writes :: "('s, 't, 'e) harness_options \<Rightarrow> entry_body list \<Rightarrow> ('s, 't, 'e, unit) hact" where
  "flush_writes opts [] = hret ()"
| "flush_writes opts (p # ps) =
     hbind (henv (ho_date opts)) (\<lambda>now. hbind (on_session (flush_write (ho_ops opts) now p)) (\<lambda>_.
     hbind (hmodify (\<lambda>h. h\<lparr>hn_pending := tl (hn_pending h)\<rparr>)) (\<lambda>_. flush_writes opts ps)))"

definition flushPendingSessionWrites :: "('s, 't, 'e) harness_options \<Rightarrow> ('s, 't, 'e, unit) hact" where
  "flushPendingSessionWrites opts = hbind (hgets hn_pending) (flush_writes opts)"

definition run_signal :: "('s, 't, 'e, bool option) hact" where
  "run_signal = hgets (\<lambda>h. Some (hn_run h = Some True))"

definition handleAgentEvent :: "('s, 't, 'e) harness_options \<Rightarrow> agent_event \<Rightarrow> ('s, 't, 'e, unit) hact" where
  "handleAgentEvent opts ev =
     (case ev of
        MessageEnd m \<Rightarrow>
          hbind (henv (ho_date opts)) (\<lambda>now. hbind (on_session (appendMessage (ho_ops opts) now m)) (\<lambda>_.
          hbind run_signal (emitAny opts (FromLoop ev))))
      | TurnEnd m results \<Rightarrow>
          hcatch (hbind run_signal (emitAny opts (FromLoop ev))) (\<lambda>r.
          hbind (hgets (\<lambda>h. hn_pending h \<noteq> [])) (\<lambda>hadPendingMutations.
          hbind (flushPendingSessionWrites opts) (\<lambda>_.
            case r of Inl e \<Rightarrow> ret (Inl e) | Inr _ \<Rightarrow> emitOwn opts (SavePoint hadPendingMutations) None)))
      | AgentEnd ms \<Rightarrow>
          hbind (flushPendingSessionWrites opts) (\<lambda>_.
          hbind (hmodify (\<lambda>h. h\<lparr>hn_phase := IdlePhase\<rparr>)) (\<lambda>_.
          hbind (hbind run_signal (emitAny opts (FromLoop ev))) (\<lambda>_.
          hbind (hgets (\<lambda>h. Settled (length (hn_nextTurnQueue h)))) (\<lambda>settled.
          hbind run_signal (emitOwn opts settled)))))
      | _ \<Rightarrow> hbind run_signal (emitAny opts (FromLoop ev)))"

definition createLoopConfig_of ::
  "('s, 't, 'e) harness_options \<Rightarrow> 't turn_state \<Rightarrow> ('s, 't, 'e) harness_world loop_config" where
  "createLoopConfig_of opts turnState =
     \<lparr>lc_model = ts_model turnState,
      lc_reasoning = (if ts_thinkingLevel turnState = ThinkOff then None else Some (ts_thinkingLevel turnState)),
      lc_apiKey = None, lc_toolExecution = None,
      lc_convertToLlm = (\<lambda>ms w. (Returned (convertToLlm ms), w)),
      lc_transformContext = Some (\<lambda>ms. as_call
         (hbind (emitHook opts (ho_context opts) ms None) (\<lambda>r. hret (nullish r ms)))),
      lc_getApiKey = None,
      lc_shouldStopAfterTurn = None,
      lc_prepareNextTurn = Some (\<lambda>_. as_call
         (hbind (flushPendingSessionWrites opts) (\<lambda>_. hbind (createTurnState opts) (\<lambda>next w.
            (Returned (Inr (Some \<lparr>tu_context = Some (createContext opts next None), tu_model = Some (ts_model next),
               tu_thinkingLevel = Some (ts_thinkingLevel next)\<rparr>)), w\<lparr>hw_turn := next\<rparr>, []))))),
      lc_getSteeringMessages = Some (as_call (drainQueuedMessages opts hn_steerQueue hn_steerQueue_update hn_steeringMode)),
      lc_getFollowUpMessages = Some (as_call (drainQueuedMessages opts hn_followUpQueue hn_followUpQueue_update hn_followUpMode)),
      lc_beforeToolCall = Some (\<lambda>c. as_call
         (hbind (emit_tool_call opts (ho_toolCall opts)
             \<lparr>tv_toolCallId = tc_id (bc_toolCall c), tv_toolName = tc_name (bc_toolCall c)\<rparr> (bc_args c) None)
          (\<lambda>(r, args). hret (map_option (\<lambda>x. \<lparr>bt_block = nullish (hcr_block x) False, bt_reason = hcr_reason x,
             bt_arguments = None\<rparr>) r, args)))),
      lc_afterToolCall = Some (\<lambda>c. as_call (emitHook opts (ho_toolResult opts)
         \<lparr>tv_toolCallId = tc_id (ac_toolCall c), tv_toolName = tc_name (ac_toolCall c), tv_input = ac_args c,
          tv_content = res_content (ac_result c), tv_details = res_details (ac_result c), tv_isError = ac_isError c\<rparr> None))\<rparr>"

definition harness_env :: "('s, 't, 'e) harness_options \<Rightarrow> ('s, 't, 'e) harness_world loop_env" where
  "harness_env opts =
     \<lparr>le_emit = (\<lambda>ev. as_call (handleAgentEvent opts ev)),
      le_streamFn = (\<lambda>mdl lx so. as_call (createStreamFn opts mdl lx so)),
      le_aborted = (\<lambda>w. hn_run (hw_harness w) = Some True),
      le_now = (\<lambda>w. ho_now opts (hw_env w)),
      le_validate = ho_validate opts,
      le_schedule = (\<lambda>n w. case ho_schedule opts n (hw_env w) of (k, e) \<Rightarrow> (k, w\<lparr>hw_env := e\<rparr>))\<rparr>"

section \<open>Running a turn\<close>

definition emitRunFailure :: "('s, 't, 'e) harness_options \<Rightarrow> string \<Rightarrow> (('s, 't, 'e) harness_world, agent_event, agent_message list) act" where
  "emitRunFailure opts err =
     seq (gets (\<lambda>w. hn_createFailureMessage (ts_model (hw_turn w)) err (hn_run (hw_harness w) = Some True) (ho_now opts (hw_env w))))
     (\<lambda>m. seq (emit (harness_env opts) (MessageStart (Assistant m)))
     (\<lambda>_. seq (emit (harness_env opts) (MessageEnd (Assistant m)))
     (\<lambda>_. seq (emit (harness_env opts) (TurnEnd (Assistant m) []))
     (\<lambda>_. seq (emit (harness_env opts) (AgentEnd [Assistant m]))
     (\<lambda>_. ret [Assistant m])))))"

text \<open>The loop with its failure path: an error of the report of a failure is the error of the run.\<close>

definition run_with_report ::
  "('s, 't, 'e) harness_options \<Rightarrow> (('s, 't, 'e) harness_world, agent_event, agent_message list) act
     \<Rightarrow> ('s, 't, 'e, agent_message list) hact" where
  "run_with_report opts loop =
     try_catch (seq (try_catch loop (emitRunFailure opts)) hret)
       (\<lambda>_. hfail UnknownFault ''Agent run failed and failure reporting failed'')"

definition take_next_turn :: "('s, 't, 'e) harness_options \<Rightarrow> ('s, 't, 'e, agent_message list) hact" where
  "take_next_turn opts =
     hbind (hgets hn_nextTurnQueue) (\<lambda>queued.
       if queued = [] then hret []
       else hbind (hmodify (\<lambda>h. h\<lparr>hn_nextTurnQueue := []\<rparr>)) (\<lambda>_.
         hcatch (emitQueueUpdate opts) (\<lambda>r. case r of
             Inr _ \<Rightarrow> hret queued
           | Inl e \<Rightarrow> hbind (hmodify (\<lambda>h. h\<lparr>hn_nextTurnQueue := queued @ hn_nextTurnQueue h\<rparr>)) (\<lambda>_. ret (Inl e)))))"

definition last_assistant :: "agent_message list \<Rightarrow> assistant_message option" where
  "last_assistant ms = (case find is_assistant (rev ms) of Some (Assistant m) \<Rightarrow> Some m | _ \<Rightarrow> None)"

text \<open>\<open>m\<close>, then \<open>f\<close> whatever comes of it; an error of \<open>f\<close> is the error of both.\<close>

definition hfinally :: "('s, 't, 'e, 'a) hact \<Rightarrow> ('s, 't, 'e, unit) hact \<Rightarrow> ('s, 't, 'e, 'a) hact" where
  "hfinally m f = hcatch m (\<lambda>r. hbind f (\<lambda>_. ret r))"

definition executeTurn ::
  "nat \<Rightarrow> ('s, 't, 'e) harness_options \<Rightarrow> 't turn_state \<Rightarrow> string \<Rightarrow> media list option \<Rightarrow> ('s, 't, 'e, assistant_message) hact" where
  "executeTurn fuel opts turnState s images =
     hbind (henv (ho_now opts)) (\<lambda>now.
     hbind (take_next_turn opts) (\<lambda>queued.
     hbind (emitHook opts (ho_beforeAgentStart opts)
        \<lparr>bs_prompt = s, bs_images = images, bs_systemPrompt = ts_systemPrompt turnState, bs_resources = ts_resources turnState\<rparr> None)
     (\<lambda>beforeResult.
       let messages = queued @ [hn_createUserMessage now s images] @ nullish (Option.bind beforeResult br_messages) []
       in hbind (\<lambda>w. (Returned (Inr ()), w\<lparr>hw_harness := (hw_harness w)\<lparr>hn_run := Some False\<rparr>, hw_turn := turnState\<rparr>, []))
     (\<lambda>_. hfinally
        (hbind (run_with_report opts (runAgentLoop fuel (harness_env opts) messages
             (createContext opts turnState (Option.bind beforeResult br_systemPrompt)) (createLoopConfig_of opts turnState)))
          (\<lambda>newMessages. case last_assistant newMessages of
              Some m \<Rightarrow> hret m
            | None \<Rightarrow> hfail HarnessState ''AgentHarness prompt completed without an assistant message''))
        (hfinally (flushPendingSessionWrites opts) (hmodify (\<lambda>h. h\<lparr>hn_run := None\<rparr>)))))))"

text \<open>
  The frame of \<open>prompt\<close>, \<open>skill\<close> and \<open>promptFromTemplate\<close>: refused unless idle; an error makes the
  harness idle again; the promise of the run is over at the end.
\<close>

definition start_run ::
  "('s, 't, 'e) harness_options \<Rightarrow> ('t turn_state \<Rightarrow> ('s, 't, 'e, 'a) hact) \<Rightarrow> ('s, 't, 'e, 'a) hact" where
  "start_run opts body =
     hbind (hgets hn_phase) (\<lambda>phase.
       if phase \<noteq> IdlePhase then hfail BusyHarness ''AgentHarness is busy''
       else hbind (hmodify (\<lambda>h. h\<lparr>hn_phase := TurnPhase, hn_runPromise := True\<rparr>)) (\<lambda>_.
         hfinally
           (hcatch (hbind (createTurnState opts) body) (\<lambda>r. case r of
               Inr x \<Rightarrow> hret x
             | Inl e \<Rightarrow> hbind (hmodify (\<lambda>h. h\<lparr>hn_phase := IdlePhase\<rparr>)) (\<lambda>_. ret (Inl e))))
           (hmodify (\<lambda>h. h\<lparr>hn_runPromise := False\<rparr>))))"

definition hn_prompt ::
  "nat \<Rightarrow> ('s, 't, 'e) harness_options \<Rightarrow> string \<Rightarrow> media list option \<Rightarrow> ('s, 't, 'e, assistant_message) hact" where
  "hn_prompt fuel opts s images = start_run opts (\<lambda>turnState. executeTurn fuel opts turnState s images)"

definition hn_skill ::
  "nat \<Rightarrow> ('s, 't, 'e) harness_options \<Rightarrow> string \<Rightarrow> string option \<Rightarrow> ('s, 't, 'e, assistant_message) hact" where
  "hn_skill fuel opts name additionalInstructions = start_run opts (\<lambda>turnState.
     case find (\<lambda>k. sk_name k = name) (nullish (hr_skills (ts_resources turnState)) []) of
       None \<Rightarrow> hfail InvalidArgument (''Unknown skill: '' @ name)
     | Some k \<Rightarrow> executeTurn fuel opts turnState (formatSkillInvocation k additionalInstructions) None)"

definition hn_promptFromTemplate ::
  "nat \<Rightarrow> ('s, 't, 'e) harness_options \<Rightarrow> string \<Rightarrow> string list \<Rightarrow> ('s, 't, 'e, assistant_message) hact" where
  "hn_promptFromTemplate fuel opts name args = start_run opts (\<lambda>turnState.
     case find (\<lambda>t. pt_name t = name) (nullish (hr_promptTemplates (ts_resources turnState)) []) of
       None \<Rightarrow> hfail InvalidArgument (''Unknown prompt template: '' @ name)
     | Some t \<Rightarrow> executeTurn fuel opts turnState (formatPromptTemplateInvocation t args) None)"

section \<open>Compaction and navigation\<close>

text \<open>The frame of both: refused unless idle, idle again at the end whatever happened.\<close>

definition structural_operation ::
  "harness_phase \<Rightarrow> string \<Rightarrow> ('s, 't, 'e, 'a) hact \<Rightarrow> ('s, 't, 'e, 'a) hact" where
  "structural_operation phase busy body =
     hbind (hgets hn_phase) (\<lambda>current.
       if current \<noteq> IdlePhase then hfail BusyHarness busy
       else hbind (hmodify (\<lambda>h. h\<lparr>hn_phase := phase\<rparr>)) (\<lambda>_. hfinally body (hmodify (\<lambda>h. h\<lparr>hn_phase := IdlePhase\<rparr>))))"

definition completer_of :: "('s, 't, 'e) harness_options \<Rightarrow> ('s, 't, 'e) harness_world completer" where
  "completer_of opts mdl request = as_call (external opts UnknownFault (ho_complete opts mdl request))"

text \<open>A summary as an action: both an error result and a raised error have the given code.\<close>

definition summary_action ::
  "harness_error_code \<Rightarrow> (('s, 't, 'e) harness_world, compaction_error + 'a) call \<Rightarrow> ('s, 't, 'e, compaction_error + 'a) hact" where
  "summary_action code c = (\<lambda>w. case c w of
     (Returned r, w') \<Rightarrow> (Returned (Inr r), w', [])
   | (Raised m, w') \<Rightarrow> (Returned (Inl (harness_error code m)), w', [])
   | (Hung, w') \<Rightarrow> (Hung, w', []))"

definition file_details :: "string list \<Rightarrow> string list \<Rightarrow> json" where
  "file_details readFiles modifiedFiles =
     JObj [(''readFiles'', JArr (map JStr readFiles)), (''modifiedFiles'', JArr (map JStr modifiedFiles))]"

definition compacted :: "compaction_result \<Rightarrow> compact_result" where
  "compacted r = \<lparr>cr_summary = crs_summary r, cr_firstKeptEntryId = crs_firstKeptEntryId r,
     cr_tokensBefore = crs_tokensBefore r, cr_details = Some (file_details (crs_readFiles r) (crs_modifiedFiles r))\<rparr>"

definition compact_result_of ::
  "('s, 't, 'e) harness_options \<Rightarrow> compaction_preparation \<Rightarrow> model \<Rightarrow> string option \<Rightarrow> before_compact_result option
     \<Rightarrow> ('s, 't, 'e, compact_result) hact" where
  "compact_result_of opts preparation mdl customInstructions hookResult =
     (case Option.bind hookResult bcr_compaction of
        Some provided \<Rightarrow> hret provided
      | None \<Rightarrow>
          hbind (hgets hn_thinkingLevel) (\<lambda>level.
          hbind (summary_action CompactionFault (compact (ho_prompts opts) (completer_of opts) preparation mdl customInstructions (Some level)))
          (\<lambda>r. case r of Inl (_, message) \<Rightarrow> hfail CompactionFault message | Inr x \<Rightarrow> hret (compacted x))))"

definition compact_body ::
  "('s, 't, 'e) harness_options \<Rightarrow> string option \<Rightarrow> ('s, 't, 'e, compact_result) hact" where
  "compact_body opts customInstructions =
     hbind (hgets hn_model) (\<lambda>mdl.
     hbind (read_session (getBranch (ho_ops opts) None)) (\<lambda>branchEntries.
     case prepareCompaction branchEntries DEFAULT_COMPACTION_SETTINGS of
       Inl (_, message) \<Rightarrow> hfail CompactionFault message
     | Inr None \<Rightarrow> hfail CompactionFault ''Nothing to compact''
     | Inr (Some preparation) \<Rightarrow>
         hbind (emitHook opts (map (\<lambda>f (p, es, c). f p es c) (ho_beforeCompact opts))
             (preparation, branchEntries, customInstructions) None) (\<lambda>hookResult.
         if map_option bcr_cancel hookResult = Some True then hfail CompactionFault ''Compaction cancelled''
         else hbind (compact_result_of opts preparation mdl customInstructions hookResult) (\<lambda>result.
           let fromHook = Option.bind hookResult bcr_compaction \<noteq> None in
           hbind (henv (ho_date opts)) (\<lambda>now.
           hbind (on_session (appendCompaction (ho_ops opts) now (cr_summary result) (cr_firstKeptEntryId result)
               (cr_tokensBefore result) (cr_details result) (Some fromHook))) (\<lambda>entryId.
           hbind (hgets (\<lambda>h. op_getEntry (ho_ops opts) entryId (hn_session h))) (\<lambda>entry.
           hbind (case entry of
               Some e \<Rightarrow> if is_compaction e then emitOwn opts (SessionCompacted e fromHook) None else hret ()
             | None \<Rightarrow> hret ()) (\<lambda>_. hret result))))))))"

definition hn_compact ::
  "('s, 't, 'e) harness_options \<Rightarrow> string option \<Rightarrow> ('s, 't, 'e, compact_result) hact" where
  "hn_compact opts customInstructions =
     structural_operation CompactionPhase ''compact() requires idle harness'' (compact_body opts customInstructions)"

record navigate_options =
  no_summarize :: "bool option"
  no_customInstructions :: "string option"
  no_replaceInstructions :: "bool option"
  no_label :: "string option"

record navigate_result =
  nr_cancelled :: bool
  nr_editorText :: "string option"
  nr_summaryEntry :: "session_entry option"

definition cancelled_result :: "bool \<Rightarrow> navigate_result" where
  "cancelled_result b = \<lparr>nr_cancelled = b, nr_editorText = None, nr_summaryEntry = None\<rparr>"

text \<open>Where to move: in front of a user message or a custom message, whose text goes to the editor.\<close>

definition navigation_target :: "string \<Rightarrow> session_entry \<Rightarrow> string option \<times> string option" where
  "navigation_target targetId target =
     (case en_body target of
        MessageEntry (User u) \<Rightarrow> (en_parentId target, Some (user_text (um_content u)))
      | CustomMessageEntry c \<Rightarrow> (en_parentId target, Some (user_text (cme_content c)))
      | _ \<Rightarrow> (Some targetId, None))"

text \<open>
  The summary of the abandoned branch, from a handler or from the model; \<open>None\<close> when the request was
  aborted, which cancels the navigation.
\<close>

definition navigation_summary ::
  "('s, 't, 'e) harness_options \<Rightarrow> session_entry list \<Rightarrow> navigate_options option \<Rightarrow> before_tree_result option
     \<Rightarrow> ('s, 't, 'e, (string option \<times> json option) option) hact" where
  "navigation_summary opts entries options hookResult =
     (let provided = Option.bind hookResult btr_summary in
      if \<not> truthy_str (map_option fst provided) \<and> Option.bind options no_summarize = Some True \<and> entries \<noteq> [] then
        hbind (hgets hn_model) (\<lambda>mdl.
        hbind (summary_action BranchSummaryFault (generateBranchSummary (ho_prompts opts) (ho_branchPrompt opts) (completer_of opts)
            entries mdl
            (nullish_opt (Option.bind hookResult btr_customInstructions) (Option.bind options no_customInstructions))
            (nullish (nullish_opt (Option.bind hookResult btr_replaceInstructions) (Option.bind options no_replaceInstructions)) False)
            16384))
        (\<lambda>r. case r of
            Inl (CompactionAborted, _) \<Rightarrow> hret None
          | Inl (_, message) \<Rightarrow> hfail BranchSummaryFault message
          | Inr x \<Rightarrow> hret (Some (Some (bsr_summary x), Some (file_details (bsr_readFiles x) (bsr_modifiedFiles x))))))
      else hret (Some (map_option fst provided, Option.bind provided snd)))"

definition navigate_body ::
  "('s, 't, 'e) harness_options \<Rightarrow> string \<Rightarrow> navigate_options option \<Rightarrow> ('s, 't, 'e, navigate_result) hact" where
  "navigate_body opts targetId options =
     hbind (on_session (op_getLeafId (ho_ops opts))) (\<lambda>oldLeafId.
     if oldLeafId = Some targetId then hret (cancelled_result False)
     else hbind (hgets (\<lambda>h. op_getEntry (ho_ops opts) targetId (hn_session h))) (\<lambda>found.
     case found of
       None \<Rightarrow> hfail InvalidArgument (''Entry '' @ targetId @ '' not found'')
     | Some targetEntry \<Rightarrow>
         hbind (read_session (collectEntriesForBranchSummary (ho_ops opts) oldLeafId targetId)) (\<lambda>collected.
         hbind (emitHook opts (ho_beforeTree opts)
           \<lparr>tp_targetId = targetId, tp_oldLeafId = oldLeafId, tp_commonAncestorId = cer_commonAncestorId collected,
            tp_entriesToSummarize = cer_entries collected,
            tp_userWantsSummary = nullish (Option.bind options no_summarize) False,
            tp_customInstructions = Option.bind options no_customInstructions,
            tp_replaceInstructions = Option.bind options no_replaceInstructions,
            tp_label = Option.bind options no_label\<rparr> None) (\<lambda>hookResult.
         if map_option btr_cancel hookResult = Some True then hret (cancelled_result True)
         else hbind (navigation_summary opts (cer_entries collected) options hookResult) (\<lambda>summary.
           case summary of
             None \<Rightarrow> hret (cancelled_result True)
           | Some (summaryText, summaryDetails) \<Rightarrow>
               let (newLeafId, editorText) = navigation_target targetId targetEntry;
                 fromHook = Option.bind hookResult btr_summary \<noteq> None in
               hbind (henv (ho_date opts)) (\<lambda>now.
               hbind (on_session (moveTo (ho_ops opts) now newLeafId
                  (if truthy_str summaryText
                   then Some \<lparr>mv_summary = nullish summaryText [], mv_details = summaryDetails, mv_fromHook = Some fromHook\<rparr>
                   else None))) (\<lambda>summaryId.
               hbind (hgets (\<lambda>h. case Option.bind summaryId (\<lambda>i. op_getEntry (ho_ops opts) i (hn_session h)) of
                    Some e \<Rightarrow> (case en_body e of BranchSummaryEntry _ \<Rightarrow> Some e | _ \<Rightarrow> None)
                  | None \<Rightarrow> None)) (\<lambda>summaryEntry.
               hbind (on_session (op_getLeafId (ho_ops opts))) (\<lambda>leaf.
               hbind (emitOwn opts (SessionMoved leaf oldLeafId summaryEntry fromHook) None) (\<lambda>_.
                 hret \<lparr>nr_cancelled = False, nr_editorText = editorText, nr_summaryEntry = summaryEntry\<rparr>))))))))))"

definition hn_navigateTree ::
  "('s, 't, 'e) harness_options \<Rightarrow> string \<Rightarrow> navigate_options option \<Rightarrow> ('s, 't, 'e, navigate_result) hact" where
  "hn_navigateTree opts targetId options =
     structural_operation BranchSummaryPhase ''navigateTree() requires idle harness'' (navigate_body opts targetId options)"

section \<open>The other public methods\<close>

definition hn_steer :: "('s, 't, 'e) harness_options \<Rightarrow> string \<Rightarrow> media list option \<Rightarrow> ('s, 't, 'e, unit) hact" where
  "hn_steer opts s images = hbind (steer_state opts s images) (\<lambda>_. emitQueueUpdate opts)"

definition hn_followUp :: "('s, 't, 'e) harness_options \<Rightarrow> string \<Rightarrow> media list option \<Rightarrow> ('s, 't, 'e, unit) hact" where
  "hn_followUp opts s images = hbind (followUp_state opts s images) (\<lambda>_. emitQueueUpdate opts)"

definition hn_nextTurn :: "('s, 't, 'e) harness_options \<Rightarrow> string \<Rightarrow> media list option \<Rightarrow> ('s, 't, 'e, unit) hact" where
  "hn_nextTurn opts s images = hbind (nextTurn_state opts s images) (\<lambda>_. emitQueueUpdate opts)"

definition hn_appendMessage :: "('s, 't, 'e) harness_options \<Rightarrow> agent_message \<Rightarrow> ('s, 't, 'e, unit) hact" where
  "hn_appendMessage opts m = store_or_queue opts (MessageEntry m)"

definition hn_setModel :: "('s, 't, 'e) harness_options \<Rightarrow> model \<Rightarrow> ('s, 't, 'e, unit) hact" where
  "hn_setModel opts mdl = hbind (hgets hn_model) (\<lambda>previous.
     hbind (setModel_state opts mdl) (\<lambda>_. emitOwn opts (ModelUpdate mdl previous) None))"

definition hn_setThinkingLevel :: "('s, 't, 'e) harness_options \<Rightarrow> thinking_level \<Rightarrow> ('s, 't, 'e, unit) hact" where
  "hn_setThinkingLevel opts level = hbind (hgets hn_thinkingLevel) (\<lambda>previous.
     hbind (setThinkingLevel_state opts level) (\<lambda>_. emitOwn opts (ThinkingLevelUpdate level previous) None))"

definition announce_tools :: "('s, 't, 'e) harness_options \<Rightarrow> ('s, 't, 'e, unit) hact \<Rightarrow> ('s, 't, 'e, unit) hact" where
  "announce_tools opts change =
     hbind (hgets (\<lambda>h. (om_keys (hn_tools h), hn_activeToolNames h))) (\<lambda>(previousTools, previousActive).
     hbind change (\<lambda>_. hbind (hgets (\<lambda>h. ToolsUpdate (om_keys (hn_tools h)) previousTools (hn_activeToolNames h) previousActive))
       (\<lambda>ev. emitOwn opts ev None)))"

definition hn_setTools :: "('s, 't, 'e) harness_options \<Rightarrow> 't list \<Rightarrow> string list option \<Rightarrow> ('s, 't, 'e, unit) hact" where
  "hn_setTools opts tools names = announce_tools opts (setTools_state opts tools names)"

definition hn_setActiveTools :: "('s, 't, 'e) harness_options \<Rightarrow> string list \<Rightarrow> ('s, 't, 'e, unit) hact" where
  "hn_setActiveTools opts names = announce_tools opts (setActiveTools_state opts names)"

definition hn_getActiveTools :: "('s, 't) harness \<Rightarrow> 't option list" where
  "hn_getActiveTools h = map (om_get (hn_tools h)) (hn_activeToolNames h)"

definition hn_setResources :: "('s, 't, 'e) harness_options \<Rightarrow> harness_resources \<Rightarrow> ('s, 't, 'e, unit) hact" where
  "hn_setResources opts r = hbind (hgets hn_resources) (\<lambda>previous.
     hbind (hmodify (\<lambda>h. h\<lparr>hn_resources := r\<rparr>)) (\<lambda>_. emitOwn opts (ResourcesUpdate r previous) None))"

text \<open>Waiting for the end of a run from inside of it never settles.\<close>

definition waitForIdle :: "('s, 't, 'e, unit) hact" where
  "waitForIdle = hbind (hgets hn_runPromise) (\<lambda>running. if running then hang else hret ())"

text \<open>The three steps after the state has changed; the errors are collected.\<close>

definition collect_error :: "('s, 't, 'e, unit) hact \<Rightarrow> harness_error list \<Rightarrow> ('s, 't, 'e, harness_error list) hact" where
  "collect_error m errors = hcatch m (\<lambda>r. hret (case r of Inl e \<Rightarrow> errors @ [e] | Inr _ \<Rightarrow> errors))"

definition hn_abort :: "('s, 't, 'e) harness_options \<Rightarrow> ('s, 't, 'e, agent_message list \<times> agent_message list) hact" where
  "hn_abort opts =
     hbind abort_state (\<lambda>(clearedSteer, clearedFollowUp).
     hbind (collect_error (emitQueueUpdate opts) []) (\<lambda>errors.
     hbind (collect_error waitForIdle errors) (\<lambda>errors.
     hbind (collect_error (emitOwn opts (AbortDone clearedSteer clearedFollowUp) None) errors) (\<lambda>errors.
       case errors of
         [] \<Rightarrow> hret (clearedSteer, clearedFollowUp)
       | [e] \<Rightarrow> ret (Inl e)
       | _ \<Rightarrow> hfail HookFault ''Abort completed with errors''))))"

text \<open>The constructor.\<close>

record ('s, 't) harness_config =
  hc_session :: 's
  hc_tools :: "'t list option"
  hc_resources :: "harness_resources option"
  hc_streamOptions :: harness_stream_options
  hc_model :: model
  hc_thinkingLevel :: "thinking_level option"
  hc_activeToolNames :: "string list option"
  hc_steeringMode :: "queue_mode option"
  hc_followUpMode :: "queue_mode option"

definition new_harness :: "('t \<Rightarrow> string) \<Rightarrow> ('s, 't) harness_config \<Rightarrow> harness_error + ('s, 't) harness" where
  "new_harness name c =
     (let tools = nullish (hc_tools c) []; active = nullish (hc_activeToolNames c) (map name tools) in
      case validateUniqueNames (map name tools) ''Duplicate tool name(s)'' of
        Inl e \<Rightarrow> Inl e
      | Inr _ \<Rightarrow>
          (case validateUniqueNames active ''Duplicate active tool name(s)'' of
             Inl e \<Rightarrow> Inl e
           | Inr _ \<Rightarrow>
               (case validateToolNames active (tool_map name tools) of
                  Inl e \<Rightarrow> Inl e
                | Inr _ \<Rightarrow> Inr \<lparr>hn_session = hc_session c, hn_phase = IdlePhase, hn_run = None, hn_runPromise = False,
                    hn_pending = [], hn_model = hc_model c, hn_thinkingLevel = nullish (hc_thinkingLevel c) ThinkOff,
                    hn_streamOptions = hc_streamOptions c,
                    hn_resources = nullish (hc_resources c) \<lparr>hr_skills = None, hr_promptTemplates = None\<rparr>,
                    hn_tools = tool_map name tools, hn_activeToolNames = active,
                    hn_steerQueue = [], hn_steeringMode = nullish (hc_steeringMode c) OneAtATime,
                    hn_followUpQueue = [], hn_followUpMode = nullish (hc_followUpMode c) OneAtATime,
                    hn_nextTurnQueue = [], hn_queueArrays = 0\<rparr>)))"

end
