(* ===== verification/Spec2Isabelle.thy ===== *)
theory Spec2Isabelle
  imports Scenarios Event_Stream Session_Scenarios Task_Guarantees Truncation Compaction_Scenarios Session_Manager_Scenarios
    Session_Listing Supervisor_Scenarios Ipc_Server Edit_Scenarios File_Queue
    Branch_Facts Template_Facts Agent_Harness
begin

text \<open>
  A verification library for the agent framework of this repository (TypeScript, \<open>src/packages\<close>): the
  agent loop and its runtime (\<open>agent\<close>), its sessions (\<open>agent/src/harness\<close>), the policy, sessions,
  compaction and editing of the coding agent (\<open>coding-agent\<close>), and the scheduler of delegated tasks and
  the supervisor of instances (\<open>orchestrator\<close>).

  \<^bold>\<open>Foundations.\<close>
  \<^item> \<open>Prelude\<close>: JSON values, insertion-ordered maps (\<open>Map\<close>), actions with events and outcomes
    (returned, raised, never settled), automata over events.
  \<^item> \<open>Messages\<close> (\<open>ai/src/types.ts\<close>, \<open>agent/src/types.ts\<close>, \<open>harness/messages.ts\<close>): data types and the
    conversion of messages for the model.
  \<^item> \<open>Json\<close>, \<open>Lines\<close>: the text of JSON values and its parser; text in lines, with the locale
    \<open>line_reader\<close> for readers that are fed chunks, interpreted on the reader of session files, the
    output of processes and the streams of the orchestrator.
  \<^item> \<open>Utf16\<close>: strings as code units and their UTF-8 encoding.

  \<^bold>\<open>The agent.\<close>
  \<^item> \<open>Tool_Policy\<close> (\<open>agent/src/policy.ts\<close>): the policy engine and the redaction of credentials.
  \<^item> \<open>Event_Stream\<close> (\<open>ai/src/utils/event-stream.ts\<close>): the queue between producer and iterators.
  \<^item> \<open>Agent_Loop\<close> (\<open>agent/src/agent-loop.ts\<close>): the loop over an environment of tools, hooks, model and
    event sink; every function of the file is a definition of the same name.
    \<open>Agent_Protocol\<close> states the grammar of its events as an automaton and proves that the loop follows
    it; \<open>Agent_Safety\<close> has validation, blocking, completeness of batches and the bounds on steps;
    \<open>Agent_Observer\<close> is the locale of consumers that see the events of the loop.
  \<^item> \<open>Agent_Runtime\<close>, \<open>Agent_Lifecycle\<close> (\<open>agent/src/agent.ts\<close>): the stateful agent, an instance of the
    observer; its queues are an instance of the locale \<open>message_queue\<close>. The lemmas show that the
    transcript is what the events report.
  \<^item> \<open>Agent_Hooks\<close> (\<open>coding-agent/src/core/agent-session.ts\<close>, \<open>tools/index.ts\<close>, \<open>extensions/runner.ts\<close>):
    the tool hooks of the session.

  \<^bold>\<open>Sessions.\<close>
  \<^item> \<open>Uuid\<close>, \<open>Session_Tree\<close>, \<open>Session_Storage\<close>, \<open>Session\<close>, \<open>Session_Codec\<close>, \<open>Session_Jsonl\<close>,
    \<open>Session_Repo\<close> (\<open>agent/src/harness/session\<close>): identifiers, the tree of entries and the context it
    gives, the storage interface (locale \<open>session_storage\<close>) with its two implementations, the text of
    session files, repositories and forks.
  \<^item> \<open>Session_Manager\<close> (\<open>coding-agent/src/core/session-manager.ts\<close>): the class with its entries, index,
    file and branches over a disk that may fail. \<open>Session_Manager_Facts\<close> has its invariant, what its
    file holds after any sequence of operations and what a failed write does; \<open>Session_Branching\<close> has
    branched and forked sessions; \<open>Session_Migration\<close> reads and upgrades files, \<open>Session_Listing\<close> lists
    them with at most ten loads at a time.
  \<^item> \<open>Manager_Context\<close>, \<open>Compaction_Cut\<close>, \<open>Compaction\<close>, \<open>Compaction_Facts\<close>
    (\<open>session-manager.ts\<close>, \<open>compaction/compaction.ts\<close> of both packages, \<open>compaction/utils.ts\<close>): the context
    of a branch, token estimates, the cut points as instances of the locale \<open>cut_rules\<close>, the
    preparation and the requests for summaries.
  \<^item> \<open>Branch_Summary\<close>, \<open>Branch_Facts\<close> (\<open>compaction/branch-summarization.ts\<close> of both packages): the entries
    of a branch that is left, the messages that fit the budget of tokens and the request for a summary.
    The lemmas show that on a well-formed session the entries are the old path without the part it
    shares with the target, and which messages are selected.

  \<^bold>\<open>The harness.\<close>
  \<^item> \<open>Agent_Harness\<close> (\<open>harness/agent-harness.ts\<close>): the agent that owns a session. Prompts run the agent
    loop on the context of the session, handlers see its events, writes that arrive during an operation
    wait for the next save point; compaction and navigation. Every method is a definition with the
    prefix \<open>hn_\<close> or of the same name.
  \<^item> \<open>Prompt_Templates\<close>, \<open>Template_Facts\<close> (\<open>prompt-templates.ts\<close> of both packages, \<open>skills.ts\<close>,
    \<open>system-prompt.ts\<close>): arguments and placeholders of templates, the text of skills. The lemmas show that
    arguments that are quoted are parsed back, that substitution fills the placeholders of a template,
    and when the two versions agree.

  \<^bold>\<open>Tools.\<close>
  \<^item> \<open>Truncation\<close> (\<open>harness/utils/truncate.ts\<close>, \<open>core/tools/truncate.ts\<close>): both versions of the limits on
    output, instances of the locale \<open>byte_count\<close>.
  \<^item> \<open>Edit_Diff\<close>, \<open>Edit_Facts\<close>, \<open>Edit_Tool\<close> (\<open>core/tools/edit-diff.ts\<close>, \<open>edit.ts\<close>): matching, replacing and
    the diff. The lemmas show that replacements from the last to the first are one simultaneous
    replacement and that the version which copies untouched lines agrees with it.
  \<^item> \<open>File_Queue\<close> (\<open>core/tools/file-mutation-queue.ts\<close>): the promise chains per file as steps.

  \<^bold>\<open>The orchestrator.\<close>
  \<^item> \<open>Task_Supervisor\<close>, \<open>Task_Invariants\<close>, \<open>Task_Guarantees\<close> (\<open>orchestrator/src/task-supervisor.ts\<close>):
    the scheduler as atomic steps, its invariant, its progress and the life of one task.
  \<^item> \<open>Rpc_Process\<close>, \<open>Instance_Supervisor\<close> (\<open>rpc-process.ts\<close>, \<open>storage.ts\<close>, \<open>supervisor.ts\<close>): the processes of
    instances, the file of instances (locale \<open>keyed_store\<close>) and the supervisor as atomic steps, each of
    which keeps the file in step with the live instances.
  \<^item> \<open>Ipc_Server\<close> (\<open>handler.ts\<close>, \<open>ipc/protocol.ts\<close>, \<open>ipc/server.ts\<close>): requests and connections.

  The theories named \<open>Scenarios\<close> hold the concrete inputs of the witnesses and runs that go wrong.

  \<^bold>\<open>How code becomes definitions.\<close> An asynchronous function is a function from the world to an outcome, the
  next world and the events it emits; a promise that never settles is the outcome \<open>Hung\<close>. Calls of code
  that is not in the repository or that the embedder supplies (the model, tools, listeners, hooks, the
  argument validator, the disk, the clock, random bytes, the executor of tasks, the comparison of lines)
  are parameters or inputs. The concurrent phase of a batch of tool calls is an interleaving chosen by a
  scheduler parameter; the schedulers of tasks, instances and file changes are step functions over the
  atomic callbacks of the event loop.

  \<^bold>\<open>Bounds.\<close> \<open>run_loop\<close> takes a bound on the number of turns and polls, since a run may last for ever;
  \<open>run_independent_of_fuel\<close> shows that it does not influence what a run returns and \<open>answer_ends_run\<close>
  that runs return. \<open>run_entries\<close> is bounded by the measure of the batch, which is always enough
  (\<open>run_entries_enough\<close>). The walk to the root of a session is a partial function, so that a cycle is the
  value \<open>None\<close>. The parser of JSON is bounded by the length of the text, which is enough for every text
  the writer produces. The manager of sessions draws at most a hundred short identifiers for an entry, as
  the source does; \<open>uuid_supply\<close> says how many draws have different beginnings.

  \<^bold>\<open>Simplifications.\<close> Except in \<open>Utf16\<close>, \<open>Truncation\<close> and the theories of edits, strings are lists of one-byte
  characters, so scanning by character classes is that of the source on such text only. Numbers in JSON
  are integers; the encoding of messages inside session entries, which have fractional costs, is a
  parameter. Abort signals and timers appear as events or as queries of the world. The calls of the
  harness that an external call makes take effect when that call settles, and the handlers of the
  harness do not change during an operation. A live instance is
  named by its identifier. The normal form NFKC is a parameter.

  \<^bold>\<open>Not modelled.\<close> Terminal and web interfaces, the providers of the model API, process and file system
  access, the package manager, settings, resource loading, export, the directories of sessions and the
  interactive, print and RPC modes of the coding agent: mostly input and output around the parts above.
  The manifest lists them component by component.
\<close>

section \<open>The agent loop\<close>

text \<open>
  C1. Whatever the tools, hooks, sink and schedule do, the events of a run of the agent loop follow the
  protocol of \<open>Agent_Protocol\<close>, and when the run returns, the protocol is over, its transcript is the
  list of new messages that the loop returns, and that list starts with the prompts.
\<close>

theorem runAgentLoop_follows_protocol:
  assumes "stream_contract env" "runAgentLoop fuel env prompts cx config w = (r, w', es)"
  shows "\<exists>q. run_events protocol_step protocol_start es = Some q \<and>
    (\<forall>msgs. r = Returned msgs \<longrightarrow> q = all_over msgs \<and> prefix prompts msgs)"
  using followsD [OF follows_runAgentLoop_prompts [OF assms(1)] assms(2)] .

lemma demo_env_contract: "stream_contract demo_env"
  by (auto simp: stream_contract_def demo_env_def plain_env_def)

lemma demo_run: "\<exists>w' es. runAgentLoop 2 demo_env [demo_user] (demo_context LowRisk) (plain_config demo_model) () =
    (Returned [demo_user, Assistant demo_answer], w', es)"
  using plain_run [of demo_answer "[demo_user]" "demo_context LowRisk" demo_model "()"]
  by (simp add: demo_env_def demo_answer_def demo_assistant_def tool_calls_of_def List.map_filter_def)

theorem runAgentLoop_follows_protocol_witness:
  "\<exists>w' es. runAgentLoop 2 demo_env [demo_user] (demo_context LowRisk) (plain_config demo_model) () =
      (Returned [demo_user, Assistant demo_answer], w', es) \<and>
    run_events protocol_step protocol_start es = Some (all_over [demo_user, Assistant demo_answer])"
proof -
  from demo_run obtain w' es where run: "runAgentLoop 2 demo_env [demo_user] (demo_context LowRisk) (plain_config demo_model) () =
      (Returned [demo_user, Assistant demo_answer], w', es)" by blast
  with runAgentLoop_follows_protocol [OF demo_env_contract run] show ?thesis by blast
qed

text \<open>
  A continuation, which starts from the messages already there, follows the same protocol.
\<close>

theorem runAgentLoopContinue_follows_protocol:
  assumes "stream_contract env" "runAgentLoopContinue fuel env cx config w = (r, w', es)"
  shows "\<exists>q. run_events protocol_step protocol_start es = Some q \<and> (\<forall>msgs. r = Returned msgs \<longrightarrow> q = all_over msgs)"
  using followsD [OF follows_runAgentLoopContinue [OF assms(1)] assms(2)] .

theorem runAgentLoopContinue_follows_protocol_witness:
  "\<exists>w' es. runAgentLoopContinue 2 demo_env (demo_context LowRisk) (plain_config demo_model) () =
      (Returned [Assistant demo_answer], w', es) \<and>
    run_events protocol_step protocol_start es = Some (all_over [Assistant demo_answer])"
proof -
  have "\<exists>w' es. runAgentLoopContinue 2 demo_env (demo_context LowRisk) (plain_config demo_model) () =
      (Returned [Assistant demo_answer], w', es)"
    by (simp add: numeral_2_eq_2 loop_eval runAgentLoopContinue_def demo_context_def demo_env_def plain_env_def plain_config_def
        demo_answer_def demo_assistant_def tool_calls_of_def List.map_filter_def demo_user_def last_opt_def)
  then obtain w' es where run: "runAgentLoopContinue 2 demo_env (demo_context LowRisk) (plain_config demo_model) () =
      (Returned [Assistant demo_answer], w', es)" by blast
  with runAgentLoopContinue_follows_protocol [OF demo_env_contract run] show ?thesis by blast
qed

text \<open>
  C2. A prompt to an agent at rest appends to its transcript exactly the messages that the events of the
  run report, also when the run fails: then the last one is a message with the reason of the failure.
\<close>

theorem prompt_appends_reported_messages:
  assumes "stream_contract (agent_env opts)" "idle (aw_agent w)" "prompt fuel opts input w = (Returned (), w', es)"
  shows "\<exists>ts. reports es ts \<and> st_messages (aw_agent w') = st_messages (aw_agent w) @ ts"
  using assms by (rule prompt_reports)

theorem prompt_appends_reported_messages_witness:
  "\<exists>w' es ts. prompt 2 demo_options (PromptMessage demo_user) demo_world = (Returned (), w', es) \<and>
     reports es ts \<and> ts = [demo_user, Assistant demo_answer]"
proof -
  from demo_prompt obtain w' es where run: "prompt 2 demo_options (PromptMessage demo_user) demo_world = (Returned (), w', es)"
    and msgs: "st_messages (aw_agent w') = [demo_user, Assistant demo_answer]" by blast
  have "st_messages (aw_agent demo_world) = []" by (simp add: demo_world_def demo_agent_def)
  with prompt_appends_reported_messages [OF demo_contract demo_idle run] run msgs show ?thesis by auto
qed

text \<open>
  C3. A prompt or continuation that settles leaves the agent at rest: no active run, not streaming, no
  partial message, no pending tool call.
\<close>

theorem prompt_settles_idle:
  assumes "prompt fuel opts input w = (r, w', es)" "idle (aw_agent w)" "r \<noteq> Hung"
  shows "idle (aw_agent w')"
  using assms by (rule prompt_idle)

theorem prompt_settles_idle_witness:
  "\<exists>w' es. prompt 2 demo_options (PromptMessage demo_user) demo_world = (Returned (), w', es) \<and> idle (aw_agent w')"
proof -
  from demo_prompt obtain w' es where run: "prompt 2 demo_options (PromptMessage demo_user) demo_world = (Returned (), w', es)"
    by blast
  from prompt_settles_idle [OF run demo_idle] run show ?thesis by blast
qed



text \<open>
  C5. With the session's hook and the default policy, a tool call that the policy classifies as critical
  is never prepared for execution, whatever the arguments, the extensions and the user do.
\<close>

theorem critical_tool_never_prepared:
  assumes "default_engine view" "lc_beforeToolCall config = Some (beforeToolCall view)"
    "pd_risk (tool_descriptor view w (tc_name tc)) = CriticalRisk"
  shows "prepareToolCall env config cx am tc w \<noteq> (Returned (Prepared p), w', es)"
  using assms by (rule critical_not_prepared)

theorem critical_tool_never_prepared_witness:
  "\<nexists>p w' es. prepareToolCall demo_env (guarded_config CriticalRisk ''Allow once'') (demo_context CriticalRisk) demo_calling demo_call ()
     = (Returned (Prepared p), w', es)"
  using critical_tool_never_prepared [of "demo_view CriticalRisk ''Allow once''" "guarded_config CriticalRisk ''Allow once''" "()" demo_call]
  by (simp add: default_engine_def demo_view_def guarded_config_def tool_descriptor_def demo_tool_def demo_call_def)

text \<open>
  C6. A high-risk call is prepared only in an interactive session whose user answered the dialog for
  this tool with \<open>Allow once\<close>.
\<close>

theorem high_risk_needs_approval:
  assumes "default_engine view" "lc_beforeToolCall config = Some (beforeToolCall view)"
    "pd_risk (tool_descriptor view w (tc_name tc)) = HighRisk"
    "prepareToolCall env config cx am tc w = (Returned (Prepared p), w', es)"
  shows "sv_extensionMode view w \<noteq> PrintMode \<and>
    (\<exists>select w1. sv_ui view w = Some select \<and>
       select (''Approve '' @ tc_name tc @ ''?'') [''Allow once'', ''Block''] w = (Returned (Some ''Allow once''), w1))"
  using high_needs_approval [OF assms] unfolding user_allows_def .

theorem high_risk_needs_approval_witness:
  "\<exists>select w1. sv_ui (demo_view HighRisk ''Allow once'') () = Some select \<and>
     select (''Approve tool?'') [''Allow once'', ''Block''] () = (Returned (Some ''Allow once''), w1)"
  using high_risk_needs_approval [OF _ _ _ demo_high_prepared, of "demo_view HighRisk ''Allow once''"]
  by (simp add: default_engine_def demo_view_def guarded_config_def tool_descriptor_def demo_tool_def demo_call_def)

text \<open>
  C7. The gap of the policy: a tool that the context of the run still has but the session's table of
  tools has not is prepared without review, whatever risk it declares. Here for an identified call with
  valid arguments in a session without extension handlers.
\<close>

theorem removed_tool_bypasses_policy:
  assumes "default_engine view" "lc_beforeToolCall config = Some (beforeToolCall view)"
    "find (\<lambda>t. tl_name t = tc_name tc) (sv_tools view w) = None"
    "\<And>w. \<not> hasHandlers_tool_call (sv_runner view w)" "never_aborts env"
    "find_tool cx (tc_name tc) = Some tool" "prepareToolCallArguments tool tc = Inr tc'" "le_validate env tool tc' = Inr args"
  shows "\<exists>w'. prepareToolCall env config cx am tc w =
    (Returned (Prepared \<lparr>pp_toolCall = tc', pp_tool = tool, pp_args = args\<rparr>), w', [])"
proof -
  obtain reason where d: "decide (sv_policyEngine view) (policy_request view w tc args) (Some (reviewPolicy view)) w =
      (Returned (Allow reason), w)"
    using decide_undeclared [OF assms(1,3), of args "Some (reviewPolicy view)"] by blast
  let ?w = "sv_recordPolicyDecision view (decision_span (policy_request view w tc args) (Allow reason)) w"
  have "beforeToolCall view \<lparr>bc_assistantMessage = am, bc_toolCall = tc, bc_args = args, bc_context = cx\<rparr> w =
      (Returned (None, args), ?w)"
    using d extension_check_none [OF assms(4)] by (simp add: beforeToolCall_def Let_def)
  from prepareToolCall_hook [OF assms(6-8,2) this] assms(5) show ?thesis by (auto simp: never_aborts_def)
qed

definition stale_view :: "unit session_view" where
  "stale_view = (demo_view CriticalRisk ''Block'')\<lparr>sv_tools := \<lambda>w. []\<rparr>"

theorem removed_tool_bypasses_policy_witness:
  "\<exists>w'. prepareToolCall demo_env ((plain_config demo_model)\<lparr>lc_beforeToolCall := Some (beforeToolCall stale_view)\<rparr>)
      (demo_context CriticalRisk) demo_calling demo_call () =
    (Returned (Prepared \<lparr>pp_toolCall = demo_call, pp_tool = demo_tool CriticalRisk, pp_args = JObj []\<rparr>), w', [])"
  by (rule removed_tool_bypasses_policy [of stale_view])
     (simp_all add: default_engine_def stale_view_def demo_view_def hasHandlers_tool_call_def never_aborts_def demo_env_def
        plain_env_def find_tool_def demo_context_def demo_tool_def demo_call_def prepareToolCallArguments_def)







section \<open>Queues and streams\<close>

text \<open>
  The steering and follow-up queues are first in, first out in both modes: over any sequence of
  enqueues (\<open>Some\<close>) and drains (\<open>None\<close>), what was drained followed by what is left is what was there
  followed by what was enqueued.
\<close>

theorem pending_messages_fifo:
  assumes "pmq.queue_run ops q = (out, q')"
  shows "out @ pq_messages q' = pq_messages q @ map the (filter (\<lambda>x. x \<noteq> None) ops)"
  using assms by (rule pmq.queue_run_fifo)

theorem pending_messages_fifo_witness:
  "\<exists>out q'. pmq.queue_run [Some demo_user, Some (Assistant demo_answer), None] (new_queue OneAtATime) = (out, q') \<and>
     out = [demo_user] \<and> pq_messages q' = [Assistant demo_answer]"
proof -
  have run: "pmq.queue_run [Some demo_user, Some (Assistant demo_answer), None] (new_queue OneAtATime) =
      ([demo_user], \<lparr>pq_messages = [Assistant demo_answer], pq_mode = OneAtATime\<rparr>)"
    by (simp add: pmq.queue_run.simps enqueue_def drain_def new_queue_def)
  from pending_messages_fifo [OF run] run show ?thesis by simp
qed

text \<open>
  C11. An event stream loses nothing and reorders nothing: over any sequence of pushes, ends and reads
  from its start, the items handed to the consumers followed by those still queued are exactly the items
  pushed before the stream was done, in that order; and items never wait while a consumer is parked.
\<close>

theorem event_stream_delivers_in_order:
  assumes "es_run ops (new_event_stream isComplete extractResult) = (out, s')"
  shows "items_of out @ es_queue s' = accepted ops (new_event_stream isComplete extractResult)"
  using es_run_delivers [OF es_inv_new assms] by (simp add: new_event_stream_def)

theorem event_stream_delivers_in_order_witness:
  "\<exists>out s'. es_run [Next 0, Push 1, Push 2, Next 1, End None, Push 3] (new_event_stream (\<lambda>x :: nat. False) id) = (out, s') \<and>
     items_of out @ es_queue s' = [1, 2]"
  using event_stream_delivers_in_order [of "[Next 0, Push 1, Push 2, Next 1, End None, Push 3]" "\<lambda>x :: nat. False" id]
  by (simp add: es_push_def es_next_def es_end_def new_event_stream_def Let_def)

section \<open>Sessions\<close>

text \<open>
  C12. Appending a message to a session in memory keeps the tree well-formed and extends the active
  branch by exactly that message, and the context for the model grows by it at the end.
\<close>

theorem memory_append_extends_branch:
  assumes "appendMessage memory_ops now m s = (Inr i, s')" "session_inv (mem_state s)" "short_ids (mem_state s)"
  shows "session_inv (mem_state s') \<and>
    getBranch memory_ops None s' = Some (Inr (branch (mem_state s) @
      [\<lparr>en_id = i, en_parentId = ss_leafId (mem_state s), en_timestamp = now, en_body = MessageEntry m\<rparr>])) \<and>
    (\<exists>c. session_buildContext memory_ops no_options no_options s' = Some (Inr c) \<and>
      sc_messages c = sc_messages (buildSessionContext (branch (mem_state s)) no_options) @ [m])"
proof -
  note a = memory.append_body_inv [OF assms(1) [unfolded appendMessage_def] assms(2,3)]
  from a memory.getBranch_inv [of s'] memory.buildContext_inv [of s'] show ?thesis
    by (simp add: buildSessionContext_snoc is_compaction_def entry_messages_def sessionEntryToContextMessages_def)
qed

theorem memory_append_extends_branch_witness:
  "\<exists>i s'. appendMessage memory_ops ''now'' (said ''three'') demo_memory = (Inr i, s') \<and> session_inv (mem_state s') \<and>
     (\<exists>c. session_buildContext memory_ops no_options no_options s' = Some (Inr c) \<and> last (sc_messages c) = said ''three'')"
proof -
  have d: "mem_state demo_memory = state_of_entries demo_entries" by (simp add: demo_memory_def)
  obtain i s' where run: "appendMessage memory_ops ''now'' (said ''three'') demo_memory = (Inr i, s')"
    using memory_append_succeeds [of demo_memory] demo_inv d unfolding appendMessage_def by metis
  from memory_append_extends_branch [OF run] demo_inv demo_short d run show ?thesis by fastforce
qed

text \<open>
  C13. An append to a session file is durable: when it succeeds, and the entries are writable, opening the
  file again gives the same session, with the new message last in the active branch.
\<close>

theorem jsonl_append_durable:
  assumes "appendMessage (jsonl_ops mc) now m s = (Inr i, s')" "synced mc s" "session_inv (jl_state s)" "short_ids (jl_state s)"
    "header_writable (jl_header s)" "entries_writable mc (ss_entries (jl_state s'))" "\<not> dk_fails (jl_disk s') (dk_ops (jl_disk s'))"
  shows "\<exists>s2 d. jsonl_open mc (jl_filePath s) ids (jl_disk s') = (Inr s2, d) \<and> jl_state s2 = jl_state s' \<and>
    getBranch (jsonl_ops mc) None s2 = Some (Inr (branch (jl_state s) @
      [\<lparr>en_id = i, en_parentId = ss_leafId (jl_state s), en_timestamp = now, en_body = MessageEntry m\<rparr>]))"
proof -
  note a = jsonl.append_body_inv [OF assms(1) [unfolded appendMessage_def] assms(3,4)]
  from jsonl_append_body_synced [OF assms(1) [unfolded appendMessage_def] assms(2)] assms(5-7) a(1)
    jsonl_reopen_inv [of mc s' ids]
  obtain s2 d where r: "jsonl_open mc (jl_filePath s) ids (jl_disk s') = (Inr s2, d)" "jl_state s2 = jl_state s'" by auto
  with jsonl.getBranch_inv [of s2 mc] a show ?thesis by auto
qed

theorem jsonl_append_durable_witness:
  "\<exists>i s' s2 d. appendMessage (jsonl_ops demo_codec) ''now'' (said ''three'') demo_file = (Inr i, s') \<and>
     jsonl_open demo_codec ''f'' demo_ids (jl_disk s') = (Inr s2, d) \<and> jl_state s2 = jl_state s'"
proof -
  have d: "jl_filePath demo_file = ''f''" "\<And>n. \<not> dk_fails (jl_disk demo_file) n" by (simp_all add: demo_file_def)
  obtain i s' where run: "appendMessage (jsonl_ops demo_codec) ''now'' (said ''three'') demo_file = (Inr i, s')"
    and disk: "\<forall>n. \<not> dk_fails (jl_disk s') n"
    using jsonl_append_succeeds [of demo_file] demo_inv demo_file_ok(4) d(2) unfolding appendMessage_def by metis
  have "i \<noteq> []"
    using jsonl.append_body_view [OF run [unfolded appendMessage_def]] demo_short by (simp add: demo_file_ok(4) fresh_id_def)
  then have "entries_writable demo_codec (ss_entries (jl_state s'))"
    using demo_file_ok(3) jsonl.append_body_view [OF run [unfolded appendMessage_def]]
    by (simp add: demo_file_ok(4) entries_writable_def codec_ok_def demo_codec_def said_def)
  with jsonl_append_durable [OF run, of demo_ids] disk d(1) demo_inv demo_short demo_file_ok run show ?thesis by fastforce
qed

text \<open>
  C14. Moving to another entry with a summary of the abandoned branch: the active branch is then the path
  to that entry followed by the summary entry, the new leaf.
\<close>

theorem moveTo_with_summary_branch:
  assumes "moveTo memory_ops now entryId (Some m) s = (Inr r, s')" "session_inv (mem_state s)" "short_ids (mem_state s)"
    "short_ids (mem_state (snd (op_setLeafId memory_ops now entryId s)))"
  shows "session_inv (mem_state s') \<and> (\<exists>j. r = Some j \<and> ss_leafId (mem_state s') = Some j \<and>
    branch (mem_state s') = path_of (mem_state s) entryId @ [\<lparr>en_id = j, en_parentId = entryId, en_timestamp = now,
      en_body = BranchSummaryEntry \<lparr>bse_fromId = nullish entryId ''root'', bse_summary = mv_summary m,
        bse_details = mv_details m, bse_fromHook = mv_fromHook m\<rparr>\<rparr>])"
  using assms by (rule memory.moveTo_summary_branch)

theorem moveTo_with_summary_branch_witness:
  "\<exists>r s'. moveTo memory_ops ''now'' (Some ''bbbbbbbb'') (Some demo_move) demo_memory = (Inr r, s') \<and>
     map en_id (butlast (branch (mem_state s'))) = [''aaaaaaaa'', ''bbbbbbbb'']"
proof -
  have d: "mem_state demo_memory = state_of_entries demo_entries" by (simp add: demo_memory_def)
  from demo_move_runs obtain r s' where run: "moveTo memory_ops ''now'' (Some ''bbbbbbbb'') (Some demo_move) demo_memory = (Inr r, s')"
    by blast
  have "\<exists>e. branch (mem_state s') = take 2 demo_entries @ [e]"
    using moveTo_with_summary_branch [OF run] demo_move_short demo_inv demo_short unfolding d demo_path by blast
  then have "map en_id (butlast (branch (mem_state s'))) = [''aaaaaaaa'', ''bbbbbbbb'']"
    by (auto simp: demo_entries_def demo_entry_def numeral_2_eq_2)
  show ?thesis by (intro exI conjI) fact+
qed

text \<open>
  C15. After a compaction the model sees the summary followed by the messages from the first kept entry
  on, and nothing before it.
\<close>

theorem compaction_replaces_prefix:
  assumes "appendCompaction memory_ops now summary firstKept tokens details hook s = (Inr i, s')"
    "session_inv (mem_state s)" "short_ids (mem_state s)"
  shows "\<exists>c. session_buildContext memory_ops no_options no_options s' = Some (Inr c) \<and>
    sc_messages c = createCompactionSummaryMessage summary tokens now #
      concat (map entry_messages (dropWhile (\<lambda>e. en_id e \<noteq> firstKept) (branch (mem_state s))))"
proof -
  note run = assms(1) [unfolded appendCompaction_def]
  note a = memory.append_body_inv [OF run assms(2,3)]
  let ?b = "\<lparr>ce_summary = summary, ce_firstKeptEntryId = firstKept, ce_tokensBefore = tokens, ce_details = details, ce_fromHook = hook\<rparr>"
  let ?e = "\<lparr>en_id = i, en_parentId = ss_leafId (mem_state s), en_timestamp = now, en_body = CompactionEntry ?b\<rparr>"
  have fresh: "i \<notin> ids_of (ss_entries (mem_state s))"
    using memory.append_body_view [OF run] assms(2,3) by (simp add: fresh_id_def session_inv_has)
  have "set (branch (mem_state s)) \<subseteq> set (ss_entries (mem_state s))"
  proof (cases "ss_leafId (mem_state s)")
    case (Some l)
    with assms(2) have "l \<in> ids_of (ss_entries (mem_state s))" by (simp add: session_inv_def)
    from getPathToRoot_inv(4) [OF assms(2) this] Some show ?thesis by (simp add: branch_def)
  qed (simp add: branch_def)
  with fresh have "\<forall>e \<in> set (branch (mem_state s)). en_id e \<noteq> en_id ?e" by auto
  from buildSessionContext_compacted [of ?e ?b, OF _ this] memory.buildContext_inv [of s'] a show ?thesis by simp
qed

theorem compaction_replaces_prefix_witness:
  "\<exists>i s' c. appendCompaction memory_ops ''now'' ''sum'' ''cccccccc'' 7 None None demo_memory = (Inr i, s') \<and>
     session_buildContext memory_ops no_options no_options s' = Some (Inr c) \<and>
     sc_messages c = [createCompactionSummaryMessage ''sum'' 7 ''now'', said ''two'']"
proof -
  have d: "mem_state demo_memory = state_of_entries demo_entries" by (simp add: demo_memory_def)
  obtain i s' where run: "appendCompaction memory_ops ''now'' ''sum'' ''cccccccc'' 7 None None demo_memory = (Inr i, s')"
    using memory_append_succeeds [of demo_memory] demo_inv d unfolding appendCompaction_def by metis
  have "concat (map entry_messages (dropWhile (\<lambda>e. en_id e \<noteq> ''cccccccc'') demo_entries)) = [said ''two'']"
    by (simp add: demo_entries_def demo_entry_def entry_messages_def sessionEntryToContextMessages_def)
  with compaction_replaces_prefix [OF run] demo_inv demo_short d run show ?thesis by (auto simp: demo_branch)
qed



text \<open>
  Forking a session before a user message gives a new well-formed session whose branch is the path to
  the parent of that message, and leaves it in the repository.
\<close>

theorem fork_before_user_message:
  assumes "om_get (mr_sessions repo) (sm_id source) = Some s" "session_inv (mem_state s)"
    "om_get (ss_byId (mem_state s)) i = Some e" "en_body e = MessageEntry (User u)" "i \<noteq> []"
    "en_parentId e = Some p" "p \<in> ids_of (ss_entries (mem_state s))"
    "\<forall>x \<in> set (path_of (mem_state s) (Some p)). \<forall>t. en_body x \<noteq> LeafEntry t"
  shows "\<exists>s' repo'. mr_fork source (Some i) None (Some new) now repo = Some (Inr s', repo') \<and>
    om_get (mr_sessions repo') new = Some s' \<and> session_inv (mem_state s') \<and> branch (mem_state s') = path_of (mem_state s) (Some p)"
  using assms by (rule mr_fork_before)

theorem fork_before_user_message_witness:
  "\<exists>s' repo'. mr_fork \<lparr>sm_id = ''s'', sm_createdAt = ''t''\<rparr> (Some ''cccccccc'') None (Some ''n'') ''now''
       \<lparr>mr_sessions = [(''s'', demo_memory)], mr_ids = demo_ids\<rparr> = Some (Inr s', repo') \<and>
     branch (mem_state s') = take 2 demo_entries"
proof -
  let ?repo = "\<lparr>mr_sessions = [(''s'', demo_memory)], mr_ids = demo_ids\<rparr>"
  let ?source = "\<lparr>sm_id = ''s'', sm_createdAt = ''t''\<rparr>"
  let ?e = "demo_entry ''cccccccc'' (Some ''bbbbbbbb'') (MessageEntry (said ''two''))"
  have d: "mem_state demo_memory = state_of_entries demo_entries" by (simp add: demo_memory_def)
  have "om_get (mr_sessions ?repo) (sm_id ?source) = Some demo_memory" by (simp add: om_get_def)
  moreover have "om_get (ss_byId (mem_state demo_memory)) ''cccccccc'' = Some ?e"
    unfolding d by (simp add: demo_eval)
  moreover have "''bbbbbbbb'' \<in> ids_of (ss_entries (mem_state demo_memory))"
    unfolding d by (simp add: demo_eval)
  moreover have "\<forall>x \<in> set (path_of (mem_state demo_memory) (Some ''bbbbbbbb'')). \<forall>t. en_body x \<noteq> LeafEntry t"
    unfolding d demo_path by (simp add: demo_entries_def demo_entry_def numeral_2_eq_2)
  moreover have "en_body ?e = MessageEntry (User \<lparr>um_content = PlainText ''two'', um_timestamp = None\<rparr>)"
    "en_parentId ?e = Some ''bbbbbbbb''"
    by (simp_all add: demo_entry_def said_def)
  moreover have "session_inv (mem_state demo_memory)" unfolding d by (rule demo_inv)
  ultimately obtain s' repo' where
    "mr_fork ?source (Some ''cccccccc'') None (Some ''n'') ''now'' ?repo = Some (Inr s', repo')"
    "branch (mem_state s') = path_of (mem_state demo_memory) (Some ''bbbbbbbb'')"
    using fork_before_user_message [of ?repo ?source demo_memory "''cccccccc''" ?e _ "''bbbbbbbb''" "''n''" "''now''"] by blast
  then show ?thesis unfolding d demo_path by blast
qed

text \<open>
  C17. The lines of a session file read back: the header and every entry that the storage writes are one
  line of text each, and the validating readers give the header and the entry back.
\<close>

theorem session_lines_roundtrip:
  assumes "header_writable h" "codec_ok mc (en_body e)" "en_id e \<noteq> []" "en_timestamp e \<noteq> []"
  shows "parseHeaderLine (stringify (header_json h)) filePath = Inr h \<and>
    parseEntryLine mc (stringify (entry_json mc e)) filePath n = Inr e \<and>
    \<not> list_ex is_newline (stringify (header_json h)) \<and> \<not> list_ex is_newline (stringify (entry_json mc e))"
  using assms parseHeaderLine_roundtrip parseEntryLine_roundtrip stringify_one_line unfolding header_writable_def by blast

theorem session_lines_roundtrip_witness:
  "parseHeaderLine (stringify (header_json demo_header)) ''f'' = Inr demo_header \<and>
   parseEntryLine demo_codec (stringify (entry_json demo_codec (hd demo_entries))) ''f'' 2 = Inr (hd demo_entries)"
proof -
  have "codec_ok demo_codec (en_body (hd demo_entries))" "en_id (hd demo_entries) \<noteq> []" "en_timestamp (hd demo_entries) \<noteq> []"
    using demo_file_ok(3) by (auto simp: entries_writable_def demo_entries_def)
  from session_lines_roundtrip [OF demo_file_ok(2) this] show ?thesis by blast
qed

text \<open>
  C18. The identifiers of a run of the generator are pairwise different, whatever the random bytes and
  also when the clock stands still or goes back, as long as the time stamps stay below \<open>2^48\<close>.
\<close>

theorem uuids_distinct:
  assumes "uuid_run calls uuid_start = (us, st)" "ts_in_range st" "\<forall>(r, t) \<in> set calls. 0 \<le> t"
  shows "distinct us \<and> (\<forall>u \<in> set us. length u = 36)"
proof -
  have "length u = 36" if "u \<in> set vs" "uuid_run cs s = (vs, s')" for u vs cs s s'
    using that
  proof (induction cs s arbitrary: vs s' rule: uuid_run.induct)
    case (2 r t cs s)
    then show ?case using length_uuidv7 [of r t s] by (auto split: prod.splits)
  qed simp
  with uuid_run_distinct [OF assms(1,2) _ assms(3)] assms(1) show ?thesis
    by (auto simp: nonnegative_def uuid_start_def)
qed

theorem uuids_distinct_witness:
  "\<exists>us st. uuid_run [([], 5), ([], 5), ([], 4)] uuid_start = (us, st) \<and> distinct us"
proof -
  obtain us st where run: "uuid_run [([], 5), ([], 5), ([], 4)] uuid_start = (us, st)"
    by (cases "uuid_run [([], 5), ([], 5), ([], 4)] uuid_start")
  have "ts_in_range st"
    using run by (auto simp: ts_in_range_def uuidv7_def Let_def uuid_tick_def uuid_start_def seed_sequence_def byte_def)
  with uuids_distinct [OF run] run show ?thesis by fastforce
qed

text \<open>
  The 48-bit time and the 32-bit sequence of an identifier can be read back from its sixteen bytes.
\<close>

theorem uuid_bytes_roundtrip:
  "uuid_timestamp_of (uuid_bytes random ts sq) = ts mod 2 ^ 48 \<and> uuid_sequence_of (uuid_bytes random ts sq) = sq"
  by (simp add: uuid_timestamp_roundtrip uuid_sequence_roundtrip)

section \<open>The scheduler of delegated tasks\<close>



text \<open>
  C20. A task runs only when all its dependencies are completed, and a completed task keeps its status,
  result and attempt count for ever.
\<close>

theorem running_after_dependencies:
  assumes "ops_ok (ops1 @ ops2) (new_task_supervisor m [])" "st = ts_run ops1 (new_task_supervisor m [])"
  shows "(\<forall>i t. task_of st i = Some t \<longrightarrow> tk_status t = task_status.Running \<longrightarrow>
      (\<forall>d \<in> set (tk_dependencies t). \<exists>u. task_of st d = Some u \<and> tk_status u = Completed)) \<and>
    (\<forall>i t. task_of st i = Some t \<longrightarrow> tk_status t = Completed \<longrightarrow>
      (\<exists>u. task_of (ts_run (ops1 @ ops2) (new_task_supervisor m [])) i = Some u \<and> tk_status u = Completed \<and>
        tk_result u = tk_result t \<and> tk_attempt u = tk_attempt t))"
proof -
  have app: "ts_run (xs @ ys) s = ts_run ys (ts_run xs s)" "ops_ok (xs @ ys) s = (ops_ok xs s \<and> ops_ok ys (ts_run xs s))"
    for xs ys s by (induction xs s rule: ts_run.induct) auto
  have inv: "supervisor_inv st" using assms run_inv [OF new_inv] by (simp add: app)
  have adv: "advances False st (ts_run (ops1 @ ops2) (new_task_supervisor m []))"
    using advances_run [OF inv, of ops2] assms by (simp add: app)
  have "deps_done st" using inv by (simp add: supervisor_inv_def)
  then show ?thesis
    using advancesD [OF adv] by (fastforce simp: deps_done_def status_of_def task_advances_def)
qed

definition demo_task_result :: task_result where
  "demo_task_result = \<lparr>tres_summary = ''done'', tres_artifacts = [], tres_sessionId = None, tres_sessionFile = None\<rparr>"

definition demo_ops1 :: "(string \<times> task_op) list" where
  "demo_ops1 = [([], Spawn ''a'' (plain_spawn 1)), ([], RunPump), ([], task_op.Settle 0 (Inr demo_task_result)), ([], Finally 0),
     ([], Spawn ''b'' ((plain_spawn 1)\<lparr>sp_dependencies := [''a'']\<rparr>)), ([], RunPump)]"

theorem running_after_dependencies_witness:
  "\<exists>t. task_of (ts_run demo_ops1 (new_task_supervisor None [])) ''b'' = Some t \<and> tk_status t = task_status.Running \<and>
     (\<forall>d \<in> set (tk_dependencies t). \<exists>u. task_of (ts_run demo_ops1 (new_task_supervisor None [])) d = Some u \<and> tk_status u = Completed)"
proof -
  have ok: "ops_ok (demo_ops1 @ []) (new_task_supervisor None [])" by (simp add: demo_ops1_def demo_task_result_def race_eval)
  have "\<exists>t. task_of (ts_run demo_ops1 (new_task_supervisor None [])) ''b'' = Some t \<and> tk_status t = task_status.Running"
    by (simp add: demo_ops1_def demo_task_result_def race_eval)
  with running_after_dependencies [OF ok refl] show ?thesis by blast
qed






section \<open>Redaction of secrets\<close>

text \<open>
  Bearer tokens are redacted, whatever their characters: the token is replaced and the scheme kept.
\<close>

theorem bearer_tokens_redacted:
  assumes "list_all is_word tok" "12 \<le> length tok"
  shows "redactString (''Bearer '' @ tok) = ''Bearer [REDACTED]''"
  using assms by (rule redactString_bearer)

theorem bearer_tokens_redacted_witness: "redactString ''Bearer abcdefghijkl'' = ''Bearer [REDACTED]''"
  using bearer_tokens_redacted [of "''abcdefghijkl''"] by (simp add: is_word_def is_digit_def is_upper_def is_lower_def char_code_def)

text \<open>
  Keys of the form \<open>sk-...\<close> are not redacted: the group of their pattern holds the whole key, and the
  replacement keeps the group, so that the key stays in the text with a mark appended.
\<close>

theorem sk_keys_leak:
  assumes "list_all is_word body" "16 \<le> length body"
  shows "redactString (''sk-'' @ body) = ''sk-'' @ body @ ''[REDACTED]''"
  using assms by (rule redactString_keeps_sk)

theorem sk_keys_leak_witness: "redactString ''sk-abcdefghijklmnop'' = ''sk-abcdefghijklmnop[REDACTED]''"
  using sk_keys_leak [of "''abcdefghijklmnop''"] by (simp add: is_word_def is_digit_def is_upper_def is_lower_def char_code_def)

section \<open>Limits on tool output\<close>

text \<open>
  C24. The two implementations of the limits agree on what they compute. Counting the bytes of a text by
  the loop over its code units gives the number of bytes that the runtime encodes. Cutting a line by
  walking back over its characters gives what cutting its encoded bytes gives, with unpaired surrogates
  replaced, so that neither cuts a character in two.
\<close>

theorem byte_cuts_agree:
  "utf8ByteLength False s = length (utf8_encode s) \<and> utf8ByteLength True s = length (utf8_encode s) \<and>
     truncateStringToBytesFromEnd s m = replaceUnpairedSurrogates (ca_truncateStringToBytesFromEnd s m)"
  using utf8ByteLength_eq [of _ s] cut_agree by (simp add: Buffer_byteLength_def)

text \<open>
  C25. Truncation from the front keeps a prefix of the lines: the output is their join, its bytes are
  what is reported, both limits hold, and the next line would not fit, unless all lines are there.
\<close>

theorem truncateHead_longest_prefix:
  "let r = truncateHead hasBuffer content options; lines = split_at_lf content in
    tn_content r = join_lines (take (tn_outputLines r) lines) \<and>
    tn_outputBytes r = length (utf8_encode (tn_content r)) \<and>
    tn_outputBytes r \<le> tn_maxBytes r \<and> tn_outputLines r \<le> tn_maxLines r \<and>
    (tn_outputLines r = length lines \<or> tn_outputLines r = tn_maxLines r \<or>
      length (utf8_encode (join_lines (take (Suc (tn_outputLines r)) lines))) > tn_maxBytes r)"
proof -
  have "utf8ByteLength hasBuffer (join_lines (split_at_lf content)) \<le> utf8ByteLength hasBuffer content" by simp
  from harness_bytes.head_result [OF truncateHead_def split_at_lf_not_Nil this, of options]
  show ?thesis unfolding utf8ByteLength_eq Buffer_byteLength_def Let_def by (auto split: if_splits)
qed

text \<open>
  Truncation from the end, in either implementation, never exceeds its limits, and the reported
  number of bytes is that of the output.
\<close>

theorem truncateTail_within_limits:
  "(let r = truncateTail hasBuffer content options in tn_outputBytes r = length (utf8_encode (tn_content r)) \<and>
      tn_outputBytes r \<le> tn_maxBytes r \<and> tn_outputLines r \<le> tn_maxLines r) \<and>
   (let r = ca_truncateTail content options in tn_outputBytes r = length (utf8_encode (tn_content r)) \<and>
      tn_outputBytes r \<le> tn_maxBytes r \<and> tn_outputLines r \<le> tn_maxLines r)"
  using harness_bytes.tail_result(1-3) [OF truncateTail_def [of hasBuffer content options]]
    ca_bytes.tail_result(1-3) [OF ca_truncateTail_def [of content options]]
  by (simp add: utf8ByteLength_eq Buffer_byteLength_def Let_def)

section \<open>Compaction\<close>



text \<open>
  Compaction cannot help a session that ends with large tool results: when the results at the end
  fill the budget of recent tokens by themselves, no cut point follows them, the cut falls back to the
  first entry, and there is nothing to summarize, however long the session is.
\<close>

theorem trailing_results_block_compaction:
  assumes "\<forall>e \<in> set rs. result_entry e" "0 < cps_keepRecentTokens settings"
    and "cps_keepRecentTokens settings \<le> total_estimate (concat (map ca_sessionEntryToContextMessages rs))"
    and "ca_valid_cut u" "\<forall>e \<in> set pre. \<not> is_compaction e"
  shows "\<nexists>p. ca_prepareCompaction (u # pre @ rs) settings = Some (Some p)"
  using trailing_results_not_compacted [OF assms(1,2) assms(3) [unfolded ca_entry_messages] assms(4,5)] by blast

theorem trailing_results_block_compaction_witness:
  "\<nexists>p. ca_prepareCompaction [demo_question, demo_result_entry] small_budget = Some (Some p)"
  using trailing_results_block_compaction [of "[demo_result_entry]" small_budget demo_question "[]"]
    demo_question_valid demo_result_large by (simp add: small_budget_def ca_entry_messages)

section \<open>The session manager of the coding agent\<close>





text \<open>
  C29. A session that is branched off at an entry is a new session in order, and it has the context of the
  branch (messages, model and level), unless a compaction of the branch keeps the messages from a label
  on: labels are taken out of the branch, and with them what was kept from there
  (\<open>branch_loses_kept\<close> of \<open>Session_Branching\<close>).
\<close>

theorem branched_session_keeps_context:
  assumes "session_ok N (m, w)" "leafId \<in> ids_of (getEntries m)" "mw_uuidCount w + 100 * length (mg_labelsById m) \<le> N"
    and "mg_persist m \<longrightarrow> mw_files w (new_branch_file now (m, w)) = None"
    and "mg_getBranch (Some leafId) m = Some path" "\<not> keeps_from_label path"
  shows "\<exists>r m' w'. createBranchedSession now leafId (m, w) = Some (Inr r, m', w') \<and> session_ok N (m', w') \<and>
    mg_buildSessionContext m' = ca_buildSessionContext (getEntries m) (AtLeaf leafId) (Some (mg_byId m))"
  using createBranchedSession_ok [OF assms(1-4)] assms(5,6) by auto

theorem branched_session_keeps_context_witness:
  "\<exists>w r m' w'. createBranchedSession ''9'' (demo_uuids 2) (demo_done_manager, w) = Some (Inr r, m', w') \<and> session_ok 1000 (m', w')"
proof -
  obtain w where w: "session_ok 1000 (demo_done_manager, w)" "mw_uuidCount w + 100 * length (mg_labelsById demo_done_manager) \<le> 1000"
    "mw_files w (new_branch_file ''9'' (demo_done_manager, w)) = None" using demo_session_ok by blast
  have leaf: "demo_uuids 2 \<in> ids_of (getEntries demo_done_manager)" by (simp add: demo_done demo_session_entries_def)
  obtain path where path: "mg_getBranch (Some (demo_uuids 2)) demo_done_manager = Some path"
    "ids_of path \<subseteq> ids_of (getEntries demo_done_manager)" "set path \<subseteq> set (getEntries demo_done_manager)"
    using getBranch_ok [OF w(1) leaf] by blast
  then have "\<not> keeps_from_label path"
    by (auto simp: keeps_from_label_def list_ex_iff demo_done demo_session_entries_def is_compaction_def)
  from branched_session_keeps_context [OF w(1) leaf w(2) _ path(1) this] w(3) show ?thesis by blast
qed

text \<open>
  When the file of a session can be created but the first answer cannot be written to it, the session
  is lost although its process goes on: the file exists, so creating it again fails, and every later
  append throws and writes nothing, also when the disk has room again.
\<close>

theorem half_written_file_blocks_session:
  assumes "mg_persist m" "mg_sessionFile m = Some f" "f \<noteq> []" "\<not> mg_flushed m" "mw_files w f = None" "mg_fileEntries m \<noteq> []"
    and "\<not> mw_fails w (mw_calls w)" "mw_fails w (Suc (mw_calls w))" "\<forall>op \<in> set ops. snd op \<noteq> OpEnsureFile"
  shows "\<exists>s. mg_appendMessage now (Assistant am) (m, w) = (Inl disk_error, s) \<and> mw_files (snd (run_ops ops s)) f = Some [] \<and>
    (\<forall>later msg. fst (mg_appendMessage later msg (run_ops ops s)) = Inl disk_error)"
proof -
  obtain s where s: "mg_appendMessage now (Assistant am) (m, w) = (Inl disk_error, s)" "blocked f s"
    using first_answer_blocked [OF assms(1-5,7,8,6)] by blast
  have b: "blocked f (run_ops ops s)" by (rule run_ops_blocked [OF s(2) assms(9)])
  then have "mw_files (snd (run_ops ops s)) f = Some []" by (auto simp: blocked_def split: prod.splits)
  moreover have "fst (mg_appendMessage later msg (run_ops ops s)) = Inl disk_error" for later msg
    using append_at_leaf_blocked [OF b, of later "MessageEntry msg"] by (auto simp: mg_appendMessage_def)
  ultimately show ?thesis using s(1) by blast
qed

theorem half_written_file_blocks_session_witness:
  "\<exists>s. mg_appendMessage ''1'' (Assistant demo_answer) (demo_new_manager, demo_new_disk full_disk) = (Inl disk_error, s) \<and>
     mw_files (snd (run_ops [(''2'', OpMessage demo_user)] s)) demo_session_file = Some []"
  using half_written_file_blocks_session [of demo_new_manager demo_session_file "demo_new_disk full_disk" "[(''2'', OpMessage demo_user)]" "''1''" demo_answer]
  by (auto simp: demo_new_manager_def demo_manager_def demo_new_disk_def demo_disk_def full_disk_def demo_session_file_def)

section \<open>The instances of the orchestrator\<close>





section \<open>Edits of files\<close>

text \<open>
  C32. An edit changes the matched texts and nothing else. For a file whose lines all end alike, with or
  without a byte order mark, and old texts that occur exactly: the file is the gaps woven with the old
  texts in some order, and what is written are the same gaps woven with the new texts, with the line
  endings of the file.
\<close>

theorem edit_changes_only_matches:
  assumes "stripBom raw = (bom, restoreLineEndings b u)" "carriage_return \<notin> set u" "edited_text nfkc edits raw = Inr out"
    and "\<forall>e \<in> set edits. index_of (normalizeToLF (ed_oldText e)) u \<noteq> None"
  shows "\<exists>R gs es. R = restoreLineEndings (detectLineEnding (restoreLineEndings b u)) \<and>
    mset es = mset (map normalize_edit edits) \<and> length gs = Suc (length es) \<and>
    raw = bom @ weave (map R gs) (map (\<lambda>e. R (ed_oldText e)) es) \<and> out = bom @ weave (map R gs) (map (\<lambda>e. R (ed_newText e)) es)"
  using assms by (rule edited_text_exact)

theorem edit_changes_only_matches_witness:
  "edited_text id demo_edits demo_edit_file = Inr (byte_order_mark # ascii_units ''e'' @ crlf @ ascii_units ''ten'' @ crlf) \<and>
     (\<exists>R gs es. length gs = Suc (length es) \<and> mset es = mset (map normalize_edit demo_edits) \<and>
       demo_edit_file = [byte_order_mark] @ weave (map R gs) (map (\<lambda>e. R (ed_oldText e)) es))"
  using edit_changes_only_matches [OF demo_facts(1,2) demo_edited demo_facts(3)] demo_edited by blast

text \<open>
  C33. The way to apply replacements that copies untouched lines agrees with the plain one: on a text that
  is its own normal form, replacements that start inside the text and do not overlap give the same result,
  in whatever order they are given and however they share lines.
\<close>

theorem line_preserving_edits_agree:
  assumes "sorted_wrt before (sort_key me_matchIndex rs)" "\<forall>r \<in> set rs. me_matchIndex r < length c \<and> edit_end r \<le> length c"
  shows "applyReplacementsPreservingUnchangedLines c c rs = Inr (applyReplacements c (sort_key me_matchIndex rs) 0)"
  using assms by (rule preserving_same)

theorem line_preserving_edits_agree_witness:
  "applyReplacementsPreservingUnchangedLines demo_lines demo_lines demo_matches =
     Inr (applyReplacements demo_lines (sort_key me_matchIndex demo_matches) 0)"
  by (rule line_preserving_edits_agree [OF demo_matches_facts])

text \<open>
  C34. The numbers in the diff of an edit are right: an added row shows the line of the new text with its
  number, the other rows the line of the old text with its number, wherever lines are left out.
\<close>

theorem diff_rows_numbered:
  assumes "diff_contract diffLines"
  shows "\<forall>r \<in> set (ds_rows (diff_rows n (diffLines old new) diff_start)). row_right (part_lines old) (part_lines new) r"
  using assms by (rule diff_numbers_right)

lemma whole_text_diff: "diff_contract (\<lambda>old new. [\<lparr>dp_kind = PartRemoved, dp_value = old\<rparr>, \<lparr>dp_kind = PartAdded, dp_value = new\<rparr>])"
  by (simp add: diff_contract_def side_values_def whole_lines_def)

theorem diff_rows_numbered_witness:
  "ds_rows (diff_rows 4 [\<lparr>dp_kind = PartRemoved, dp_value = [97]\<rparr>, \<lparr>dp_kind = PartAdded, dp_value = [98]\<rparr>] diff_start) =
     [RemovedRow 1 [97], AddedRow 1 [98]] \<and> row_right (part_lines [97]) (part_lines [98]) (AddedRow 1 [98])"
proof -
  have "ds_rows (diff_rows 4 [\<lparr>dp_kind = PartRemoved, dp_value = [97]\<rparr>, \<lparr>dp_kind = PartAdded, dp_value = [98]\<rparr>] diff_start) =
      [RemovedRow 1 [97], AddedRow 1 [98]]"
    by (simp add: part_lines_def Let_def line_feed_def diff_start_def add_row_def remove_row_def)
  with diff_rows_numbered [OF whole_text_diff, of 4 "[97]" "[98]"] show ?thesis by simp
qed



section \<open>Branch summaries\<close>

text \<open>
  C36. In a well-formed session, the entries collected for the summary of an abandoned branch are exactly those
  the path to the old leaf has beyond what it shares with the path to the target, in chronological
  order, and the common ancestor is the last shared entry.
\<close>

theorem branch_entries_are_abandoned:
  assumes "session_inv (mem_state s)" "l \<in> ids_of (ss_entries (mem_state s))" "t \<in> ids_of (ss_entries (mem_state s))"
  shows "\<exists>common entries diverged. path_of (mem_state s) (Some l) = common @ entries \<and>
    path_of (mem_state s) (Some t) = common @ diverged \<and>
    set entries \<inter> set (path_of (mem_state s) (Some t)) = {} \<and>
    collectEntriesForBranchSummary memory_ops (Some l) t s =
      Some (Inr \<lparr>cer_entries = entries, cer_commonAncestorId = map_option en_id (last_opt common)\<rparr>)"
  using collect_inv [of mem_state s l t memory_ops] assms memory.get_entry memory.path
  by (simp add: end_id_def)

theorem branch_entries_are_abandoned_witness:
  "\<exists>common entries. path_of (mem_state demo_memory) (Some ''cccccccc'') = common @ entries \<and>
    collectEntriesForBranchSummary memory_ops (Some ''cccccccc'') ''bbbbbbbb'' demo_memory =
      Some (Inr \<lparr>cer_entries = entries, cer_commonAncestorId = map_option en_id (last_opt common)\<rparr>)"
proof -
  have "session_inv (mem_state demo_memory)" "''cccccccc'' \<in> ids_of (ss_entries (mem_state demo_memory))"
    "''bbbbbbbb'' \<in> ids_of (ss_entries (mem_state demo_memory))"
    using demo_inv by (auto simp: demo_memory_def demo_entries_def demo_entry_def state_of_entries_def)
  from branch_entries_are_abandoned [OF this] show ?thesis by blast
qed

text \<open>
  C37. The messages chosen for the summary of a branch are its newest ones, and one more would break the
  budget of tokens. They fit the budget, except that the oldest of them may be an earlier summary when the
  others take less than nine tenths of it. A budget that is not positive limits nothing.
\<close>

theorem branch_summary_within_budget:
  "\<exists>older. branch_messages entries = older @ bp_messages (prepareBranchEntries entries budget) \<and>
     bp_totalTokens (prepareBranchEntries entries budget) =
       token_sum (bp_messages (prepareBranchEntries entries budget)) \<and>
     within_budget budget (bp_messages (prepareBranchEntries entries budget)) \<and>
     (older = [] \<or> budget > 0 \<and>
        token_sum (last older # bp_messages (prepareBranchEntries entries budget)) > budget)"
  using prepare_spec [of entries budget] by blast

section \<open>Prompt templates\<close>

text \<open>
  C38. The coding agent replaces each placeholder of a template by its value, whatever the arguments contain:
  a template spelled from literals and placeholders is read back as these, and the result is the
  concatenation of the literals and the values.
\<close>

theorem template_placeholders_filled:
  assumes "unambiguous ps"
  shows "parse_template (show_template short ps) = ps \<and>
    ca_substituteArgs (show_template short ps) args = concat (map (placeholder_value args) ps)"
  using parse_show [OF assms] ca_substitute_show [OF assms] by simp

theorem template_placeholders_filled_witness:
  "ca_substituteArgs (show_template False [Positional 1, Literal (CHR '' ''), AllArgs]) [''$@'', ''b''] = ''$@ $@ b''"
  using template_placeholders_filled [of "[Positional 1, Literal (CHR '' ''), AllArgs]" False "[''$@'', ''b'']"]
  by (simp add: positional_def decimal_digit_def digit_value_def)




end
